(* ===== verification/Prelude.thy ===== *)
theory Prelude
  imports Main
begin

text \<open>
  The prelude of the development: errors as values, SQL tables as row lists with the
  few statements the cells use, and the three interfaces (locales) that several
  components share: a store whose operations keep an invariant, a store of one-time
  tokens, and a quota-guarded table.

  A KodyError (src/src/lib/errors.ts) is its code and its HTTP status; the
  human-readable message and the details object are not modelled. A fallible pure
  function returns \<open>kody_error + 'a\<close>; an operation of a cell returns that result
  together with the new state, because statements executed before a throw stay
  executed (the cells do not wrap their statements in transactions).

  A table is the list of its rows in insertion order. Times are milliseconds since
  the epoch (\<open>int\<close>): the code stores them as ISO strings of one fixed format, on
  which string comparison is time comparison.
\<close>

named_theorems table_simps \<open>what the table statements do to lookups, keys and counts\<close>

section \<open>Errors and results\<close>

datatype kody_error = KodyError (err_code: string) (err_status: nat)

type_synonym 'a res = "kody_error + 'a"
type_synonym time = int

abbreviation fails :: "string \<Rightarrow> 'a res" where
  "fails c \<equiv> Inl (KodyError c 400)"

text \<open>Any other exception: what its callers report as status 500.\<close>

abbreviation internal_error :: "'a res" where
  "internal_error \<equiv> Inl (KodyError ''internal_error'' 500)"

definition is_ok :: "'a res \<Rightarrow> bool" where
  "is_ok r = (case r of Inl _ \<Rightarrow> False | Inr _ \<Rightarrow> True)"

lemma is_ok_simps [simp]: "is_ok (Inr x)" "\<not> is_ok (Inl e)"
  by (simp_all add: is_ok_def)

lemma is_okE: "is_ok r \<Longrightarrow> (\<And>x. r = Inr x \<Longrightarrow> P) \<Longrightarrow> P"
  by (cases r) auto

text \<open>A text in a truth test: the empty one counts as missing.\<close>

definition some_text :: "string option \<Rightarrow> string option" where
  "some_text v = (case v of Some t \<Rightarrow> if t = [] then None else Some t | None \<Rightarrow> None)"

text \<open>What follows a step that may throw.\<close>

definition bind_res :: "'a res \<Rightarrow> ('a \<Rightarrow> 'b res) \<Rightarrow> 'b res" where
  "bind_res r f = (case r of Inl e \<Rightarrow> Inl e | Inr x \<Rightarrow> f x)"

lemma bind_res_Inr: "bind_res r f = Inr y \<longleftrightarrow> (\<exists>x. r = Inr x \<and> f x = Inr y)"
  by (cases r) (auto simp: bind_res_def)

lemma bind_InrE: "bind_res r f = Inr y \<Longrightarrow> (\<And>x. r = Inr x \<Longrightarrow> f x = Inr y \<Longrightarrow> P) \<Longrightarrow> P"
  by (auto simp: bind_res_Inr)

text \<open>\<open>list.map(f)\<close> where \<open>f\<close> may throw: the first error wins.\<close>

fun map_res :: "('a \<Rightarrow> 'b res) \<Rightarrow> 'a list \<Rightarrow> 'b list res" where
  "map_res f [] = Inr []"
| "map_res f (x # xs) =
     (case f x of Inl e \<Rightarrow> Inl e
      | Inr y \<Rightarrow> (case map_res f xs of Inl e \<Rightarrow> Inl e | Inr ys \<Rightarrow> Inr (y # ys)))"

lemma map_res_ok_iff: "is_ok (map_res f xs) \<longleftrightarrow> (\<forall>x\<in>set xs. is_ok (f x))"
  by (induction xs) (auto split: sum.splits)

lemma map_res_InrD: "map_res f xs = Inr ys \<Longrightarrow> list_all2 (\<lambda>x y. f x = Inr y) xs ys"
  by (induction xs arbitrary: ys) (auto split: sum.splits)

section \<open>Tables\<close>

definition select_one :: "('r \<Rightarrow> bool) \<Rightarrow> 'r list \<Rightarrow> 'r option" where
  "select_one P t = find P t"

definition delete_where :: "('r \<Rightarrow> bool) \<Rightarrow> 'r list \<Rightarrow> 'r list" where
  "delete_where P t = filter (\<lambda>r. \<not> P r) t"

definition update_where :: "('r \<Rightarrow> bool) \<Rightarrow> ('r \<Rightarrow> 'r) \<Rightarrow> 'r list \<Rightarrow> 'r list" where
  "update_where P f t = map (\<lambda>r. if P r then f r else r) t"

text \<open>\<open>INSERT \<dots> ON CONFLICT DO UPDATE\<close>: \<open>P\<close> selects the conflicting row, \<open>f\<close> updates it.\<close>

definition upsert :: "('r \<Rightarrow> bool) \<Rightarrow> ('r \<Rightarrow> 'r) \<Rightarrow> 'r \<Rightarrow> 'r list \<Rightarrow> 'r list" where
  "upsert P f new t = (if list_ex P t then update_where P f t else t @ [new])"

text \<open>\<open>cursor.rowsWritten > 0\<close> of a \<open>DELETE\<close> or \<open>UPDATE\<close>.\<close>

definition rows_written :: "('r \<Rightarrow> bool) \<Rightarrow> 'r list \<Rightarrow> bool" where
  "rows_written P t = list_ex P t"

text \<open>\<open>ORDER BY k DESC LIMIT n\<close>. SQLite leaves the order of equal keys open; the model keeps
  insertion order among them.\<close>

definition newest :: "('r \<Rightarrow> int) \<Rightarrow> nat \<Rightarrow> 'r list \<Rightarrow> 'r list" where
  "newest k n t = take n (sort_key (\<lambda>r. - k r) t)"

lemma select_one_SomeD: "select_one P t = Some r \<Longrightarrow> r \<in> set t \<and> P r"
  by (auto simp: select_one_def find_Some_iff)

lemma select_one_None_iff: "select_one P t = None \<longleftrightarrow> (\<forall>r\<in>set t. \<not> P r)"
  by (auto simp: select_one_def find_None_iff)

lemma select_one_Nil [simp]: "select_one P [] = None"
  by (simp add: select_one_def)

lemma select_one_Cons [simp]: "select_one P (r # t) = (if P r then Some r else select_one P t)"
  by (simp add: select_one_def)

lemma select_one_append:
  "select_one P (t @ u) = (case select_one P t of None \<Rightarrow> select_one P u | Some r \<Rightarrow> Some r)"
  by (induction t) simp_all

lemma select_one_unique:
  assumes "distinct (map key t)" "r \<in> set t" "P r" "\<And>q. P q \<Longrightarrow> key q = key r"
  shows "select_one P t = Some r"
  using assms
proof (induction t)
  case (Cons q t)
  show ?case
  proof (cases "P q")
    case True
    then have "key q = key r" by (rule Cons.prems(4))
    with Cons.prems(1,2) have "q = r" by (auto simp: image_iff)
    with True show ?thesis by simp
  next
    case False
    with Cons.prems(2,3) have "r \<in> set t" by auto
    have "select_one P t = Some r"
      using Cons.prems(1) by (intro Cons.IH \<open>r \<in> set t\<close> Cons.prems(3,4)) simp_all
    with False show ?thesis by simp
  qed
qed simp

lemma set_delete_where [simp, table_simps]: "set (delete_where P t) = {r \<in> set t. \<not> P r}"
  by (auto simp: delete_where_def)

lemma set_update_where [table_simps]:
  "set (update_where P f t) = (\<lambda>r. if P r then f r else r) ` set t"
  by (simp add: update_where_def)

lemma delete_where_Nil [simp]: "delete_where P [] = []"
  by (simp add: delete_where_def)

lemma delete_where_Cons [simp]:
  "delete_where P (r # t) = (if P r then delete_where P t else r # delete_where P t)"
  by (simp add: delete_where_def)

lemma update_where_Nil [simp]: "update_where P f [] = []"
  by (simp add: update_where_def)

lemma update_where_Cons [simp]:
  "update_where P f (r # t) = (if P r then f r else r) # update_where P f t"
  by (simp add: update_where_def)

lemma length_update_where [simp, table_simps]: "length (update_where P f t) = length t"
  by (simp add: update_where_def)

lemma length_delete_where_le [simp]: "length (delete_where P t) \<le> length t"
  by (simp add: delete_where_def)

lemma filter_update_where_Nil:
  "(\<And>r. P r \<Longrightarrow> Q (f r) = Q r) \<Longrightarrow> filter Q (update_where P f t) = [] \<longleftrightarrow> filter Q t = []"
  by (induction t) auto

lemma update_where_twice:
  "(\<And>r. P r \<Longrightarrow> P (g r)) \<Longrightarrow> update_where P f (update_where P g t) = update_where P (\<lambda>r. f (g r)) t"
  by (induction t) auto

lemma update_where_mem: "q \<in> set (update_where P f t) \<Longrightarrow> \<exists>p\<in>set t. q = (if P p then f p else p)"
  by (auto simp: update_where_def)

lemma length_filter_delete_where: "length (filter Q (delete_where P t)) \<le> length (filter Q t)"
  by (induction t) auto

lemma select_one_delete_where:
  "(\<And>r. P r \<Longrightarrow> \<not> Q r) \<Longrightarrow> select_one P (delete_where Q t) = select_one P t"
  by (induction t) auto

lemma select_one_deleted: "(\<And>r. P r \<Longrightarrow> Q r) \<Longrightarrow> select_one P (delete_where Q t) = None"
  by (auto simp: select_one_None_iff)

lemma select_one_update_where:
  "(\<And>r. Q r \<Longrightarrow> P (f r) = P r) \<Longrightarrow>
   select_one P (update_where Q f t) = map_option (\<lambda>r. if Q r then f r else r) (select_one P t)"
  by (induction t) auto

lemma map_update_where:
  "(\<And>r. P r \<Longrightarrow> key (f r) = key r) \<Longrightarrow> map key (update_where P f t) = map key t"
  by (simp add: update_where_def)

lemma image_update_where:
  "(\<And>r. P r \<Longrightarrow> key (f r) = key r) \<Longrightarrow> key ` set (update_where P f t) = key ` set t"
  by (metis map_update_where set_map)

lemma update_where_append [simp]: "update_where P f (t @ u) = update_where P f t @ update_where P f u"
  by (simp add: update_where_def)

lemma distinct_delete_where: "distinct (map key t) \<Longrightarrow> distinct (map key (delete_where P t))"
  by (simp add: delete_where_def distinct_map_filter)

lemma upsert_present: "list_ex P t \<Longrightarrow> upsert P f new t = update_where P f t"
  by (simp add: upsert_def)

lemma upsert_absent: "\<not> list_ex P t \<Longrightarrow> upsert P f new t = t @ [new]"
  by (simp add: upsert_def)

lemma distinct_upsert:
  assumes "distinct (map key t)" "\<And>r. P r \<longleftrightarrow> key r = key new" "\<And>r. P r \<Longrightarrow> key (f r) = key r"
  shows "distinct (map key (upsert P f new t))"
proof (cases "list_ex P t")
  case True
  then show ?thesis
    using assms(1,3) by (simp add: upsert_def map_update_where)
next
  case False
  then have "key new \<notin> key ` set t"
    using assms(2) by (auto simp: list_ex_iff)
  with False assms(1) show ?thesis by (simp add: upsert_def)
qed

lemma keys_upsert:
  assumes "\<And>r. P r \<longleftrightarrow> key r = key new" "\<And>r. P r \<Longrightarrow> key (f r) = key r"
  shows "key ` set (upsert P f new t) = insert (key new) (key ` set t)"
proof (cases "list_ex P t")
  case True
  then have "key new \<in> key ` set t"
    using assms(1) by (auto simp: list_ex_iff) (metis image_eqI)
  moreover have "map key (update_where P f t) = map key t"
    using assms(2) by (rule map_update_where)
  then have "key ` set (update_where P f t) = key ` set t"
    by (metis set_map)
  ultimately show ?thesis using True by (auto simp: upsert_def)
qed (auto simp: upsert_def)

lemma length_upsert:
  "length (upsert P f new t) = (if list_ex P t then length t else Suc (length t))"
  by (simp add: upsert_def)

lemma select_one_upsert:
  assumes "\<And>r. P r \<Longrightarrow> P (f r)" "P new"
  shows "select_one P (upsert P f new t) =
    Some (case select_one P t of None \<Rightarrow> new | Some r \<Rightarrow> f r)"
proof (cases "list_ex P t")
  case True
  then have "select_one P t \<noteq> None"
    by (auto simp: select_one_None_iff list_ex_iff)
  with True assms(1) show ?thesis
    by (auto simp: upsert_def select_one_update_where dest: select_one_SomeD)
next
  case False
  then have "select_one P t = None"
    by (auto simp: select_one_None_iff list_ex_iff)
  with False assms(2) show ?thesis
    by (simp add: upsert_def select_one_append)
qed

lemma select_one_upsert_other:
  assumes "\<And>r. P r \<Longrightarrow> \<not> Q r" "\<And>r. P r \<Longrightarrow> \<not> Q (f r)" "\<not> Q new"
  shows "select_one Q (upsert P f new t) = select_one Q t"
proof -
  have "select_one Q (update_where P f t) = select_one Q t"
    using assms(1,2) by (induction t) auto
  then show ?thesis
    using assms(3) by (auto simp: upsert_def select_one_append split: option.split)
qed

lemma set_newest_subset: "set (newest k n t) \<subseteq> set t"
  by (auto simp: newest_def dest: in_set_takeD)

lemma length_newest [simp]: "length (newest k n t) = min n (length t)"
  by (simp add: newest_def min.commute)

lemma distinct_map_newest: "distinct (map key t) \<Longrightarrow> distinct (map key (newest k n t))"
proof -
  assume "distinct (map key t)"
  then have "distinct (map key (sort_key (\<lambda>r. - k r) t))"
    by (simp add: distinct_map)
  then show ?thesis
    unfolding newest_def take_map [symmetric] by (rule distinct_take)
qed

text \<open>A row left out by \<open>newest\<close> is no newer than any row it keeps.\<close>

lemma newest_cut:
  assumes "r \<in> set t" "r \<notin> set (newest k n t)" "q \<in> set (newest k n t)"
  shows "k r \<le> k q"
proof -
  let ?s = "sort_key (\<lambda>r. - k r) t"
  have "r \<in> set (drop n ?s)"
    using assms(1,2) unfolding newest_def
    by (metis UnE append_take_drop_id set_append set_sort)
  moreover have "sorted (map (\<lambda>r. - k r) (take n ?s @ drop n ?s))"
    by simp
  then have "\<forall>a\<in>set (take n ?s). \<forall>b\<in>set (drop n ?s). - k a \<le> - k b"
    unfolding map_append sorted_append by auto
  ultimately show ?thesis
    using assms(3) unfolding newest_def by fastforce
qed

lemma set_newest_all: "length t \<le> n \<Longrightarrow> set (newest k n t) = set t"
  by (simp add: newest_def)

lemma delete_where_none: "(\<And>r. r \<in> set t \<Longrightarrow> \<not> P r) \<Longrightarrow> delete_where P t = t"
  by (simp add: delete_where_def)

text \<open>Pruning a table to the newest \<open>n\<close> rows that satisfy \<open>P\<close> leaves at most \<open>n\<close> of them.\<close>

lemma length_kept_newest:
  assumes "distinct (map key t)"
  shows "length (filter P (delete_where (\<lambda>r. P r \<and> key r \<notin> set (map key (newest k n (filter P t)))) t)) \<le> n"
proof -
  let ?kept = "set (map key (newest k n (filter P t)))"
  define rest where "rest = filter P (delete_where (\<lambda>r. P r \<and> key r \<notin> ?kept) t)"
  have "distinct (map key rest)"
    unfolding rest_def by (rule distinct_map_filter, rule distinct_delete_where, rule assms)
  then have "length rest = card (set (map key rest))"
    by (metis distinct_card length_map)
  also have "set (map key rest) \<subseteq> ?kept"
    by (auto simp: rest_def)
  then have "card (set (map key rest)) \<le> card ?kept"
    by (rule card_mono [rotated]) (rule finite_set)
  also have "card ?kept \<le> length (map key (newest k n (filter P t)))"
    by (rule card_length)
  also have "\<dots> \<le> n" by simp
  finally show ?thesis unfolding rest_def .
qed

section \<open>Interfaces\<close>

subsection \<open>A store whose operations keep an invariant\<close>

text \<open>The contract of a cell: whatever operations it serves, in whatever order, its tables stay
  consistent. \<open>step\<close> is one operation with its arguments.\<close>

locale invariant_store =
  fixes step :: "'op \<Rightarrow> 's \<Rightarrow> 's"
    and inv :: "'s \<Rightarrow> bool"
  assumes step_inv: "inv s \<Longrightarrow> inv (step op s)"
begin

lemma run_inv: "inv s \<Longrightarrow> inv (fold step ops s)"
  by (induction ops arbitrary: s) (auto intro: step_inv)

end

subsection \<open>One-time tokens\<close>

text \<open>Authorization codes, sign-in links and hand-off ids are spent by presenting them.
  \<open>spend k s\<close> answers whether the presentation succeeded and the store afterwards;
  \<open>successes spend k ks s\<close> counts how often \<open>k\<close> succeeds while the tokens \<open>ks\<close> are presented
  one after the other; \<open>spent k s\<close> says that \<open>k\<close> can no longer succeed.\<close>

primrec successes :: "('k \<Rightarrow> 's \<Rightarrow> bool \<times> 's) \<Rightarrow> 'k \<Rightarrow> 'k list \<Rightarrow> 's \<Rightarrow> nat" where
  "successes spend k [] s = 0"
| "successes spend k (k' # ks) s =
     (if k' = k \<and> fst (spend k' s) then 1 else 0) + successes spend k ks (snd (spend k' s))"

locale one_time =
  fixes spend :: "'k \<Rightarrow> 's \<Rightarrow> bool \<times> 's"
    and spent :: "'k \<Rightarrow> 's \<Rightarrow> bool"
  assumes spend_spends: "fst (spend k s) \<Longrightarrow> spent k (snd (spend k s))"
    and spent_stays: "spent k s \<Longrightarrow> spent k (snd (spend k' s))"
    and spent_refused: "spent k s \<Longrightarrow> \<not> fst (spend k s)"
begin

lemma spent_never: "spent k s \<Longrightarrow> successes spend k ks s = 0"
  by (induction ks arbitrary: s) (auto simp: spent_refused spent_stays)

lemma at_most_once: "successes spend k ks s \<le> 1"
proof (induction ks arbitrary: s)
  case (Cons k' ks)
  show ?case
  proof (cases "k' = k \<and> fst (spend k' s)")
    case True
    then have "spent k (snd (spend k' s))" using spend_spends [of k s] by blast
    then show ?thesis using spent_never by simp
  next
    case False
    then have "successes spend k (k' # ks) s = successes spend k ks (snd (spend k' s))"
      by (simp only: successes.simps if_False add_0)
    then show ?thesis by (simp only: Cons.IH)
  qed
qed simp

end

subsection \<open>Quota-guarded tables\<close>

text \<open>\<open>withinQuota(limit, used)\<close> lets one more unit in; 0 means unlimited. \<open>put\<close> is the
  creating operation and \<open>used\<close> what it counts.\<close>

locale quota_guard =
  fixes put :: "'i \<Rightarrow> 's \<Rightarrow> 's"
    and used :: "'s \<Rightarrow> nat"
    and limit :: "'s \<Rightarrow> nat"
  assumes put_limit: "limit (put i s) = limit s"
    and put_grows: "used (put i s) \<le> Suc (used s)"
    and put_guarded: "used s < used (put i s) \<Longrightarrow> limit s = 0 \<or> used s < limit s"
begin

lemma put_within: "limit s = 0 \<or> used s \<le> limit s \<Longrightarrow>
    limit (put i s) = 0 \<or> used (put i s) \<le> limit (put i s)"
  using put_limit put_grows [of i s] put_guarded [of s i] by fastforce

lemma puts_within: "limit s = 0 \<or> used s \<le> limit s \<Longrightarrow>
    limit s = 0 \<or> used (fold put is s) \<le> limit s"
proof (induction "is" arbitrary: s)
  case (Cons i "is")
  have "limit (put i s) = 0 \<or> used (put i s) \<le> limit (put i s)"
    by (rule put_within) (rule Cons.prems)
  from Cons.IH [OF this] show ?case by (simp add: put_limit)
qed simp

end

end
