(* ===== verification/JsString.thy ===== *)
theory JsString
  imports Prelude
begin

text \<open>
  The part of JavaScript's String that the program uses. A JavaScript string is a
  sequence of UTF-16 code units; \<open>string\<close> models those whose units are below 256
  (Latin-1), which covers every literal and pattern of the modelled code. \<open>trim\<close> and
  \<open>toLowerCase\<close> follow ECMAScript on these units (so the no-break space is white
  space and the accented capitals have lower-case forms); regular-expression classes
  such as \<open>[a-z]\<close> and \<open>\d\<close> are ASCII ranges, as in the source.
\<close>

section \<open>Characters\<close>

definition unit_of :: "char \<Rightarrow> nat" where
  "unit_of c = of_char c"

definition in_range :: "nat \<Rightarrow> nat \<Rightarrow> char \<Rightarrow> bool" where
  "in_range lo hi c = (lo \<le> unit_of c \<and> unit_of c \<le> hi)"

definition is_digit :: "char \<Rightarrow> bool" where
  "is_digit c = in_range 48 57 c"

definition is_lower :: "char \<Rightarrow> bool" where
  "is_lower c = in_range 97 122 c"

definition is_upper :: "char \<Rightarrow> bool" where
  "is_upper c = in_range 65 90 c"

definition is_alnum :: "char \<Rightarrow> bool" where
  "is_alnum c = (is_digit c \<or> is_lower c \<or> is_upper c)"

definition is_space :: "char \<Rightarrow> bool" where
  "is_space c = (in_range 9 13 c \<or> unit_of c = 32 \<or> unit_of c = 160)"

definition lower_char :: "char \<Rightarrow> char" where
  "lower_char c =
     (if in_range 65 90 c \<or> in_range 192 222 c \<and> unit_of c \<noteq> 215
      then char_of (unit_of c + 32) else c)"

lemma unit_of_less [simp]: "unit_of c < 256"
  by (simp add: unit_of_def)

lemma unit_of_char_of: "n < 256 \<Longrightarrow> unit_of (char_of n) = n"
  by (simp add: unit_of_def)

lemma unit_of_eq_iff: "unit_of c = unit_of d \<longleftrightarrow> c = d"
  by (simp add: unit_of_def)

lemma lower_char_idem [simp]: "lower_char (lower_char c) = lower_char c"
  by (auto simp: lower_char_def in_range_def unit_of_char_of)

section \<open>Strings\<close>

definition to_lower :: "string \<Rightarrow> string" where
  "to_lower = map lower_char"

definition trim_start :: "string \<Rightarrow> string" where
  "trim_start = dropWhile is_space"

definition trim :: "string \<Rightarrow> string" where
  "trim s = rev (trim_start (rev (trim_start s)))"

definition starts_with :: "string \<Rightarrow> string \<Rightarrow> bool" where
  "starts_with s p = (take (length p) s = p)"

definition ends_with :: "string \<Rightarrow> string \<Rightarrow> bool" where
  "ends_with s p = (length p \<le> length s \<and> drop (length s - length p) s = p)"

fun index_of :: "string \<Rightarrow> string \<Rightarrow> nat option" where
  "index_of p [] = (if p = [] then Some 0 else None)"
| "index_of p (c # s) =
     (if starts_with (c # s) p then Some 0 else map_option Suc (index_of p s))"

definition contains :: "string \<Rightarrow> string \<Rightarrow> bool" where
  "contains s p = (index_of p s \<noteq> None)"

text \<open>\<open>s.split(c)\<close> for a one-character separator.\<close>

fun split_on :: "char \<Rightarrow> string \<Rightarrow> string list" where
  "split_on d [] = [[]]"
| "split_on d (c # s) =
     (if c = d then [] # split_on d s
      else (c # hd (split_on d s)) # tl (split_on d s))"

text \<open>\<open>ws.join(c)\<close>.\<close>

fun join_with :: "string \<Rightarrow> string list \<Rightarrow> string" where
  "join_with d [] = []"
| "join_with d [w] = w"
| "join_with d (w # v # ws) = w @ d @ join_with d (v # ws)"

text \<open>\<open>s.split(p)\<close> for a separator of two or more characters; \<open>acc\<close> is the piece read so far,
  \<open>skip\<close> the characters of a separator still to be skipped.\<close>

fun split_str_go :: "string \<Rightarrow> nat \<Rightarrow> string \<Rightarrow> string \<Rightarrow> string list" where
  "split_str_go p skip acc [] = [rev acc]"
| "split_str_go p (Suc k) acc (c # s) = split_str_go p k acc s"
| "split_str_go p 0 acc (c # s) =
     (if starts_with (c # s) p then rev acc # split_str_go p (length p - 1) [] s
      else split_str_go p 0 (c # acc) s)"

definition split_str :: "string \<Rightarrow> string \<Rightarrow> string list" where
  "split_str p s = split_str_go p 0 [] s"

text \<open>All matches of a pattern from left to right, without overlap: \<open>m\<close> answers the parsed value
  and the length of the match at the start of its argument (every pattern used is non-empty).\<close>

fun match_all :: "(string \<Rightarrow> ('a \<times> nat) option) \<Rightarrow> nat \<Rightarrow> string \<Rightarrow> 'a list" where
  "match_all m skip [] = []"
| "match_all m (Suc k) (c # s) = match_all m k s"
| "match_all m 0 (c # s) =
     (case m (c # s) of
        Some (x, n) \<Rightarrow> x # match_all m (n - 1) s
      | None \<Rightarrow> match_all m 0 s)"

text \<open>\<open>pattern.test(s)\<close> for a pattern without anchors.\<close>

fun test_any :: "(string \<Rightarrow> bool) \<Rightarrow> string \<Rightarrow> bool" where
  "test_any m [] = m []"
| "test_any m (c # s) = (m (c # s) \<or> test_any m s)"

text \<open>GetSubstitution of ECMAScript for a string pattern: in the \<^emph>\<open>replacement text\<close> of \<open>replaceAll\<close>,
  \<open>$$\<close> stands for a dollar sign, \<open>$&\<close> for the match, \<open>$`\<close> and \<open>$'\<close> for the text before and after it.\<close>

fun get_substitution :: "string \<Rightarrow> string \<Rightarrow> string \<Rightarrow> string \<Rightarrow> string" where
  "get_substitution m pre post [] = []"
| "get_substitution m pre post [c] = [c]"
| "get_substitution m pre post (c # d # t) =
     (if c = CHR ''$'' then
        (if d = CHR ''$'' then CHR ''$'' # get_substitution m pre post t
         else if d = CHR ''&'' then m @ get_substitution m pre post t
         else if d = CHR 0x60 then pre @ get_substitution m pre post t
         else if d = CHR 0x27 then post @ get_substitution m pre post t
         else c # get_substitution m pre post (d # t))
      else c # get_substitution m pre post (d # t))"

text \<open>\<open>s.replaceAll(p, t)\<close> for a non-empty string \<open>p\<close>; \<open>pre\<close> is the text already passed.\<close>

fun replace_all_go :: "string \<Rightarrow> string \<Rightarrow> nat \<Rightarrow> string \<Rightarrow> string \<Rightarrow> string" where
  "replace_all_go p t skip pre [] = []"
| "replace_all_go p t (Suc k) pre (c # s) = replace_all_go p t k (pre @ [c]) s"
| "replace_all_go p t 0 pre (c # s) =
     (if starts_with (c # s) p
      then get_substitution p pre (drop (length p) (c # s)) t
           @ replace_all_go p t (length p - 1) (pre @ [c]) s
      else c # replace_all_go p t 0 (pre @ [c]) s)"

definition replace_all :: "string \<Rightarrow> string \<Rightarrow> string \<Rightarrow> string" where
  "replace_all s p t = replace_all_go p t 0 [] s"

section \<open>Lemmas\<close>

lemma starts_with_append [simp]: "starts_with (p @ s) p"
  by (simp add: starts_with_def)

lemma starts_with_iff: "starts_with s p \<longleftrightarrow> (\<exists>r. s = p @ r)"
  by (metis append_take_drop_id starts_with_append starts_with_def)

lemma starts_with_Nil [simp]: "starts_with s []"
  by (simp add: starts_with_def)

lemma starts_with_Cons [simp]:
  "starts_with [] (d # p) = False"
  "starts_with (c # s) (d # p) = (c = d \<and> starts_with s p)"
  by (auto simp: starts_with_def)

lemma ends_with_iff: "ends_with s p \<longleftrightarrow> (\<exists>r. s = r @ p)"
proof
  assume "ends_with s p"
  then show "\<exists>r. s = r @ p"
    by (metis append_take_drop_id ends_with_def)
qed (auto simp: ends_with_def)

lemma to_lower_idem [simp]: "to_lower (to_lower s) = to_lower s"
  by (simp add: to_lower_def)

lemma length_to_lower [simp]: "length (to_lower s) = length s"
  by (simp add: to_lower_def)

lemma split_on_nonempty [simp]: "split_on d s \<noteq> []"
  by (cases s) auto

text \<open>The equations for evaluation, which split the rest once.\<close>

lemma split_on_code [code]:
  "split_on d [] = [[]]"
  "split_on d (c # s) = (case split_on d s of [] \<Rightarrow> [] | w # ws \<Rightarrow> if c = d then [] # w # ws else (c # w) # ws)"
  by (auto split: list.split)

lemma join_split_on: "join_with [d] (split_on d s) = s"
proof (induction s)
  case (Cons c s)
  have join_head: "join_with [d] ((c # w) # ws) = c # join_with [d] (w # ws)" for w ws
    by (cases ws) simp_all
  show ?case
    using Cons by (cases "split_on d s") (auto simp: join_head)
qed simp

lemma split_on_no_sep: "w \<in> set (split_on d s) \<Longrightarrow> d \<notin> set w"
proof (induction s arbitrary: w)
  case (Cons c s)
  then show ?case
    by (cases "split_on d s") (auto split: if_splits)
qed simp

lemma split_on_none: "d \<notin> set s \<Longrightarrow> split_on d s = [s]"
  by (induction s) auto

lemma split_on_append_sep: "d \<notin> set w \<Longrightarrow> split_on d (w @ d # s) = w # split_on d s"
  by (induction w) auto

text \<open>A replacement text without a dollar sign is inserted as it is.\<close>

lemma cut_eq: "c \<notin> set a \<Longrightarrow> c \<notin> set b \<Longrightarrow> a @ c # x = b @ c # y \<longleftrightarrow> a = b \<and> x = y"
proof (induction a arbitrary: b)
  case Nil
  then show ?case by (cases b) auto
next
  case (Cons d a)
  then show ?case by (cases b) auto
qed

lemma get_substitution_plain:
  "CHR ''$'' \<notin> set t \<Longrightarrow> get_substitution m b a t = t"
  by (induction m b a t rule: get_substitution.induct) auto

lemma trim_start_id: "s = [] \<or> \<not> is_space (hd s) \<Longrightarrow> trim_start s = s"
  by (cases s) (auto simp: trim_start_def)

lemma hd_trim_start: "trim_start s \<noteq> [] \<Longrightarrow> \<not> is_space (hd (trim_start s))"
  unfolding trim_start_def by (rule hd_dropWhile)

lemma trim_id:
  assumes "s = [] \<or> \<not> is_space (hd s) \<and> \<not> is_space (last s)"
  shows "trim s = s"
  using assms by (auto simp: trim_def trim_start_id hd_rev)

lemma trim_ends:
  assumes "trim s \<noteq> []"
  shows "\<not> is_space (hd (trim s)) \<and> \<not> is_space (last (trim s))"
proof -
  let ?a = "trim_start s" and ?b = "trim_start (rev (trim_start s))"
  have b: "?b \<noteq> []" using assms by (simp add: trim_def)
  then have "?a \<noteq> []" by (metis dropWhile.simps(1) rev.simps(1) trim_start_def)
  obtain k where k: "rev ?a = k @ ?b"
    by (metis takeWhile_dropWhile_id trim_start_def)
  then have "?a = rev ?b @ rev k" by (metis rev_append rev_rev_ident)
  moreover have "hd (rev ?b @ rev k) = hd (rev ?b)" using b by simp
  ultimately have "hd (rev ?b) = hd ?a" by metis
  with \<open>?a \<noteq> []\<close> b show ?thesis
    using hd_trim_start [of s] hd_trim_start [of "rev ?a"]
    by (simp add: trim_def last_rev)
qed

lemma trim_idem [simp]: "trim (trim s) = trim s"
  by (rule trim_id) (use trim_ends in blast)

section \<open>Scanning\<close>

lemma match_all_skip: "match_all m k s = match_all m 0 (drop k s)"
proof (induction s arbitrary: k)
  case (Cons c s)
  then show ?case by (cases k) simp_all
qed simp

lemma match_all_hit:
  assumes "m s = Some (x, n)" "s \<noteq> []" "0 < n"
  shows "match_all m 0 s = x # match_all m 0 (drop n s)"
proof -
  obtain c t where s: "s = c # t" using assms(2) by (cases s) auto
  have "drop n s = drop (n - 1) t" using assms(3) s by (cases n) auto
  moreover have "match_all m 0 s = x # match_all m (n - 1) t" using assms(1) s by simp
  ultimately show ?thesis by (simp only: match_all_skip [of m "n - 1" t])
qed

lemma match_all_pre:
  assumes "\<And>c t. c \<in> set pre \<Longrightarrow> m (c # t) = None"
  shows "match_all m 0 (pre @ s) = match_all m 0 s"
  using assms by (induction pre) auto

lemma match_all_some_hit:
  assumes "match_all m k s \<noteq> []"
  shows "\<exists>i < length s. m (drop i s) \<noteq> None"
  using assms
proof (induction s arbitrary: k)
  case (Cons c s)
  show ?case
  proof (cases "k = 0 \<and> m (c # s) \<noteq> None")
    case True
    then show ?thesis by (intro exI [of _ 0]) simp
  next
    case False
    with Cons.prems obtain k' where "match_all m k' s \<noteq> []"
      by (cases k; cases "m (c # s)") auto
    from Cons.IH [OF this] obtain i where "i < length s" "m (drop i s) \<noteq> None" by blast
    then show ?thesis by (intro exI [of _ "Suc i"]) simp
  qed
qed simp

lemma test_any_iff: "test_any m s \<longleftrightarrow> (\<exists>i \<le> length s. m (drop i s))"
proof (induction s)
  case (Cons c s)
  have "(\<exists>i \<le> Suc (length s). m (drop i (c # s))) \<longleftrightarrow> m (c # s) \<or> (\<exists>i \<le> length s. m (drop i s))"
    by (auto simp: drop_Cons' intro: exI [of _ 0])
  with Cons show ?case by simp
qed simp

section \<open>Replacing\<close>

lemma replace_all_go_plain:
  assumes "CHR ''$'' \<notin> set t"
  shows "replace_all_go p t k pre s = replace_all_go p t k pre' s"
proof (induction s arbitrary: k pre pre')
  case (Cons c s)
  show ?case
  proof (cases k)
    case 0
    show ?thesis
      using Cons.IH [of "length p - 1" "pre @ [c]" "pre' @ [c]"] Cons.IH [of 0 "pre @ [c]" "pre' @ [c]"]
      unfolding 0 replace_all_go.simps get_substitution_plain [OF assms] by metis
  next
    case (Suc j)
    show ?thesis unfolding Suc replace_all_go.simps by (rule Cons.IH)
  qed
qed simp

lemma replace_all_go_skip:
  assumes "CHR ''$'' \<notin> set t"
  shows "replace_all_go p t k pre s = replace_all_go p t 0 [] (drop k s)"
proof (induction s arbitrary: k pre)
  case (Cons c s)
  show ?case
  proof (cases k)
    case 0
    show ?thesis unfolding 0 drop_0 by (rule replace_all_go_plain) (rule assms)
  next
    case (Suc j)
    show ?thesis unfolding Suc replace_all_go.simps drop_Suc_Cons by (rule Cons.IH)
  qed
qed simp

lemma replace_all_hit:
  assumes "CHR ''$'' \<notin> set t" "p \<noteq> []"
  shows "replace_all (p @ s) p t = t @ replace_all s p t"
proof -
  obtain c q where p: "p = c # q" using assms(2) by (cases p) auto
  have "replace_all (p @ s) p t = t @ replace_all_go p t (length q) [c] (q @ s)"
    using starts_with_append [of p s] unfolding replace_all_def
    by (simp add: p get_substitution_plain assms(1))
  also have "replace_all_go p t (length q) [c] (q @ s) = replace_all s p t"
    unfolding replace_all_def replace_all_go_skip [OF assms(1), of p "length q"] by simp
  finally show ?thesis .
qed

lemma replace_all_pre:
  assumes "CHR ''$'' \<notin> set t" "\<And>c. c \<in> set pre \<Longrightarrow> c \<noteq> hd p" "p \<noteq> []"
  shows "replace_all (pre @ s) p t = pre @ replace_all s p t"
  using assms(2)
proof (induction pre)
  case (Cons c pre)
  then have "\<not> starts_with (c # pre @ s) p"
    using assms(3) by (cases p) auto
  then have "replace_all ((c # pre) @ s) p t = c # replace_all_go p t 0 [c] (pre @ s)"
    by (simp add: replace_all_def)
  also have "replace_all_go p t 0 [c] (pre @ s) = replace_all (pre @ s) p t"
    unfolding replace_all_def by (rule replace_all_go_plain) (rule assms(1))
  finally show ?case using Cons by simp
qed simp

lemma replace_all_go_skip_all: "length s \<le> k \<Longrightarrow> replace_all_go p t k pre s = []"
proof (induction s arbitrary: k pre)
  case (Cons c s)
  then show ?case by (cases k) simp_all
qed simp

lemma replace_all_self:
  assumes "p \<noteq> []"
  shows "replace_all p p t = get_substitution p [] [] t"
proof -
  obtain c q where p: "p = c # q" using assms by (cases p) auto
  show ?thesis
    using starts_with_append [of p "[]"] unfolding replace_all_def p
    by (simp add: replace_all_go_skip_all)
qed

lemma get_substitution_append_plain:
  assumes "CHR ''$'' \<notin> set v" "t \<noteq> []"
  shows "get_substitution m b a (v @ t) = v @ get_substitution m b a t"
  using assms
proof (induction v)
  case (Cons c v)
  obtain d u where vt: "v @ t = d # u" using Cons.prems(2) by (cases "v @ t") auto
  have "get_substitution m b a (c # d # u) = c # get_substitution m b a (d # u)"
    using Cons.prems(1) by auto
  then show ?case using Cons by (simp flip: vt)
qed simp

end
