(* ===== verification/JsValue.thy ===== *)
theory JsValue
  imports Complex_Main JsString
begin

text \<open>
  JavaScript numbers, their text, and JSON values. A finite number is a rational: the
  rounding of an IEEE double is not modelled (the program's numbers are counts, sizes,
  milliseconds and small decimals). \<open>js_number\<close> is \<open>Number(text)\<close>: white space is trimmed,
  the empty text is 0, decimal literals may carry a fraction and an exponent, and the
  hexadecimal, octal and binary forms are read; anything else is not a number.
\<close>

datatype js_num = NaN | Infinity bool | Num rat

datatype json =
    JNull
  | JBool bool
  | JNum js_num
  | JStr string
  | JArr "json list"
  | JObj "(string \<times> json) list"

text \<open>\<open>object.key\<close>: the last entry of a key counts.\<close>

definition json_field :: "string \<Rightarrow> (string \<times> json) list \<Rightarrow> json option" where
  "json_field k es = map_of (rev es) k"

section \<open>Digits\<close>

definition hex_value :: "char \<Rightarrow> nat option" where
  "hex_value c =
     (if is_digit c then Some (unit_of c - 48)
      else if in_range 97 102 c then Some (unit_of c - 87)
      else if in_range 65 70 c then Some (unit_of c - 55)
      else None)"

definition digit_below :: "nat \<Rightarrow> char \<Rightarrow> bool" where
  "digit_below b c = (case hex_value c of Some d \<Rightarrow> d < b | None \<Rightarrow> False)"

definition digits_value :: "int \<Rightarrow> string \<Rightarrow> int" where
  "digits_value b ds = foldl (\<lambda>n c. n * b + (case hex_value c of Some d \<Rightarrow> int d | None \<Rightarrow> 0)) 0 ds"

definition all_digits :: "string \<Rightarrow> bool" where
  "all_digits s = (s \<noteq> [] \<and> list_all is_digit s)"

text \<open>Decimal text of a natural number.\<close>

fun show_nat :: "nat \<Rightarrow> string" where
  "show_nat n = (if n < 10 then [char_of (48 + n)] else show_nat (n div 10) @ [char_of (48 + n mod 10)])"

declare show_nat.simps [simp del]

section \<open>Number(text)\<close>

definition radix_literal :: "nat \<Rightarrow> string \<Rightarrow> js_num" where
  "radix_literal b ds =
     (if ds \<noteq> [] \<and> list_all (digit_below b) ds then Num (of_int (digits_value (int b) ds)) else NaN)"

definition exponent_part :: "string \<Rightarrow> int option" where
  "exponent_part s =
     (case s of [] \<Rightarrow> Some 0
      | e # r \<Rightarrow>
        if e = CHR ''e'' \<or> e = CHR ''E'' then
          (let neg = starts_with r ''-'';
               ds = (if starts_with r ''-'' \<or> starts_with r ''+'' then tl r else r)
           in if all_digits ds
              then Some (if neg then - digits_value 10 ds else digits_value 10 ds)
              else None)
        else None)"

definition power10 :: "int \<Rightarrow> rat" where
  "power10 e = (if 0 \<le> e then 10 ^ nat e else 1 / 10 ^ nat (- e))"

definition decimal_literal :: "string \<Rightarrow> js_num" where
  "decimal_literal s =
     (let whole = takeWhile is_digit s;
          r = dropWhile is_digit s;
          dotted = starts_with r ''.'';
          frac = (if dotted then takeWhile is_digit (tl r) else []);
          r' = (if dotted then dropWhile is_digit (tl r) else r)
      in if whole = [] \<and> frac = [] then NaN
         else case exponent_part r' of
           None \<Rightarrow> NaN
         | Some e \<Rightarrow> Num (of_int (digits_value 10 (whole @ frac)) * power10 (e - int (length frac))))"

definition negate :: "js_num \<Rightarrow> js_num" where
  "negate v = (case v of NaN \<Rightarrow> NaN | Infinity neg \<Rightarrow> Infinity (\<not> neg) | Num r \<Rightarrow> Num (- r))"

definition unsigned_literal :: "string \<Rightarrow> js_num" where
  "unsigned_literal s = (if s = ''Infinity'' then Infinity False else decimal_literal s)"

definition js_number :: "string \<Rightarrow> js_num" where
  "js_number text =
     (let s = trim text in
      if s = [] then Num 0
      else if starts_with s ''0x'' \<or> starts_with s ''0X'' then radix_literal 16 (drop 2 s)
      else if starts_with s ''0o'' \<or> starts_with s ''0O'' then radix_literal 8 (drop 2 s)
      else if starts_with s ''0b'' \<or> starts_with s ''0B'' then radix_literal 2 (drop 2 s)
      else if starts_with s ''-'' then negate (unsigned_literal (tl s))
      else if starts_with s ''+'' then unsigned_literal (tl s)
      else unsigned_literal s)"

text \<open>\<open>Number.isInteger(v)\<close>, answering the integer.\<close>

definition integer_value :: "js_num \<Rightarrow> int option" where
  "integer_value v = (case v of Num r \<Rightarrow> if r = of_int \<lfloor>r\<rfloor> then Some \<lfloor>r\<rfloor> else None | _ \<Rightarrow> None)"

section \<open>Lemmas\<close>

lemma hex_value_digit: "is_digit c \<Longrightarrow> hex_value c = Some (unit_of c - 48)"
  by (simp add: hex_value_def)

lemma is_digit_char_of: "(n::nat) < 10 \<Longrightarrow> is_digit (char_of (48 + n))"
  by (simp add: is_digit_def in_range_def unit_of_char_of)

lemma digits_value_snoc:
  "digits_value b (ds @ [c]) = digits_value b ds * b + (case hex_value c of Some d \<Rightarrow> int d | None \<Rightarrow> 0)"
  by (simp add: digits_value_def)

lemma digits_value_show_nat: "digits_value 10 (show_nat n) = int n"
proof (induction n rule: show_nat.induct)
  case (1 n)
  show ?case
  proof (cases "n < 10")
    case True
    then show ?thesis
      by (simp add: show_nat.simps [of n] digits_value_def hex_value_digit is_digit_char_of
          unit_of_char_of)
  next
    case False
    have "hex_value (char_of (48 + n mod 10)) = Some (n mod 10)"
      by (simp add: hex_value_digit is_digit_char_of unit_of_char_of)
    moreover have "int (n div 10) * 10 + int (n mod 10) = int n" by presburger
    ultimately show ?thesis
      using 1 False by (simp add: show_nat.simps [of n] digits_value_snoc)
  qed
qed

lemma show_nat_digits: "list_all is_digit (show_nat n)"
proof (induction n rule: show_nat.induct)
  case (1 n)
  then show ?case
    by (subst show_nat.simps) (simp add: is_digit_char_of)
qed

lemma show_nat_nonempty [simp]: "show_nat n \<noteq> []"
  by (subst show_nat.simps) simp

lemma all_digits_show_nat [simp]: "all_digits (show_nat n)"
  by (simp add: all_digits_def show_nat_digits)

lemma digit_not_space: "is_digit c \<Longrightarrow> \<not> is_space c"
  by (auto simp: is_digit_def is_space_def in_range_def)

lemma all_digits_trim: "all_digits s \<Longrightarrow> trim s = s"
  by (rule trim_id) (auto simp: all_digits_def list_all_iff digit_not_space)

text \<open>On a text of decimal digits \<open>Number\<close> is the value of the digits.\<close>

lemma digit_neq:
  assumes "is_digit c"
  shows "c \<noteq> CHR ''x'' \<and> c \<noteq> CHR ''X'' \<and> c \<noteq> CHR ''o'' \<and> c \<noteq> CHR ''O'' \<and> c \<noteq> CHR ''b'' \<and> c \<noteq> CHR ''B''
    \<and> c \<noteq> CHR ''-'' \<and> c \<noteq> CHR ''+'' \<and> c \<noteq> CHR ''.'' \<and> c \<noteq> CHR ''I'' \<and> c \<noteq> CHR '':''"
  using assms by (auto simp: is_digit_def in_range_def unit_of_def)

lemma decimal_literal_digits:
  assumes "all_digits s"
  shows "decimal_literal s = Num (of_int (digits_value 10 s))"
proof -
  have whole: "takeWhile is_digit s = s" and rest: "dropWhile is_digit s = []"
    using assms by (auto simp: all_digits_def list_all_iff)
  show ?thesis
    using assms unfolding decimal_literal_def whole rest
    by (simp add: exponent_part_def power10_def all_digits_def)
qed

lemma js_number_digits:
  assumes "all_digits s"
  shows "js_number s = Num (of_int (digits_value 10 s))"
proof -
  obtain c r where s: "s = c # r" and c: "is_digit c" and r: "list_all is_digit r"
    using assms by (cases s) (auto simp: all_digits_def)
  have no_radix: "\<not> starts_with s [CHR ''0'', x]" if "\<not> is_digit x" for x
    using s r that by (cases r) auto
  have sign: "s \<noteq> []" "\<not> starts_with s ''-''" "\<not> starts_with s ''+''"
    using s digit_neq [OF c] by auto
  have "js_number s = unsigned_literal s"
    unfolding js_number_def all_digits_trim [OF assms] Let_def
    using sign by (simp add: no_radix is_digit_def in_range_def unit_of_def)
  also have "\<dots> = decimal_literal s"
    using s digit_neq [OF c] by (simp add: unsigned_literal_def)
  finally show ?thesis by (simp add: decimal_literal_digits assms)
qed

lemma integer_value_of_nat [simp]: "integer_value (Num (of_nat n)) = Some (int n)"
  by (simp add: integer_value_def)

lemma integer_value_of_int [simp]: "integer_value (Num (of_int n)) = Some n"
  by (simp add: integer_value_def)

lemma digits_value_nonneg: "0 \<le> b \<Longrightarrow> 0 \<le> digits_value b ds"
  by (induction ds rule: rev_induct) (auto simp: digits_value_def split: option.split)

lemma js_number_show_nat: "js_number (show_nat n) = Num (of_nat n)"
  by (simp add: js_number_digits digits_value_show_nat)

section \<open>Maps and objects\<close>

text \<open>\<open>Map.set\<close>.\<close>

definition map_set :: "string \<Rightarrow> 'v \<Rightarrow> (string \<times> 'v) list \<Rightarrow> (string \<times> 'v) list" where
  "map_set k v m =
     (if k \<in> set (map fst m) then map (\<lambda>p. if fst p = k then (k, v) else p) m else m @ [(k, v)])"

text \<open>\<open>object[key] = v\<close> for a text \<open>v\<close>; the key that names the prototype leaves nothing.\<close>

definition put_key :: "string \<Rightarrow> string \<Rightarrow> (string \<times> string) list \<Rightarrow> (string \<times> string) list" where
  "put_key k v m = (if k = ''__proto__'' then m else map_set k v m)"

lemma map_of_map_set: "map_of (map_set k v m) = (map_of m)(k \<mapsto> v)"
proof
  fix x
  have 1: "map_of (map (\<lambda>p. if fst p = k then (k, v) else p) m) x = (if x = k then map_option (\<lambda>_. v) (map_of m k) else map_of m x)"
    by (induction m) auto
  show "map_of (map_set k v m) x = ((map_of m)(k \<mapsto> v)) x"
  proof (cases "map_of m k")
    case None
    then have "k \<notin> set (map fst m)" by (simp add: map_of_eq_None_iff)
    then show ?thesis using None by (auto simp: map_set_def map_add_def split: option.splits)
  next
    case (Some w)
    then have "k \<in> set (map fst m)" by (metis map_of_eq_None_iff option.distinct(1) set_map)
    then show ?thesis using 1 Some by (simp add: map_set_def)
  qed
qed

lemma map_of_put_key: "k \<noteq> ''__proto__'' \<Longrightarrow> map_of (put_key k v m) = (map_of m)(k \<mapsto> v)"
  by (simp add: put_key_def map_of_map_set)

text \<open>The own keys of an object are enumerated with the array indices first, in ascending order, then in the
  order of their creation.\<close>

definition array_index :: "string \<Rightarrow> int option" where
  "array_index k =
     (if all_digits k \<and> (k = ''0'' \<or> hd k \<noteq> CHR ''0'') \<and> digits_value 10 k < 4294967295
      then Some (digits_value 10 k) else None)"

definition own_order :: "(string \<times> 'v) list \<Rightarrow> (string \<times> 'v) list" where
  "own_order m =
     sort_key (\<lambda>p. the (array_index (fst p))) (filter (\<lambda>p. array_index (fst p) \<noteq> None) m)
     @ filter (\<lambda>p. array_index (fst p) = None) m"

text \<open>\<open>Object.entries\<close> of a parsed object: a repeated key keeps its first place and its last value.\<close>

definition object_entries :: "(string \<times> 'v) list \<Rightarrow> (string \<times> 'v) list" where
  "object_entries es = own_order (fold (\<lambda>(k, v). map_set k v) es [])"

lemma set_own_order [simp]: "set (own_order m) = set m"
  by (auto simp: own_order_def)

lemma distinct_map_set: "distinct (map fst m) \<Longrightarrow> distinct (map fst (map_set k v m))"
proof (cases "k \<in> set (map fst m)")
  case True
  then have "map fst (map_set k v m) = map fst m" by (simp add: map_set_def)
  moreover assume "distinct (map fst m)"
  ultimately show ?thesis by (simp only:)
qed (simp add: map_set_def)

lemma set_map_set: "p \<in> set (map_set k v m) \<Longrightarrow> p = (k, v) \<or> p \<in> set m \<and> fst p \<noteq> k"
  by (auto simp: map_set_def split: if_splits)

lemma distinct_own_order: "distinct (map fst m) \<Longrightarrow> distinct (map fst (own_order m))"
proof -
  assume d: "distinct (map fst m)"
  let ?a = "filter (\<lambda>p. array_index (fst p) \<noteq> None) m" and ?b = "filter (\<lambda>p. array_index (fst p) = None) m"
  have "inj_on fst (set m)" "distinct m" using d by (simp_all add: distinct_map)
  then have "distinct (own_order m)" "inj_on fst (set (own_order m))"
    by (auto simp: own_order_def inj_on_def)
  then show ?thesis by (simp add: distinct_map)
qed

lemma distinct_object_entries: "distinct (map fst (object_entries es))"
proof -
  have "distinct (map fst (fold (\<lambda>(k, v). map_set k v) es m))" if "distinct (map fst m)" for m
    using that by (induction es arbitrary: m) (auto intro: distinct_map_set)
  then show ?thesis unfolding object_entries_def by (intro distinct_own_order) simp
qed

end
