(* ===== verification/Quotas.thy ===== *)
theory Quotas
  imports Prelude JsValue
begin

text \<open>
  src/src/lib/limits.ts: the operator's limits and the per-user quotas, read from the
  environment, and the admin's override of the quotas of one user. A thrown plain Error
  is the name of the variable its message starts with. A quota of 0 means unlimited.
\<close>

datatype quota =
    QRunsPerDay
  | QExecuteMsPerDay
  | QPackages
  | QSecrets
  | QJobs
  | QBlobs
  | QBlobBytes
  | QEmailMessages
  | QEmailSendsPerDay
  | QEmailReceivesPerDay
  | QWebhooks
  | QIntegrations
  | QMcpServers

text \<open>\<open>Quotas\<close> is a total record over the keys, an override a partial one.\<close>

type_synonym quotas = "quota \<Rightarrow> nat"
type_synonym quota_override = "quota \<Rightarrow> nat option"
type_synonym env = "string \<Rightarrow> string option"

record limits =
  lim_executeTimeoutMs :: int
  lim_runRetentionCount :: int
  lim_runRetentionDays :: int
  lim_runLogLimit :: int
  lim_responseLimitBytes :: int
  lim_auditRetentionCount :: int
  lim_mcpContentLimitBytes :: int
  lim_webhookMaxBodyBytes :: int
  lim_emailMaxBytes :: int

definition default_limits :: limits where
  "default_limits =
     \<lparr>lim_executeTimeoutMs = 60000,
      lim_runRetentionCount = 500,
      lim_runRetentionDays = 0,
      lim_runLogLimit = 200,
      lim_responseLimitBytes = 100000,
      lim_auditRetentionCount = 10000,
      lim_mcpContentLimitBytes = 512000,
      lim_webhookMaxBodyBytes = 1048576,
      lim_emailMaxBytes = 10485760\<rparr>"

definition default_quotas :: quotas where
  "default_quotas q = 0"

definition all_quotas :: "quota list" where
  "all_quotas = [QRunsPerDay, QExecuteMsPerDay, QPackages, QSecrets, QJobs, QBlobs, QBlobBytes, QEmailMessages, QEmailSendsPerDay, QEmailReceivesPerDay, QWebhooks, QIntegrations, QMcpServers]"

fun quota_key :: "quota \<Rightarrow> string" where
  "quota_key QRunsPerDay = ''runsPerDay''"
| "quota_key QExecuteMsPerDay = ''executeMsPerDay''"
| "quota_key QPackages = ''packages''"
| "quota_key QSecrets = ''secrets''"
| "quota_key QJobs = ''jobs''"
| "quota_key QBlobs = ''blobs''"
| "quota_key QBlobBytes = ''blobBytes''"
| "quota_key QEmailMessages = ''emailMessages''"
| "quota_key QEmailSendsPerDay = ''emailSendsPerDay''"
| "quota_key QEmailReceivesPerDay = ''emailReceivesPerDay''"
| "quota_key QWebhooks = ''webhooks''"
| "quota_key QIntegrations = ''integrations''"
| "quota_key QMcpServers = ''mcpServers''"

fun quota_var :: "quota \<Rightarrow> string" where
  "quota_var QRunsPerDay = ''KODY_QUOTA_RUNS_PER_DAY''"
| "quota_var QExecuteMsPerDay = ''KODY_QUOTA_EXECUTE_MS_PER_DAY''"
| "quota_var QPackages = ''KODY_QUOTA_PACKAGES''"
| "quota_var QSecrets = ''KODY_QUOTA_SECRETS''"
| "quota_var QJobs = ''KODY_QUOTA_JOBS''"
| "quota_var QBlobs = ''KODY_QUOTA_BLOBS''"
| "quota_var QBlobBytes = ''KODY_QUOTA_BLOB_BYTES''"
| "quota_var QEmailMessages = ''KODY_QUOTA_EMAIL_MESSAGES''"
| "quota_var QEmailSendsPerDay = ''KODY_QUOTA_EMAIL_SENDS_PER_DAY''"
| "quota_var QEmailReceivesPerDay = ''KODY_QUOTA_EMAIL_RECEIVES_PER_DAY''"
| "quota_var QWebhooks = ''KODY_QUOTA_WEBHOOKS''"
| "quota_var QIntegrations = ''KODY_QUOTA_INTEGRATIONS''"
| "quota_var QMcpServers = ''KODY_QUOTA_MCP_SERVERS''"

section \<open>Reading the environment\<close>

text \<open>\<open>integer(raw, fallback, { min, max })\<close>; \<open>None\<close> is the thrown error.\<close>

definition integer_setting :: "string option \<Rightarrow> int \<Rightarrow> int \<Rightarrow> int option \<Rightarrow> int option" where
  "integer_setting raw fallback lo hi =
     (case raw of None \<Rightarrow> Some fallback
      | Some text \<Rightarrow>
        if trim text = [] then Some fallback
        else case integer_value (js_number text) of
          None \<Rightarrow> None
        | Some v \<Rightarrow> if v < lo \<or> (case hi of None \<Rightarrow> False | Some m \<Rightarrow> m < v) then None else Some v)"

definition read_setting :: "string \<Rightarrow> env \<Rightarrow> (string option \<Rightarrow> 'a option) \<Rightarrow> string + 'a" where
  "read_setting name env parse = (case parse (env name) of None \<Rightarrow> Inl name | Some v \<Rightarrow> Inr v)"

definition bind_setting :: "string + 'a \<Rightarrow> ('a \<Rightarrow> string + 'b) \<Rightarrow> string + 'b" where
  "bind_setting x f = (case x of Inl e \<Rightarrow> Inl e | Inr v \<Rightarrow> f v)"

definition read_limit :: "env \<Rightarrow> string \<Rightarrow> int \<Rightarrow> int \<Rightarrow> int \<Rightarrow> (int \<Rightarrow> string + 'b) \<Rightarrow> string + 'b" where
  "read_limit env name fallback lo hi k =
     bind_setting (read_setting name env (\<lambda>raw. integer_setting raw fallback lo (Some hi))) k"

definition limits_from_env :: "env \<Rightarrow> string + limits" where
  "limits_from_env env =
     read_limit env ''KODY_EXECUTE_TIMEOUT_MS'' (lim_executeTimeoutMs default_limits) 1000 900000 (\<lambda>a.
     read_limit env ''KODY_RUN_RETENTION_COUNT'' (lim_runRetentionCount default_limits) 10 100000 (\<lambda>b.
     read_limit env ''KODY_RUN_RETENTION_DAYS'' (lim_runRetentionDays default_limits) 0 3650 (\<lambda>c.
     read_limit env ''KODY_RUN_LOG_LIMIT'' (lim_runLogLimit default_limits) 0 10000 (\<lambda>d.
     read_limit env ''KODY_RESPONSE_LIMIT_BYTES'' (lim_responseLimitBytes default_limits) 1000 10000000 (\<lambda>e.
     read_limit env ''KODY_AUDIT_RETENTION_COUNT'' (lim_auditRetentionCount default_limits) 100 1000000 (\<lambda>f.
     read_limit env ''KODY_MCP_CONTENT_LIMIT_BYTES'' (lim_mcpContentLimitBytes default_limits) 10000 50000000 (\<lambda>g.
     read_limit env ''KODY_WEBHOOK_MAX_BODY_BYTES'' (lim_webhookMaxBodyBytes default_limits) 1024 50000000 (\<lambda>h.
     read_limit env ''KODY_EMAIL_MAX_BYTES'' (lim_emailMaxBytes default_limits) 10000 100000000 (\<lambda>i.
     Inr \<lparr>lim_executeTimeoutMs = a, lim_runRetentionCount = b, lim_runRetentionDays = c, lim_runLogLimit = d, lim_responseLimitBytes = e, lim_auditRetentionCount = f, lim_mcpContentLimitBytes = g, lim_webhookMaxBodyBytes = h, lim_emailMaxBytes = i\<rparr>)))))))))"

fun read_quotas :: "env \<Rightarrow> quota list \<Rightarrow> quotas \<Rightarrow> string + quotas" where
  "read_quotas env [] acc = Inr acc"
| "read_quotas env (q # qs) acc =
     bind_setting
       (read_setting (quota_var q) env (\<lambda>raw. integer_setting raw (int (default_quotas q)) 0 None))
       (\<lambda>v. read_quotas env qs (acc(q := nat v)))"

definition quotas_from_env :: "env \<Rightarrow> string + quotas" where
  "quotas_from_env env = read_quotas env all_quotas default_quotas"

section \<open>Overrides\<close>

definition quota_of_key :: "string \<Rightarrow> quota option" where
  "quota_of_key k = find (\<lambda>q. quota_key q = k) all_quotas"

definition quota_amount :: "json \<Rightarrow> nat option" where
  "quota_amount v =
     (case v of
        JNum x \<Rightarrow> (case integer_value x of Some n \<Rightarrow> if n < 0 then None else Some (nat n) | None \<Rightarrow> None)
      | _ \<Rightarrow> None)"

fun override_entries :: "(string \<times> json) list \<Rightarrow> quota_override \<Rightarrow> quota_override option" where
  "override_entries [] acc = Some acc"
| "override_entries ((k, v) # es) acc =
     (case quota_of_key k of None \<Rightarrow> None
      | Some q \<Rightarrow>
        (case quota_amount v of None \<Rightarrow> None
         | Some n \<Rightarrow> override_entries es (acc(q := Some n))))"

text \<open>\<open>parseQuotaOverride\<close>; \<open>None\<close> is the thrown error.\<close>

definition parse_quota_override :: "json \<Rightarrow> quota_override option" where
  "parse_quota_override input =
     (case input of JObj es \<Rightarrow> override_entries es (\<lambda>_. None) | _ \<Rightarrow> None)"

definition effective_quotas :: "quotas \<Rightarrow> quota_override option \<Rightarrow> quotas" where
  "effective_quotas defaults override q =
     (case override of None \<Rightarrow> defaults q
      | Some ov \<Rightarrow> (case ov q of None \<Rightarrow> defaults q | Some n \<Rightarrow> n))"

definition within_quota :: "nat \<Rightarrow> nat \<Rightarrow> bool" where
  "within_quota limit used = (limit = 0 \<or> used < limit)"

text \<open>\<open>assertQuota\<close> of the user cell (src/src/cells/user-cell.ts).\<close>

definition assert_quota :: "quotas \<Rightarrow> quota \<Rightarrow> nat \<Rightarrow> unit res" where
  "assert_quota quotas q used =
     (if within_quota (quotas q) used then Inr () else Inl (KodyError ''quota_exceeded'' 429))"

text \<open>\<open>utcDay\<close> is the day number: its text is the first ten characters of the ISO time.\<close>

definition utc_day :: "time \<Rightarrow> int" where
  "utc_day t = t div 86400000"

section \<open>Lemmas\<close>

lemma within_quota_iff: "within_quota limit used \<longleftrightarrow> limit = 0 \<or> used < limit"
  by (simp add: within_quota_def)

lemma assert_quota_Inr [simp]: "assert_quota quotas q used = Inr u \<longleftrightarrow> within_quota (quotas q) used"
  by (simp add: assert_quota_def)

lemma integer_setting_range:
  assumes "integer_setting raw fallback lo (Some hi) = Some v" "lo \<le> fallback" "fallback \<le> hi"
  shows "lo \<le> v \<and> v \<le> hi"
  using assms by (auto simp: integer_setting_def split: option.splits if_splits)

lemma read_limitE:
  assumes "read_limit env name fallback lo hi k = Inr r" "lo \<le> fallback" "fallback \<le> hi"
  obtains v where "k v = Inr r" "lo \<le> v" "v \<le> hi"
proof (cases "integer_setting (env name) fallback lo (Some hi)")
  case None
  with assms(1) show ?thesis by (simp add: read_limit_def bind_setting_def read_setting_def)
next
  case (Some v)
  then show ?thesis
    using that [of v] assms(1) integer_setting_range [OF Some assms(2,3)]
    by (simp add: read_limit_def bind_setting_def read_setting_def)
qed

lemma quota_cases: "q \<in> set all_quotas"
  by (cases q) (simp_all add: all_quotas_def)

lemma quota_of_key_Some: "quota_of_key k = Some q \<Longrightarrow> quota_key q = k"
  by (auto simp: quota_of_key_def find_Some_iff)

lemma quota_key_inject: "quota_key p = quota_key q \<Longrightarrow> p = q"
  by (cases p; cases q) simp_all

lemma quota_of_key_key [simp]: "quota_of_key (quota_key q) = Some q"
proof -
  have "\<exists>p. quota_of_key (quota_key q) = Some p"
    using quota_cases [of q] by (auto simp: quota_of_key_def find_None_iff not_None_eq [symmetric] simp del: not_None_eq)
  then show ?thesis using quota_of_key_Some quota_key_inject by blast
qed

lemma override_entries_lookup:
  "override_entries es acc = Some ov \<Longrightarrow>
   ov q = (case map_of (rev es) (quota_key q) of None \<Rightarrow> acc q | Some v \<Rightarrow> quota_amount v)"
proof (induction es acc rule: override_entries.induct)
  case (2 k v es acc)
  then obtain p n where p: "quota_of_key k = Some p" "quota_amount v = Some n"
    and ov: "override_entries es (acc(p := Some n)) = Some ov"
    by (auto split: option.splits)
  have k: "k = quota_key p" using quota_of_key_Some [OF p(1)] ..
  have inj: "quota_key p = quota_key q \<longleftrightarrow> p = q" "quota_key q = quota_key p \<longleftrightarrow> p = q"
    using quota_key_inject [of p q] by auto
  have "ov q = (case map_of (rev es) (quota_key q) of
      None \<Rightarrow> if p = q then quota_amount v else acc q | Some v \<Rightarrow> quota_amount v)"
    using "2.IH" [OF p ov] by (auto simp: p(2) split: option.splits)
  then show ?case
    by (cases "map_of (rev es) (quota_key q)") (auto simp: map_add_def k inj p(2))
qed simp

text \<open>Limits that were read are in their documented ranges, whatever the environment: a job or
  execution has at least a second and at most fifteen minutes, and at least ten runs are kept.\<close>

theorem limits_in_range:
  assumes "limits_from_env env = Inr l"
  shows "1000 \<le> lim_executeTimeoutMs l \<and> lim_executeTimeoutMs l \<le> 900000
    \<and> 10 \<le> lim_runRetentionCount l \<and> lim_runRetentionCount l \<le> 100000
    \<and> 0 \<le> lim_runRetentionDays l \<and> lim_runRetentionDays l \<le> 3650
    \<and> 0 \<le> lim_runLogLimit l \<and> lim_runLogLimit l \<le> 10000
    \<and> 1000 \<le> lim_responseLimitBytes l \<and> lim_responseLimitBytes l \<le> 10000000
    \<and> 100 \<le> lim_auditRetentionCount l \<and> lim_auditRetentionCount l \<le> 1000000
    \<and> 10000 \<le> lim_mcpContentLimitBytes l \<and> lim_mcpContentLimitBytes l \<le> 50000000
    \<and> 1024 \<le> lim_webhookMaxBodyBytes l \<and> lim_webhookMaxBodyBytes l \<le> 50000000
    \<and> 10000 \<le> lim_emailMaxBytes l \<and> lim_emailMaxBytes l \<le> 100000000"
  using assms unfolding limits_from_env_def
  by (elim read_limitE) (auto simp: default_limits_def)

theorem limits_in_range_witness:
  "\<exists>l. limits_from_env (\<lambda>_. None) = Inr l \<and> 1000 \<le> lim_executeTimeoutMs l"
proof -
  have "limits_from_env (\<lambda>_. None) = Inr default_limits"
    by (simp add: limits_from_env_def read_limit_def bind_setting_def read_setting_def
        integer_setting_def default_limits_def)
  then show ?thesis using limits_in_range by blast
qed

text \<open>An admin's override that is accepted changes exactly the quotas it names: each takes the
  last amount given under its key, every other quota keeps the operator's value.\<close>

theorem quota_override_effect:
  assumes "parse_quota_override (JObj es) = Some ov"
  shows "effective_quotas defaults (Some ov) q =
    (case map_of (rev es) (quota_key q) of
       None \<Rightarrow> defaults q
     | Some v \<Rightarrow> the (quota_amount v)) \<and> (\<forall>(k, v)\<in>set es. quota_of_key k \<noteq> None \<and> quota_amount v \<noteq> None)"
proof -
  have "override_entries es (\<lambda>_. None) = Some ov"
    using assms by (simp add: parse_quota_override_def)
  moreover have all: "\<forall>(k, v)\<in>set es. quota_of_key k \<noteq> None \<and> quota_amount v \<noteq> None"
    if "override_entries es acc = Some ov'" for acc ov'
    using that by (induction es acc rule: override_entries.induct) (auto split: option.splits)
  ultimately have all': "\<forall>(k, v)\<in>set es. quota_of_key k \<noteq> None \<and> quota_amount v \<noteq> None"
    and lookup: "ov q = (case map_of (rev es) (quota_key q) of None \<Rightarrow> None | Some v \<Rightarrow> quota_amount v)"
    using override_entries_lookup [of es "\<lambda>_. None" ov q] by blast+
  show ?thesis
  proof (cases "map_of (rev es) (quota_key q)")
    case None
    with all' lookup show ?thesis by (simp add: effective_quotas_def)
  next
    case (Some v)
    then have "(quota_key q, v) \<in> set es" using map_of_SomeD by fastforce
    with all' have "quota_amount v \<noteq> None" by blast
    with all' lookup Some show ?thesis by (auto simp: effective_quotas_def)
  qed
qed

theorem quota_override_effect_witness:
  "effective_quotas default_quotas
    (Some ((\<lambda>_. None)(QSecrets := Some 0, QJobs := Some 0))) QBlobs = 0"
proof -
  have "parse_quota_override (JObj [(''secrets'', JNum (Num 0)), (''jobs'', JNum (Num 0))]) =
      Some ((\<lambda>_. None)(QSecrets := Some 0, QJobs := Some 0))"
    by (simp add: parse_quota_override_def quota_of_key_def all_quotas_def quota_amount_def integer_value_def)
  from quota_override_effect [OF this, of default_quotas QBlobs] show ?thesis
    by (simp add: default_quotas_def)
qed

end
