(* ===== verification/Keyring.thy ===== *)
theory Keyring
  imports Prelude JsValue
begin

text \<open>
  src/src/lib/crypto.ts: the hexadecimal encoding, the keyring of master keys and the
  sealing of values. SHA-256, HKDF and AES-GCM are WebCrypto, not the program's code: they are
  the fields of a record \<open>crypto\<close> the definitions take as an argument, and random bytes are
  arguments too. A byte sequence is a \<open>string\<close> of code units.
\<close>

record crypto =
  sha256 :: "string \<Rightarrow> string"
  hkdf :: "string \<Rightarrow> string \<Rightarrow> string \<Rightarrow> string"
  gcm_seal :: "string \<Rightarrow> string \<Rightarrow> string \<Rightarrow> string"
  gcm_open :: "string \<Rightarrow> string \<Rightarrow> string \<Rightarrow> string option"

section \<open>Bytes\<close>

definition hex_digit :: "nat \<Rightarrow> char" where
  "hex_digit n = (if n < 10 then char_of (48 + n) else char_of (87 + n))"

definition bytes_to_hex :: "string \<Rightarrow> string" where
  "bytes_to_hex bs = concat (map (\<lambda>b. [hex_digit (unit_of b div 16), hex_digit (unit_of b mod 16)]) bs)"

text \<open>\<open>parseInt(ab, 16)\<close> stored in a byte: a leading space or sign is accepted, what is not a
  number stores 0.\<close>

definition hex_byte :: "char \<Rightarrow> char \<Rightarrow> char" where
  "hex_byte a b =
     (case (hex_value a, hex_value b) of
        (Some x, Some y) \<Rightarrow> char_of (16 * x + y)
      | (Some x, None) \<Rightarrow> char_of x
      | (None, Some y) \<Rightarrow>
          if is_space a \<or> a = CHR ''+'' then char_of y
          else if a = CHR ''-'' then char_of ((256 - y) mod 256) else char_of (0::nat)
      | (None, None) \<Rightarrow> char_of (0::nat))"

text \<open>A last odd digit is dropped, as \<open>new Uint8Array(length / 2)\<close> rounds down.\<close>

fun hex_to_bytes :: "string \<Rightarrow> string" where
  "hex_to_bytes (a # b # s) = hex_byte a b # hex_to_bytes s"
| "hex_to_bytes _ = []"

text \<open>\<open>TextEncoder\<close> and \<open>TextDecoder\<close> on code units below 256; malformed bytes decode to the
  replacement character, here a question mark.\<close>

definition utf8_encode :: "string \<Rightarrow> string" where
  "utf8_encode s =
     concat (map (\<lambda>c. if unit_of c < 128 then [c]
       else [char_of (192 + unit_of c div 64), char_of (128 + unit_of c mod 64)]) s)"

fun utf8_decode :: "string \<Rightarrow> string" where
  "utf8_decode [] = []"
| "utf8_decode (a # s) =
     (if unit_of a < 128 then a # utf8_decode s
      else case s of
        [] \<Rightarrow> ''?''
      | b # r \<Rightarrow>
        if 194 \<le> unit_of a \<and> unit_of a \<le> 195 \<and> 128 \<le> unit_of b \<and> unit_of b < 192
        then char_of ((unit_of a - 192) * 64 + (unit_of b - 128)) # utf8_decode r
        else CHR ''?'' # utf8_decode s)"

text \<open>\<open>encodeURIComponent\<close>.\<close>

definition uri_unreserved :: "char \<Rightarrow> bool" where
  "uri_unreserved c = (is_alnum c \<or> c \<in> set ''-_.!~*()'' \<or> unit_of c = 39)"

definition upper_hex_digit :: "nat \<Rightarrow> char" where
  "upper_hex_digit n = (if n < 10 then char_of (48 + n) else char_of (55 + n))"

definition percent_byte :: "char \<Rightarrow> string" where
  "percent_byte c = [CHR ''%'', upper_hex_digit (unit_of c div 16), upper_hex_digit (unit_of c mod 16)]"

definition encode_uri_component :: "string \<Rightarrow> string" where
  "encode_uri_component t =
     concat (map (\<lambda>c. if uri_unreserved c then [c] else concat (map percent_byte (utf8_encode [c]))) t)"

definition sha256_hex :: "crypto \<Rightarrow> string \<Rightarrow> string" where
  "sha256_hex C v = bytes_to_hex (sha256 C (utf8_encode v))"

text \<open>\<open>randomToken(prefix)\<close> from its random bytes.\<close>

definition random_token :: "string \<Rightarrow> string \<Rightarrow> string" where
  "random_token pre raw = pre @ ''_'' @ bytes_to_hex raw"

text \<open>\<open>btoa\<close> and \<open>atob\<close>: the latter drops white space, then at most two padding signs of a text whose
  length is a multiple of four, and refuses other characters and an impossible length.\<close>

definition base64_char :: "nat \<Rightarrow> char" where
  "base64_char n =
     (if n < 26 then char_of (65 + n) else if n < 52 then char_of (71 + n)
      else if n < 62 then char_of (n - 4) else if n = 62 then CHR ''+'' else CHR ''/'')"

fun btoa :: "string \<Rightarrow> string" where
  "btoa [] = []"
| "btoa [a] = [base64_char (unit_of a div 4), base64_char (unit_of a mod 4 * 16), CHR ''='', CHR ''='']"
| "btoa [a, b] =
     [base64_char (unit_of a div 4), base64_char (unit_of a mod 4 * 16 + unit_of b div 16),
      base64_char (unit_of b mod 16 * 4), CHR ''='']"
| "btoa (a # b # c # s) =
     base64_char (unit_of a div 4) # base64_char (unit_of a mod 4 * 16 + unit_of b div 16)
     # base64_char (unit_of b mod 16 * 4 + unit_of c div 64) # base64_char (unit_of c mod 64) # btoa s"

definition base64_value :: "char \<Rightarrow> nat option" where
  "base64_value c =
     (if in_range 65 90 c then Some (unit_of c - 65) else if in_range 97 122 c then Some (unit_of c - 71)
      else if in_range 48 57 c then Some (unit_of c + 4) else if c = CHR ''+'' then Some 62
      else if c = CHR ''/'' then Some 63 else None)"

fun base64_bytes :: "nat list \<Rightarrow> string" where
  "base64_bytes (a # b # c # d # s) =
     char_of (a * 4 + b div 16) # char_of (b mod 16 * 16 + c div 4) # char_of (c mod 4 * 64 + d) # base64_bytes s"
| "base64_bytes [a, b, c] = [char_of (a * 4 + b div 16), char_of (b mod 16 * 16 + c div 4)]"
| "base64_bytes [a, b] = [char_of (a * 4 + b div 16)]"
| "base64_bytes _ = []"

definition atob :: "string \<Rightarrow> string option" where
  "atob text =
     (let s = filter (\<lambda>c. \<not> (unit_of c = 32 \<or> unit_of c = 9 \<or> unit_of c = 10 \<or> unit_of c = 12 \<or> unit_of c = 13)) text;
          s' = (if length s mod 4 \<noteq> 0 then s
                else if ends_with s ''=='' then take (length s - 2) s
                else if ends_with s ''='' then take (length s - 1) s else s)
      in if length s' mod 4 = 1 \<or> list_ex (\<lambda>c. base64_value c = None) s' then None
         else Some (base64_bytes (map (\<lambda>c. the (base64_value c)) s')))"

section \<open>Sealing\<close>

record encrypted_value =
  ev_iv :: string
  ev_ciphertext :: string
  ev_key_id :: "string option"

definition derive_user_key :: "crypto \<Rightarrow> string \<Rightarrow> string \<Rightarrow> string" where
  "derive_user_key C master uid =
     hkdf C (utf8_encode master) (utf8_encode (''kody-celld:'' @ uid)) (utf8_encode ''kody-celld-secret-values'')"

definition master_key_id :: "crypto \<Rightarrow> string \<Rightarrow> string" where
  "master_key_id C master = take 16 (sha256_hex C (''kody-celld-master-key:'' @ master))"

record ring_entry =
  rk_id :: string
  rk_key :: string

text \<open>The ring is \<open>all\<close>; \<open>current\<close> is its head. With only blank keys configured the code's \<open>current\<close> is
  undefined, here the empty list.\<close>

type_synonym keyring = "ring_entry list"

fun unique_ids :: "string list \<Rightarrow> ring_entry list \<Rightarrow> ring_entry list" where
  "unique_ids seen [] = []"
| "unique_ids seen (e # es) =
     (if rk_id e \<in> set seen then unique_ids seen es else e # unique_ids (rk_id e # seen) es)"

definition configured_keys :: "string \<Rightarrow> string option \<Rightarrow> string list" where
  "configured_keys current previous =
     filter (\<lambda>k. k \<noteq> [])
       (map trim (current # split_on CHR '','' (case previous of None \<Rightarrow> [] | Some p \<Rightarrow> p)))"

definition build_master_keyring :: "crypto \<Rightarrow> string \<Rightarrow> string option \<Rightarrow> keyring" where
  "build_master_keyring C current previous =
     unique_ids [] (map (\<lambda>k. \<lparr>rk_id = master_key_id C k, rk_key = k\<rparr>) (configured_keys current previous))"

definition encrypt_secret_value :: "crypto \<Rightarrow> string \<Rightarrow> string \<Rightarrow> string \<Rightarrow> string \<Rightarrow> encrypted_value" where
  "encrypt_secret_value C iv master uid plaintext =
     \<lparr>ev_iv = bytes_to_hex iv,
      ev_ciphertext = bytes_to_hex (gcm_seal C (derive_user_key C master uid) iv (utf8_encode plaintext)),
      ev_key_id = Some (master_key_id C master)\<rparr>"

definition decrypt_secret_value :: "crypto \<Rightarrow> string \<Rightarrow> string \<Rightarrow> encrypted_value \<Rightarrow> string option" where
  "decrypt_secret_value C master uid v =
     map_option utf8_decode
       (gcm_open C (derive_user_key C master uid) (hex_to_bytes (ev_iv v)) (hex_to_bytes (ev_ciphertext v)))"

datatype decrypt_failure = NoMasterKey string | CannotDecrypt

fun try_keys :: "crypto \<Rightarrow> keyring \<Rightarrow> string \<Rightarrow> encrypted_value \<Rightarrow> string option" where
  "try_keys C [] uid v = None"
| "try_keys C (e # es) uid v =
     (case decrypt_secret_value C (rk_key e) uid v of
        Some p \<Rightarrow> Some p
      | None \<Rightarrow> try_keys C es uid v)"

definition key_candidates :: "keyring \<Rightarrow> encrypted_value \<Rightarrow> keyring" where
  "key_candidates ring v =
     (case ev_key_id v of
        None \<Rightarrow> ring
      | Some i \<Rightarrow> if i = [] then ring else filter (\<lambda>e. rk_id e = i) ring)"

definition decrypt_with_keyring ::
  "crypto \<Rightarrow> keyring \<Rightarrow> string \<Rightarrow> encrypted_value \<Rightarrow> decrypt_failure + string" where
  "decrypt_with_keyring C ring uid v =
     (if key_candidates ring v = []
      then Inl (NoMasterKey (case ev_key_id v of None \<Rightarrow> [] | Some i \<Rightarrow> i))
      else case try_keys C (key_candidates ring v) uid v of
        None \<Rightarrow> Inl CannotDecrypt
      | Some p \<Rightarrow> Inr p)"

section \<open>Lemmas\<close>

lemma hex_value_digit_of: "n < 16 \<Longrightarrow> hex_value (hex_digit n) = Some n"
  by (simp add: hex_value_def hex_digit_def is_digit_def in_range_def unit_of_char_of)

lemma hex_byte_digits: "hex_byte (hex_digit (unit_of b div 16)) (hex_digit (unit_of b mod 16)) = b"
proof -
  have "unit_of b div 16 < 16" using unit_of_less [of b] by (intro less_mult_imp_div_less) simp
  then show ?thesis
    by (simp add: hex_byte_def hex_value_digit_of unit_of_def)
qed

lemma hex_to_bytes_to_hex [simp]: "hex_to_bytes (bytes_to_hex bs) = bs"
  by (induction bs) (simp_all add: bytes_to_hex_def hex_byte_digits)

lemma bytes_to_hex_inject: "bytes_to_hex a = bytes_to_hex b \<longleftrightarrow> a = b"
  by (metis hex_to_bytes_to_hex)

lemma length_bytes_to_hex [simp]: "length (bytes_to_hex bs) = 2 * length bs"
  by (induction bs) (simp_all add: bytes_to_hex_def)

lemma take_bytes_to_hex: "take (2 * n) (bytes_to_hex bs) = bytes_to_hex (take n bs)"
proof (induction bs arbitrary: n)
  case (Cons b bs)
  then show ?case by (cases n) (simp_all add: bytes_to_hex_def)
qed (simp add: bytes_to_hex_def)

text \<open>An identifier is the first eight bytes of a digest.\<close>

lemma master_key_id_eq:
  "master_key_id C a = master_key_id C b \<longleftrightarrow>
     take 8 (sha256 C (utf8_encode (''kody-celld-master-key:'' @ a))) =
     take 8 (sha256 C (utf8_encode (''kody-celld-master-key:'' @ b)))"
  using take_bytes_to_hex [of 8] by (simp add: master_key_id_def sha256_hex_def bytes_to_hex_inject)

lemma utf8_roundtrip [simp]: "utf8_decode (utf8_encode s) = s"
proof (induction s)
  case (Cons c s)
  show ?case
  proof (cases "unit_of c < 128")
    case True
    with Cons show ?thesis by (simp add: utf8_encode_def)
  next
    case False
    have q: "unit_of c div 64 = 2 \<or> unit_of c div 64 = 3"
      using False unit_of_less [of c] by linarith
    have h: "unit_of (char_of (192 + unit_of c div 64)) = 192 + unit_of c div 64"
      "unit_of (char_of (128 + unit_of c mod 64)) = 128 + unit_of c mod 64"
      using q by (auto intro!: unit_of_char_of)
    have "unit_of c div 64 * 64 + unit_of c mod 64 = unit_of c" by simp
    then have c: "char_of (unit_of c div 64 * 64 + unit_of c mod 64) = c"
      by (simp add: unit_of_def)
    have "utf8_decode (utf8_encode (c # s)) =
        char_of (unit_of c div 64 * 64 + unit_of c mod 64) # utf8_decode (utf8_encode s)"
      using False q h by (auto simp: utf8_encode_def)
    then show ?thesis using Cons c by simp
  qed
qed (simp add: utf8_encode_def)

lemma utf8_encode_inject: "utf8_encode a = utf8_encode b \<longleftrightarrow> a = b"
  by (metis utf8_roundtrip)

lemma unique_ids_distinct: "distinct (map rk_id (unique_ids seen es)) \<and>
    set (map rk_id (unique_ids seen es)) = set (map rk_id es) - set seen"
  by (induction es arbitrary: seen) auto

lemma unique_ids_subset: "set (unique_ids seen es) \<subseteq> set es"
  by (induction es arbitrary: seen) auto

lemma build_master_keyring_ids: "distinct (map rk_id (build_master_keyring C current previous))"
  unfolding build_master_keyring_def using unique_ids_distinct by blast

lemma build_master_keyring_entry:
  "e \<in> set (build_master_keyring C current previous) \<Longrightarrow>
    rk_id e = master_key_id C (rk_key e) \<and> rk_key e \<in> set (configured_keys current previous)"
  using unique_ids_subset unfolding build_master_keyring_def by fastforce

section \<open>What the keyring relies on, and what it promises\<close>

text \<open>The documented behaviour of WebCrypto the keyring relies on: a SHA-256 digest has 32 bytes, and AES-GCM
  opens what it sealed under the same key and vector.\<close>

definition crypto_ok :: "crypto \<Rightarrow> bool" where
  "crypto_ok C = ((\<forall>m. length (sha256 C m) = 32) \<and>
     (\<forall>k iv p. gcm_open C k iv (gcm_seal C k iv p) = Some p))"

text \<open>No two of the configured master keys share an identifier.\<close>

definition no_key_collision :: "crypto \<Rightarrow> string list \<Rightarrow> bool" where
  "no_key_collision C ks =
     list_all (\<lambda>k. list_all (\<lambda>l. master_key_id C k = master_key_id C l \<longrightarrow> k = l) ks) ks"

text \<open>A ring as \<open>build_master_keyring\<close> makes it.\<close>

definition keyring_ok :: "crypto \<Rightarrow> keyring \<Rightarrow> bool" where
  "keyring_ok C ring =
     (distinct (map rk_id ring) \<and> list_all (\<lambda>e. rk_id e = master_key_id C (rk_key e)) ring)"

lemma build_master_keyring_ok: "keyring_ok C (build_master_keyring C current previous)"
  using build_master_keyring_ids build_master_keyring_entry
  unfolding keyring_ok_def list_all_iff by blast

text \<open>A concrete instance of the parameters: the digest keeps the last 32 bytes, sealing prefixes the key.\<close>

definition sample_crypto :: crypto where
  "sample_crypto =
     \<lparr>sha256 = (\<lambda>m. take 32 (rev m @ replicate 32 (CHR ''0''))),
      hkdf = (\<lambda>a b c. a @ b),
      gcm_seal = (\<lambda>k iv p. k @ p),
      gcm_open = (\<lambda>k iv c. if starts_with c k then Some (drop (length k) c) else None)\<rparr>"

lemma sample_crypto_ok: "crypto_ok sample_crypto"
  by (simp add: crypto_ok_def sample_crypto_def min_def)

lemma decrypt_encrypt:
  "crypto_ok C \<Longrightarrow> decrypt_secret_value C m uid (encrypt_secret_value C iv m uid p) = Some p"
  by (simp add: crypto_ok_def decrypt_secret_value_def encrypt_secret_value_def)

lemma master_key_id_nonempty: "crypto_ok C \<Longrightarrow> master_key_id C m \<noteq> []"
  by (auto simp: crypto_ok_def master_key_id_def sha256_hex_def
      simp flip: length_0_conv)

text \<open>What is sealed under a ring entry opens, whatever keys come after it in the ring.\<close>

lemma candidates_of_entry:
  assumes "keyring_ok C ring" "e \<in> set ring"
  shows "filter (\<lambda>f. rk_id f = rk_id e) ring = [e]"
  using assms unfolding keyring_ok_def
proof (induction ring)
  case (Cons f fs)
  then show ?case by (cases "f = e") (auto simp: filter_empty_conv image_iff)
qed simp

lemma decrypt_with_keyring_entry:
  assumes "crypto_ok C" "keyring_ok C ring" "e \<in> set ring"
  shows "decrypt_with_keyring C ring uid (encrypt_secret_value C iv (rk_key e) uid p) = Inr p"
proof -
  let ?v = "encrypt_secret_value C iv (rk_key e) uid p"
  have "rk_id e = master_key_id C (rk_key e)"
    using assms(2,3) by (auto simp: keyring_ok_def list_all_iff)
  then have "key_candidates ring ?v = filter (\<lambda>f. rk_id f = rk_id e) ring"
    using master_key_id_nonempty [OF assms(1)]
    by (simp add: key_candidates_def encrypt_secret_value_def)
  then have "key_candidates ring ?v = [e]"
    by (simp only: candidates_of_entry [OF assms(2,3)])
  then show ?thesis
    using decrypt_encrypt [OF assms(1)] by (simp add: decrypt_with_keyring_def)
qed

text \<open>A value sealed under any master key that is still configured, current or retired,
  opens to the plaintext: rotating the master key loses nothing while the old key is listed.\<close>

theorem keyring_opens_configured:
  assumes "crypto_ok C" "m \<in> set (configured_keys current previous)"
    "no_key_collision C (configured_keys current previous)"
  shows "decrypt_with_keyring C (build_master_keyring C current previous) uid
      (encrypt_secret_value C iv m uid p) = Inr p"
proof -
  let ?ring = "build_master_keyring C current previous"
  have "master_key_id C m \<in> set (map rk_id ?ring)"
    unfolding build_master_keyring_def using unique_ids_distinct [of "[]"] assms(2) by force
  then obtain e where e: "e \<in> set ?ring" "rk_id e = master_key_id C m" by auto
  then have "rk_key e = m"
    using build_master_keyring_entry [of e C current previous] assms(2,3)
    unfolding no_key_collision_def list_all_iff by (metis (full_types))
  then show ?thesis
    using decrypt_with_keyring_entry [OF assms(1) build_master_keyring_ok e(1)] by simp
qed

theorem keyring_opens_configured_witness:
  "decrypt_with_keyring sample_crypto (build_master_keyring sample_crypto ''new'' (Some ''old,older'')) ''u1''
      (encrypt_secret_value sample_crypto ''iv'' ''older'' ''u1'' ''hunter2'') = Inr ''hunter2''"
proof (rule keyring_opens_configured [OF sample_crypto_ok])
  have k: "configured_keys ''new'' (Some ''old,older'') = [''new'', ''old'', ''older'']"
    by code_simp
  show "''older'' \<in> set (configured_keys ''new'' (Some ''old,older''))"
    by (simp add: k)
  show "no_key_collision sample_crypto (configured_keys ''new'' (Some ''old,older''))"
    by (simp add: k no_key_collision_def master_key_id_eq sample_crypto_def utf8_encode_def unit_of_def)
qed

end
