(* ===== verification/Placeholders.thy ===== *)
theory Placeholders
  imports JsString
begin

text \<open>
  src/src/secrets/placeholders.ts: the four placeholder syntaxes, found anywhere in a
  text, and their replacement. The global regular expressions are recognizers of one
  match at the start of a text (\<open>match_*\<close>), run over the text by \<open>match_all\<close>; in each
  pattern the character class of a name excludes the character that follows it, so
  greedy matching has one result.
\<close>

datatype secret_scope = ScopeUser | ScopePackage | ScopeSession

record referenced_secret =
  rs_placeholder :: string
  rs_name :: string
  rs_scope :: "secret_scope option"

record referenced_basic =
  rb_placeholder :: string
  rb_username :: string
  rb_password :: string
  rb_scope :: "secret_scope option"

record referenced_integration =
  ri_placeholder :: string
  ri_name :: string

record referenced_provider =
  rp_placeholder :: string
  rp_provider :: string
  rp_ref :: string

section \<open>Matching\<close>

definition name_char :: "char \<Rightarrow> bool" where
  "name_char c = (is_alnum c \<or> c = CHR ''.'' \<or> c = CHR ''_'' \<or> c = CHR ''-'')"

text \<open>\<open>parseScope\<close> on the text of the scope group.\<close>

definition parse_scope :: "string option \<Rightarrow> secret_scope option" where
  "parse_scope s =
     (case s of None \<Rightarrow> None
      | Some t \<Rightarrow>
        if t = ''package'' then Some ScopePackage
        else if t = ''session'' then Some ScopeSession
        else if t = ''user'' then Some ScopeUser else None)"

text \<open>\<open>(?:\|scope=(session|package|user))?\}\}\<close> at the start of a text: the scope and the length.\<close>

definition match_scope_end :: "string \<Rightarrow> (string option \<times> nat) option" where
  "match_scope_end s =
     (if starts_with s ''}}'' then Some (None, 2)
      else if starts_with s ''|scope=session}}'' then Some (Some ''session'', 16)
      else if starts_with s ''|scope=package}}'' then Some (Some ''package'', 16)
      else if starts_with s ''|scope=user}}'' then Some (Some ''user'', 13)
      else None)"

definition match_secret :: "string \<Rightarrow> (referenced_secret \<times> nat) option" where
  "match_secret s =
     (if \<not> starts_with s ''{{secret:'' then None
      else
        (let r = drop 9 s; name = takeWhile name_char r in
         if name = [] then None
         else case match_scope_end (dropWhile name_char r) of
           None \<Rightarrow> None
         | Some (sc, n) \<Rightarrow>
           (let len = 9 + length name + n
            in Some (\<lparr>rs_placeholder = take len s, rs_name = name, rs_scope = parse_scope sc\<rparr>, len))))"

definition match_basic :: "string \<Rightarrow> (referenced_basic \<times> nat) option" where
  "match_basic s =
     (if \<not> starts_with s ''{{secret-basic:username='' then None
      else
        (let r = drop 24 s; user = takeWhile name_char r; r2 = dropWhile name_char r in
         if user = [] \<or> \<not> starts_with r2 '',password='' then None
         else
           (let r3 = drop 10 r2; pw = takeWhile name_char r3 in
            if pw = [] then None
            else case match_scope_end (dropWhile name_char r3) of
              None \<Rightarrow> None
            | Some (sc, n) \<Rightarrow>
              (let len = 24 + length user + 10 + length pw + n
               in Some (\<lparr>rb_placeholder = take len s, rb_username = user, rb_password = pw,
                        rb_scope = parse_scope sc\<rparr>, len)))))"

definition match_integration :: "string \<Rightarrow> (referenced_integration \<times> nat) option" where
  "match_integration s =
     (if \<not> starts_with s ''{{integration-token:'' then None
      else
        (let r = drop 20 s; name = takeWhile name_char r in
         if name = [] \<or> \<not> starts_with (dropWhile name_char r) ''}}'' then None
         else
           (let len = 20 + length name + 2
            in Some (\<lparr>ri_placeholder = take len s, ri_name = name\<rparr>, len))))"

definition match_provider :: "string \<Rightarrow> ((string \<times> string \<times> string) \<times> nat) option" where
  "match_provider s =
     (if \<not> starts_with s ''{{secret/'' then None
      else
        (let r = drop 9 s; prov = takeWhile name_char r; r2 = dropWhile name_char r in
         if prov = [] \<or> \<not> starts_with r2 '':'' then None
         else
           (let r3 = tl r2; ref = takeWhile (\<lambda>c. c \<noteq> CHR ''}'') r3 in
            if ref = [] \<or> \<not> starts_with (dropWhile (\<lambda>c. c \<noteq> CHR ''}'') r3) ''}}'' then None
            else
              (let len = 9 + length prov + 1 + length ref + 2
               in Some ((take len s, prov, ref), len)))))"

section \<open>Collecting\<close>

text \<open>The names of the first three kinds have no white space, so their \<open>trim\<close> is the identity and the
  \<open>if (!name) continue\<close> guards never fire; a provider ref may be blank, and then is skipped.\<close>

definition parse_secret_placeholders :: "string \<Rightarrow> referenced_secret list" where
  "parse_secret_placeholders v = match_all match_secret 0 v"

definition parse_basic_placeholders :: "string \<Rightarrow> referenced_basic list" where
  "parse_basic_placeholders v = match_all match_basic 0 v"

definition parse_integration_placeholders :: "string \<Rightarrow> referenced_integration list" where
  "parse_integration_placeholders v = match_all match_integration 0 v"

definition parse_provider_placeholders :: "string \<Rightarrow> referenced_provider list" where
  "parse_provider_placeholders v =
     concat (map (\<lambda>(p, prov, ref).
         if trim prov = [] \<or> trim ref = [] then []
         else [\<lparr>rp_placeholder = p, rp_provider = trim prov, rp_ref = trim ref\<rparr>])
       (match_all match_provider 0 v))"

record placeholders =
  ph_secrets :: "referenced_secret list"
  ph_basic :: "referenced_basic list"
  ph_integrations :: "referenced_integration list"
  ph_providers :: "referenced_provider list"

definition collect_placeholders :: "string \<Rightarrow> placeholders" where
  "collect_placeholders v =
     \<lparr>ph_secrets = parse_secret_placeholders v, ph_basic = parse_basic_placeholders v,
      ph_integrations = parse_integration_placeholders v,
      ph_providers = parse_provider_placeholders v\<rparr>"

definition contains_secret_placeholder :: "string \<Rightarrow> bool" where
  "contains_secret_placeholder v =
     test_any (\<lambda>s. starts_with s ''{{secret/'' \<or> starts_with s ''{{secret:''
       \<or> starts_with s ''{{secret-basic:'' \<or> starts_with s ''{{integration-token:'') v"

section \<open>Building and replacing\<close>

text \<open>\<open>replaceAll(/%7B/gi, '{').replaceAll(/%7D/gi, '}')\<close>; the two passes cannot feed each other, since
  neither inserts a percent sign, a digit or a letter.\<close>

fun decode_delimiters :: "string \<Rightarrow> string" where
  "decode_delimiters (a # b # c # s) =
     (if a = CHR ''%'' \<and> b = CHR ''7'' \<and> (c = CHR ''B'' \<or> c = CHR ''b'')
      then CHR ''{'' # decode_delimiters s
      else if a = CHR ''%'' \<and> b = CHR ''7'' \<and> (c = CHR ''D'' \<or> c = CHR ''d'')
      then CHR ''}'' # decode_delimiters s
      else a # decode_delimiters (b # c # s))"
| "decode_delimiters s = s"

definition scope_text :: "secret_scope \<Rightarrow> string" where
  "scope_text sc =
     (case sc of ScopeUser \<Rightarrow> ''user'' | ScopePackage \<Rightarrow> ''package'' | ScopeSession \<Rightarrow> ''session'')"

definition build_secret_placeholder :: "string \<Rightarrow> secret_scope option \<Rightarrow> string" where
  "build_secret_placeholder name sc =
     (case sc of
        Some s \<Rightarrow> ''{{secret:'' @ name @ ''|scope='' @ scope_text s @ ''}}''
      | None \<Rightarrow> ''{{secret:'' @ name @ ''}}'')"

definition build_integration_placeholder :: "string \<Rightarrow> string" where
  "build_integration_placeholder name = ''{{integration-token:'' @ name @ ''}}''"

definition build_provider_placeholder :: "string \<Rightarrow> string \<Rightarrow> string" where
  "build_provider_placeholder prov ref = ''{{secret/'' @ prov @ '':'' @ ref @ ''}}''"

text \<open>The replacements are a JavaScript Map: pairs in insertion order, each placeholder once.\<close>

type_synonym replacements = "(string \<times> string) list"

definition set_replacement :: "string \<Rightarrow> string \<Rightarrow> replacements \<Rightarrow> replacements" where
  "set_replacement k v m =
     upsert (\<lambda>r. fst r = k) (\<lambda>r. (k, v)) (k, v) m"

definition replace_secret_placeholders :: "string \<Rightarrow> replacements \<Rightarrow> string" where
  "replace_secret_placeholders value m = foldl (\<lambda>next (p, v). replace_all next p v) value m"

section \<open>Lemmas\<close>

lemma name_char_not: "name_char c \<Longrightarrow> c \<noteq> CHR ''{'' \<and> c \<noteq> CHR ''}'' \<and> c \<noteq> CHR ''|'' \<and> c \<noteq> CHR '':'' \<and> c \<noteq> CHR '',''"
  by (auto simp: name_char_def is_alnum_def is_digit_def is_lower_def is_upper_def in_range_def unit_of_def)

lemma takeWhile_name:
  assumes "list_all name_char name" "\<not> name_char c"
  shows "takeWhile name_char (name @ c # r) = name" "dropWhile name_char (name @ c # r) = c # r"
  using assms by (induction name) auto

lemma match_secret_starts: "match_secret s \<noteq> None \<Longrightarrow> starts_with s ''{{secret:''"
  by (auto simp: match_secret_def split: if_splits)

lemma match_basic_starts: "match_basic s \<noteq> None \<Longrightarrow> starts_with s ''{{secret-basic:''"
  by (auto simp: match_basic_def starts_with_iff split: if_splits)

lemma match_integration_starts: "match_integration s \<noteq> None \<Longrightarrow> starts_with s ''{{integration-token:''"
  by (auto simp: match_integration_def split: if_splits)

lemma match_provider_starts: "match_provider s \<noteq> None \<Longrightarrow> starts_with s ''{{secret/''"
  by (auto simp: match_provider_def split: if_splits)

lemma match_secret_build:
  assumes "name \<noteq> []" "list_all name_char name"
  shows "match_secret (build_secret_placeholder name sc @ post) =
    Some (\<lparr>rs_placeholder = build_secret_placeholder name sc, rs_name = name, rs_scope = sc\<rparr>,
      length (build_secret_placeholder name sc))"
proof -
  have n: "\<not> name_char CHR ''}''" "\<not> name_char CHR ''|''"
    using name_char_not by blast+
  define b where "b = build_secret_placeholder name sc"
  obtain c e where ce: "b = ''{{secret:'' @ name @ c # e" "\<not> name_char c"
      "match_scope_end (c # e @ post) = Some (map_option scope_text sc, length (c # e))"
    using n by (cases sc; cases "the sc")
      (auto simp: b_def build_secret_placeholder_def match_scope_end_def scope_text_def)
  have scope: "parse_scope (map_option scope_text sc) = sc"
    by (cases sc; cases "the sc") (auto simp: parse_scope_def scope_text_def)
  have "starts_with (b @ post) ''{{secret:''" "drop 9 (b @ post) = name @ c # e @ post"
    unfolding ce(1) by simp_all
  moreover have len: "length b = 9 + length name + length (c # e)" unfolding ce(1) by simp
  moreover have "take (9 + length name + length (c # e)) (b @ post) = b"
    unfolding len [symmetric] by simp
  ultimately show ?thesis
    using assms(1) ce(3)
    by (simp only: match_secret_def Let_def takeWhile_name [OF assms(2) ce(2)]
        flip: b_def) (simp add: scope)
qed

text \<open>A placeholder built for a well-formed secret name and scope is found in any text
  around it, read back with the same name and scope, and does not disturb what follows it.\<close>

theorem secret_placeholder_roundtrip:
  assumes "name \<noteq> []" "list_all name_char name" "CHR ''{'' \<notin> set pre"
  shows "parse_secret_placeholders (pre @ build_secret_placeholder name sc @ post) =
    \<lparr>rs_placeholder = build_secret_placeholder name sc, rs_name = name, rs_scope = sc\<rparr>
      # parse_secret_placeholders post"
proof -
  let ?b = "build_secret_placeholder name sc"
  have "match_secret (c # t) = None" if "c \<in> set pre" for c t
    using that assms(3) match_secret_starts [of "c # t"] by (cases "match_secret (c # t)") auto
  then have "parse_secret_placeholders (pre @ ?b @ post) = parse_secret_placeholders (?b @ post)"
    unfolding parse_secret_placeholders_def by (rule match_all_pre)
  moreover have "?b \<noteq> []" by (simp add: build_secret_placeholder_def split: option.split)
  ultimately show ?thesis
    using match_all_hit [where m = match_secret and s = "?b @ post", OF match_secret_build [OF assms(1,2)]]
    by (simp add: parse_secret_placeholders_def)
qed

theorem secret_placeholder_roundtrip_witness:
  "parse_secret_placeholders (''Bearer '' @ build_secret_placeholder ''gh.token'' (Some ScopePackage) @ ''!'') =
    \<lparr>rs_placeholder = build_secret_placeholder ''gh.token'' (Some ScopePackage), rs_name = ''gh.token'',
      rs_scope = Some ScopePackage\<rparr> # parse_secret_placeholders ''!''"
proof (rule secret_placeholder_roundtrip)
  show "list_all name_char ''gh.token''" by code_simp
qed simp_all

text \<open>The cheap test the gateway makes first is complete: a text in which any of the four
  placeholder kinds is found is never taken for one without placeholders and forwarded as it is.\<close>

theorem no_placeholder_overlooked:
  "\<not> contains_secret_placeholder v \<Longrightarrow> collect_placeholders v =
    \<lparr>ph_secrets = [], ph_basic = [], ph_integrations = [], ph_providers = []\<rparr>"
proof -
  assume no: "\<not> contains_secret_placeholder v"
  have hit: False if "match_all m 0 v \<noteq> []" "\<And>s. m s \<noteq> None \<Longrightarrow> starts_with s ''{{secret/''
      \<or> starts_with s ''{{secret:'' \<or> starts_with s ''{{secret-basic:'' \<or> starts_with s ''{{integration-token:''"
    for m :: "string \<Rightarrow> ('a \<times> nat) option"
    using match_all_some_hit [OF that(1)] that(2) no
    unfolding contains_secret_placeholder_def test_any_iff by (meson less_imp_le_nat)
  have "match_all match_secret 0 v = []"
    using hit [of match_secret] match_secret_starts by blast
  moreover have "match_all match_basic 0 v = []"
    using hit [of match_basic] match_basic_starts by blast
  moreover have "match_all match_integration 0 v = []"
    using hit [of match_integration] match_integration_starts by blast
  moreover have "match_all match_provider 0 v = []"
    using hit [of match_provider] match_provider_starts by blast
  ultimately show ?thesis
    by (simp add: collect_placeholders_def parse_secret_placeholders_def parse_basic_placeholders_def
        parse_integration_placeholders_def parse_provider_placeholders_def)
qed

theorem no_placeholder_overlooked_witness:
  "collect_placeholders ''a {{secret }} b'' =
    \<lparr>ph_secrets = [], ph_basic = [], ph_integrations = [], ph_providers = []\<rparr>"
proof (rule no_placeholder_overlooked)
  show "\<not> contains_secret_placeholder ''a {{secret }} b''" by code_simp
qed

text \<open>A resolved value without a dollar sign is put verbatim in place of its placeholder, and
  the text around the placeholder is kept as it is.\<close>

theorem plain_secret_injected_verbatim:
  assumes "CHR ''$'' \<notin> set v" "CHR ''{'' \<notin> set pre" "CHR ''{'' \<notin> set post"
  shows "replace_secret_placeholders (pre @ build_secret_placeholder name sc @ post)
      [(build_secret_placeholder name sc, v)] = pre @ v @ post"
proof -
  let ?b = "build_secret_placeholder name sc"
  have b: "?b \<noteq> []" "hd ?b = CHR ''{''"
    by (simp_all add: build_secret_placeholder_def split: option.split)
  have "replace_all (post @ []) ?b v = post @ replace_all [] ?b v"
    using assms(1,3) b by (intro replace_all_pre) auto
  then have "replace_all post ?b v = post" by (simp add: replace_all_def)
  moreover have "replace_all (pre @ ?b @ post) ?b v = pre @ replace_all (?b @ post) ?b v"
    using assms(1,2) b by (intro replace_all_pre) auto
  ultimately show ?thesis
    using replace_all_hit [OF assms(1) b(1)] by (simp add: replace_secret_placeholders_def)
qed

theorem plain_secret_injected_verbatim_witness:
  "replace_secret_placeholders (''Bearer '' @ build_secret_placeholder ''gh'' None @ ''!'')
      [(build_secret_placeholder ''gh'' None, ''s3cr3t'')] = ''Bearer '' @ ''s3cr3t'' @ ''!''"
  by (rule plain_secret_injected_verbatim) simp_all

text \<open>A dollar sign in a value is not safe: \<open>String.replaceAll\<close> expands replacement patterns,
  so a value that holds two dollar signs in a row loses one of them on its way into the request.\<close>

theorem dollar_secret_altered:
  assumes "CHR ''$'' \<notin> set v" "CHR ''$'' \<notin> set w"
  shows "replace_secret_placeholders (build_secret_placeholder name sc)
      [(build_secret_placeholder name sc, v @ ''$$'' @ w)] = v @ ''$'' @ w"
proof -
  have "build_secret_placeholder name sc \<noteq> []"
    by (simp add: build_secret_placeholder_def split: option.split)
  then show ?thesis
    by (simp add: replace_secret_placeholders_def replace_all_self get_substitution_append_plain [OF assms(1)]
        get_substitution_plain [OF assms(2)])
qed

theorem dollar_secret_altered_witness:
  "replace_secret_placeholders (build_secret_placeholder ''pw'' None)
      [(build_secret_placeholder ''pw'' None, ''pa'' @ ''$$'' @ ''w'')] = ''pa'' @ ''$'' @ ''w''"
  by (rule dollar_secret_altered) simp_all

end
