(* ===== verification/HostAllowlist.thy ===== *)
theory HostAllowlist
  imports JsValue
begin

text \<open>
  src/src/lib/host-allowlist.ts: IP literals, CIDR ranges, the operator's allowlist of
  private hosts, and the test for private addresses. A bigint address is an integer
  from 0 to below \<open>2 ^ 32\<close> or \<open>2 ^ 128\<close>; the shifts and masks are the bit operations of
  the source. An entry that does not parse carries the reason; the message texts (and
  the hint that \<open>formatIpv4\<close> builds for them) are not modelled.
\<close>

unbundle bit_operations_syntax

section \<open>Parsing IP literals\<close>

definition one_to_three_digits :: "string \<Rightarrow> bool" where
  "one_to_three_digits s = (all_digits s \<and> length s \<le> 3)"

fun parse_ipv4_parts :: "string list \<Rightarrow> int \<Rightarrow> int option" where
  "parse_ipv4_parts [] acc = Some acc"
| "parse_ipv4_parts (p # ps) acc =
     (if \<not> one_to_three_digits p then None
      else if digits_value 10 p > 255 then None
      else parse_ipv4_parts ps (push_bit 8 acc OR digits_value 10 p))"

definition parse_ipv4 :: "string \<Rightarrow> int option" where
  "parse_ipv4 s =
     (let parts = split_on CHR ''.'' s
      in if length parts \<noteq> 4 then None else parse_ipv4_parts parts 0)"

definition ipv6_char :: "char \<Rightarrow> bool" where
  "ipv6_char c = (is_digit c \<or> in_range 97 102 c \<or> c = CHR '':'' \<or> c = CHR ''.'')"

definition ipv6_group :: "string \<Rightarrow> bool" where
  "ipv6_group s = (s \<noteq> [] \<and> length s \<le> 4 \<and> list_all (\<lambda>c. is_digit c \<or> in_range 97 102 c) s)"

definition groups_of :: "string \<Rightarrow> string list" where
  "groups_of half = (if half = [] then [] else split_on CHR '':'' half)"

text \<open>\<open>pushGroups\<close>: the 16-bit words of one half; a dotted IPv4 tail only as the last group.\<close>

fun push_groups :: "string list \<Rightarrow> int list option" where
  "push_groups [] = Some []"
| "push_groups (g # gs) =
     (if contains g ''.'' then
        (if gs \<noteq> [] then None
         else case parse_ipv4 g of
           None \<Rightarrow> None
         | Some v \<Rightarrow> Some [drop_bit 16 v, v AND 0xffff])
      else if \<not> ipv6_group g then None
      else map_option (Cons (digits_value 16 g)) (push_groups gs))"

definition words_value :: "int list \<Rightarrow> int" where
  "words_value ws = foldl (\<lambda>acc w. push_bit 16 acc OR w) 0 ws"

definition parse_ipv6 :: "string \<Rightarrow> int option" where
  "parse_ipv6 s =
     (if \<not> (s \<noteq> [] \<and> list_all ipv6_char s) \<or> \<not> contains s '':'' then None
      else let halves = split_str ''::'' s in
        if length halves > 2 then None
        else case push_groups (groups_of (halves ! 0)) of
          None \<Rightarrow> None
        | Some hw \<Rightarrow>
          (case push_groups (if length halves = 2 then groups_of (halves ! 1) else []) of
             None \<Rightarrow> None
           | Some tw \<Rightarrow>
             (let missing = 8 - int (length hw) - int (length tw) in
              if (if length halves = 2 then missing < 1 else missing \<noteq> 0) then None
              else Some (words_value (hw @ replicate (nat missing) 0 @ tw)))))"

datatype ip_version = V4 | V6

definition strip_brackets :: "string \<Rightarrow> string" where
  "strip_brackets s =
     (let a = (if starts_with s ''['' then tl s else s)
      in if ends_with a '']'' then butlast a else a)"

definition mapped_prefix :: int where
  "mapped_prefix = push_bit 32 0xffff"

definition parse_ip_literal :: "string \<Rightarrow> (ip_version \<times> int) option" where
  "parse_ip_literal host =
     (let text = strip_brackets (to_lower (trim host)) in
      case parse_ipv4 text of
        Some v \<Rightarrow> Some (V4, v)
      | None \<Rightarrow>
        (case parse_ipv6 text of
           None \<Rightarrow> None
         | Some v \<Rightarrow>
           if drop_bit 32 v = 0xffff \<and> v AND mapped_prefix = mapped_prefix
           then Some (V4, v AND 0xffffffff) else Some (V6, v)))"

section \<open>CIDR ranges\<close>

definition cidr_mask :: "nat \<Rightarrow> nat \<Rightarrow> int" where
  "cidr_mask prefix width =
     (if prefix = 0 then 0 else push_bit (width - prefix) (2 ^ prefix - 1))"

definition in_cidr :: "int \<Rightarrow> int \<Rightarrow> nat \<Rightarrow> nat \<Rightarrow> bool" where
  "in_cidr value network prefix width =
     (let m = cidr_mask prefix width in value AND m = network AND m)"

definition width_of :: "ip_version \<Rightarrow> nat" where
  "width_of v = (case v of V4 \<Rightarrow> 32 | V6 \<Rightarrow> 128)"

text \<open>The address tables, each literal parsed as in the source.\<close>

definition private_v4_table :: "(string \<times> nat) list" where
  "private_v4_table =
     [(''0.0.0.0'', 8), (''10.0.0.0'', 8), (''100.64.0.0'', 10), (''127.0.0.0'', 8),
      (''169.254.0.0'', 16), (''172.16.0.0'', 12), (''192.0.0.0'', 24), (''192.168.0.0'', 16),
      (''198.18.0.0'', 15), (''224.0.0.0'', 4), (''240.0.0.0'', 4), (''255.255.255.255'', 32)]"

definition private_v6_table :: "(string \<times> nat) list" where
  "private_v6_table =
     [(''64:ff9b:1::'', 48), (''fc00::'', 7), (''fe80::'', 10), (''fec0::'', 10),
      (''ff00::'', 8), (''100::'', 64)]"

definition private_v4 :: "(int \<times> nat) list" where
  "private_v4 = map (\<lambda>(a, p). (the (parse_ipv4 a), p)) private_v4_table"

definition private_v6 :: "(int \<times> nat) list" where
  "private_v6 = map (\<lambda>(a, p). (the (parse_ipv6 a), p)) private_v6_table"

definition is_private_v4 :: "int \<Rightarrow> bool" where
  "is_private_v4 v = list_ex (\<lambda>(network, p). in_cidr v network p 32) private_v4"

definition is_private_v6 :: "int \<Rightarrow> bool" where
  "is_private_v6 v =
     (let low32 = v AND 0xffffffff; top96 = drop_bit 32 v in
      if top96 = 0 \<or> top96 = 0xffff0000 \<or> top96 = push_bit 64 0x64ff9b then is_private_v4 low32
      else if drop_bit 112 v = 0x2002 then is_private_v4 (drop_bit 80 v AND 0xffffffff)
      else list_ex (\<lambda>(network, p). in_cidr v network p 128) private_v6)"

definition is_private_ip :: "string \<Rightarrow> bool" where
  "is_private_ip host =
     (case parse_ip_literal host of
        None \<Rightarrow> False
      | Some (ver, v) \<Rightarrow> (case ver of V4 \<Rightarrow> is_private_v4 v | V6 \<Rightarrow> is_private_v6 v))"

definition is_private_hostname :: "string \<Rightarrow> bool" where
  "is_private_hostname hostname =
     (let host = to_lower hostname in
      if is_private_ip host then True
      else if contains host '':'' then False
      else host = ''localhost'' \<or> ends_with host ''.localhost'' \<or> ends_with host ''.internal''
        \<or> ends_with host ''.local'' \<or> \<not> contains host ''.'')"

section \<open>Allowlist entries\<close>

datatype entry =
    HostEntry string
  | SuffixEntry string
  | CidrEntry ip_version int nat

datatype entry_error =
    EmptyEntry
  | InvalidPrefix
  | NotAnIpRange
  | UnmatchableEntry
  | PrefixAboveWidth
  | InvalidSuffix
  | InvalidHost

definition host_label_char :: "char \<Rightarrow> bool" where
  "host_label_char c = (is_digit c \<or> is_lower c \<or> c = CHR ''_'')"

definition host_label :: "string \<Rightarrow> bool" where
  "host_label l =
     (l \<noteq> [] \<and> length l \<le> 63 \<and> host_label_char (hd l) \<and> host_label_char (last l)
      \<and> list_all (\<lambda>c. host_label_char c \<or> c = CHR ''-'') l)"

definition hostname_pattern :: "string \<Rightarrow> bool" where
  "hostname_pattern s =
     (1 \<le> length s \<and> length s \<le> 253 \<and> list_all host_label (split_on CHR ''.'' s))"

definition parse_cidr_entry :: "string \<Rightarrow> entry_error + entry" where
  "parse_cidr_entry e =
     (let parts = split_on CHR ''/'' e;
          address = parts ! 0;
          prefix_text = (if 1 < length parts then parts ! 1 else []) in
      if 2 < length parts \<or> \<not> one_to_three_digits prefix_text then Inl InvalidPrefix
      else case parse_ip_literal address of
        None \<Rightarrow> Inl NotAnIpRange
      | Some (ver, v) \<Rightarrow>
        (let is_v4_text = parse_ipv4 address \<noteq> None in
         if \<not> is_v4_text \<and> ver = V4 then Inl UnmatchableEntry
         else
           (let version = (if is_v4_text then V4 else V6);
                width = width_of version;
                prefix = nat (digits_value 10 prefix_text) in
            if prefix > width then Inl PrefixAboveWidth
            else
              (let value = (if version = V4 then v
                            else case parse_ipv6 (strip_brackets address) of Some w \<Rightarrow> w | None \<Rightarrow> 0)
               in Inr (CidrEntry version (value AND cidr_mask prefix width) prefix)))))"

definition parse_entry :: "string \<Rightarrow> entry_error + entry" where
  "parse_entry raw =
     (let e = to_lower (trim raw) in
      if e = [] then Inl EmptyEntry
      else if contains e ''/'' then parse_cidr_entry e
      else case parse_ip_literal e of
        Some (ver, v) \<Rightarrow> Inr (CidrEntry ver v (width_of ver))
      | None \<Rightarrow>
        if starts_with e ''*.'' then
          (let suffix = drop 2 e in
           if hostname_pattern suffix then Inr (SuffixEntry (CHR ''.'' # suffix)) else Inl InvalidSuffix)
        else if hostname_pattern e then Inr (HostEntry e) else Inl InvalidHost)"

text \<open>\<open>replace(/^\[|\](?=\/|$)/g, '')\<close>: the leading bracket and every closing bracket before a
  slash or the end go.\<close>

fun drop_closing :: "string \<Rightarrow> string" where
  "drop_closing [] = []"
| "drop_closing (c # s) =
     (if c = CHR '']'' \<and> (s = [] \<or> hd s = CHR ''/'') then drop_closing s else c # drop_closing s)"

definition normalize_allowlist_entry :: "string \<Rightarrow> entry_error + string" where
  "normalize_allowlist_entry raw =
     (case parse_entry raw of
        Inl e \<Rightarrow> Inl e
      | Inr _ \<Rightarrow>
        (let e = to_lower (trim raw)
         in Inr (drop_closing (if starts_with e ''['' then tl e else e))))"

fun parse_host_parts :: "string list \<Rightarrow> entry_error + string list" where
  "parse_host_parts [] = Inr []"
| "parse_host_parts (p # ps) =
     (if trim p = [] then parse_host_parts ps
      else case normalize_allowlist_entry p of
        Inl e \<Rightarrow> Inl e
      | Inr n \<Rightarrow> (case parse_host_parts ps of Inl e \<Rightarrow> Inl e | Inr ns \<Rightarrow> Inr (n # ns)))"

definition parse_host_allowlist :: "string option \<Rightarrow> entry_error + string list" where
  "parse_host_allowlist raw =
     parse_host_parts (split_on CHR '','' (case raw of None \<Rightarrow> [] | Some s \<Rightarrow> s))"

definition in_range_entry :: "ip_version \<times> int \<Rightarrow> ip_version \<Rightarrow> int \<Rightarrow> nat \<Rightarrow> bool" where
  "in_range_entry ip version network prefix =
     (fst ip = version \<and> in_cidr (snd ip) network prefix (width_of version))"

definition entry_matches :: "string \<Rightarrow> (ip_version \<times> int) option \<Rightarrow> entry \<Rightarrow> bool" where
  "entry_matches host ip e =
     (case e of
        CidrEntry ver network prefix \<Rightarrow>
          (case ip of Some a \<Rightarrow> in_range_entry a ver network prefix | None \<Rightarrow> False)
      | SuffixEntry suffix \<Rightarrow>
          ip = None \<and> ends_with host suffix \<and> length host > length suffix
      | HostEntry h \<Rightarrow> ip = None \<and> host = h)"

definition host_matches_allowlist :: "string \<Rightarrow> string list \<Rightarrow> bool" where
  "host_matches_allowlist hostname entries =
     (let host = strip_brackets (to_lower (trim hostname));
          ip = parse_ip_literal host
      in list_ex (\<lambda>raw. case parse_entry raw of Inl _ \<Rightarrow> False | Inr e \<Rightarrow> entry_matches host ip e)
           entries)"

section \<open>Ranges as intervals\<close>

lemma mask_as_push_bit: "cidr_mask p w = push_bit (w - p) (mask p)"
  by (simp add: cidr_mask_def mask_eq_exp_minus_1)

lemma and_cidr_mask: "v AND cidr_mask p w = push_bit (w - p) (take_bit p (drop_bit (w - p) v))"
  unfolding mask_as_push_bit
  by (rule bit_eqI)
     (auto simp: bit_and_iff bit_push_bit_iff bit_mask_iff bit_take_bit_iff bit_drop_bit_eq)

lemma take_drop_bit_id:
  assumes "0 \<le> v" "v < 2 ^ w" "p \<le> w"
  shows "take_bit p (drop_bit (w - p) v) = (drop_bit (w - p) v :: int)"
proof -
  have "v < 2 ^ p * 2 ^ (w - p)" using assms by (simp flip: power_add)
  moreover have "v div 2 ^ (w - p) * 2 ^ (w - p) \<le> v"
    by (simp flip: minus_mod_eq_div_mult)
  ultimately have "v div 2 ^ (w - p) * 2 ^ (w - p) < 2 ^ p * 2 ^ (w - p)" by linarith
  then have "v div 2 ^ (w - p) < 2 ^ p"
    by (rule mult_right_less_imp_less) simp
  then show ?thesis
    using assms(1) by (simp add: take_bit_int_eq_self_iff drop_bit_eq_div pos_imp_zdiv_nonneg_iff)
qed

lemma in_cidr_div:
  assumes "0 \<le> v" "v < 2 ^ w" "0 \<le> n" "n < 2 ^ w" "p \<le> w"
  shows "in_cidr v n p w \<longleftrightarrow> v div 2 ^ (w - p) = n div 2 ^ (w - p)"
  using take_drop_bit_id [OF assms(1,2,5)] take_drop_bit_id [OF assms(3,4,5)]
  by (simp add: in_cidr_def and_cidr_mask push_bit_eq_mult drop_bit_eq_div)

text \<open>A CIDR range, tested with the mask arithmetic of the source, is exactly the
  interval of the \<open>2 ^ (width - prefix)\<close> addresses that starts at the network address with its low
  bits cleared.\<close>

theorem in_cidr_interval:
  assumes "0 \<le> v" "v < 2 ^ w" "0 \<le> n" "n < 2 ^ w" "p \<le> w"
  shows "in_cidr v n p w \<longleftrightarrow>
    n - n mod 2 ^ (w - p) \<le> v \<and> v < n - n mod 2 ^ (w - p) + 2 ^ (w - p)"
proof -
  define b :: int where "b = 2 ^ (w - p)"
  have b: "0 < b" by (simp add: b_def)
  have "v div b = n div b \<longleftrightarrow> n div b * b \<le> v \<and> v < n div b * b + b"
  proof
    assume "v div b = n div b"
    then show "n div b * b \<le> v \<and> v < n div b * b + b"
      using b by (metis add.commute add_less_cancel_left div_mult_mod_eq le_add_same_cancel1
          pos_mod_bound pos_mod_sign)
  next
    assume "n div b * b \<le> v \<and> v < n div b * b + b"
    then show "v div b = n div b"
      using b by (intro int_div_pos_eq [of v b "n div b" "v - n div b * b"]) auto
  qed
  moreover have "n div b * b = n - n mod b" by (simp add: minus_mod_eq_div_mult)
  ultimately show ?thesis
    using in_cidr_div [OF assms] by (simp add: b_def)
qed

theorem in_cidr_interval_witness:
  "in_cidr 0x0a010203 0x0a000000 8 32 \<longleftrightarrow>
    (0x0a000000 - 0x0a000000 mod 2 ^ (32 - 8) \<le> (0x0a010203 :: int)
     \<and> 0x0a010203 < 0x0a000000 - 0x0a000000 mod 2 ^ (32 - 8) + (2 ^ (32 - 8) :: int))"
  using in_cidr_interval [of "0x0a010203" 32 "0x0a000000" 8] by simp

section \<open>Private addresses hidden in IPv6\<close>

lemma low_bits_embed:
  assumes "0 \<le> a" "a < 2 ^ 32"
  shows "(push_bit 32 t + a) AND 0xffffffff = (a::int)" "drop_bit 32 (push_bit 32 t + a) = (t::int)"
proof -
  have m: "(0xffffffff :: int) = mask 32" by (simp add: mask_eq_exp_minus_1)
  show "(push_bit 32 t + a) AND 0xffffffff = a"
    unfolding m using assms
    by (simp add: take_bit_eq_mask [symmetric] take_bit_eq_mod push_bit_eq_mult mod_add_left_eq)
  show "drop_bit 32 (push_bit 32 t + a) = t"
    using assms by (simp add: drop_bit_eq_div push_bit_eq_mult)
qed

lemma sixtofour_bits:
  assumes "0 \<le> a" "a < 2 ^ 32" "0 \<le> r" "r < 2 ^ 80"
  shows "drop_bit 112 (push_bit 112 0x2002 + push_bit 80 a + r) = (0x2002::int)"
    and "drop_bit 80 (push_bit 112 0x2002 + push_bit 80 a + r) AND 0xffffffff = (a::int)"
    and "drop_bit 32 (push_bit 112 0x2002 + push_bit 80 a + r) div 2 ^ 80 = (0x2002::int)"
proof -
  let ?v = "push_bit 112 0x2002 + push_bit 80 a + r"
  have v: "?v = (0x2002 * 2 ^ 32 + a) * 2 ^ 80 + r"
    by (simp add: push_bit_eq_mult algebra_simps)
  then have d80: "?v div 2 ^ 80 = push_bit 32 0x2002 + a"
    using assms(3,4) by (simp add: push_bit_eq_mult)
  have "?v div 2 ^ 112 = ?v div 2 ^ 80 div 2 ^ 32"
    by (simp add: div_mult2_eq' flip: zdiv_zmult2_eq)
  then show d112: "drop_bit 112 ?v = 0x2002"
    unfolding drop_bit_eq_div d80 using low_bits_embed(2) [OF assms(1,2), of "0x2002"]
    by (simp add: drop_bit_eq_div)
  show "drop_bit 80 ?v AND 0xffffffff = a"
    unfolding drop_bit_eq_div d80 using low_bits_embed(1) [OF assms(1,2)] .
  have "drop_bit 32 ?v div 2 ^ 80 = ?v div 2 ^ 112"
    by (simp add: drop_bit_eq_div flip: zdiv_zmult2_eq)
  then show "drop_bit 32 ?v div 2 ^ 80 = 0x2002"
    using d112 by (simp add: drop_bit_eq_div)
qed

lemma is_private_v6_sixtofour:
  assumes "0 \<le> a" "a < 2 ^ 32" "0 \<le> r" "r < 2 ^ 80"
  shows "is_private_v6 (push_bit 112 0x2002 + push_bit 80 a + r) = is_private_v4 a"
proof -
  let ?v = "push_bit 112 0x2002 + push_bit 80 a + r"
  note bits = sixtofour_bits [OF assms]
  have "drop_bit 32 ?v \<noteq> t" if "t div 2 ^ 80 \<noteq> 0x2002" for t
    using that bits(3) by metis
  then have "drop_bit 32 ?v \<noteq> 0" "drop_bit 32 ?v \<noteq> 0xffff0000" "drop_bit 32 ?v \<noteq> push_bit 64 0x64ff9b"
    by (simp_all add: push_bit_eq_mult)
  then show ?thesis
    unfolding is_private_v6_def Let_def bits(1,2) by (simp only: simp_thms if_False if_True)
qed

text \<open>An IPv4 address hidden in an IPv6 address is judged by the IPv4 table alone:
  in the compatible \<open>::a.b.c.d\<close>, the translated \<open>::ffff:0:a.b.c.d\<close>, the NAT64 \<open>64:ff9b::a.b.c.d\<close> and,
  whatever its remaining 80 bits are, the 6to4 form \<open>2002::/16\<close>, the IPv6 address is private
  exactly when the IPv4 address is, so no such form reaches a private host that its dotted form
  does not.\<close>

theorem embedded_ipv4_private:
  assumes "0 \<le> a" "a < 2 ^ 32" "0 \<le> r" "r < 2 ^ 80"
  shows "is_private_v6 a = is_private_v4 a
    \<and> is_private_v6 (push_bit 32 0xffff0000 + a) = is_private_v4 a
    \<and> is_private_v6 (push_bit 96 0x64ff9b + a) = is_private_v4 a
    \<and> is_private_v6 (push_bit 112 0x2002 + push_bit 80 a + r) = is_private_v4 a"
proof (intro conjI)
  show "is_private_v6 a = is_private_v4 a"
    using low_bits_embed [OF assms(1,2), of 0] by (simp add: is_private_v6_def)
  show "is_private_v6 (push_bit 32 0xffff0000 + a) = is_private_v4 a"
    unfolding is_private_v6_def Let_def low_bits_embed [OF assms(1,2)] by simp
  have "push_bit 96 0x64ff9b = push_bit 32 (push_bit 64 (0x64ff9b :: int))"
    by (simp add: push_bit_eq_mult)
  then show "is_private_v6 (push_bit 96 0x64ff9b + a) = is_private_v4 a"
    unfolding is_private_v6_def Let_def by (simp only: low_bits_embed [OF assms(1,2)] simp_thms if_True)
  show "is_private_v6 (push_bit 112 0x2002 + push_bit 80 a + r) = is_private_v4 a"
    by (rule is_private_v6_sixtofour) (fact assms)+
qed

theorem embedded_ipv4_private_witness:
  "is_private_v6 (push_bit 96 0x64ff9b + 0x0a000001) = is_private_v4 0x0a000001"
  using embedded_ipv4_private [of "0x0a000001" 0] by simp

end
