(* ===== verification/HostPolicy.thy ===== *)
theory HostPolicy
  imports HostAllowlist
begin

text \<open>
  src/src/secrets/host-policy.ts: which hosts a credential may travel to. The WHATWG URL
  parser is not modelled; a parsed URL is a record of the components the program reads
  (and functions that parse take the parser as an argument). \<open>protocol\<close> keeps its colon,
  as in JavaScript.
\<close>

record url =
  protocol :: string
  username :: string
  password :: string
  hostname :: string
  pathname :: string
  search :: string
  hash :: string
  href :: string

section \<open>Approved hosts\<close>

definition ipv4_octet :: "string \<Rightarrow> bool" where
  "ipv4_octet s =
     (all_digits s \<and>
      (length s \<le> 2
       \<or> length s = 3 \<and>
         (s ! 0 = CHR ''1''
          \<or> s ! 0 = CHR ''2'' \<and> in_range 48 52 (s ! 1)
          \<or> s ! 0 = CHR ''2'' \<and> s ! 1 = CHR ''5'' \<and> in_range 48 53 (s ! 2))))"

definition ipv4_regex :: "string \<Rightarrow> bool" where
  "ipv4_regex s = (let ps = split_on CHR ''.'' s in length ps = 4 \<and> list_all ipv4_octet ps)"

definition secret_label_char :: "char \<Rightarrow> bool" where
  "secret_label_char c = (is_digit c \<or> is_lower c)"

definition secret_label :: "string \<Rightarrow> bool" where
  "secret_label l =
     (l \<noteq> [] \<and> length l \<le> 63 \<and> secret_label_char (hd l) \<and> secret_label_char (last l)
      \<and> list_all (\<lambda>c. secret_label_char c \<or> c = CHR ''-'') l)"

definition hostname_regex :: "string \<Rightarrow> bool" where
  "hostname_regex s =
     (1 \<le> length s \<and> length s \<le> 253 \<and> list_all secret_label (split_on CHR ''.'' s))"

definition has_char :: "char \<Rightarrow> string \<Rightarrow> bool" where
  "has_char c s = list_ex (\<lambda>d. d = c) s"

definition normalize_secret_host :: "string \<Rightarrow> string res" where
  "normalize_secret_host input =
     (let raw = to_lower (trim input) in
      if raw = [] then fails ''invalid_host''
      else if has_char CHR ''/'' raw \<or> has_char CHR ''?'' raw \<or> has_char CHR ''#'' raw
        \<or> has_char CHR ''@'' raw then fails ''invalid_host''
      else if starts_with raw ''['' \<and> ends_with raw '']'' then
        (let inner = butlast (tl raw) in
         if \<not> (inner \<noteq> [] \<and> list_all ipv6_char inner) \<or> \<not> has_char CHR '':'' inner
         then fails ''invalid_host'' else Inr raw)
      else
        (let wildcard = starts_with raw ''*.'';
             host = (if wildcard then drop 2 raw else raw) in
         if has_char CHR '':'' host then fails ''invalid_host''
         else if ipv4_regex host then
           (if wildcard then fails ''invalid_host'' else Inr host)
         else if \<not> hostname_regex host then fails ''invalid_host''
         else if wildcard \<and> \<not> has_char CHR ''.'' host then fails ''invalid_host''
         else Inr (if wildcard then ''*.'' @ host else host)))"

definition request_host :: "url \<Rightarrow> string" where
  "request_host u = to_lower (hostname u)"

definition host_matches_approval :: "string \<Rightarrow> string \<Rightarrow> bool" where
  "host_matches_approval host approved =
     (if starts_with approved ''*.'' then
        (let suffix = tl approved in ends_with host suffix \<and> length host > length suffix)
      else host = approved)"

definition is_host_approved :: "string \<Rightarrow> string list \<Rightarrow> bool" where
  "is_host_approved host approved = list_ex (host_matches_approval host) approved"

definition is_credential_transport_allowed :: "url \<Rightarrow> string list \<Rightarrow> bool" where
  "is_credential_transport_allowed u private_hosts =
     (if protocol u = ''https:'' then True
      else if protocol u \<noteq> ''http:'' then False
      else host_matches_allowlist (request_host u) private_hosts)"

definition is_loopback_host :: "string \<Rightarrow> bool" where
  "is_loopback_host host =
     (host = ''localhost'' \<or> ends_with host ''.localhost'' \<or> host = ''127.0.0.1''
      \<or> host = ''[::1]'' \<or> host = ''::1'')"

section \<open>The host policy as an interface\<close>

text \<open>What the gateway and the provider store rely on when they ask for an approval: an approval
  names one host, or with \<open>*.\<close> the proper subdomains of a name; more approvals never revoke one.\<close>

locale approval_policy =
  fixes matches :: "string \<Rightarrow> string \<Rightarrow> bool"
    and approved :: "string \<Rightarrow> string list \<Rightarrow> bool"
  assumes approved_iff: "approved h as \<longleftrightarrow> (\<exists>a\<in>set as. matches h a)"
    and exact_match: "\<not> starts_with a ''*.'' \<Longrightarrow> matches h a \<longleftrightarrow> h = a"
    and wildcard_match: "matches h (''*.'' @ d) \<longleftrightarrow> (\<exists>sub. sub \<noteq> [] \<and> h = sub @ ''.'' @ d)"
begin

lemma approved_mono: "approved h as \<Longrightarrow> set as \<subseteq> set bs \<Longrightarrow> approved h bs"
  by (auto simp: approved_iff)

lemma approved_append: "approved h (as @ bs) \<longleftrightarrow> approved h as \<or> approved h bs"
  by (auto simp: approved_iff)

lemma nothing_approved: "\<not> approved h []"
  by (simp add: approved_iff)

lemma wildcard_not_parent: "\<not> matches d (''*.'' @ d)"
  using wildcard_match [of d d] by (auto dest: arg_cong [where f = length])

lemma approved_cases:
  assumes "approved h as"
  obtains "h \<in> set as" | d sub where "''*.'' @ d \<in> set as" "sub \<noteq> []" "h = sub @ ''.'' @ d"
proof -
  obtain a where a: "a \<in> set as" "matches h a" using assms by (auto simp: approved_iff)
  show thesis
  proof (cases "starts_with a ''*.''")
    case True
    then obtain d where "a = ''*.'' @ d" by (auto simp: starts_with_iff)
    with a that(2) show thesis using wildcard_match [of h d] by blast
  next
    case False
    with a that(1) show thesis by (simp add: exact_match)
  qed
qed

end

lemma host_matches_wildcard:
  "host_matches_approval h (''*.'' @ d) \<longleftrightarrow> (\<exists>sub. sub \<noteq> [] \<and> h = sub @ ''.'' @ d)"
  by (auto simp: host_matches_approval_def ends_with_iff)

interpretation hp: approval_policy host_matches_approval is_host_approved
  by unfold_locales
     (auto simp: is_host_approved_def list_ex_iff host_matches_approval_def ends_with_iff)

section \<open>Properties\<close>

lemma has_char_iff: "has_char c s \<longleftrightarrow> c \<in> set s"
  by (auto simp: has_char_def list_ex_iff)

lemma label_char_facts:
  "secret_label_char c \<Longrightarrow> \<not> is_space c \<and> lower_char c = c \<and> c \<noteq> CHR ''['' \<and> c \<noteq> CHR ''*''"
  by (auto simp: secret_label_char_def is_digit_def is_lower_def is_space_def lower_char_def
      in_range_def unit_of_def)

lemma octet_is_label_char: "ipv4_octet s \<Longrightarrow> s \<noteq> [] \<and> list_all secret_label_char s"
  by (auto simp: ipv4_octet_def all_digits_def secret_label_char_def list_all_iff)

lemma join_words:
  assumes "ws \<noteq> []" "\<forall>w\<in>set ws. w \<noteq> [] \<and> (\<forall>c\<in>set w. P c)"
  shows "join_with [d] ws \<noteq> [] \<and> (\<forall>c\<in>set (join_with [d] ws). P c \<or> c = d)
    \<and> P (hd (join_with [d] ws)) \<and> P (last (join_with [d] ws))"
  using assms by (induction "[d]" ws rule: join_with.induct) auto

lemma dotted_words:
  assumes "\<forall>w\<in>set (split_on d s). w \<noteq> [] \<and> (\<forall>c\<in>set w. P c)"
  shows "s \<noteq> [] \<and> (\<forall>c\<in>set s. P c \<or> c = d) \<and> P (hd s) \<and> P (last s)"
  using join_words [OF split_on_nonempty assms, of d] by (simp add: join_split_on)

text \<open>A host that passed one of the two patterns consists of label characters, hyphens and dots and
  begins and ends with neither a bracket, a star nor white space.\<close>

definition host_char :: "char \<Rightarrow> bool" where
  "host_char c = (secret_label_char c \<or> c = CHR ''-'')"

lemma hosts_are_words:
  assumes "ipv4_regex h \<or> hostname_regex h"
  shows "\<forall>w\<in>set (split_on CHR ''.'' h). w \<noteq> [] \<and> (\<forall>c\<in>set w. host_char c)"
  using assms octet_is_label_char
  by (auto simp: ipv4_regex_def hostname_regex_def Let_def list_all_iff secret_label_def host_char_def)

lemma host_char_facts:
  "host_char c \<or> c = CHR ''.'' \<Longrightarrow> \<not> is_space c \<and> lower_char c = c \<and> c \<noteq> CHR ''['' \<and> c \<noteq> CHR ''*''
     \<and> c \<noteq> CHR ''/'' \<and> c \<noteq> CHR ''?'' \<and> c \<noteq> CHR ''#'' \<and> c \<noteq> CHR ''@'' \<and> c \<noteq> CHR '':''"
  by (auto simp: host_char_def secret_label_char_def is_digit_def is_lower_def is_space_def
      lower_char_def in_range_def unit_of_def)

lemma host_stable:
  assumes "ipv4_regex h \<or> hostname_regex h"
  shows "h \<noteq> [] \<and> (\<forall>c\<in>set h. host_char c \<or> c = CHR ''.'') \<and> trim h = h \<and> to_lower h = h
    \<and> trim (''*.'' @ h) = ''*.'' @ h \<and> to_lower (''*.'' @ h) = ''*.'' @ h"
proof -
  from dotted_words [OF hosts_are_words [OF assms]]
  have h: "h \<noteq> []" "\<forall>c\<in>set h. host_char c \<or> c = CHR ''.''" "host_char (hd h)" "host_char (last h)"
    by auto
  then have ends: "\<not> is_space (hd h)" "\<not> is_space (last h)"
    using host_char_facts by blast+
  have lower: "to_lower h = h"
    unfolding to_lower_def using h(2) host_char_facts by (intro map_idI) blast
  have "to_lower ''*.'' = ''*.''" "\<not> is_space CHR ''*''"
    by (simp_all add: to_lower_def lower_char_def is_space_def in_range_def unit_of_def)
  then show ?thesis
    using h ends lower by (simp add: trim_id) (simp add: to_lower_def)
qed

lemma host_has_no:
  assumes "ipv4_regex h \<or> hostname_regex h"
  shows "\<not> has_char CHR ''/'' h" "\<not> has_char CHR ''?'' h" "\<not> has_char CHR ''#'' h"
    "\<not> has_char CHR ''@'' h" "\<not> has_char CHR '':'' h" "\<not> starts_with h ''[''" "\<not> starts_with h ''*.''"
proof -
  have "\<forall>c\<in>set h. host_char c \<or> c = CHR ''.''" using host_stable [OF assms] by blast
  then have c: "c \<notin> set h" if "\<not> host_char c" "c \<noteq> CHR ''.''" for c
    using that by blast
  show "\<not> has_char CHR ''/'' h" "\<not> has_char CHR ''?'' h" "\<not> has_char CHR ''#'' h"
    "\<not> has_char CHR ''@'' h" "\<not> has_char CHR '':'' h"
    unfolding has_char_iff
    by (rule c, use host_char_facts in blast, simp)+
  have "CHR ''['' \<notin> set h" "CHR ''*'' \<notin> set h"
    by (rule c, use host_char_facts in blast, simp)+
  then show "\<not> starts_with h ''[''" "\<not> starts_with h ''*.''"
    by (auto simp: starts_with_iff)
qed

lemmas normalize_unfold = normalize_secret_host_def Let_def

text \<open>What the checks let through: the host is kept as it is, or is one of the three accepted shapes.\<close>

lemma normalize_secret_host_cases:
  assumes "normalize_secret_host i = Inr n"
  obtains (v6) "n = to_lower (trim i)" "starts_with n ''[''" "ends_with n '']''"
      "\<not> has_char CHR ''/'' n" "\<not> has_char CHR ''?'' n" "\<not> has_char CHR ''#'' n" "\<not> has_char CHR ''@'' n"
      "butlast (tl n) \<noteq> [] \<and> list_all ipv6_char (butlast (tl n))" "has_char CHR '':'' (butlast (tl n))"
  | (plain) "ipv4_regex n \<or> hostname_regex n"
  | (wildcard) h where "n = ''*.'' @ h" "hostname_regex h" "\<not> ipv4_regex h" "has_char CHR ''.'' h"
proof -
  let ?raw = "to_lower (trim i)"
  show thesis
  proof (cases "starts_with ?raw ''['' \<and> ends_with ?raw '']''")
    case True
    then show thesis
      using assms v6 by (auto simp: normalize_unfold split: if_splits)
  next
    case False
    then show thesis
      using assms plain wildcard
      by (auto simp: normalize_unfold split: if_splits)
  qed
qed

text \<open>Normalizing an approved host is idempotent: what the approval table stores is
  accepted again, unchanged, so a host approved under its normalized name can be revoked and
  re-approved under that name.\<close>

theorem normalize_secret_host_idem:
  assumes "normalize_secret_host i = Inr n"
  shows "normalize_secret_host n = Inr n"
  using assms
proof (cases rule: normalize_secret_host_cases)
  case v6
  have "\<not> is_space CHR ''[''" "\<not> is_space CHR '']''"
    by (simp_all add: is_space_def in_range_def unit_of_def)
  moreover have "n \<noteq> []" "hd n = CHR ''[''" using v6(2) by (auto simp: starts_with_iff)
  moreover have "last n = CHR '']''" using v6(3) by (auto simp: ends_with_iff)
  ultimately have "trim n = n" by (simp add: trim_id)
  moreover have "to_lower n = n" using v6(1) by simp
  ultimately show ?thesis
    using v6(2-) \<open>n \<noteq> []\<close> by (simp add: normalize_unfold)
next
  case plain
  from host_stable [OF this] host_has_no [OF this] plain show ?thesis
    by (auto simp: normalize_unfold)
next
  case (wildcard h)
  then have h: "ipv4_regex h \<or> hostname_regex h" by simp
  have "has_char c (''*.'' @ h) = (c = CHR ''*'' \<or> c = CHR ''.'' \<or> has_char c h)" for c
    by (auto simp: has_char_iff)
  moreover have "\<not> starts_with (''*.'' @ h) ''[''" "starts_with (''*.'' @ h) ''*.''" by simp_all
  ultimately show ?thesis
    using wildcard host_stable [OF h] host_has_no [OF h] by (simp add: normalize_unfold)
qed

theorem normalize_secret_host_idem_witness:
  "normalize_secret_host ''*.example.com'' = Inr ''*.example.com''"
proof (rule normalize_secret_host_idem)
  show "normalize_secret_host '' *.Example.com '' = Inr ''*.example.com''" by code_simp
qed

text \<open>A stored wildcard approval covers proper subdomains only, and of a domain that has
  at least two labels: it never matches the domain itself, a name that merely ends in the same
  letters, or everything under a top-level domain.\<close>

theorem wildcard_approval_scope:
  assumes "normalize_secret_host i = Inr a" "starts_with a ''*.''" "host_matches_approval h a"
  shows "\<exists>sub d. a = ''*.'' @ d \<and> sub \<noteq> [] \<and> h = sub @ ''.'' @ d \<and> CHR ''.'' \<in> set d
    \<and> \<not> host_matches_approval d a"
  using assms(1)
proof (cases rule: normalize_secret_host_cases)
  case v6
  with assms(2) show ?thesis by (auto simp: starts_with_iff)
next
  case plain
  with assms(2) host_has_no show ?thesis by blast
next
  case (wildcard d)
  with assms(3) obtain sub where "sub \<noteq> []" "h = sub @ ''.'' @ d"
    using hp.wildcard_match [of h d] by auto
  moreover have "\<not> host_matches_approval d a"
    using hp.wildcard_not_parent [of d] wildcard(1) by simp
  ultimately show ?thesis
    using wildcard by (auto simp: has_char_iff)
qed

theorem wildcard_approval_scope_witness:
  "\<exists>sub d. ''*.example.com'' = ''*.'' @ d \<and> sub \<noteq> [] \<and> ''api.example.com'' = sub @ ''.'' @ d \<and> CHR ''.'' \<in> set d
    \<and> \<not> host_matches_approval d ''*.example.com''"
proof (rule wildcard_approval_scope)
  show "normalize_secret_host ''*.example.com'' = Inr ''*.example.com''" by code_simp
  show "starts_with ''*.example.com'' ''*.''" by simp
  show "host_matches_approval ''api.example.com'' ''*.example.com''" by code_simp
qed

end
