(* ===== verification/Secrets.thy ===== *)
theory Secrets
  imports Quotas Keyring Placeholders HostPolicy "HOL-Library.Char_ord" "HOL-Library.List_Lexorder"
begin

text \<open>
  The secrets of one user (src/src/cells/user-cell.ts): the tables \<open>secrets\<close> and
  \<open>secret_hosts\<close> and the operations on them. A value is stored sealed under the current
  master key; the gateway reads values back with \<open>secret_resolve_values\<close>. An exception that
  is not a KodyError is \<open>internal_error\<close> with status 500, as its callers report it.
\<close>

record secret_row =
  sec_name :: string
  sec_scope :: secret_scope
  sec_package :: string
  sec_description :: "string option"
  sec_iv :: string
  sec_ciphertext :: string
  sec_key_id :: string
  sec_created :: time
  sec_updated :: time

record host_row =
  sh_host :: string
  sh_approved_at :: time
  sh_approved_by :: string

record vault =
  v_user :: "string option"
  v_secrets :: "secret_row list"
  v_hosts :: "host_row list"

text \<open>What the operations read besides the tables: the keyring, the crypto primitives, the quotas in force,
  and the order in which SQLite scans rows when a query names none.\<close>

record vault_env =
  ve_crypto :: crypto
  ve_ring :: keyring
  ve_quotas :: quotas
  ve_scan :: "secret_row list \<Rightarrow> secret_row list"

record secret_input =
  si_name :: string
  si_value :: string
  si_description :: "string option"
  si_scope :: "secret_scope option"
  si_package :: "string option"

record secret_meta =
  sm_name :: string
  sm_scope :: secret_scope
  sm_package :: "string option"
  sm_description :: "string option"
  sm_created :: time
  sm_updated :: time

section \<open>Saving, listing, deleting\<close>

definition valid_secret_name :: "string \<Rightarrow> bool" where
  "valid_secret_name n = (n \<noteq> [] \<and> list_all name_char n)"

definition user_id :: "vault \<Rightarrow> string res" where
  "user_id s =
     (case v_user s of None \<Rightarrow> Inl (KodyError ''cell_uninitialized'' 500) | Some u \<Rightarrow> Inr u)"

definition vault_init :: "string \<Rightarrow> vault \<Rightarrow> vault" where
  "vault_init uid s = (if v_user s = None then s\<lparr>v_user := Some uid\<rparr> else s)"

definition same_secret :: "string \<Rightarrow> secret_scope \<Rightarrow> string \<Rightarrow> secret_row \<Rightarrow> bool" where
  "same_secret name scope pkg r = (sec_name r = name \<and> sec_scope r = scope \<and> sec_package r = pkg)"

definition secret_meta_of :: "secret_row \<Rightarrow> secret_meta" where
  "secret_meta_of r =
     \<lparr>sm_name = sec_name r, sm_scope = sec_scope r,
      sm_package = (if sec_package r = [] then None else Some (sec_package r)),
      sm_description = sec_description r, sm_created = sec_created r, sm_updated = sec_updated r\<rparr>"

definition secret_list :: "vault \<Rightarrow> secret_meta list" where
  "secret_list s = map secret_meta_of (sort_key sec_name (v_secrets s))"

definition put_secret :: "secret_row \<Rightarrow> secret_row list \<Rightarrow> secret_row list" where
  "put_secret new =
     upsert (same_secret (sec_name new) (sec_scope new) (sec_package new))
       (\<lambda>r. r\<lparr>sec_description := (case sec_description new of None \<Rightarrow> sec_description r | Some d \<Rightarrow> Some d),
              sec_iv := sec_iv new, sec_ciphertext := sec_ciphertext new, sec_key_id := sec_key_id new,
              sec_updated := sec_updated new\<rparr>)
       new"

definition secret_save ::
  "vault_env \<Rightarrow> secret_input \<Rightarrow> string \<Rightarrow> time \<Rightarrow> vault \<Rightarrow> secret_meta res \<times> vault" where
  "secret_save E input iv now s =
     (let name = trim (si_name input);
          scope = (case si_scope input of None \<Rightarrow> ScopeUser | Some sc \<Rightarrow> sc);
          pkg = (if scope = ScopePackage then (case si_package input of None \<Rightarrow> [] | Some p \<Rightarrow> p) else [])
      in
      if \<not> valid_secret_name name then (fails ''invalid_secret_name'', s)
      else if si_value input = [] then (fails ''invalid_secret_value'', s)
      else if 64 * 1024 < length (si_value input) then (fails ''invalid_secret_value'', s)
      else if scope = ScopePackage \<and> pkg = [] then (fails ''invalid_secret_scope'', s)
      else
        (let exist = list_ex (same_secret name scope pkg) (v_secrets s)
         in
         case (if exist then Inr () else assert_quota (ve_quotas E) QSecrets (length (v_secrets s))) of
           Inl e \<Rightarrow> (Inl e, s)
         | Inr _ \<Rightarrow>
           (case ve_ring E of [] \<Rightarrow> (internal_error, s)
            | current # _ \<Rightarrow>
              (case user_id s of Inl e \<Rightarrow> (Inl e, s)
               | Inr uid \<Rightarrow>
                 (let sealed = encrypt_secret_value (ve_crypto E) iv (rk_key current) uid (si_value input);
                      s' = s\<lparr>v_secrets := put_secret
                        \<lparr>sec_name = name, sec_scope = scope, sec_package = pkg,
                         sec_description = si_description input, sec_iv = ev_iv sealed,
                         sec_ciphertext = ev_ciphertext sealed, sec_key_id = rk_id current,
                         sec_created = now, sec_updated = now\<rparr> (v_secrets s)\<rparr>
                  in
                  case find (\<lambda>m. sm_name m = name \<and> sm_scope m = scope
                         \<and> (case sm_package m of None \<Rightarrow> [] | Some p \<Rightarrow> p) = pkg) (secret_list s') of
                    None \<Rightarrow> (internal_error, s')
                  | Some m \<Rightarrow> (Inr m, s'))))))"

definition secret_delete ::
  "string \<Rightarrow> secret_scope option \<Rightarrow> string option \<Rightarrow> vault \<Rightarrow> bool \<times> vault" where
  "secret_delete name sc package s =
     (let scope = (case sc of None \<Rightarrow> ScopeUser | Some x \<Rightarrow> x);
          pkg = (if scope = ScopePackage then (case package of None \<Rightarrow> [] | Some p \<Rightarrow> p) else []);
          P = same_secret name scope pkg
      in (rows_written P (v_secrets s), s\<lparr>v_secrets := delete_where P (v_secrets s)\<rparr>))"

section \<open>Resolving values\<close>

definition sealed_of :: "secret_row \<Rightarrow> encrypted_value" where
  "sealed_of r =
     \<lparr>ev_iv = sec_iv r, ev_ciphertext = sec_ciphertext r,
      ev_key_id = (if sec_key_id r = [] then None else Some (sec_key_id r))\<rparr>"

definition open_row :: "vault_env \<Rightarrow> string \<Rightarrow> secret_row \<Rightarrow> decrypt_failure + string" where
  "open_row E uid r = decrypt_with_keyring (ve_crypto E) (ve_ring E) uid (sealed_of r)"

definition visible_to :: "secret_scope option \<Rightarrow> string option \<Rightarrow> secret_row \<Rightarrow> bool" where
  "visible_to sc package r =
     (if (case sc of None \<Rightarrow> False | Some x \<Rightarrow> sec_scope r \<noteq> x) then False
      else if sec_scope r = ScopePackage then package = Some (sec_package r)
      else True)"

definition find_secret ::
  "vault_env \<Rightarrow> string option \<Rightarrow> string \<times> secret_scope option \<Rightarrow> vault \<Rightarrow> secret_row option" where
  "find_secret E package ref s =
     find (visible_to (snd ref) package) (ve_scan E (filter (\<lambda>r. sec_name r = fst ref) (v_secrets s)))"

type_synonym resolved = "(string \<times> string) list \<times> string list"

fun resolve_refs ::
  "vault_env \<Rightarrow> string option \<Rightarrow> (string \<times> secret_scope option) list \<Rightarrow> vault \<Rightarrow> resolved \<Rightarrow> resolved res" where
  "resolve_refs E package [] s acc = Inr acc"
| "resolve_refs E package (ref # refs) s (values, missing) =
     (case find_secret E package ref s of
        None \<Rightarrow> resolve_refs E package refs s (values, missing @ [fst ref])
      | Some r \<Rightarrow>
        (case user_id s of Inl e \<Rightarrow> Inl e
         | Inr uid \<Rightarrow>
           (case open_row E uid r of
              Inl _ \<Rightarrow> internal_error
            | Inr v \<Rightarrow> resolve_refs E package refs s (set_replacement (fst ref) v values, missing))))"

definition secret_resolve_values ::
  "vault_env \<Rightarrow> (string \<times> secret_scope option) list \<Rightarrow> string option \<Rightarrow> vault \<Rightarrow> resolved res" where
  "secret_resolve_values E names package s = resolve_refs E package names s ([], [])"

section \<open>Re-sealing\<close>

definition reseal :: "string \<Rightarrow> encrypted_value \<Rightarrow> secret_row \<Rightarrow> secret_row" where
  "reseal key_id sealed r =
     r\<lparr>sec_iv := ev_iv sealed, sec_ciphertext := ev_ciphertext sealed, sec_key_id := key_id\<rparr>"

text \<open>The loop over the selected rows; \<open>ivs\<close> are the fresh vectors, one per row. A row that cannot be
  opened is left as it is, also when the reason is a cell without a user id.\<close>

fun rekey_rows ::
  "vault_env \<Rightarrow> ring_entry \<Rightarrow> string res \<Rightarrow> string list \<Rightarrow> secret_row list \<Rightarrow> nat \<times> secret_row list
     \<Rightarrow> nat \<times> secret_row list" where
  "rekey_rows E current user ivs [] acc = acc"
| "rekey_rows E current user ivs (r # rs) (n, t) =
     (case user of
        Inl _ \<Rightarrow> rekey_rows E current user (tl ivs) rs (n, t)
      | Inr uid \<Rightarrow>
        (case open_row E uid r of
           Inl _ \<Rightarrow> rekey_rows E current user (tl ivs) rs (n, t)
         | Inr p \<Rightarrow>
           (let sealed = encrypt_secret_value (ve_crypto E) (hd ivs) (rk_key current) uid p
            in rekey_rows E current user (tl ivs) rs
                 (Suc n, update_where (same_secret (sec_name r) (sec_scope r) (sec_package r))
                    (reseal (rk_id current) sealed) t))))"

record rekey_report =
  rr_resealed :: nat
  rr_remaining :: nat
  rr_current :: string

text \<open>\<open>others\<close> is what the integration and MCP stores report for their own rows, added to the counts.\<close>

definition secret_rekey ::
  "vault_env \<Rightarrow> string list \<Rightarrow> nat \<times> nat \<Rightarrow> vault \<Rightarrow> rekey_report res \<times> vault" where
  "secret_rekey E ivs others s =
     (case ve_ring E of [] \<Rightarrow> (internal_error, s)
      | current # _ \<Rightarrow>
        (let rows = ve_scan E (filter (\<lambda>r. sec_key_id r \<noteq> rk_id current) (v_secrets s));
             (n, t) = rekey_rows E current (user_id s) ivs rows (0, v_secrets s);
             left = length (filter (\<lambda>r. sec_key_id r \<noteq> rk_id current) t)
         in (Inr \<lparr>rr_resealed = n + fst others, rr_remaining = left + snd others,
                  rr_current = rk_id current\<rparr>,
             s\<lparr>v_secrets := t\<rparr>)))"

section \<open>Approved hosts\<close>

definition secret_host_approve :: "string \<Rightarrow> string \<Rightarrow> time \<Rightarrow> vault \<Rightarrow> host_row res \<times> vault" where
  "secret_host_approve host who now s =
     (case normalize_secret_host host of Inl e \<Rightarrow> (Inl e, s)
      | Inr h \<Rightarrow>
        (let new = \<lparr>sh_host = h, sh_approved_at = now, sh_approved_by = who\<rparr>
         in (Inr new,
             s\<lparr>v_hosts := upsert (\<lambda>r. sh_host r = h)
               (\<lambda>r. r\<lparr>sh_approved_at := now, sh_approved_by := who\<rparr>) new (v_hosts s)\<rparr>)))"

definition secret_host_revoke :: "string \<Rightarrow> vault \<Rightarrow> (string \<times> bool) res \<times> vault" where
  "secret_host_revoke host s =
     (case normalize_secret_host host of Inl e \<Rightarrow> (Inl e, s)
      | Inr h \<Rightarrow>
        (Inr (h, rows_written (\<lambda>r. sh_host r = h) (v_hosts s)),
         s\<lparr>v_hosts := delete_where (\<lambda>r. sh_host r = h) (v_hosts s)\<rparr>))"

definition secret_host_list :: "vault \<Rightarrow> host_row list" where
  "secret_host_list s = sort_key sh_host (v_hosts s)"

section \<open>The operations as one step, and the invariant\<close>

datatype vault_op =
    VaultInit string
  | SecretSave secret_input string time
  | SecretDelete string "secret_scope option" "string option"
  | SecretRekey "string list"
  | HostApprove string string time
  | HostRevoke string

fun vault_step :: "vault_env \<Rightarrow> vault_op \<Rightarrow> vault \<Rightarrow> vault" where
  "vault_step E (VaultInit uid) s = vault_init uid s"
| "vault_step E (SecretSave i iv now) s = snd (secret_save E i iv now s)"
| "vault_step E (SecretDelete n sc p) s = snd (secret_delete n sc p s)"
| "vault_step E (SecretRekey ivs) s = snd (secret_rekey E ivs (0, 0) s)"
| "vault_step E (HostApprove h who now) s = snd (secret_host_approve h who now s)"
| "vault_step E (HostRevoke h) s = snd (secret_host_revoke h s)"

definition secret_key :: "secret_row \<Rightarrow> string \<times> secret_scope \<times> string" where
  "secret_key r = (sec_name r, sec_scope r, sec_package r)"

definition secret_row_ok :: "secret_row \<Rightarrow> bool" where
  "secret_row_ok r = (valid_secret_name (sec_name r) \<and> (sec_scope r = ScopePackage \<longleftrightarrow> sec_package r \<noteq> []))"

definition vault_inv :: "vault \<Rightarrow> bool" where
  "vault_inv s =
     (distinct (map secret_key (v_secrets s)) \<and> list_all secret_row_ok (v_secrets s)
      \<and> distinct (map sh_host (v_hosts s)))"

lemma same_secret_key: "same_secret (sec_name q) (sec_scope q) (sec_package q) r \<longleftrightarrow> secret_key r = secret_key q"
  by (auto simp: same_secret_def secret_key_def)

lemma same_secret_iff: "same_secret n sc p r \<longleftrightarrow> secret_key r = (n, sc, p)"
  by (auto simp: same_secret_def secret_key_def)

lemma distinct_put_secret:
  "distinct (map secret_key t) \<Longrightarrow> distinct (map secret_key (put_secret new t))"
  unfolding put_secret_def
  by (rule distinct_upsert) (auto simp: same_secret_key, auto simp: secret_key_def)

lemma set_put_secret:
  "set (put_secret new t) \<subseteq> insert new
     ((\<lambda>r. r\<lparr>sec_description := (case sec_description new of None \<Rightarrow> sec_description r | Some d \<Rightarrow> Some d),
         sec_iv := sec_iv new, sec_ciphertext := sec_ciphertext new, sec_key_id := sec_key_id new,
         sec_updated := sec_updated new\<rparr>) ` set t \<union> set t)"
  by (auto simp: put_secret_def upsert_def update_where_def)

lemma put_secret_present: "list_ex (\<lambda>r. secret_key r = secret_key new) (put_secret new t)"
proof -
  let ?P = "same_secret (sec_name new) (sec_scope new) (sec_package new)"
  have "select_one ?P (put_secret new t) \<noteq> None"
    unfolding put_secret_def by (subst select_one_upsert) (auto simp: same_secret_def)
  then show ?thesis
    by (auto simp: select_one_None_iff list_ex_iff same_secret_key)
qed

text \<open>A save that succeeds has put exactly one row; a save that fails has changed nothing.\<close>

definition saved_row :: "vault_env \<Rightarrow> secret_input \<Rightarrow> string \<Rightarrow> time \<Rightarrow> ring_entry \<Rightarrow> string \<Rightarrow> secret_row" where
  "saved_row E i iv now current uid =
     (let scope = (case si_scope i of None \<Rightarrow> ScopeUser | Some sc \<Rightarrow> sc);
          sealed = encrypt_secret_value (ve_crypto E) iv (rk_key current) uid (si_value i)
      in \<lparr>sec_name = trim (si_name i), sec_scope = scope,
          sec_package = (if scope = ScopePackage then (case si_package i of None \<Rightarrow> [] | Some p \<Rightarrow> p) else []),
          sec_description = si_description i, sec_iv = ev_iv sealed, sec_ciphertext = ev_ciphertext sealed,
          sec_key_id = rk_id current, sec_created = now, sec_updated = now\<rparr>)"

lemma find_saved:
  "find (\<lambda>m. sm_name m = sec_name new \<and> sm_scope m = sec_scope new
       \<and> (case sm_package m of None \<Rightarrow> [] | Some p \<Rightarrow> p) = sec_package new)
     (secret_list (s\<lparr>v_secrets := put_secret new t\<rparr>)) \<noteq> None"
  using put_secret_present [of new t]
  by (auto simp: find_None_iff secret_list_def secret_meta_of_def list_ex_iff secret_key_def
      simp del: not_None_eq split: if_splits)

text \<open>Why a save is refused.\<close>

definition save_refused :: "vault_env \<Rightarrow> secret_input \<Rightarrow> vault \<Rightarrow> bool" where
  "save_refused E i s =
     (let scope = (case si_scope i of None \<Rightarrow> ScopeUser | Some sc \<Rightarrow> sc);
          pkg = (if scope = ScopePackage then (case si_package i of None \<Rightarrow> [] | Some p \<Rightarrow> p) else [])
      in \<not> valid_secret_name (trim (si_name i)) \<or> si_value i = [] \<or> 65536 < length (si_value i)
         \<or> (scope = ScopePackage \<and> pkg = []) \<or> ve_ring E = [] \<or> v_user s = None
         \<or> (\<not> list_ex (same_secret (trim (si_name i)) scope pkg) (v_secrets s)
            \<and> \<not> within_quota (ve_quotas E QSecrets) (length (v_secrets s))))"

lemma secret_save_cases:
  obtains (failed) e where "secret_save E i iv now s = (Inl e, s)" "save_refused E i s"
  | (saved) m current rest uid where "\<not> save_refused E i s"
      "ve_ring E = current # rest" "v_user s = Some uid"
      "secret_save E i iv now s =
        (Inr m, s\<lparr>v_secrets := put_secret (saved_row E i iv now current uid) (v_secrets s)\<rparr>)"
      "sm_name m = trim (si_name i)" "sm_scope m = sec_scope (saved_row E i iv now current uid)"
      "(case sm_package m of None \<Rightarrow> [] | Some p \<Rightarrow> p) = sec_package (saved_row E i iv now current uid)"
      "secret_row_ok (saved_row E i iv now current uid)"
      "list_ex (\<lambda>r. secret_key r = secret_key (saved_row E i iv now current uid)) (v_secrets s)
        \<or> within_quota (ve_quotas E QSecrets) (length (v_secrets s))"
proof -
  let ?scope = "case si_scope i of None \<Rightarrow> ScopeUser | Some sc \<Rightarrow> sc"
  let ?pkg = "if ?scope = ScopePackage then (case si_package i of None \<Rightarrow> [] | Some p \<Rightarrow> p) else []"
  let ?exist = "list_ex (same_secret (trim (si_name i)) ?scope ?pkg) (v_secrets s)"
  show thesis
  proof (cases "save_refused E i s")
    case True
    then have "\<exists>e. secret_save E i iv now s = (Inl e, s)"
      unfolding secret_save_def save_refused_def Let_def
      by (cases "ve_ring E"; cases "v_user s") (auto simp: assert_quota_def user_id_def)
    then show thesis using failed True by blast
  next
    case False
    note ok = False [unfolded save_refused_def Let_def]
    then obtain current rest uid where E: "ve_ring E = current # rest" "v_user s = Some uid"
      by (cases "ve_ring E") auto
    let ?new = "saved_row E i iv now current uid"
    let ?s' = "s\<lparr>v_secrets := put_secret ?new (v_secrets s)\<rparr>"
    have new: "sec_name ?new = trim (si_name i)" "sec_scope ?new = ?scope" "sec_package ?new = ?pkg"
      by (simp_all add: saved_row_def Let_def)
    obtain m where m: "find (\<lambda>m. sm_name m = sec_name ?new \<and> sm_scope m = sec_scope ?new
        \<and> (case sm_package m of None \<Rightarrow> [] | Some p \<Rightarrow> p) = sec_package ?new) (secret_list ?s') = Some m"
      using find_saved [of ?new "v_secrets s" s] by auto
    then have "sm_name m = sec_name ?new \<and> sm_scope m = sec_scope ?new
        \<and> (case sm_package m of None \<Rightarrow> [] | Some p \<Rightarrow> p) = sec_package ?new"
      by (auto simp: find_Some_iff)
    moreover have q: "(if ?exist then Inr () else assert_quota (ve_quotas E) QSecrets (length (v_secrets s))) = Inr ()"
      using ok by (auto simp: assert_quota_def)
    moreover have "secret_save E i iv now s = (Inr m, ?s')"
      using ok E m unfolding new secret_save_def Let_def q
      by (simp add: user_id_def saved_row_def Let_def)
    moreover have "secret_row_ok ?new"
      using ok unfolding secret_row_ok_def new by auto
    moreover have "list_ex (\<lambda>r. secret_key r = secret_key ?new) (v_secrets s)
        \<or> within_quota (ve_quotas E QSecrets) (length (v_secrets s))"
      using ok unfolding secret_key_def new same_secret_def by auto
    ultimately show thesis
      using saved [OF False E] new(1) by simp
  qed
qed

lemma secret_save_put:
  "snd (secret_save E i iv now s) = s \<or> (\<exists>new. secret_row_ok new \<and>
     (list_ex (\<lambda>r. secret_key r = secret_key new) (v_secrets s)
        \<or> within_quota (ve_quotas E QSecrets) (length (v_secrets s))) \<and>
     snd (secret_save E i iv now s) = s\<lparr>v_secrets := put_secret new (v_secrets s)\<rparr>)"
  by (rule secret_save_cases [of E i iv now s]) force+

lemma put_secret_ok:
  assumes "list_all secret_row_ok t" "secret_row_ok new"
  shows "list_all secret_row_ok (put_secret new t)"
  using assms set_put_secret [of new t] unfolding list_all_iff
  by (auto simp: secret_row_ok_def)

lemma length_put_secret:
  "length (put_secret new t) =
     (if list_ex (\<lambda>r. secret_key r = secret_key new) t then length t else Suc (length t))"
  by (simp add: put_secret_def length_upsert same_secret_key [abs_def])

lemma rekey_rows_keys:
  "map secret_key (snd (rekey_rows E current user ivs rs (n, t))) = map secret_key t"
proof (induction rs arbitrary: ivs n t)
  case (Cons r rs)
  then show ?case
    by (auto simp: Let_def reseal_def secret_key_def map_update_where split: sum.splits)
qed simp

lemma list_all_ok_keys:
  "list_all secret_row_ok t =
     list_all (\<lambda>(n, sc, p). valid_secret_name n \<and> (sc = ScopePackage \<longleftrightarrow> p \<noteq> [])) (map secret_key t)"
  by (simp add: list_all_iff secret_row_ok_def secret_key_def)

lemma secret_rekey_keys:
  "v_hosts (snd (secret_rekey E ivs others s)) = v_hosts s \<and>
   map secret_key (v_secrets (snd (secret_rekey E ivs others s))) = map secret_key (v_secrets s)"
  using rekey_rows_keys
  by (auto simp: secret_rekey_def Let_def case_prod_beta split: list.splits)

lemma vault_step_inv:
  assumes "vault_inv s"
  shows "vault_inv (vault_step E op s)"
proof (cases op)
  case (SecretSave i iv now)
  with assms show ?thesis
    using secret_save_put [of E i iv now s]
    by (auto simp: SecretSave vault_inv_def distinct_put_secret put_secret_ok)
next
  case (SecretRekey ivs)
  with assms show ?thesis
    using secret_rekey_keys [of E ivs "(0, 0)" s]
    by (simp add: SecretRekey vault_inv_def list_all_ok_keys)
next
  case (HostApprove h who now)
  with assms show ?thesis
    by (auto simp: HostApprove vault_inv_def secret_host_approve_def Let_def
        intro!: distinct_upsert split: sum.splits)
qed (use assms in \<open>auto simp: vault_inv_def vault_init_def secret_delete_def Let_def secret_host_revoke_def
    distinct_delete_where list_all_iff split: sum.splits\<close>)

interpretation vault: invariant_store "vault_step E" vault_inv for E
  by unfold_locales (rule vault_step_inv)

lemma vault_step_count:
  "length (v_secrets (vault_step E op s)) \<le> Suc (length (v_secrets s)) \<and>
   (length (v_secrets s) < length (v_secrets (vault_step E op s)) \<longrightarrow>
     within_quota (ve_quotas E QSecrets) (length (v_secrets s)))"
proof (cases op)
  case (SecretSave i iv now)
  then show ?thesis
    using secret_save_put [of E i iv now s] by (auto simp: length_put_secret)
next
  case (SecretRekey ivs)
  then show ?thesis
    using arg_cong [OF conjunct2 [OF secret_rekey_keys [of E ivs "(0, 0)" s]], of length] by simp
qed (auto simp: vault_init_def secret_delete_def Let_def secret_host_revoke_def secret_host_approve_def
    not_less le_SucI leD split: sum.splits)

interpretation secret_quota: quota_guard "vault_step E" "\<lambda>s. length (v_secrets s)" "\<lambda>_. ve_quotas E QSecrets" for E
proof
  fix s op
  show "length (v_secrets (vault_step E op s)) \<le> Suc (length (v_secrets s))"
    using vault_step_count by blast
  show "ve_quotas E QSecrets = 0 \<or> length (v_secrets s) < ve_quotas E QSecrets"
    if "length (v_secrets s) < length (v_secrets (vault_step E op s))"
    using that vault_step_count [of E op s] by (simp add: within_quota_def)
qed simp

text \<open>C39 (invariant). Whatever operations a user's cell serves, the table of secrets keeps one row per name,
  scope and package, with a well-formed name and a package exactly for package-scoped secrets, and one row
  per approved host.\<close>

theorem vault_consistent:
  "vault_inv (fold (vault_step E) ops \<lparr>v_user = u, v_secrets = [], v_hosts = []\<rparr>)"
  by (rule vault.run_inv) (simp add: vault_inv_def)

text \<open>With a secrets quota in force, no sequence of operations stores more secrets than it
  allows, replacing and re-sealing included.\<close>

theorem secrets_within_quota:
  assumes "0 < ve_quotas E QSecrets" "length (v_secrets s) \<le> ve_quotas E QSecrets"
  shows "length (v_secrets (fold (vault_step E) ops s)) \<le> ve_quotas E QSecrets"
  using secret_quota.puts_within [of E s ops] assms by simp

theorem secrets_within_quota_witness:
  "\<forall>ops. length (v_secrets (fold (vault_step
       \<lparr>ve_crypto = sample_crypto, ve_ring = build_master_keyring sample_crypto ''k'' None,
        ve_quotas = (\<lambda>_. 1), ve_scan = (\<lambda>t. t)\<rparr>) ops
     \<lparr>v_user = Some ''u'', v_secrets = [], v_hosts = []\<rparr>)) \<le> 1"
  using secrets_within_quota [of "\<lparr>ve_crypto = sample_crypto,
    ve_ring = build_master_keyring sample_crypto ''k'' None, ve_quotas = (\<lambda>_. 1), ve_scan = (\<lambda>t. t)\<rparr>"]
  by simp

section \<open>What a resolution reads\<close>

text \<open>The scan order is any order of the selected rows.\<close>

definition scan_ok :: "vault_env \<Rightarrow> bool" where
  "scan_ok E = (\<forall>t. set (ve_scan E t) = set t)"

lemma scan_setD: "scan_ok E \<Longrightarrow> set (ve_scan E t) = set t"
  by (simp add: scan_ok_def)

lemma find_secret_SomeD:
  "scan_ok E \<Longrightarrow> find_secret E package ref s = Some r \<Longrightarrow>
     r \<in> set (v_secrets s) \<and> sec_name r = fst ref \<and> visible_to (snd ref) package r"
  by (auto simp: find_secret_def find_Some_iff dest!: nth_mem simp: scan_setD)

lemma find_secret_None_iff:
  "scan_ok E \<Longrightarrow> find_secret E package ref s = None \<longleftrightarrow>
     (\<forall>r\<in>set (v_secrets s). sec_name r = fst ref \<longrightarrow> \<not> visible_to (snd ref) package r)"
  by (auto simp: find_secret_def find_None_iff scan_setD)

lemma set_set_replacement: "set (set_replacement k v m) \<subseteq> insert (k, v) (set m)"
  by (auto simp: set_replacement_def upsert_def update_where_def)

lemma set_replacement_Nil [simp]: "set_replacement k v [] = [(k, v)]"
  by (simp add: set_replacement_def upsert_def)

definition read_from :: "vault_env \<Rightarrow> (string \<times> secret_scope option) list \<Rightarrow> string option \<Rightarrow> vault \<Rightarrow>
    string \<times> string \<Rightarrow> bool" where
  "read_from E names package s nv =
     (\<exists>r\<in>set (v_secrets s). \<exists>ref\<in>set names. \<exists>uid. fst ref = fst nv \<and> sec_name r = fst nv \<and>
        visible_to (snd ref) package r \<and> v_user s = Some uid \<and> open_row E uid r = Inr (snd nv))"

lemma resolve_refs_reads:
  assumes "scan_ok E" "resolve_refs E package refs s acc = Inr out" "set refs \<subseteq> set names"
    "\<forall>nv\<in>set (fst acc). read_from E names package s nv"
    "\<forall>n\<in>set (snd acc). \<exists>sc. (n, sc) \<in> set names \<and> find_secret E package (n, sc) s = None"
  shows "(\<forall>nv\<in>set (fst out). read_from E names package s nv) \<and>
    (\<forall>n\<in>set (snd out). \<exists>sc. (n, sc) \<in> set names \<and> find_secret E package (n, sc) s = None)"
  using assms(2-)
proof (induction refs arbitrary: acc)
  case Nil
  then show ?case by simp
next
  case (Cons ref refs)
  obtain vals miss where acc: "acc = (vals, miss)" by (cases acc)
  show ?case
  proof (cases "find_secret E package ref s")
    case None
    have "resolve_refs E package refs s (vals, miss @ [fst ref]) = Inr out"
      using Cons.prems(1) None by (simp add: acc)
    then show ?thesis
    proof (rule Cons.IH)
      have "\<exists>sc. (fst ref, sc) \<in> set names \<and> find_secret E package (fst ref, sc) s = None"
        by (rule exI [of _ "snd ref"]) (use Cons.prems(2) None in simp)
      then show "\<forall>n\<in>set (snd (vals, miss @ [fst ref])). \<exists>sc. (n, sc) \<in> set names
          \<and> find_secret E package (n, sc) s = None"
        using Cons.prems(4) unfolding acc by auto
    qed (use Cons.prems acc in auto)
  next
    case (Some r)
    then obtain uid v where u: "user_id s = Inr uid" "open_row E uid r = Inr v"
      using Cons.prems(1) by (auto simp: acc split: sum.splits)
    have "read_from E names package s (fst ref, v)"
      using find_secret_SomeD [OF assms(1) Some] Cons.prems(2) u
      by (auto simp: read_from_def user_id_def split: option.splits)
    moreover have "resolve_refs E package refs s (set_replacement (fst ref) v vals, miss) = Inr out"
      using Cons.prems(1) Some u by (simp add: acc)
    ultimately show ?thesis
      using Cons.prems(2-4) set_set_replacement [of "fst ref" v vals]
      by (intro Cons.IH) (auto simp: acc)
  qed
qed

text \<open>C4 (safety). Every value a run gets comes from a stored row of the requested name that the run may see:
  one in the requested scope, and a package-scoped one only when it belongs to the run's own package; a name
  is reported missing only when no such row exists.\<close>

theorem resolution_confined:
  assumes "scan_ok E" "secret_resolve_values E names package s = Inr (vals, missing)"
  shows "(\<forall>(n, v)\<in>set vals. \<exists>r\<in>set (v_secrets s). \<exists>sc uid. (n, sc) \<in> set names \<and> sec_name r = n \<and>
      visible_to sc package r \<and> (sec_scope r = ScopePackage \<longrightarrow> package = Some (sec_package r)) \<and>
      v_user s = Some uid \<and> open_row E uid r = Inr v) \<and>
    (\<forall>n\<in>set missing. \<exists>sc. (n, sc) \<in> set names \<and>
      (\<forall>r\<in>set (v_secrets s). sec_name r = n \<longrightarrow> \<not> visible_to sc package r))"
proof -
  have "(\<forall>nv\<in>set (fst (vals, missing)). read_from E names package s nv) \<and>
    (\<forall>n\<in>set (snd (vals, missing)). \<exists>sc. (n, sc) \<in> set names \<and> find_secret E package (n, sc) s = None)"
    using resolve_refs_reads [OF assms(1), of package names s "([], [])" "(vals, missing)" names] assms(2)
    by (simp add: secret_resolve_values_def)
  then have reads: "\<And>nv. nv \<in> set vals \<Longrightarrow> read_from E names package s nv"
    and miss: "\<And>n. n \<in> set missing \<Longrightarrow> \<exists>sc. (n, sc) \<in> set names \<and> find_secret E package (n, sc) s = None"
    by auto
  have "\<exists>r\<in>set (v_secrets s). \<exists>sc uid. (n, sc) \<in> set names \<and> sec_name r = n \<and>
      visible_to sc package r \<and> (sec_scope r = ScopePackage \<longrightarrow> package = Some (sec_package r)) \<and>
      v_user s = Some uid \<and> open_row E uid r = Inr v" if nv: "(n, v) \<in> set vals" for n v
  proof -
    from reads [OF nv] obtain r ref uid where r: "r \<in> set (v_secrets s)" "ref \<in> set names" "fst ref = n"
      "sec_name r = n" "visible_to (snd ref) package r" "v_user s = Some uid" "open_row E uid r = Inr v"
      by (auto simp: read_from_def)
    moreover have "sec_scope r = ScopePackage \<longrightarrow> package = Some (sec_package r)"
      using r(5) by (auto simp: visible_to_def split: if_splits)
    ultimately show ?thesis by (intro bexI [of _ r] exI [of _ "snd ref"] exI [of _ uid]) auto
  qed
  moreover have "\<exists>sc. (n, sc) \<in> set names \<and>
      (\<forall>r\<in>set (v_secrets s). sec_name r = n \<longrightarrow> \<not> visible_to sc package r)" if "n \<in> set missing" for n
    using miss [OF that] by (auto simp: find_secret_None_iff [OF assms(1)])
  ultimately show ?thesis by blast
qed

definition sample_env :: vault_env where
  "sample_env =
     \<lparr>ve_crypto = sample_crypto, ve_ring = build_master_keyring sample_crypto ''k'' None,
      ve_quotas = (\<lambda>_. 0), ve_scan = (\<lambda>t. t)\<rparr>"

lemma sample_env_scan: "scan_ok sample_env"
  by (simp add: sample_env_def scan_ok_def)

section \<open>Saving and resolving\<close>

definition vault_env_ok :: "vault_env \<Rightarrow> bool" where
  "vault_env_ok E = (crypto_ok (ve_crypto E) \<and> keyring_ok (ve_crypto E) (ve_ring E) \<and> scan_ok E)"

lemma sample_env_ok: "vault_env_ok sample_env"
  using sample_env_scan sample_crypto_ok build_master_keyring_ok
  by (simp add: vault_env_ok_def sample_env_def)

lemma sealed_of_encrypt:
  assumes "crypto_ok C" "sec_iv r = ev_iv (encrypt_secret_value C iv m uid p)"
    "sec_ciphertext r = ev_ciphertext (encrypt_secret_value C iv m uid p)" "sec_key_id r = master_key_id C m"
  shows "sealed_of r = encrypt_secret_value C iv m uid p"
  using assms master_key_id_nonempty [OF assms(1)]
  by (simp add: sealed_of_def encrypt_secret_value_def)

text \<open>A row sealed under a ring entry opens to what was sealed.\<close>

lemma open_row_sealed:
  assumes "vault_env_ok E" "e \<in> set (ve_ring E)"
    "sec_iv r = ev_iv (encrypt_secret_value (ve_crypto E) iv (rk_key e) uid p)"
    "sec_ciphertext r = ev_ciphertext (encrypt_secret_value (ve_crypto E) iv (rk_key e) uid p)"
    "sec_key_id r = rk_id e"
  shows "open_row E uid r = Inr p"
proof -
  have "rk_id e = master_key_id (ve_crypto E) (rk_key e)"
    using assms(1,2) by (auto simp: vault_env_ok_def keyring_ok_def list_all_iff)
  then show ?thesis
    using assms sealed_of_encrypt [of "ve_crypto E" r iv "rk_key e" uid p]
    by (simp add: open_row_def vault_env_ok_def decrypt_with_keyring_entry)
qed



definition sample_input :: "secret_scope \<Rightarrow> string \<Rightarrow> secret_input" where
  "sample_input sc v =
     \<lparr>si_name = '' gh.token '', si_value = v, si_description = None, si_scope = Some sc, si_package = Some ''pkg''\<rparr>"

text \<open>A vault with the same name saved in two scopes.\<close>

definition sample_vault :: vault where
  "sample_vault =
     snd (secret_save sample_env (sample_input ScopePackage ''p-value'') ''iv'' 2
       (snd (secret_save sample_env (sample_input ScopeUser ''u-value'') ''iv'' 1
         \<lparr>v_user = Some ''u'', v_secrets = [], v_hosts = []\<rparr>)))"



lemma sample_ring: "ve_ring sample_env \<noteq> []" "ve_quotas sample_env q = 0"
  by (simp_all add: sample_env_def build_master_keyring_def configured_keys_def trim_def trim_start_def
      is_space_def unit_of_def in_range_def)

lemma sample_name: "trim '' gh.token '' = ''gh.token''" "valid_secret_name ''gh.token''"
  by code_simp+



text \<open>A save is refused exactly when the name or the value is malformed, a package-scoped secret has
  no package, the cell is not set up, or a new secret would exceed the quota; a refused save leaves the vault
  as it was, and so does not count and does not overwrite.\<close>

theorem secret_save_refusals:
  "is_ok (fst (secret_save E i iv now s)) = (\<not> save_refused E i s) \<and>
   (save_refused E i s \<longrightarrow> snd (secret_save E i iv now s) = s)"
  by (rule secret_save_cases [of E i iv now s]) simp_all

theorem secret_save_refusals_witness:
  "\<not> is_ok (fst (secret_save sample_env (sample_input ScopeUser []) ''iv'' 1 sample_vault)) \<and>
   snd (secret_save sample_env (sample_input ScopeUser []) ''iv'' 1 sample_vault) = sample_vault"
  using secret_save_refusals [of sample_env "sample_input ScopeUser []" "''iv''" 1 sample_vault]
  by (simp add: save_refused_def sample_input_def Let_def)

definition sample_row :: "secret_scope \<Rightarrow> string \<Rightarrow> secret_row" where
  "sample_row sc v = saved_row sample_env (sample_input sc v) ''iv'' 1 (hd (ve_ring sample_env)) ''u''"

definition two_scopes :: vault where
  "two_scopes =
     \<lparr>v_user = Some ''u'', v_secrets = [sample_row ScopeUser ''u-value'', sample_row ScopePackage ''p-value''],
      v_hosts = []\<rparr>"

lemma open_sample_row: "open_row sample_env ''u'' (sample_row sc v) = Inr v"
  using sample_ring
  by (intro open_row_sealed [OF sample_env_ok, of "hd (ve_ring sample_env)" _ "''iv''"])
    (auto simp: sample_row_def saved_row_def sample_input_def Let_def)

lemma sample_row_key: "secret_key (sample_row sc v) = (''gh.token'', sc, if sc = ScopePackage then ''pkg'' else [])"
  by (simp add: sample_row_def saved_row_def sample_input_def Let_def secret_key_def sample_name)

lemma find_two_scopes:
  "find_secret sample_env (Some ''pkg'') (''gh.token'', Some ScopeUser) two_scopes = Some (sample_row ScopeUser ''u-value'')"
  "find_secret sample_env (Some ''pkg'') (''gh.token'', Some ScopePackage) two_scopes = Some (sample_row ScopePackage ''p-value'')"
  "find_secret sample_env (Some ''other'') (''gh.token'', Some ScopePackage) two_scopes = None"
  using sample_row_key [of ScopeUser "''u-value''"] sample_row_key [of ScopePackage "''p-value''"]
  by (simp_all add: find_secret_def two_scopes_def sample_env_def secret_key_def visible_to_def)

lemma user_two_scopes: "user_id two_scopes = Inr ''u''"
  by (simp add: user_id_def two_scopes_def)

lemma resolve_sample:
  "secret_resolve_values sample_env [(''gh.token'', Some ScopePackage)] (Some ''pkg'') two_scopes =
     Inr ([(''gh.token'', ''p-value'')], [])"
  by (simp add: secret_resolve_values_def find_two_scopes user_two_scopes open_sample_row)

lemma resolve_refs_hosts: "resolve_refs E p refs (s\<lparr>v_hosts := h\<rparr>) acc = resolve_refs E p refs s acc"
  by (induction E p refs s acc rule: resolve_refs.induct)
    (auto simp: find_secret_def user_id_def split: option.split sum.split)

theorem resolution_confined_witness:
  "\<exists>r\<in>set (v_secrets two_scopes). sec_name r = ''gh.token'' \<and> open_row sample_env ''u'' r = Inr ''p-value''"
  using resolution_confined [OF sample_env_scan resolve_sample] by (auto simp: two_scopes_def)

text \<open>Values are keyed by the secret's name alone: when one request refers to the same name in
  two scopes, both placeholders get the value of the later reference.\<close>

theorem resolution_scope_collision:
  assumes "find_secret E package (n, sc1) s = Some r1" "find_secret E package (n, sc2) s = Some r2"
    "v_user s = Some uid" "open_row E uid r1 = Inr v1" "open_row E uid r2 = Inr v2"
  shows "secret_resolve_values E [(n, sc1), (n, sc2)] package s = Inr ([(n, v2)], [])"
  using assms by (simp add: secret_resolve_values_def user_id_def set_replacement_def upsert_def)

theorem resolution_scope_collision_witness:
  "secret_resolve_values sample_env [(''gh.token'', Some ScopeUser), (''gh.token'', Some ScopePackage)]
     (Some ''pkg'') two_scopes = Inr ([(''gh.token'', ''p-value'')], [])"
  by (rule resolution_scope_collision [OF find_two_scopes(1,2) _ open_sample_row open_sample_row])
    (simp add: two_scopes_def)

section \<open>Rotating the master key\<close>

text \<open>A row of the re-sealed table against the row it was: same secret, same value, and sealed under the
  current key unless it is still to be visited.\<close>

definition rekeyed :: "vault_env \<Rightarrow> string \<Rightarrow> secret_row \<Rightarrow> secret_row \<Rightarrow> bool" where
  "rekeyed E uid r r' = (secret_key r' = secret_key r \<and> open_row E uid r' = open_row E uid r)"

lemma rekey_rows_done:
  assumes "vault_env_ok E" "ve_ring E = current # rest" "distinct (map secret_key t0)"
    "\<forall>r\<in>set t0. \<exists>p. open_row E uid r = Inr p"
    "list_all2 (rekeyed E uid) t0 t" "set rs \<subseteq> set t0"
    "\<forall>r\<in>set t. sec_key_id r = rk_id current \<or> secret_key r \<in> secret_key ` set rs"
  shows "list_all2 (rekeyed E uid) t0 (snd (rekey_rows E current (Inr uid) ivs rs (n, t))) \<and>
    (\<forall>r\<in>set (snd (rekey_rows E current (Inr uid) ivs rs (n, t))). sec_key_id r = rk_id current)"
  using assms(5-)
proof (induction rs arbitrary: ivs n t)
  case Nil
  then show ?case by simp
next
  case (Cons r rs)
  have r: "r \<in> set t0" using Cons.prems(2) by simp
  then obtain p where p: "open_row E uid r = Inr p"
    using assms(4) by auto
  let ?sealed = "encrypt_secret_value (ve_crypto E) (hd ivs) (rk_key current) uid p"
  let ?t = "update_where (same_secret (sec_name r) (sec_scope r) (sec_package r)) (reseal (rk_id current) ?sealed) t"
  have cur: "current \<in> set (ve_ring E)" using assms(2) by simp
  have sealed: "open_row E uid (reseal (rk_id current) ?sealed q) = Inr p" for q
    by (rule open_row_sealed [OF assms(1) cur, of _ "hd ivs"]) (simp_all add: reseal_def)
  have one: "rekeyed E uid a (if secret_key b = secret_key r then reseal (rk_id current) ?sealed b else b)"
    if "a \<in> set t0" "rekeyed E uid a b" for a b
  proof (cases "secret_key b = secret_key r")
    case True
    then have "a = r"
      using that r assms(3) by (auto simp: rekeyed_def distinct_map dest: inj_onD)
    with that True sealed p show ?thesis by (simp add: rekeyed_def reseal_def secret_key_def)
  qed (use that in simp)
  have "list_all2 (rekeyed E uid) t0 ?t"
    using Cons.prems(1) one unfolding update_where_def same_secret_key
    by (auto simp: list_all2_conv_all_nth)
  moreover have "\<forall>q\<in>set ?t. sec_key_id q = rk_id current \<or> secret_key q \<in> secret_key ` set rs"
    using Cons.prems(3) by (auto simp: set_update_where same_secret_key reseal_def)
  ultimately show ?case
    using Cons.IH [of ?t "tl ivs" "Suc n"] Cons.prems(2) p by (simp add: Let_def)
qed

text \<open>Once a row carries the current key's id, the retired keys are not needed to open it.\<close>

lemma open_row_current_only:
  assumes "vault_env_ok E" "ve_ring E = current # rest" "sec_key_id r = rk_id current"
  shows "open_row (E\<lparr>ve_ring := [current]\<rparr>) uid r = open_row E uid r"
proof -
  have "filter (\<lambda>e. rk_id e = rk_id current) (ve_ring E) = [current]"
    using assms by (intro candidates_of_entry [of "ve_crypto E"]) (auto simp: vault_env_ok_def)
  moreover have "rk_id current \<noteq> []"
    using assms(1,2) master_key_id_nonempty by (auto simp: vault_env_ok_def keyring_ok_def)
  ultimately show ?thesis
    using assms(3) by (simp add: open_row_def decrypt_with_keyring_def key_candidates_def sealed_of_def)
qed

text \<open>Re-sealing after a rotation keeps every secret and its value, leaves none sealed under a
  retired key, reports so, and makes the retired keys unnecessary.\<close>

theorem rekey_complete:
  assumes "vault_env_ok E" "vault_inv s" "ve_ring E = current # rest" "v_user s = Some uid"
    "\<forall>r\<in>set (v_secrets s). \<exists>p. open_row E uid r = Inr p"
    "secret_rekey E ivs others s = (Inr rep, s')"
  shows "rr_remaining rep = snd others \<and>
    list_all2 (\<lambda>r r'. secret_key r' = secret_key r \<and> sec_key_id r' = rk_id current \<and>
        open_row (E\<lparr>ve_ring := [current]\<rparr>) uid r' = open_row E uid r) (v_secrets s) (v_secrets s')"
proof -
  let ?rows = "ve_scan E (filter (\<lambda>r. sec_key_id r \<noteq> rk_id current) (v_secrets s))"
  let ?t = "snd (rekey_rows E current (Inr uid) ivs ?rows (0, v_secrets s))"
  have rows: "set ?rows = {r \<in> set (v_secrets s). sec_key_id r \<noteq> rk_id current}"
    using assms(1) by (simp add: vault_env_ok_def scan_setD)
  have "list_all2 (rekeyed E uid) (v_secrets s) ?t \<and> (\<forall>r\<in>set ?t. sec_key_id r = rk_id current)"
    by (rule rekey_rows_done [OF assms(1,3) _ assms(5)])
      (use assms(2) rows in \<open>auto simp: vault_inv_def rekeyed_def list_all2_refl\<close>)
  then have all2: "list_all2 (rekeyed E uid) (v_secrets s) ?t" and cur: "\<forall>r\<in>set ?t. sec_key_id r = rk_id current"
    by blast+
  have s': "v_secrets s' = ?t" "rr_remaining rep = length (filter (\<lambda>r. sec_key_id r \<noteq> rk_id current) ?t) + snd others"
  proof -
    have u: "user_id s = Inr uid" using assms(4) by (simp add: user_id_def)
    let ?rep = "\<lparr>rr_resealed = fst (rekey_rows E current (Inr uid) ivs ?rows (0, v_secrets s)) + fst others,
        rr_remaining = length (filter (\<lambda>r. sec_key_id r \<noteq> rk_id current) ?t) + snd others,
        rr_current = rk_id current\<rparr>"
    have "secret_rekey E ivs others s = (Inr ?rep, s\<lparr>v_secrets := ?t\<rparr>)"
      unfolding secret_rekey_def Let_def assms(3) list.case u case_prod_beta ..
    then have "rep = ?rep" "s' = s\<lparr>v_secrets := ?t\<rparr>"
      unfolding assms(6) prod.inject sum.inject by blast+
    show "v_secrets s' = ?t"
      unfolding \<open>s' = s\<lparr>v_secrets := ?t\<rparr>\<close> by simp
    show "rr_remaining rep = length (filter (\<lambda>r. sec_key_id r \<noteq> rk_id current) ?t) + snd others"
      unfolding \<open>rep = ?rep\<close> rekey_report.select_convs ..
  qed
  define t where "t = ?t"
  note all2 = all2 [folded t_def] and cur = cur [folded t_def] and s' = s' [folded t_def]
  have "filter (\<lambda>r. sec_key_id r \<noteq> rk_id current) t = []"
    using cur by (simp add: filter_empty_conv)
  moreover have "list_all2 (\<lambda>r r'. secret_key r' = secret_key r \<and> sec_key_id r' = rk_id current \<and>
      open_row (E\<lparr>ve_ring := [current]\<rparr>) uid r' = open_row E uid r) (v_secrets s) t"
    using all2 cur open_row_current_only [OF assms(1,3)]
    by (auto simp: list_all2_conv_all_nth rekeyed_def)
  ultimately show ?thesis using s' by simp
qed

text \<open>The key was rotated from \<open>k\<close> to \<open>n\<close>.\<close>

definition rotated_env :: vault_env where
  "rotated_env = sample_env\<lparr>ve_ring := build_master_keyring sample_crypto ''n'' (Some ''k'')\<rparr>"

lemma configured_n_k: "configured_keys ''n'' (Some ''k'') = [''n'', ''k'']"
  by code_simp

lemma rotated_ring:
  "ve_ring rotated_env = [\<lparr>rk_id = master_key_id sample_crypto ''n'', rk_key = ''n''\<rparr>, hd (ve_ring sample_env)]"
proof -
  have "configured_keys ''k'' None = [''k'']" by code_simp
  moreover have "master_key_id sample_crypto ''k'' \<noteq> master_key_id sample_crypto ''n''"
    by (simp add: master_key_id_eq sample_crypto_def utf8_encode_def unit_of_def)
  ultimately show ?thesis
    by (simp add: rotated_env_def sample_env_def build_master_keyring_def configured_n_k)
qed

lemma rotated_env_ok: "vault_env_ok rotated_env"
  using sample_env_ok build_master_keyring_ok by (simp add: vault_env_ok_def rotated_env_def sample_env_def scan_ok_def)

theorem rekey_complete_witness:
  "\<exists>rep s'. secret_rekey rotated_env [''iv1'', ''iv2''] (0, 3) two_scopes = (Inr rep, s') \<and> rr_remaining rep = 3"
proof -
  have same: "ve_crypto rotated_env = ve_crypto sample_env" by (simp add: rotated_env_def)
  have opened: "open_row rotated_env ''u'' (sample_row sc v) = Inr v" for sc v
    by (rule open_row_sealed [OF rotated_env_ok, of "hd (ve_ring sample_env)" _ "''iv''"])
      (simp_all add: rotated_ring same sample_row_def saved_row_def sample_input_def Let_def)
  have "vault_inv two_scopes"
    using sample_row_key sample_name
    by (simp add: vault_inv_def two_scopes_def secret_row_ok_def secret_key_def)
  moreover obtain rep s' where r: "secret_rekey rotated_env [''iv1'', ''iv2''] (0, 3) two_scopes = (Inr rep, s')"
    by (simp add: secret_rekey_def rotated_ring Let_def case_prod_beta)
  moreover have "\<forall>r\<in>set (v_secrets two_scopes). \<exists>p. open_row rotated_env ''u'' r = Inr p"
    by (simp add: two_scopes_def opened)
  moreover have "v_user two_scopes = Some ''u''" by (simp add: two_scopes_def)
  ultimately have "rr_remaining rep = 3"
    using rekey_complete [OF rotated_env_ok _ rotated_ring] by simp
  with r show ?thesis by blast
qed

end
