(* ===== verification/ProviderStore.thy ===== *)
theory ProviderStore
  imports Secrets
begin

text \<open>
  Provider-backed secrets: src/src/secrets/provider-store.ts and the operations of the user
  cell around it (\<open>secretProvider*\<close> of src/src/cells/user-cell.ts). A binding says which package
  serves a provider id; a locked binding serves only the references granted to the calling
  package. Resolved values live in an in-memory cache only. What a package's manifest
  declares as its provider, and the URL parser, are arguments.
\<close>

record binding =
  bd_provider :: string
  bd_package :: string
  bd_door :: string
  bd_config :: "(string \<times> string) list"
  bd_locked :: bool
  bd_created :: time
  bd_updated :: time

record grant =
  gr_provider :: string
  gr_ref :: string
  gr_package :: string
  gr_created :: time

record cached_value =
  cv_value :: string
  cv_hosts :: "string list"
  cv_ref :: string
  cv_expires :: time

record provider_store =
  ps_bindings :: "binding list"
  ps_grants :: "grant list"
  ps_cache :: "(string \<times> cached_value) list"

section \<open>Parsing\<close>

definition config_key_ok :: "string \<Rightarrow> bool" where
  "config_key_ok k = (1 \<le> length k \<and> length k \<le> 64 \<and> list_all name_char k)"

definition looks_like_credential :: "string \<Rightarrow> bool" where
  "looks_like_credential k =
     list_ex (contains (to_lower k))
       [''secret'', ''token'', ''password'', ''passwd'', ''apikey'', ''api-key'', ''api_key'']"

text \<open>Assigning a string to \<open>__proto__\<close> of an object leaves the object as it is.\<close>

fun config_entries :: "(string \<times> json) list \<Rightarrow> (string \<times> string) list \<Rightarrow> (string \<times> string) list res" where
  "config_entries [] cfg = Inr cfg"
| "config_entries ((k, v) # es) cfg =
     (if \<not> config_key_ok k then fails ''invalid_args''
      else case v of
        JStr t \<Rightarrow>
          if 2000 < length t then fails ''invalid_args''
          else if looks_like_credential k then fails ''invalid_args''
          else config_entries es (if k = ''__proto__'' then cfg else set_replacement k t cfg)
      | _ \<Rightarrow> fails ''invalid_args'')"

definition parse_provider_config :: "json option \<Rightarrow> (string \<times> string) list res" where
  "parse_provider_config raw =
     (case raw of
        None \<Rightarrow> Inr []
      | Some JNull \<Rightarrow> Inr []
      | Some (JObj es) \<Rightarrow>
          (case config_entries es [] of Inl e \<Rightarrow> Inl e
           | Inr cfg \<Rightarrow> if 16 < length cfg then fails ''invalid_args'' else Inr cfg)
      | Some _ \<Rightarrow> fails ''invalid_args'')"

definition ref_char_bad :: "char \<Rightarrow> bool" where
  "ref_char_bad c = (is_space c \<or> c = CHR ''{'' \<or> c = CHR ''}'')"

definition validate_provider_ref :: "string \<Rightarrow> string res" where
  "validate_provider_ref ref =
     (if ref = [] \<or> 512 < length ref \<or> list_ex ref_char_bad ref then fails ''invalid_args'' else Inr ref)"

definition add_host :: "string \<Rightarrow> string list \<Rightarrow> string list" where
  "add_host h hs = (if h \<in> set hs then hs else hs @ [h])"

definition host_candidate :: "(string \<Rightarrow> string option) \<Rightarrow> string \<Rightarrow> string option" where
  "host_candidate url_hostname entry =
     (let c = to_lower (trim entry) in
      if c = [] then None
      else if contains c ''://'' then url_hostname c
      else if has_char CHR ''/'' c then Some (hd (split_on CHR ''/'' c))
      else Some c)"

text \<open>\<open>normalizeProviderHosts\<close>: entries that are no host are skipped, and 32 hosts end the loop.\<close>

fun provider_hosts_go :: "(string \<Rightarrow> string option) \<Rightarrow> json list \<Rightarrow> string list \<Rightarrow> string list" where
  "provider_hosts_go parse [] hosts = hosts"
| "provider_hosts_go parse (e # es) hosts =
     (case e of
        JStr t \<Rightarrow>
          (case host_candidate parse t of None \<Rightarrow> provider_hosts_go parse es hosts
           | Some c \<Rightarrow>
             (case normalize_secret_host c of Inl _ \<Rightarrow> provider_hosts_go parse es hosts
              | Inr h \<Rightarrow>
                (let hosts' = add_host h hosts
                 in if 32 \<le> length hosts' then hosts' else provider_hosts_go parse es hosts')))
      | _ \<Rightarrow> provider_hosts_go parse es hosts)"

definition normalize_provider_hosts :: "(string \<Rightarrow> string option) \<Rightarrow> json \<Rightarrow> string list" where
  "normalize_provider_hosts parse raw =
     (case raw of JArr es \<Rightarrow> provider_hosts_go parse es [] | _ \<Rightarrow> [])"

section \<open>The cache\<close>

definition cache_key :: "string \<Rightarrow> string \<Rightarrow> string" where
  "cache_key p ref = p @ CHR 0x00 # ref"

definition cache_set :: "string \<Rightarrow> cached_value \<Rightarrow> (string \<times> cached_value) list \<Rightarrow> (string \<times> cached_value) list" where
  "cache_set k v c = upsert (\<lambda>e. fst e = k) (\<lambda>e. (k, v)) (k, v) c"

definition cache_get :: "string \<Rightarrow> string \<Rightarrow> time \<Rightarrow> provider_store \<Rightarrow> cached_value option \<times> provider_store" where
  "cache_get p ref now s =
     (case select_one (\<lambda>e. fst e = cache_key p ref) (ps_cache s) of
        None \<Rightarrow> (None, s)
      | Some (k, v) \<Rightarrow>
        if cv_expires v \<le> now
        then (None, s\<lparr>ps_cache := delete_where (\<lambda>e. fst e = cache_key p ref) (ps_cache s)\<rparr>)
        else (Some v, s))"

definition cache_put ::
  "string \<Rightarrow> string \<Rightarrow> string \<times> string list \<times> string \<Rightarrow> int \<Rightarrow> time \<Rightarrow> provider_store \<Rightarrow> provider_store" where
  "cache_put p ref entry ttl now s =
     (if ttl \<le> 0 then s
      else
        (let (value, hosts, canonical) = entry;
             c = (if 256 \<le> length (ps_cache s) then [] else ps_cache s);
             v = \<lparr>cv_value = value, cv_hosts = hosts, cv_ref = canonical, cv_expires = now + ttl\<rparr>;
             c1 = cache_set (cache_key p ref) v c
         in s\<lparr>ps_cache := if canonical \<noteq> ref then cache_set (cache_key p canonical) v c1 else c1\<rparr>))"

definition invalidate :: "string \<Rightarrow> provider_store \<Rightarrow> provider_store" where
  "invalidate p s =
     s\<lparr>ps_cache := delete_where (\<lambda>e. starts_with (fst e) (p @ [CHR 0x00])) (ps_cache s)\<rparr>"

section \<open>Bindings and grants\<close>

definition get_binding :: "string \<Rightarrow> provider_store \<Rightarrow> binding option" where
  "get_binding p s = select_one (\<lambda>b. bd_provider b = p) (ps_bindings s)"

record bind_input =
  bi_provider :: string
  bi_package :: string
  bi_door :: string
  bi_config :: "(string \<times> string) list"
  bi_locked :: "bool option"

definition bind_provider :: "bind_input \<Rightarrow> time \<Rightarrow> provider_store \<Rightarrow> provider_store" where
  "bind_provider i now s =
     (let p = bi_provider i;
          existing = get_binding p s;
          locked = (case bi_locked i of Some l \<Rightarrow> l
                    | None \<Rightarrow> (case existing of None \<Rightarrow> False | Some b \<Rightarrow> bd_locked b));
          new = \<lparr>bd_provider = p, bd_package = bi_package i, bd_door = bi_door i, bd_config = bi_config i,
                 bd_locked = locked, bd_created = now, bd_updated = now\<rparr>;
          s1 = s\<lparr>ps_bindings := upsert (\<lambda>b. bd_provider b = p)
                 (\<lambda>b. new\<lparr>bd_created := bd_created b\<rparr>) new (ps_bindings s)\<rparr>;
          s2 = (case existing of None \<Rightarrow> s1
                | Some b \<Rightarrow>
                  if bd_package b \<noteq> bi_package i
                  then s1\<lparr>ps_grants := delete_where (\<lambda>g. gr_provider g = p) (ps_grants s1)\<rparr> else s1)
      in invalidate p s2)"

definition set_locked :: "string \<Rightarrow> bool \<Rightarrow> time \<Rightarrow> provider_store \<Rightarrow> unit res \<times> provider_store" where
  "set_locked p locked now s =
     (if \<not> rows_written (\<lambda>b. bd_provider b = p) (ps_bindings s)
      then (Inl (KodyError ''secret_provider_not_bound'' 404), s)
      else (Inr (), invalidate p (s\<lparr>ps_bindings :=
        update_where (\<lambda>b. bd_provider b = p) (\<lambda>b. b\<lparr>bd_locked := locked, bd_updated := now\<rparr>) (ps_bindings s)\<rparr>)))"

definition is_granted :: "string \<Rightarrow> string \<Rightarrow> string \<Rightarrow> provider_store \<Rightarrow> bool" where
  "is_granted p ref pkg s =
     list_ex (\<lambda>g. gr_provider g = p \<and> gr_ref g = ref \<and> gr_package g = pkg) (ps_grants s)"

definition permits :: "binding \<Rightarrow> string \<Rightarrow> string option \<Rightarrow> provider_store \<Rightarrow> bool" where
  "permits b ref package s =
     (if \<not> bd_locked b then True
      else case package of None \<Rightarrow> False | Some pkg \<Rightarrow> is_granted (bd_provider b) ref pkg s)"

definition unbind :: "string \<Rightarrow> provider_store \<Rightarrow> bool \<times> provider_store" where
  "unbind p s =
     (rows_written (\<lambda>b. bd_provider b = p) (ps_bindings s),
      invalidate p (s\<lparr>ps_bindings := delete_where (\<lambda>b. bd_provider b = p) (ps_bindings s),
                      ps_grants := delete_where (\<lambda>g. gr_provider g = p) (ps_grants s)\<rparr>))"

definition add_grant :: "string \<Rightarrow> string \<Rightarrow> string \<Rightarrow> time \<Rightarrow> provider_store \<Rightarrow> provider_store" where
  "add_grant p ref pkg now s =
     (if is_granted p ref pkg s then s
      else s\<lparr>ps_grants := ps_grants s @
        [\<lparr>gr_provider = p, gr_ref = ref, gr_package = pkg, gr_created = now\<rparr>]\<rparr>)"

definition revoke_grant :: "string \<Rightarrow> string \<Rightarrow> string \<Rightarrow> provider_store \<Rightarrow> bool \<times> provider_store" where
  "revoke_grant p ref pkg s =
     (let P = (\<lambda>g. gr_provider g = p \<and> gr_ref g = ref \<and> gr_package g = pkg)
      in (rows_written P (ps_grants s),
          invalidate p (s\<lparr>ps_grants := delete_where P (ps_grants s)\<rparr>)))"

definition unbind_package :: "string \<Rightarrow> provider_store \<Rightarrow> nat \<times> provider_store" where
  "unbind_package pkg s =
     (let rows = filter (\<lambda>b. bd_package b = pkg) (ps_bindings s)
      in (length rows, fold (\<lambda>b t. snd (unbind (bd_provider b) t)) rows s))"

section \<open>The user cell's operations\<close>

text \<open>\<open>pkgs\<close>: for an existing package, the id of the provider its manifest declares, if any.\<close>

type_synonym declared = "string \<Rightarrow> string option option"

definition secret_provider_bind ::
  "declared \<Rightarrow> bind_input \<Rightarrow> time \<Rightarrow> vault \<Rightarrow> provider_store \<Rightarrow> unit res \<times> provider_store" where
  "secret_provider_bind pkgs i now v s =
     (case pkgs (bi_package i) of
        None \<Rightarrow> (Inl (KodyError ''package_not_found'' 404), s)
      | Some declared \<Rightarrow>
        if declared \<noteq> Some (bi_provider i) then (fails ''not_a_secret_provider'', s)
        else if find (\<lambda>m. sm_name m = bi_door i \<and> (sm_scope m = ScopeUser
               \<or> sm_scope m = ScopePackage \<and> sm_package m = Some (bi_package i))) (secret_list v) = None
        then (Inl (KodyError ''secret_not_found'' 404), s)
        else (Inr (), bind_provider i now s))"

definition secret_provider_grant ::
  "declared \<Rightarrow> string \<Rightarrow> string \<Rightarrow> string \<Rightarrow> time \<Rightarrow> provider_store \<Rightarrow> unit res \<times> provider_store" where
  "secret_provider_grant pkgs p ref pkg now s =
     (if get_binding p s = None then (Inl (KodyError ''secret_provider_not_bound'' 404), s)
      else if pkgs pkg = None then (Inl (KodyError ''package_not_found'' 404), s)
      else (Inr (), add_grant p ref pkg now s))"

record authorization =
  au_binding :: binding
  au_cached :: "cached_value option"
  au_provisional :: bool

definition secret_provider_authorize ::
  "string \<Rightarrow> string \<Rightarrow> string option \<Rightarrow> bool \<Rightarrow> time \<Rightarrow> provider_store \<Rightarrow> authorization res \<times> provider_store" where
  "secret_provider_authorize p ref package strict now s =
     (case get_binding p s of
        None \<Rightarrow> (Inl (KodyError ''secret_provider_not_bound'' 404), s)
      | Some b \<Rightarrow>
        (let (cached, s') = cache_get p ref now s;
             canonical = (case cached of None \<Rightarrow> ref | Some c \<Rightarrow> cv_ref c)
         in
         if \<not> permits b canonical package s' then
           (if \<not> strict \<and> cached = None \<and>
               (case package of None \<Rightarrow> False
                | Some pkg \<Rightarrow> list_ex (\<lambda>g. gr_provider g = p \<and> gr_package g = pkg) (ps_grants s'))
            then (Inr \<lparr>au_binding = b, au_cached = None, au_provisional = True\<rparr>, s')
            else (Inl (KodyError ''secret_provider_not_granted'' 403), s'))
         else (Inr \<lparr>au_binding = b, au_cached = cached, au_provisional = False\<rparr>, s')))"

section \<open>The invariant\<close>

datatype provider_op =
    ProviderBind bind_input time
  | ProviderLock string bool time
  | ProviderUnbind string
  | ProviderUnbindPackage string
  | ProviderGrant string string string time
  | ProviderRevoke string string string
  | ProviderAuthorize string string "string option" bool time
  | ProviderCachePut string string "string \<times> string list \<times> string" int time

fun provider_step :: "declared \<Rightarrow> vault \<Rightarrow> provider_op \<Rightarrow> provider_store \<Rightarrow> provider_store" where
  "provider_step D v (ProviderBind i now) s = snd (secret_provider_bind D i now v s)"
| "provider_step D v (ProviderLock p l now) s = snd (set_locked p l now s)"
| "provider_step D v (ProviderUnbind p) s = snd (unbind p s)"
| "provider_step D v (ProviderUnbindPackage pkg) s = snd (unbind_package pkg s)"
| "provider_step D v (ProviderGrant p ref pkg now) s = snd (secret_provider_grant D p ref pkg now s)"
| "provider_step D v (ProviderRevoke p ref pkg) s = snd (revoke_grant p ref pkg s)"
| "provider_step D v (ProviderAuthorize p ref pkg strict now) s =
     snd (secret_provider_authorize p ref pkg strict now s)"
| "provider_step D v (ProviderCachePut p ref e ttl now) s = cache_put p ref e ttl now s"

definition grant_key :: "grant \<Rightarrow> string \<times> string \<times> string" where
  "grant_key g = (gr_provider g, gr_ref g, gr_package g)"

definition provider_inv :: "provider_store \<Rightarrow> bool" where
  "provider_inv s =
     (distinct (map bd_provider (ps_bindings s)) \<and> distinct (map grant_key (ps_grants s))
      \<and> list_all (\<lambda>g. get_binding (gr_provider g) s \<noteq> None) (ps_grants s)
      \<and> distinct (map fst (ps_cache s)) \<and> length (ps_cache s) \<le> 257)"

lemma get_binding_None: "get_binding p s = None \<longleftrightarrow> p \<notin> bd_provider ` set (ps_bindings s)"
  by (auto simp: get_binding_def select_one_None_iff)

lemma get_binding_cache [simp]:
  "get_binding p (s\<lparr>ps_cache := c\<rparr>) = get_binding p s" "get_binding p (s\<lparr>ps_grants := g\<rparr>) = get_binding p s"
  by (simp_all add: get_binding_def)

text \<open>The invariant in terms of the three tables.\<close>

lemma provider_inv_iff:
  "provider_inv s \<longleftrightarrow> distinct (map bd_provider (ps_bindings s)) \<and> distinct (map grant_key (ps_grants s))
     \<and> gr_provider ` set (ps_grants s) \<subseteq> bd_provider ` set (ps_bindings s)
     \<and> distinct (map fst (ps_cache s)) \<and> length (ps_cache s) \<le> 257"
  unfolding provider_inv_def list_all_iff get_binding_None by (simp add: image_subset_iff)

lemma cache_set_ok:
  "distinct (map fst c) \<Longrightarrow> distinct (map fst (cache_set k v c))"
  "length (cache_set k v c) \<le> Suc (length c)"
  unfolding cache_set_def by (rule distinct_upsert, simp_all) (simp add: length_upsert)

lemma cache_put_inv: "provider_inv s \<Longrightarrow> provider_inv (cache_put p ref e ttl now s)"
proof (cases e)
  fix val hosts canonical
  assume inv: "provider_inv s" and fields: "e = (val, hosts, canonical)"
  define c where "c = (if 256 \<le> length (ps_cache s) then [] else ps_cache s)"
  have c: "distinct (map fst c)" "length c \<le> 255"
    using inv by (auto simp: c_def provider_inv_iff)
  have one: "length (cache_set k v c) \<le> 256" for k v
    using cache_set_ok(2) [of k v c] c(2) by linarith
  have two: "length (cache_set k' v' (cache_set k v c)) \<le> 257" for k v k' v'
    using cache_set_ok(2) [of k' v' "cache_set k v c"] one [of k v] by linarith
  have "length (cache_set k v c) \<le> 257" for k v
    using one [of k v] by linarith
  then show ?thesis
    using inv two cache_set_ok(1) [OF c(1)] cache_set_ok(1) [OF cache_set_ok(1) [OF c(1)]]
    by (simp add: cache_put_def Let_def fields provider_inv_iff flip: c_def)
qed

lemma invalidate_inv: "provider_inv s \<Longrightarrow> provider_inv (invalidate p s)"
  by (auto simp: provider_inv_iff invalidate_def distinct_delete_where intro: order_trans [OF length_delete_where_le])

lemma cache_get_inv: "provider_inv s \<Longrightarrow> provider_inv (snd (cache_get p ref now s))"
  by (auto simp: provider_inv_iff cache_get_def distinct_delete_where intro: order_trans [OF length_delete_where_le]
      split: option.split)

lemma unbind_inv: "provider_inv s \<Longrightarrow> provider_inv (snd (unbind p s))"
  unfolding unbind_def snd_conv
  by (rule invalidate_inv) (auto simp: provider_inv_iff distinct_delete_where)

lemma bind_inv: "provider_inv s \<Longrightarrow> provider_inv (bind_provider i now s)"
proof -
  assume inv: "provider_inv s"
  let ?P = "\<lambda>b. bd_provider b = bi_provider i"
  have keys: "distinct (map bd_provider (upsert ?P f new t))"
      "bd_provider ` set (upsert ?P f new t) = insert (bi_provider i) (bd_provider ` set t)"
    if "distinct (map bd_provider t)" "bd_provider new = bi_provider i" "\<And>b. bd_provider (f b) = bi_provider i"
    for f new t
    using that keys_upsert [of ?P bd_provider new f t] by (auto intro: distinct_upsert)
  show ?thesis
    unfolding bind_provider_def Let_def
    by (rule invalidate_inv)
      (use inv in \<open>auto simp: provider_inv_iff keys distinct_delete_where split: option.split\<close>)
qed

lemma provider_step_inv: 
  assumes "provider_inv s"
  shows "provider_inv (provider_step D v op s)"
proof (cases op)
  case (ProviderBind i now)
  with assms show ?thesis
    by (auto simp: secret_provider_bind_def bind_inv split: option.split)
next
  case (ProviderLock p l now)
  let ?t = "update_where (\<lambda>b. bd_provider b = p) (\<lambda>b. b\<lparr>bd_locked := l, bd_updated := now\<rparr>) (ps_bindings s)"
  have "map bd_provider ?t = map bd_provider (ps_bindings s)"
    by (rule map_update_where) simp
  then have "provider_inv (s\<lparr>ps_bindings := ?t\<rparr>)"
    using assms by (simp add: provider_inv_iff flip: set_map)
  then show ?thesis
    using assms by (simp add: ProviderLock set_locked_def invalidate_inv)
next
  case (ProviderUnbindPackage pkg)
  have "provider_inv (fold (\<lambda>b t. snd (unbind (bd_provider b) t)) rows s)" for rows
    using assms by (induction rows arbitrary: s) (simp_all add: unbind_inv)
  then show ?thesis by (simp add: ProviderUnbindPackage unbind_package_def Let_def)
next
  case (ProviderGrant p ref pkg now)
  with assms show ?thesis
    by (auto simp: secret_provider_grant_def add_grant_def is_granted_def provider_inv_iff get_binding_None
        grant_key_def list_ex_iff)
next
  case (ProviderRevoke p ref pkg)
  show ?thesis
    unfolding ProviderRevoke provider_step.simps revoke_grant_def Let_def snd_conv
    by (rule invalidate_inv) (use assms in \<open>auto simp: provider_inv_iff distinct_delete_where\<close>)
next
  case (ProviderAuthorize p ref pkg strict now)
  have "snd (secret_provider_authorize p ref pkg strict now s) \<in> {s, snd (cache_get p ref now s)}"
    by (auto simp: secret_provider_authorize_def Let_def case_prod_beta split: option.split)
  then show ?thesis
    using assms cache_get_inv by (auto simp: ProviderAuthorize)
qed (simp_all add: assms unbind_inv cache_put_inv)

interpretation providers: invariant_store "provider_step D v" provider_inv for D v
  by unfold_locales (rule provider_step_inv)

definition no_providers :: provider_store where
  "no_providers = \<lparr>ps_bindings = [], ps_grants = [], ps_cache = []\<rparr>"

text \<open>Whatever operations are served, a provider id has one binding, a grant is listed once and
  only for a bound provider, and the value cache has one entry per key and at most 257 entries.\<close>

theorem provider_store_consistent:
  "provider_inv (fold (provider_step D v) ops no_providers)"
  by (rule providers.run_inv) (simp add: provider_inv_iff no_providers_def)

section \<open>Who may resolve what\<close>

lemma cache_get_other [simp]:
  "ps_bindings (snd (cache_get p ref now s)) = ps_bindings s"
  "ps_grants (snd (cache_get p ref now s)) = ps_grants s"
  by (auto simp: cache_get_def split: option.split)

text \<open>C3 (safety). On a locked binding an authorization that is not provisional names a calling package that
  holds a grant for the very item the value belongs to: the canonical reference the cache knows, or the
  requested one. A provisional one is given only to a package with some grant of this provider, never in the
  strict second check and never together with a value. Ad hoc code gets neither.\<close>

theorem locked_needs_grant:
  assumes "secret_provider_authorize p ref package strict now s = (Inr a, s')" "bd_locked (au_binding a)"
    "provider_inv s"
  shows "\<exists>pkg. package = Some pkg \<and>
    (if au_provisional a
     then \<not> strict \<and> au_cached a = None \<and> (\<exists>r. is_granted p r pkg s)
     else is_granted p (case au_cached a of None \<Rightarrow> ref | Some c \<Rightarrow> cv_ref c) pkg s)"
proof -
  obtain b where b: "get_binding p s = Some b"
    using assms(1) by (auto simp: secret_provider_authorize_def split: option.splits)
  then have p: "bd_provider b = p" by (auto simp: get_binding_def dest: select_one_SomeD)
  obtain c t where c: "cache_get p ref now s = (c, t)" by (cases "cache_get p ref now s")
  then have g: "ps_grants t = ps_grants s" using cache_get_other(2) [of p ref now s] by simp
  have granted: "list_ex (\<lambda>g. gr_provider g = q \<and> gr_package g = pkg) gs \<Longrightarrow>
      \<exists>r. list_ex (\<lambda>g. gr_provider g = q \<and> gr_ref g = r \<and> gr_package g = pkg) gs" for q pkg gs
    by (auto simp: list_ex_iff)
  show ?thesis
    using assms(1,2) p g
    by (auto simp: secret_provider_authorize_def b c Let_def permits_def is_granted_def
        intro!: granted split: if_splits option.splits)
qed

definition sample_binding :: "bool \<Rightarrow> binding" where
  "sample_binding locked =
     \<lparr>bd_provider = ''op'', bd_package = ''@me/op'', bd_door = ''door'', bd_config = [], bd_locked = locked,
      bd_created = 0, bd_updated = 0\<rparr>"

definition sample_providers :: "bool \<Rightarrow> provider_store" where
  "sample_providers locked =
     \<lparr>ps_bindings = [sample_binding locked],
      ps_grants = [\<lparr>gr_provider = ''op'', gr_ref = ''vault/item'', gr_package = ''@me/app'', gr_created = 0\<rparr>],
      ps_cache = []\<rparr>"

lemma sample_providers_inv: "provider_inv (sample_providers l)"
  by (simp add: provider_inv_iff sample_providers_def sample_binding_def)

theorem locked_needs_grant_witness:
  "is_granted ''op'' ''vault/item'' ''@me/app'' (sample_providers True)"
proof -
  have "secret_provider_authorize ''op'' ''vault/item'' (Some ''@me/app'') True 0 (sample_providers True) =
      (Inr \<lparr>au_binding = sample_binding True, au_cached = None, au_provisional = False\<rparr>, sample_providers True)"
    by (simp add: secret_provider_authorize_def sample_providers_def get_binding_def sample_binding_def
        cache_get_def permits_def is_granted_def)
  from locked_needs_grant [OF this _ sample_providers_inv] show ?thesis
    by (simp add: sample_binding_def)
qed

lemma invalidate_gone: "cache_get p ref now (invalidate p s) = (None, invalidate p s)"
proof -
  have "select_one (\<lambda>e. fst e = cache_key p ref) (ps_cache (invalidate p s)) = None"
    by (auto simp: invalidate_def cache_key_def starts_with_iff intro!: select_one_deleted)
  then show ?thesis by (simp add: cache_get_def)
qed

lemma bind_provider_other_package:
  assumes "get_binding (bi_provider i) s = Some b" "bd_package b \<noteq> bi_package i"
  obtains t where "bind_provider i now s = invalidate (bi_provider i) t"
    "\<forall>g\<in>set (ps_grants t). gr_provider g \<noteq> bi_provider i"
  using assms that unfolding bind_provider_def Let_def by fastforce

text \<open>Rebinding a provider id to another package, or unbinding it, drops every grant and every
  cached value of that id: on a locked binding nobody is served until granted anew.\<close>

theorem rebinding_drops_grants:
  assumes "get_binding (bi_provider i) s = Some b" "bd_package b \<noteq> bi_package i"
    "bi_locked i = Some True \<or> bi_locked i = None \<and> bd_locked b"
  shows "fst (secret_provider_authorize (bi_provider i) ref package strict now' (bind_provider i now s)) =
      Inl (KodyError ''secret_provider_not_granted'' 403) \<and>
    fst (secret_provider_authorize (bi_provider i) ref package strict now' (snd (unbind (bi_provider i) s))) =
      Inl (KodyError ''secret_provider_not_bound'' 404)"
proof
  let ?p = "bi_provider i"
  let ?s = "bind_provider i now s"
  obtain t where t: "?s = invalidate ?p t" "\<forall>g\<in>set (ps_grants t). gr_provider g \<noteq> ?p"
    using bind_provider_other_package [OF assms(1,2)] by metis
  have miss: "cache_get ?p ref now' ?s = (None, ?s)"
    unfolding t(1) by (rule invalidate_gone)
  have none: "\<forall>g\<in>set (ps_grants ?s). gr_provider g \<noteq> ?p"
    using t by (simp add: invalidate_def)
  have "select_one (\<lambda>b. bd_provider b = ?p) (ps_bindings s) = Some b"
    using assms(1) by (simp add: get_binding_def)
  then obtain b' where b': "get_binding ?p ?s = Some b'" "bd_locked b'" "bd_provider b' = ?p"
    using assms(1-3)
    by (auto simp: get_binding_def bind_provider_def Let_def invalidate_def select_one_upsert)
  then show "fst (secret_provider_authorize ?p ref package strict now' ?s) =
      Inl (KodyError ''secret_provider_not_granted'' 403)"
    using miss none
    by (auto simp: secret_provider_authorize_def permits_def is_granted_def list_ex_iff split: option.splits)
  show "fst (secret_provider_authorize ?p ref package strict now' (snd (unbind ?p s))) =
      Inl (KodyError ''secret_provider_not_bound'' 404)"
    by (simp add: secret_provider_authorize_def unbind_def get_binding_def invalidate_def select_one_deleted)
qed

theorem rebinding_drops_grants_witness:
  "fst (secret_provider_authorize ''op'' ''vault/item'' (Some ''@me/app'') False 6
      (bind_provider \<lparr>bi_provider = ''op'', bi_package = ''@evil/op'', bi_door = ''door'', bi_config = [],
        bi_locked = None\<rparr> 5 (sample_providers True))) =
    Inl (KodyError ''secret_provider_not_granted'' 403)"
  using rebinding_drops_grants [of "\<lparr>bi_provider = ''op'', bi_package = ''@evil/op'', bi_door = ''door'',
      bi_config = [], bi_locked = None\<rparr>" "sample_providers True" "sample_binding True"]
  by (simp add: get_binding_def sample_providers_def sample_binding_def)

lemma cache_set_hit: "select_one (\<lambda>e. fst e = k) (cache_set k v c) = Some (k, v)"
  unfolding cache_set_def by (subst select_one_upsert) (auto split: option.split)

lemma cache_set_other:
  "k \<noteq> k' \<Longrightarrow> select_one (\<lambda>e. fst e = k) (cache_set k' v c) = select_one (\<lambda>e. fst e = k) c"
  unfolding cache_set_def by (rule select_one_upsert_other) auto

text \<open>A cached value is served until its time to live is over and never after, under the
  reference it was asked by and under its canonical one, and a revoked grant empties the provider's cache.\<close>

theorem cache_serves_until_expiry:
  assumes "0 < ttl" "r = ref \<or> r = canonical"
  shows "fst (cache_get p r now' (cache_put p ref (val, hosts, canonical) ttl now s)) =
      (if now' < now + ttl
       then Some \<lparr>cv_value = val, cv_hosts = hosts, cv_ref = canonical, cv_expires = now + ttl\<rparr> else None) \<and>
    fst (cache_get p r now' (snd (revoke_grant p canonical pkg s))) = None"
proof -
  let ?v = "\<lparr>cv_value = val, cv_hosts = hosts, cv_ref = canonical, cv_expires = now + ttl\<rparr>"
  let ?s = "cache_put p ref (val, hosts, canonical) ttl now s"
  have key: "cache_key p a = cache_key p b \<longleftrightarrow> a = b" for a b by (simp add: cache_key_def)
  have "select_one (\<lambda>e. fst e = cache_key p r) (ps_cache ?s) = Some (cache_key p r, ?v)"
    using assms by (auto simp: cache_put_def Let_def cache_set_hit cache_set_other key)
  then have "fst (cache_get p r now' ?s) = (if now' < now + ttl then Some ?v else None)"
    by (simp add: cache_get_def)
  moreover have "fst (cache_get p r now' (snd (revoke_grant p canonical pkg s))) = None"
    by (simp add: revoke_grant_def Let_def invalidate_gone)
  ultimately show ?thesis by simp
qed

theorem cache_serves_until_expiry_witness:
  "fst (cache_get ''op'' ''vault/item'' 1200 (cache_put ''op'' ''alias'' (''pw'', [''a.example''], ''vault/item'') 300 1000 no_providers)) =
     Some \<lparr>cv_value = ''pw'', cv_hosts = [''a.example''], cv_ref = ''vault/item'', cv_expires = 1300\<rparr>"
  using cache_serves_until_expiry [of 300 "''vault/item''" "''alias''" "''vault/item''" "''op''" 1200 "''pw''"
    "[''a.example'']" 1000 no_providers] by simp

end
