(* ===== verification/Gateway.thy ===== *)
theory Gateway
  imports ProviderStore
begin

text \<open>
  src/src/secrets/fetch-gateway.ts: every request of sandboxed code passes through \<open>gateway_fetch\<close>.
  The destination (the network), the sealed run of a provider package, the integration
  store's token resolution, the URL parser and the header check of the platform are fields of
  \<open>gateway_env\<close>. The state keeps the user's vault and provider store, and, as ghosts, what was sent
  to the network, what was recorded for the run and which integrations were notified.
\<close>

type_synonym headers = "(string \<times> string) list"

record http_request =
  rq_method :: string
  rq_url :: url
  rq_headers :: headers
  rq_body :: "string option"

record outgoing =
  og_method :: string
  og_url :: url
  og_headers :: headers
  og_body :: "string option"

datatype token_outcome =
    TokenOk string bool
  | TokenDenied nat string bool

record gateway_env =
  ge_public_url :: "url option"
  ge_private_hosts :: "string list"
  ge_package :: "string option"
  ge_vault_env :: vault_env
  ge_parse_url :: "string \<Rightarrow> url option"
  ge_header_ok :: "string \<Rightarrow> bool"
  ge_upstream :: "outgoing \<Rightarrow> nat option"
  ge_integration :: "string \<Rightarrow> string option \<Rightarrow> string \<Rightarrow> bool \<Rightarrow> token_outcome"
  ge_provider_declared :: "string \<Rightarrow> bool"
  ge_provider_run :: "string \<Rightarrow> string \<Rightarrow> json option"
  ge_ttl :: int

datatype outcome = Forwarded | Injected | Denied | Errored

record gateway_event =
  gv_outcome :: outcome
  gv_status :: "nat option"
  gv_secrets :: "string list"
  gv_reason :: "string option"

record gateway =
  gw_vault :: vault
  gw_providers :: provider_store
  gw_sent :: "outgoing list"
  gw_events :: "gateway_event list"
  gw_notices :: "(bool \<times> string) list"

text \<open>The reply: the gateway's own refusal, the upstream's status, or an exception.\<close>

datatype reply = Refused nat string | Upstream nat | Threw

type_synonym denial = "nat \<times> string"

section \<open>Parts of a request\<close>

definition run_header :: string where
  "run_header = ''x-kody-run''"

definition header_value :: "string \<Rightarrow> headers \<Rightarrow> string option" where
  "header_value n hs = map_of hs n"

definition own_admin_surface :: "gateway_env \<Rightarrow> url \<Rightarrow> bool" where
  "own_admin_surface E u =
     (case ge_public_url E of None \<Rightarrow> False
      | Some p \<Rightarrow>
        to_lower (hostname u) = to_lower (hostname p)
        \<and> (pathname u = ''/admin'' \<or> starts_with (pathname u) ''/admin/''))"

definition text_like :: "string \<Rightarrow> bool" where
  "text_like content_type =
     (let c = to_lower content_type
      in list_ex (starts_with c)
        [''text/'', ''application/json'', ''application/x-www-form-urlencoded'', ''application/xml'',
         ''application/graphql'', ''application/javascript'', ''application/x-ndjson'', ''multipart/form-data''])"

definition no_body_method :: "string \<Rightarrow> bool" where
  "no_body_method m = (m = ''GET'' \<or> m = ''HEAD'')"

definition body_bytes :: "http_request \<Rightarrow> string option" where
  "body_bytes rq = (if no_body_method (rq_method rq) then None else rq_body rq)"

definition body_text :: "http_request \<Rightarrow> headers \<Rightarrow> string option" where
  "body_text rq hs =
     (case body_bytes rq of None \<Rightarrow> None
      | Some bs \<Rightarrow>
        (let ct = (case header_value ''content-type'' hs of None \<Rightarrow> [] | Some c \<Rightarrow> c)
         in if length bs \<le> 2 * 1024 * 1024 \<and> (ct = [] \<or> text_like ct) then Some (utf8_decode bs) else None))"

definition header_text :: "headers \<Rightarrow> string" where
  "header_text hs = concat (map (\<lambda>(n, v). n @ '': '' @ v @ [CHR 0x0A]) hs)"

definition passed_headers :: "http_request \<Rightarrow> headers" where
  "passed_headers rq = filter (\<lambda>(n, v). n \<noteq> run_header) (rq_headers rq)"

definition url_text :: "http_request \<Rightarrow> string" where
  "url_text rq = decode_delimiters (href (rq_url rq))"

definition has_placeholders :: "http_request \<Rightarrow> bool" where
  "has_placeholders rq =
     (contains_secret_placeholder (url_text rq)
      \<or> contains_secret_placeholder (header_text (passed_headers rq))
      \<or> (case body_text rq (passed_headers rq) of None \<Rightarrow> False | Some b \<Rightarrow> contains_secret_placeholder b))"

definition request_placeholders :: "http_request \<Rightarrow> placeholders" where
  "request_placeholders rq =
     collect_placeholders (url_text rq @ [CHR 0x0A] @ header_text (passed_headers rq) @ [CHR 0x0A]
       @ (case body_text rq (passed_headers rq) of None \<Rightarrow> [] | Some b \<Rightarrow> b))"

text \<open>A JavaScript Set filled in this order.\<close>

definition set_of :: "'a list \<Rightarrow> 'a list" where
  "set_of xs = foldl (\<lambda>s x. if x \<in> set s then s else s @ [x]) [] xs"

definition secret_names :: "placeholders \<Rightarrow> string list" where
  "secret_names ph =
     set_of (map rs_name (ph_secrets ph) @ concat (map (\<lambda>b. [rb_username b, rb_password b]) (ph_basic ph)))"

definition integration_names :: "placeholders \<Rightarrow> string list" where
  "integration_names ph = set_of (map ri_name (ph_integrations ph))"

definition provider_refs :: "placeholders \<Rightarrow> (string \<times> string) list" where
  "provider_refs ph = set_of (map (\<lambda>p. (rp_provider p, rp_ref p)) (ph_providers ph))"

definition injected_names :: "placeholders \<Rightarrow> string list" where
  "injected_names ph =
     secret_names ph @ map (\<lambda>n. ''integration-token:'' @ n) (integration_names ph)
     @ map (\<lambda>(p, r). ''secret/'' @ p @ '':'' @ r) (provider_refs ph)"

definition secret_refs :: "placeholders \<Rightarrow> (string \<times> secret_scope option) list" where
  "secret_refs ph =
     map (\<lambda>s. (rs_name s, rs_scope s)) (ph_secrets ph)
     @ concat (map (\<lambda>b. [(rb_username b, rb_scope b), (rb_password b, rb_scope b)]) (ph_basic ph))"

section \<open>Values into replacements\<close>

definition value_or_empty :: "(string \<times> string) list \<Rightarrow> string \<Rightarrow> string" where
  "value_or_empty vals n = (case map_of vals n of None \<Rightarrow> [] | Some v \<Rightarrow> v)"

definition set_secret :: "(string \<times> string) list \<Rightarrow> replacements \<Rightarrow> referenced_secret \<Rightarrow> replacements" where
  "set_secret vals m s = set_replacement (rs_placeholder s) (value_or_empty vals (rs_name s)) m"

definition set_basic :: "(string \<times> string) list \<Rightarrow> replacements \<Rightarrow> referenced_basic \<Rightarrow> replacements" where
  "set_basic vals m b =
     (let header = ''Basic '' @ btoa (value_or_empty vals (rb_username b) @ '':'' @ value_or_empty vals (rb_password b))
      in foldl (\<lambda>m scheme. set_replacement (scheme @ rb_placeholder b) header m) m
           [''Basic '', ''basic '', ''BASIC '', ''''])"

text \<open>The admin-approved part: \<open>{{secret:name}}\<close> and \<open>{{secret-basic:\<dots>}}\<close>.\<close>

definition inject_secrets ::
  "gateway_env \<Rightarrow> placeholders \<Rightarrow> bool \<Rightarrow> vault \<Rightarrow> replacements \<Rightarrow> (denial + replacements) option" where
  "inject_secrets E ph host_approved v m =
     (if secret_names ph = [] then Some (Inr m)
      else if \<not> host_approved then Some (Inl (403, ''secret_host_not_approved''))
      else case secret_resolve_values (ge_vault_env E) (secret_refs ph) (ge_package E) v of
        Inl _ \<Rightarrow> None
      | Inr (vals, missing) \<Rightarrow>
        if missing \<noteq> [] then Some (Inl (404, ''secret_not_found''))
        else Some (Inr (foldl (set_basic vals) (foldl (set_secret vals) m (ph_secrets ph)) (ph_basic ph))))"

text \<open>The integration tokens; the notices are dispatched as they arise.\<close>

fun inject_integrations ::
  "gateway_env \<Rightarrow> placeholders \<Rightarrow> string \<Rightarrow> bool \<Rightarrow> string list \<Rightarrow> replacements \<times> (bool \<times> string) list
     \<Rightarrow> denial option \<times> replacements \<times> (bool \<times> string) list" where
  "inject_integrations E ph host force [] (m, ns) = (None, m, ns)"
| "inject_integrations E ph host force (n # names) (m, ns) =
     (case ge_integration E n (ge_package E) host force of
        TokenDenied status code has_record \<Rightarrow>
          (Some (status, code), m, if has_record \<and> force then ns @ [(False, n)] else ns)
      | TokenOk token refreshed \<Rightarrow>
          inject_integrations E ph host force names
            (foldl (\<lambda>m t. if ri_name t = n then set_replacement (ri_placeholder t) token m else m) m
               (ph_integrations ph),
             if refreshed then ns @ [(True, n)] else ns))"

definition parse_provider_result ::
  "(string \<Rightarrow> string option) \<Rightarrow> json \<Rightarrow> (string \<times> string list \<times> string option) option" where
  "parse_provider_result parse result =
     (case result of
        JObj es \<Rightarrow>
          (case json_field ''value'' es of
             Some (JStr v) \<Rightarrow>
               Some (v,
                 (case json_field ''hosts'' es of None \<Rightarrow> [] | Some h \<Rightarrow> normalize_provider_hosts parse h),
                 (case json_field ''canonicalRef'' es of
                    Some (JStr c) \<Rightarrow> if trim c \<noteq> [] \<and> \<not> list_ex ref_char_bad c then Some (trim c) else None
                  | _ \<Rightarrow> None))
           | _ \<Rightarrow> None)
      | _ \<Rightarrow> None)"

text \<open>One reference of the loop in \<open>injectProviderSecrets\<close>: the value and the item's hosts, or a denial.\<close>

definition resolve_provider_ref ::
  "gateway_env \<Rightarrow> time \<Rightarrow> string \<Rightarrow> string \<Rightarrow> provider_store \<Rightarrow>
     (denial + string \<times> string list) \<times> provider_store" where
  "resolve_provider_ref E now p ref s =
     (case secret_provider_authorize p ref (ge_package E) False now s of
        (Inl e, s1) \<Rightarrow> (Inl (err_status e, err_code e), s1)
      | (Inr auth, s1) \<Rightarrow>
        (case au_cached auth of
           Some c \<Rightarrow> (Inr (cv_value c, cv_hosts c), s1)
         | None \<Rightarrow>
           if \<not> ge_provider_declared E (bd_package (au_binding auth))
           then (Inl (404, ''secret_provider_package_missing''), s1)
           else case ge_provider_run E p ref of
             None \<Rightarrow> (Inl (502, ''secret_provider_failed''), s1)
           | Some result \<Rightarrow>
             (case parse_provider_result (\<lambda>t. map_option hostname (ge_parse_url E t)) result of
                None \<Rightarrow> (Inl (502, ''secret_provider_invalid_result''), s1)
              | Some (v, hosts, canon) \<Rightarrow>
                (let canonical = (case canon of None \<Rightarrow> ref | Some c \<Rightarrow> c);
                     s2 = cache_put p ref (v, hosts, canonical) (ge_ttl E) now s1
                 in if au_provisional auth \<or> canonical \<noteq> ref then
                      (case secret_provider_authorize p canonical (ge_package E) True now s2 of
                         (Inl e, s3) \<Rightarrow> (Inl (err_status e, err_code e), s3)
                       | (Inr _, s3) \<Rightarrow> (Inr (v, hosts), s3))
                    else (Inr (v, hosts), s2)))))"

fun inject_provider_refs ::
  "gateway_env \<Rightarrow> time \<Rightarrow> placeholders \<Rightarrow> string \<Rightarrow> bool \<Rightarrow> (string \<times> string) list \<Rightarrow>
     replacements \<times> provider_store \<Rightarrow> denial option \<times> replacements \<times> provider_store" where
  "inject_provider_refs E now ph host host_approved [] (m, s) = (None, m, s)"
| "inject_provider_refs E now ph host host_approved ((p, ref) # refs) (m, s) =
     (case resolve_provider_ref E now p ref s of
        (Inl d, s1) \<Rightarrow> (Some d, m, s1)
      | (Inr (v, hosts), s1) \<Rightarrow>
        if \<not> is_host_approved host hosts \<and> \<not> host_approved
        then (Some (403, ''secret_provider_host_not_allowed''), m, s1)
        else inject_provider_refs E now ph host host_approved refs
          (foldl (\<lambda>m q. if rp_provider q = p \<and> rp_ref q = ref then set_replacement (rp_placeholder q) v m else m)
             m (ph_providers ph), s1))"

definition inject_providers ::
  "gateway_env \<Rightarrow> time \<Rightarrow> placeholders \<Rightarrow> string \<Rightarrow> bool \<Rightarrow> replacements \<times> provider_store \<Rightarrow>
     denial option \<times> replacements \<times> provider_store" where
  "inject_providers E now ph host host_approved ms =
     (if (case ge_package E of None \<Rightarrow> False
          | Some pkg \<Rightarrow> list_ex (\<lambda>b. bd_package b = pkg) (ps_bindings (snd ms)))
      then (Some (403, ''secret_provider_recursion''), ms)
      else inject_provider_refs E now ph host host_approved (provider_refs ph) ms)"

section \<open>The pipeline\<close>

definition record_event :: "http_request \<Rightarrow> gateway_event \<Rightarrow> gateway \<Rightarrow> gateway" where
  "record_event rq ev s =
     (case header_value run_header (rq_headers rq) of
        None \<Rightarrow> s
      | Some run \<Rightarrow> if run = [] then s else s\<lparr>gw_events := gw_events s @ [ev]\<rparr>)"

definition deny :: "http_request \<Rightarrow> string list \<Rightarrow> denial \<Rightarrow> gateway \<Rightarrow> reply \<times> gateway" where
  "deny rq secrets d s =
     (Refused (fst d) (snd d),
      record_event rq \<lparr>gv_outcome = Denied, gv_status = Some (fst d), gv_secrets = secrets,
        gv_reason = Some (snd d)\<rparr> s)"

definition forward_request :: "http_request \<Rightarrow> url \<Rightarrow> headers \<Rightarrow> string option \<Rightarrow> outgoing" where
  "forward_request rq u hs body =
     \<lparr>og_method = rq_method rq, og_url = u, og_headers = hs,
      og_body = (if no_body_method (rq_method rq) then None else body)\<rparr>"

definition send_out :: "gateway_env \<Rightarrow> outgoing \<Rightarrow> gateway \<Rightarrow> nat option \<times> gateway" where
  "send_out E out s = (ge_upstream E out, s\<lparr>gw_sent := gw_sent s @ [out]\<rparr>)"

text \<open>\<open>inject()\<close>: \<open>None\<close> when the injected URL does not parse or a header value is refused.\<close>

definition injected_request :: "gateway_env \<Rightarrow> http_request \<Rightarrow> replacements \<Rightarrow> outgoing option" where
  "injected_request E rq m =
     (let hs = map (\<lambda>(n, v). (n, replace_secret_placeholders v m)) (passed_headers rq);
          body = (case body_text rq (passed_headers rq) of
                    Some t \<Rightarrow> Some (utf8_encode (replace_secret_placeholders t m))
                  | None \<Rightarrow> body_bytes rq)
      in case ge_parse_url E (replace_secret_placeholders (url_text rq) m) of
           None \<Rightarrow> None
         | Some u \<Rightarrow>
           if list_all (\<lambda>(n, v). ge_header_ok E v) hs then Some (forward_request rq u hs body) else None)"

definition inject :: "gateway_env \<Rightarrow> http_request \<Rightarrow> replacements \<Rightarrow> gateway \<Rightarrow> nat option \<times> gateway" where
  "inject E rq m s =
     (case injected_request E rq m of None \<Rightarrow> (None, s) | Some out \<Rightarrow> send_out E out s)"

definition thrown :: "http_request \<Rightarrow> string list \<Rightarrow> gateway \<Rightarrow> reply \<times> gateway" where
  "thrown rq secrets s =
     (Threw, record_event rq \<lparr>gv_outcome = Errored, gv_status = None, gv_secrets = secrets, gv_reason = None\<rparr> s)"

definition injected_reply ::
  "http_request \<Rightarrow> string list \<Rightarrow> nat \<Rightarrow> string option \<Rightarrow> gateway \<Rightarrow> reply \<times> gateway" where
  "injected_reply rq secrets status reason s =
     (Upstream status,
      record_event rq \<lparr>gv_outcome = Injected, gv_status = Some status, gv_secrets = secrets, gv_reason = reason\<rparr> s)"

text \<open>Sending with the replacements in place; a 401 is answered by one forced refresh and a replay.\<close>

definition send_injected ::
  "gateway_env \<Rightarrow> http_request \<Rightarrow> placeholders \<Rightarrow> string \<Rightarrow> replacements \<Rightarrow> gateway \<Rightarrow> reply \<times> gateway" where
  "send_injected E rq ph host m s =
     (let secrets = injected_names ph in
      case inject E rq m s of
        (None, s1) \<Rightarrow> thrown rq secrets s1
      | (Some status, s1) \<Rightarrow>
        if status = 401 \<and> integration_names ph \<noteq> [] then
          (case inject_integrations E ph host True (integration_names ph) (m, gw_notices s1) of
             (Some _, m', ns) \<Rightarrow> injected_reply rq secrets status None (s1\<lparr>gw_notices := ns\<rparr>)
           | (None, m', ns) \<Rightarrow>
             (case inject E rq m' (s1\<lparr>gw_notices := ns\<rparr>) of
                (None, s2) \<Rightarrow> thrown rq secrets s2
              | (Some status', s2) \<Rightarrow> injected_reply rq secrets status' (Some ''integration_refreshed'') s2))
        else injected_reply rq secrets status None s1)"

definition gateway_fetch :: "gateway_env \<Rightarrow> time \<Rightarrow> http_request \<Rightarrow> gateway \<Rightarrow> reply \<times> gateway" where
  "gateway_fetch E now rq s =
     (let u = rq_url rq; host = request_host u in
      if own_admin_surface E u then deny rq [] (403, ''admin_surface_blocked'') s
      else if \<not> has_placeholders rq then
        (case send_out E (forward_request rq u (passed_headers rq) (body_bytes rq)) s of
           (None, s1) \<Rightarrow> (Threw, s1)
         | (Some status, s1) \<Rightarrow>
           (Upstream status, record_event rq \<lparr>gv_outcome = Forwarded, gv_status = Some status,
              gv_secrets = [], gv_reason = None\<rparr> s1))
      else
        (let ph = request_placeholders rq; secrets = injected_names ph in
         if \<not> is_credential_transport_allowed u (ge_private_hosts E)
         then (Refused 403 ''secret_requires_https'',
               record_event rq \<lparr>gv_outcome = Denied, gv_status = Some 403, gv_secrets = secrets,
                 gv_reason = Some ''insecure_scheme''\<rparr> s)
         else
           (let approved = is_host_approved host (map sh_host (secret_host_list (gw_vault s))) in
            case inject_secrets E ph approved (gw_vault s) [] of
              None \<Rightarrow> (Threw, s)
            | Some (Inl d) \<Rightarrow> deny rq secrets d s
            | Some (Inr m1) \<Rightarrow>
              (case inject_integrations E ph host False (integration_names ph) (m1, gw_notices s) of
                 (Some d, m2, ns) \<Rightarrow> deny rq secrets d (s\<lparr>gw_notices := ns\<rparr>)
               | (None, m2, ns) \<Rightarrow>
                 (case (if provider_refs ph = [] then (None, m2, gw_providers s)
                        else inject_providers E now ph host approved (m2, gw_providers s)) of
                    (Some d, m3, ps) \<Rightarrow> deny rq secrets d (s\<lparr>gw_notices := ns, gw_providers := ps\<rparr>)
                  | (None, m3, ps) \<Rightarrow>
                    send_injected E rq ph host m3 (s\<lparr>gw_notices := ns, gw_providers := ps\<rparr>))))))"

text \<open>\<open>send\<close>, the same pipeline for host-side callers; \<open>parse\<close> makes the request's URL.\<close>

definition gateway_send ::
  "gateway_env \<Rightarrow> time \<Rightarrow> string \<Rightarrow> string option \<Rightarrow> headers option \<Rightarrow> string option \<Rightarrow> gateway \<Rightarrow> reply \<times> gateway" where
  "gateway_send E now target meth hs body s =
     (let m = (case meth of None \<Rightarrow> ''GET'' | Some x \<Rightarrow> x) in
      case ge_parse_url E target of
        None \<Rightarrow> (Threw, s)
      | Some u \<Rightarrow>
        gateway_fetch E now
          \<lparr>rq_method = m, rq_url = u, rq_headers = (case hs of None \<Rightarrow> [] | Some h \<Rightarrow> h),
           rq_body = (if no_body_method m then None else map_option utf8_encode body)\<rparr> s)"

section \<open>What leaves the gateway\<close>

lemma record_event_other [simp]:
  "gw_sent (record_event rq ev s) = gw_sent s" "gw_vault (record_event rq ev s) = gw_vault s"
  "gw_providers (record_event rq ev s) = gw_providers s" "gw_notices (record_event rq ev s) = gw_notices s"
  by (auto simp: record_event_def split: option.split)

lemma deny_simps [simp]: "fst (deny rq secrets d s) = Refused (fst d) (snd d)" "gw_sent (snd (deny rq secrets d s)) = gw_sent s"
  by (simp_all add: deny_def)

lemma thrown_simps [simp]: "fst (thrown rq secrets s) = Threw" "gw_sent (snd (thrown rq secrets s)) = gw_sent s"
  by (simp_all add: thrown_def)

lemma injected_reply_simps [simp]:
  "fst (injected_reply rq secrets st r s) = Upstream st" "gw_sent (snd (injected_reply rq secrets st r s)) = gw_sent s"
  by (simp_all add: injected_reply_def)

lemma inject_sent:
  "gw_sent (snd (inject E rq m s)) = gw_sent s @ (case injected_request E rq m of None \<Rightarrow> [] | Some out \<Rightarrow> [out])"
  by (auto simp: inject_def send_out_def split: option.split)

text \<open>Whatever \<open>send_injected\<close> sends is the request with some replacements in place, at most twice.\<close>

lemma send_injected_sent:
  "\<exists>outs. gw_sent (snd (send_injected E rq ph host m s)) = gw_sent s @ outs \<and> length outs \<le> 2 \<and>
     (\<forall>out\<in>set outs. \<exists>m'. injected_request E rq m' = Some out) \<and>
     (length outs = 2 \<longrightarrow> integration_names ph \<noteq> [] \<and>
        ge_upstream E (hd outs) = Some 401)"
proof -
  obtain r s1 where i: "inject E rq m s = (r, s1)" by (cases "inject E rq m s")
  let ?first = "case injected_request E rq m of None \<Rightarrow> [] | Some out \<Rightarrow> [out]"
  have s1: "gw_sent s1 = gw_sent s @ ?first" using inject_sent [of E rq m s] i by simp
  have r: "r = (case injected_request E rq m of None \<Rightarrow> None | Some out \<Rightarrow> ge_upstream E out)"
    using i by (auto simp: inject_def send_out_def split: option.splits)
  obtain d m' ns where n: "inject_integrations E ph host True (integration_names ph) (m, gw_notices s1) = (d, m', ns)"
    by (cases "inject_integrations E ph host True (integration_names ph) (m, gw_notices s1)")
  obtain r2 s2 where i2: "inject E rq m' (s1\<lparr>gw_notices := ns\<rparr>) = (r2, s2)"
    by (cases "inject E rq m' (s1\<lparr>gw_notices := ns\<rparr>)")
  have s2: "gw_sent s2 = gw_sent s1 @ (case injected_request E rq m' of None \<Rightarrow> [] | Some out \<Rightarrow> [out])"
    using inject_sent [of E rq m' "s1\<lparr>gw_notices := ns\<rparr>"] i2 by simp
  show ?thesis
  proof (cases "r = Some 401 \<and> integration_names ph \<noteq> [] \<and> d = None")
    case True
    then obtain out where out: "injected_request E rq m = Some out" "ge_upstream E out = Some 401"
      using r by (auto split: option.splits)
    have "gw_sent (snd (send_injected E rq ph host m s)) = gw_sent s2"
      using True by (simp add: send_injected_def Let_def i n i2 split: option.split)
    then have "gw_sent (snd (send_injected E rq ph host m s)) =
        gw_sent s @ [out] @ (case injected_request E rq m' of None \<Rightarrow> [] | Some o2 \<Rightarrow> [o2])"
      by (simp add: s2 s1 out)
    then show ?thesis
      using True out by (intro exI [of _ "[out] @ (case injected_request E rq m' of None \<Rightarrow> [] | Some o2 \<Rightarrow> [o2])"])
        (auto split: option.split)
  next
    case False
    have "gw_sent (snd (send_injected E rq ph host m s)) = gw_sent s1"
      using False by (auto simp: send_injected_def Let_def i n split: option.split)
    then show ?thesis
      using s1 by (intro exI [of _ ?first]) (auto split: option.split)
  qed
qed

lemma gateway_sent_cases:
  obtains (nothing) "gw_sent (snd (gateway_fetch E now rq s)) = gw_sent s"
      "fst (gateway_fetch E now rq s) = Threw \<or> (\<exists>st c. fst (gateway_fetch E now rq s) = Refused st c)"
  | (plain) "\<not> has_placeholders rq" "\<not> own_admin_surface E (rq_url rq)"
      "gw_sent (snd (gateway_fetch E now rq s)) =
         gw_sent s @ [forward_request rq (rq_url rq) (passed_headers rq) (body_bytes rq)]"
      "\<not> (\<exists>st c. fst (gateway_fetch E now rq s) = Refused st c)"
  | (injected) m1 m2 m3 ns ps where "has_placeholders rq" "\<not> own_admin_surface E (rq_url rq)"
      "is_credential_transport_allowed (rq_url rq) (ge_private_hosts E)"
      "inject_secrets E (request_placeholders rq)
         (is_host_approved (request_host (rq_url rq)) (map sh_host (secret_host_list (gw_vault s)))) (gw_vault s) [] =
         Some (Inr m1)"
      "provider_refs (request_placeholders rq) = [] \<or>
         inject_providers E now (request_placeholders rq) (request_host (rq_url rq))
           (is_host_approved (request_host (rq_url rq)) (map sh_host (secret_host_list (gw_vault s))))
           (m2, gw_providers s) = (None, m3, ps)"
      "gateway_fetch E now rq s = send_injected E rq (request_placeholders rq) (request_host (rq_url rq)) m3
         (s\<lparr>gw_notices := ns, gw_providers := ps\<rparr>)"
proof -
  let ?u = "rq_url rq" and ?host = "request_host (rq_url rq)" and ?ph = "request_placeholders rq"
  let ?approved = "is_host_approved ?host (map sh_host (secret_host_list (gw_vault s)))"
  show thesis
  proof (cases "own_admin_surface E ?u")
    case True
    show thesis by (rule nothing) (simp_all add: gateway_fetch_def Let_def True)
  next
    case no_admin: False
    show thesis
    proof (cases "has_placeholders rq")
      case False
      with no_admin show thesis
        by (intro plain) (auto simp: gateway_fetch_def Let_def send_out_def split: option.split)
    next
      case has: True
      show thesis
      proof (cases "is_credential_transport_allowed ?u (ge_private_hosts E)")
        case False
        show thesis by (rule nothing) (simp_all add: gateway_fetch_def Let_def no_admin has False)
      next
        case transport: True
        note f = gateway_fetch_def [of E now rq s] and g = no_admin has transport
        consider "inject_secrets E ?ph ?approved (gw_vault s) [] = None"
          | d where "inject_secrets E ?ph ?approved (gw_vault s) [] = Some (Inl d)"
          | m1 where "inject_secrets E ?ph ?approved (gw_vault s) [] = Some (Inr m1)"
          by (cases "inject_secrets E ?ph ?approved (gw_vault s) []";
              cases "the (inject_secrets E ?ph ?approved (gw_vault s) [])") auto
        then show thesis
        proof cases
          case 1
          show thesis by (rule nothing) (simp_all add: f Let_def g 1)
        next
          case 2
          show thesis by (rule nothing) (simp_all add: f Let_def g 2)
        next
          case sec: (3 m1)
          obtain d2 m2 ns where i: "inject_integrations E ?ph ?host False (integration_names ?ph) (m1, gw_notices s) = (d2, m2, ns)"
            by (metis prod.collapse)
          obtain d3 m3 ps where p: "(if provider_refs ?ph = [] then (None, m2, gw_providers s)
              else inject_providers E now ?ph ?host ?approved (m2, gw_providers s)) = (d3, m3, ps)"
            by (metis prod.collapse)
          show thesis
          proof (cases "d2 = None \<and> d3 = None")
            case True
            have "gateway_fetch E now rq s = send_injected E rq ?ph ?host m3 (s\<lparr>gw_notices := ns, gw_providers := ps\<rparr>)"
              using g sec i p True by (simp add: f Let_def)
            moreover have "provider_refs ?ph = [] \<or>
                inject_providers E now ?ph ?host ?approved (m2, gw_providers s) = (None, m3, ps)"
              using p True by (auto split: if_splits)
            ultimately show thesis using injected [OF has no_admin transport sec] by blast
          next
            case False
            then show thesis using g sec i p by - (rule nothing, auto simp: f Let_def split: option.split)
          qed
        qed
      qed
    qed
  qed
qed




text \<open>A request without placeholders, to another place than the deployment's admin pages, is
  forwarded once and unchanged but for the run header.\<close>

theorem plain_request_untouched:
  assumes "\<not> has_placeholders rq" "\<not> own_admin_surface E (rq_url rq)"
  shows "gw_sent (snd (gateway_fetch E now rq s)) =
      gw_sent s @ [\<lparr>og_method = rq_method rq, og_url = rq_url rq,
        og_headers = filter (\<lambda>(n, v). n \<noteq> ''x-kody-run'') (rq_headers rq), og_body = body_bytes rq\<rparr>] \<and>
    gw_vault (snd (gateway_fetch E now rq s)) = gw_vault s \<and>
    gw_providers (snd (gateway_fetch E now rq s)) = gw_providers s"
  using assms
  by (auto simp: gateway_fetch_def Let_def send_out_def forward_request_def passed_headers_def run_header_def
      body_bytes_def split: option.split)

text \<open>A call of the gateway sends at most two requests; the second is the replay after a 401 of a
  request with an integration token.\<close>

theorem at_most_one_replay:
  "\<exists>outs. gw_sent (snd (gateway_fetch E now rq s)) = gw_sent s @ outs \<and> length outs \<le> 2 \<and>
    (length outs = 2 \<longrightarrow> integration_names (request_placeholders rq) \<noteq> [] \<and> ge_upstream E (hd outs) = Some 401)"
proof (cases rule: gateway_sent_cases [of E now rq s])
  case nothing
  then show ?thesis by (intro exI [of _ "[]"]) simp
next
  case plain
  then show ?thesis by simp
next
  case (injected m1 m2 m3 ns ps)
  then show ?thesis
    using send_injected_sent [of E rq "request_placeholders rq" "request_host (rq_url rq)" m3
        "s\<lparr>gw_notices := ns, gw_providers := ps\<rparr>"] by auto
qed

section \<open>A concrete gateway\<close>

definition sample_url :: "string \<Rightarrow> string \<Rightarrow> url" where
  "sample_url proto path =
     \<lparr>protocol = proto, username = [], password = [], hostname = ''api.example.com'', pathname = path,
      search = [], hash = [], href = proto @ ''//api.example.com'' @ path\<rparr>"

definition sample_gw_env :: "nat \<Rightarrow> gateway_env" where
  "sample_gw_env status =
     \<lparr>ge_public_url = Some (sample_url ''https:'' ''/''), ge_private_hosts = [], ge_package = Some ''pkg'',
      ge_vault_env = sample_env, ge_parse_url = (\<lambda>t. Some (sample_url ''https:'' ''/v1'')), ge_header_ok = (\<lambda>_. True),
      ge_upstream = (\<lambda>_. Some status), ge_integration = (\<lambda>n p h force. TokenOk ''t0k'' force),
      ge_provider_declared = (\<lambda>_. True), ge_provider_run = (\<lambda>_ _. None), ge_ttl = 300000\<rparr>"

definition sample_rq :: "string \<Rightarrow> string \<Rightarrow> http_request" where
  "sample_rq path auth =
     \<lparr>rq_method = ''GET'', rq_url = sample_url ''https:'' path,
      rq_headers = [(''authorization'', auth), (''x-kody-run'', ''run_1'')], rq_body = None\<rparr>"

definition sample_gw :: gateway where
  "sample_gw =
     \<lparr>gw_vault = two_scopes\<lparr>v_hosts := [\<lparr>sh_host = ''*.example.com'', sh_approved_at = 0, sh_approved_by = ''admin''\<rparr>]\<rparr>,
      gw_providers = sample_providers True, gw_sent = [], gw_events = [], gw_notices = []\<rparr>"

lemma sample_gw_env_simps [simp]:
  "ge_private_hosts (sample_gw_env st) = []" "ge_package (sample_gw_env st) = Some ''pkg''"
  "ge_vault_env (sample_gw_env st) = sample_env" "ge_upstream (sample_gw_env st) out = Some st"
  by (simp_all add: sample_gw_env_def)


lemma sample_plain_rq:
  "\<not> has_placeholders (sample_rq ''/v1'' ''Bearer x'')"
  "\<not> own_admin_surface (sample_gw_env 200) (rq_url (sample_rq ''/v1'' p))"
  "own_admin_surface (sample_gw_env 200) (rq_url (sample_rq ''/admin/users'' p))"
  by code_simp+


theorem plain_request_untouched_witness:
  "length (gw_sent (snd (gateway_fetch (sample_gw_env 200) 5 (sample_rq ''/v1'' ''Bearer x'') sample_gw))) = 1"
  using plain_request_untouched [OF sample_plain_rq(1,2), of 5 sample_gw] by (simp add: sample_gw_def)



theorem at_most_one_replay_witness:
  "\<exists>outs. gw_sent (snd (gateway_fetch (sample_gw_env 200) 5 (sample_rq ''/v1'' ''Bearer {{secret:gh.token|scope=package}}'')
      sample_gw)) = outs \<and> length outs \<le> 2 \<and> length outs \<noteq> 2"
proof -
  obtain outs where "gw_sent (snd (gateway_fetch (sample_gw_env 200) 5
      (sample_rq ''/v1'' ''Bearer {{secret:gh.token|scope=package}}'') sample_gw)) = gw_sent sample_gw @ outs"
    "length outs \<le> 2" "length outs = 2 \<longrightarrow> ge_upstream (sample_gw_env 200) (hd outs) = Some 401"
    using at_most_one_replay [of "sample_gw_env 200" 5 "sample_rq ''/v1'' ''Bearer {{secret:gh.token|scope=package}}''" sample_gw]
    by blast
  then show ?thesis by (auto simp: sample_gw_def)
qed

end
