(* ===== verification/RpcErrors.thy ===== *)
theory RpcErrors
  imports JsValue
begin

text \<open>
  src/src/lib/errors.ts: a KodyError that crosses an RPC hop keeps only its name and
  message, so the constructor writes code and status into the name and \<open>fromUnknown\<close>
  reads them back. An \<open>js_error\<close> is what arrives: the name and the message.
\<close>

record js_error =
  ename :: string
  emessage :: string

definition name_prefix :: string where
  "name_prefix = ''KodyError:''"

definition error_name :: "kody_error \<Rightarrow> string" where
  "error_name e = name_prefix @ err_code e @ '':'' @ show_nat (err_status e)"

text \<open>What is left of a thrown KodyError after the hop.\<close>

definition over_rpc :: "kody_error \<Rightarrow> string \<Rightarrow> js_error" where
  "over_rpc e msg = \<lparr>ename = error_name e, emessage = msg\<rparr>"

text \<open>\<open>Number(status) || 500\<close>; the modelled status is a natural number, so a text that is not a
  positive integer gives 500 (the constructor never writes such a text).\<close>

definition status_of_text :: "string \<Rightarrow> nat" where
  "status_of_text s =
     (case integer_value (js_number s) of
        Some n \<Rightarrow> if 0 < n then nat n else 500
      | None \<Rightarrow> 500)"

definition from_unknown :: "js_error \<Rightarrow> kody_error option" where
  "from_unknown e =
     (if starts_with (ename e) name_prefix then
        (let parts = split_on CHR '':'' (ename e);
             code = (if 1 < length parts then parts ! 1 else ''internal_error'');
             status = (if 2 < length parts then parts ! 2 else ''500'')
         in Some (KodyError code (status_of_text status)))
      else None)"

definition error_status :: "js_error \<Rightarrow> nat" where
  "error_status e = (case from_unknown e of Some k \<Rightarrow> err_status k | None \<Rightarrow> 500)"

lemma status_of_show_nat: "0 < n \<Longrightarrow> status_of_text (show_nat n) = n"
  by (simp add: status_of_text_def js_number_show_nat)

lemma colon_not_digit: "CHR '':'' \<notin> set (show_nat n)"
proof
  assume "CHR '':'' \<in> set (show_nat n)"
  then have "is_digit CHR '':''"
    using show_nat_digits [of n] unfolding list_all_iff by (rule bspec [rotated])
  then show False by (simp add: is_digit_def in_range_def unit_of_def)
qed

lemma split_error_name:
  assumes "CHR '':'' \<notin> set c"
  shows "split_on CHR '':'' (name_prefix @ c @ '':'' @ show_nat n) = [''KodyError'', c, show_nat n]"
proof -
  have "split_on CHR '':'' (c @ CHR '':'' # show_nat n) = [c, show_nat n]"
    by (simp add: split_on_append_sep split_on_none assms colon_not_digit)
  then show ?thesis by (simp add: name_prefix_def)
qed

text \<open>A KodyError thrown inside a cell is revived on the other side of the RPC hop
  with the same code and the same status, whatever its message, as long as the code contains no
  colon and the status is not 0.\<close>

theorem rpc_error_roundtrip:
  assumes "CHR '':'' \<notin> set (err_code e)" "0 < err_status e"
  shows "from_unknown (over_rpc e msg) = Some e \<and> error_status (over_rpc e msg) = err_status e"
proof -
  have "starts_with (error_name e) name_prefix"
    by (simp add: error_name_def)
  then have "from_unknown (over_rpc e msg) = Some e"
    using assms split_error_name [of "err_code e" "err_status e"]
    by (cases e) (simp add: from_unknown_def over_rpc_def error_name_def status_of_show_nat)
  then show ?thesis by (simp add: error_status_def)
qed

theorem rpc_error_roundtrip_witness:
  "from_unknown (over_rpc (KodyError ''quota_exceeded'' 429) ''m'') = Some (KodyError ''quota_exceeded'' 429)"
  using rpc_error_roundtrip [of "KodyError ''quota_exceeded'' 429" "''m''"] by simp

end
