(* ===== verification/OAuthProtocol.thy ===== *)
theory OAuthProtocol
  imports Keyring HostPolicy
begin

text \<open>
  src/src/oauth/protocol.ts: the rules of the MCP authorization server (client registration,
  redirect URIs, the authorize request, scopes, PKCE, client credentials), and the
  comparison of src/src/auth/password.ts they use. An OAuthProtocolError is a KodyError, so
  it is its code and status here. The URL parser is an argument \<open>U\<close>; a URL's text is its \<open>href\<close>.
\<close>

type_synonym url_parser = "string \<Rightarrow> url option"

section \<open>Comparison without early exit\<close>

text \<open>\<open>diff |= a[i] ^ b[i]\<close> over two byte sequences of one length.\<close>

definition diff_bytes :: "string \<Rightarrow> string \<Rightarrow> nat" where
  "diff_bytes a b =
     foldl (\<lambda>diff (x, y). or diff (xor (unit_of x) (unit_of y))) 0 (zip a b)"

definition constant_time_equal :: "string \<Rightarrow> string \<Rightarrow> bool" where
  "constant_time_equal a b = (if length a \<noteq> length b then False else diff_bytes a b = 0)"

definition constant_time_equal_string :: "string \<Rightarrow> string \<Rightarrow> bool" where
  "constant_time_equal_string a b = constant_time_equal (utf8_encode a) (utf8_encode b)"

section \<open>Constants\<close>

definition code_ttl :: int where "code_ttl = 10 * 60 * 1000"
definition access_ttl :: int where "access_ttl = 60 * 60"
definition refresh_ttl :: int where "refresh_ttl = 30 * 24 * 60 * 60 * 1000"
definition replay_grace :: int where "replay_grace = 60 * 1000"
definition unused_client_ttl :: int where "unused_client_ttl = 30 * 24 * 60 * 60 * 1000"

datatype auth_method = AuthNone | AuthPost | AuthBasic

section \<open>Redirect URIs\<close>

definition validate_redirect_uri :: "url_parser \<Rightarrow> json \<Rightarrow> string res" where
  "validate_redirect_uri U v =
     (case v of
        JStr t \<Rightarrow>
          if 2048 < length t then fails ''invalid_redirect_uri''
          else
            (case U t of
               None \<Rightarrow> fails ''invalid_redirect_uri''
             | Some u \<Rightarrow>
               if hash u \<noteq> [] then fails ''invalid_redirect_uri''
               else if username u \<noteq> [] \<or> password u \<noteq> [] then fails ''invalid_redirect_uri''
               else if protocol u = ''http:'' \<and> \<not> is_loopback_host (hostname u) then fails ''invalid_redirect_uri''
               else if protocol u = ''javascript:'' \<or> protocol u = ''data:'' \<or> protocol u = ''file:''
               then fails ''invalid_redirect_uri''
               else Inr (href u))
      | _ \<Rightarrow> fails ''invalid_redirect_uri'')"

definition loopback_redirect :: "url \<Rightarrow> bool" where
  "loopback_redirect u = (protocol u = ''http:'' \<and> is_loopback_host (hostname u))"

definition redirect_uri_matches :: "url_parser \<Rightarrow> string \<Rightarrow> string list \<Rightarrow> bool" where
  "redirect_uri_matches U requested registered =
     (if requested \<in> set registered then True
      else case U requested of
        None \<Rightarrow> False
      | Some req \<Rightarrow>
        if \<not> loopback_redirect req then False
        else list_ex (\<lambda>entry.
          case U entry of
            None \<Rightarrow> False
          | Some reg \<Rightarrow>
            loopback_redirect reg \<and> hostname reg = hostname req \<and> pathname reg = pathname req
            \<and> search reg = search req) registered)"

section \<open>Client registration\<close>

record registration =
  rg_client_name :: string
  rg_redirect_uris :: "string list"
  rg_auth_method :: auth_method
  rg_grant_types :: "string list"
  rg_client_uri :: "string option"
  rg_logo_uri :: "string option"
  rg_software_id :: "string option"
  rg_software_version :: "string option"

definition read_string :: "json option \<Rightarrow> nat \<Rightarrow> string option res" where
  "read_string v n =
     (case v of
        None \<Rightarrow> Inr None
      | Some JNull \<Rightarrow> Inr None
      | Some (JStr t) \<Rightarrow> Inr (Some (take n t))
      | Some _ \<Rightarrow> fails ''invalid_client_metadata'')"

definition read_http_url :: "url_parser \<Rightarrow> json option \<Rightarrow> string option res" where
  "read_http_url U v =
     (case read_string v 512 of
        Inl e \<Rightarrow> Inl e
      | Inr raw \<Rightarrow>
        (case raw of
           None \<Rightarrow> Inr None
         | Some t \<Rightarrow>
           if t = [] then Inr None
           else case U t of
             None \<Rightarrow> fails ''invalid_client_metadata''
           | Some u \<Rightarrow>
             if protocol u \<noteq> ''https:'' \<and> protocol u \<noteq> ''http:'' then fails ''invalid_client_metadata''
             else Inr (Some (href u))))"

definition auth_method_of :: "json option \<Rightarrow> auth_method option" where
  "auth_method_of v =
     (case v of
        None \<Rightarrow> Some AuthNone
      | Some JNull \<Rightarrow> Some AuthNone
      | Some (JStr t) \<Rightarrow>
          if t = ''none'' then Some AuthNone
          else if t = ''client_secret_post'' then Some AuthPost
          else if t = ''client_secret_basic'' then Some AuthBasic else None
      | Some _ \<Rightarrow> None)"

definition is_str :: "string \<Rightarrow> json \<Rightarrow> bool" where
  "is_str t v = (case v of JStr s \<Rightarrow> s = t | _ \<Rightarrow> False)"

definition str_of :: "json \<Rightarrow> string" where
  "str_of v = (case v of JStr s \<Rightarrow> s | _ \<Rightarrow> [])"

definition array_or :: "json list \<Rightarrow> json option \<Rightarrow> json list" where
  "array_or d v = (case v of Some (JArr xs) \<Rightarrow> xs | _ \<Rightarrow> d)"

definition client_name_of :: "url_parser \<Rightarrow> string option \<Rightarrow> string list \<Rightarrow> string" where
  "client_name_of U name uris =
     (let n = (case name of None \<Rightarrow> [] | Some t \<Rightarrow> trim t);
          h = (case U (hd uris) of None \<Rightarrow> [] | Some u \<Rightarrow> hostname u)
      in if n \<noteq> [] then n else if h \<noteq> [] then h else ''MCP client'')"

text \<open>What follows the redirect URIs in \<open>parseClientRegistration\<close>.\<close>

definition client_metadata :: "url_parser \<Rightarrow> (string \<times> json) list \<Rightarrow> string list \<Rightarrow> registration res" where
  "client_metadata U meta redirects =
     (case auth_method_of (json_field ''token_endpoint_auth_method'' meta) of
        None \<Rightarrow> fails ''invalid_client_metadata''
      | Some meth \<Rightarrow>
        (let grants = array_or [JStr ''authorization_code'', JStr ''refresh_token''] (json_field ''grant_types'' meta);
             responses = array_or [JStr ''code''] (json_field ''response_types'' meta)
         in
         if list_ex (\<lambda>g. \<not> is_str ''authorization_code'' g \<and> \<not> is_str ''refresh_token'' g) grants
         then fails ''invalid_client_metadata''
         else if \<not> list_ex (is_str ''authorization_code'') grants then fails ''invalid_client_metadata''
         else if list_ex (\<lambda>r. \<not> is_str ''code'' r) responses then fails ''invalid_client_metadata''
         else
           bind_res (read_string (json_field ''client_name'' meta) 120) (\<lambda>name.
           bind_res (read_http_url U (json_field ''client_uri'' meta)) (\<lambda>client_uri.
           bind_res (read_http_url U (json_field ''logo_uri'' meta)) (\<lambda>logo_uri.
           bind_res (read_string (json_field ''software_id'' meta) 120) (\<lambda>software_id.
           bind_res (read_string (json_field ''software_version'' meta) 60) (\<lambda>software_version.
           Inr \<lparr>rg_client_name = client_name_of U name redirects, rg_redirect_uris = redirects,
                rg_auth_method = meth, rg_grant_types = map str_of grants, rg_client_uri = client_uri,
                rg_logo_uri = logo_uri, rg_software_id = software_id,
                rg_software_version = software_version\<rparr>)))))))"

definition parse_client_registration :: "url_parser \<Rightarrow> json \<Rightarrow> registration res" where
  "parse_client_registration U body =
     (case body of
        JObj meta \<Rightarrow>
          (let uris = array_or [] (json_field ''redirect_uris'' meta) in
           if uris = [] then fails ''invalid_redirect_uri''
           else if 16 < length uris then fails ''invalid_redirect_uri''
           else bind_res (map_res (validate_redirect_uri U) uris) (client_metadata U meta))
      | _ \<Rightarrow> fails ''invalid_client_metadata'')"

section \<open>The authorize request\<close>

text \<open>Query parameters are pairs; \<open>get\<close> answers the first value of a name.\<close>

type_synonym params = "(string \<times> string) list"

record authorize_request =
  az_client :: string
  az_redirect :: string
  az_challenge :: string
  az_state :: "string option"
  az_scope :: string
  az_resource :: string

definition pkce_char :: "char \<Rightarrow> bool" where
  "pkce_char c = (is_alnum c \<or> c = CHR ''.'' \<or> c = CHR ''_'' \<or> c = CHR ''~'' \<or> c = CHR ''-'')"

definition pkce_text :: "string \<Rightarrow> bool" where
  "pkce_text s = (43 \<le> length s \<and> length s \<le> 128 \<and> list_all pkce_char s)"

fun words_go :: "string \<Rightarrow> string \<Rightarrow> string list" where
  "words_go acc [] = (if acc = [] then [] else [rev acc])"
| "words_go acc (c # s) =
     (if is_space c then (if acc = [] then words_go [] s else rev acc # words_go [] s)
      else words_go (c # acc) s)"

text \<open>\<open>text.split(/\s+/).filter(Boolean)\<close>.\<close>

definition words :: "string \<Rightarrow> string list" where
  "words s = words_go [] s"

definition oauth_scopes :: "string list" where
  "oauth_scopes = [''openid'', ''profile'', ''email'']"

definition normalize_scope :: "string option \<Rightarrow> string" where
  "normalize_scope raw =
     (let requested = words (case raw of None \<Rightarrow> [] | Some t \<Rightarrow> t)
      in join_with '' '' (filter (\<lambda>s. s \<in> set requested) oauth_scopes))"

definition parse_authorize_request ::
  "url_parser \<Rightarrow> params \<Rightarrow> string list option \<Rightarrow> string \<Rightarrow> authorize_request res" where
  "parse_authorize_request U q client_uris issuer =
     (case some_text (map_of q ''client_id'') of
        None \<Rightarrow> fails ''invalid_request''
      | Some client \<Rightarrow>
        (case client_uris of
           None \<Rightarrow> fails ''invalid_client''
         | Some uris \<Rightarrow>
           (let redirect = (case map_of q ''redirect_uri'' of
                  Some r \<Rightarrow> Some r
                | None \<Rightarrow> if length uris = 1 then Some (hd uris) else None)
            in
            case some_text redirect of
              None \<Rightarrow> fails ''invalid_request''
            | Some r \<Rightarrow>
              if \<not> redirect_uri_matches U r uris then fails ''invalid_request''
              else if map_of q ''response_type'' \<noteq> Some ''code'' then fails ''unsupported_response_type''
              else
                (case map_of q ''code_challenge'' of
                   None \<Rightarrow> fails ''invalid_request''
                 | Some challenge \<Rightarrow>
                   if \<not> pkce_text challenge then fails ''invalid_request''
                   else if (case map_of q ''code_challenge_method'' of None \<Rightarrow> False | Some m \<Rightarrow> m \<noteq> ''S256'')
                   then fails ''invalid_request''
                   else
                     (let resource = (case map_of q ''resource'' of None \<Rightarrow> issuer @ ''/mcp'' | Some t \<Rightarrow> t);
                          state = map_of q ''state''
                      in
                      if resource \<noteq> issuer @ ''/mcp'' \<and> resource \<noteq> issuer then fails ''invalid_target''
                      else if (case state of None \<Rightarrow> False | Some t \<Rightarrow> 1024 < length t) then fails ''invalid_request''
                      else Inr \<lparr>az_client = client, az_redirect = r, az_challenge = challenge, az_state = state,
                             az_scope = normalize_scope (map_of q ''scope''), az_resource = issuer @ ''/mcp''\<rparr>)))))"

section \<open>PKCE and client credentials\<close>

text \<open>\<open>pkceChallenge\<close> of src/src/integrations/oauth.ts: unpadded base64url of the digest.\<close>

definition base64url :: "string \<Rightarrow> string" where
  "base64url bs =
     map (\<lambda>c. if c = CHR ''+'' then CHR ''-'' else if c = CHR ''/'' then CHR ''_'' else c)
       (filter (\<lambda>c. c \<noteq> CHR ''='') (btoa bs))"

definition pkce_challenge :: "crypto \<Rightarrow> string \<Rightarrow> string" where
  "pkce_challenge C verifier = base64url (sha256 C (utf8_encode verifier))"

definition verify_pkce :: "crypto \<Rightarrow> string option \<Rightarrow> string \<Rightarrow> bool" where
  "verify_pkce C verifier challenge =
     (case verifier of
        None \<Rightarrow> False
      | Some v \<Rightarrow> if \<not> pkce_text v then False else constant_time_equal_string (pkce_challenge C v) challenge)"

text \<open>\<open>decodeURIComponent\<close> on code units below 256; \<open>None\<close> is the thrown URIError.\<close>

fun decode_uri_component :: "string \<Rightarrow> string option" where
  "decode_uri_component [] = Some []"
| "decode_uri_component (c # s) =
     (if c \<noteq> CHR ''%'' then map_option (Cons c) (decode_uri_component s)
      else case s of
        a # b # r \<Rightarrow>
          (case (hex_value a, hex_value b) of
             (Some x, Some y) \<Rightarrow>
               if 16 * x + y < 128 then map_option (Cons (char_of (16 * x + y))) (decode_uri_component r)
               else if 16 * x + y = 194 \<or> 16 * x + y = 195 then
                 (case r of
                    p # a' # b' # r' \<Rightarrow>
                      (case (hex_value a', hex_value b') of
                         (Some x', Some y') \<Rightarrow>
                           if p = CHR ''%'' \<and> 128 \<le> 16 * x' + y' \<and> 16 * x' + y' < 192
                           then map_option (Cons (char_of ((16 * x + y - 192) * 64 + (16 * x' + y' - 128))))
                                  (decode_uri_component r')
                           else None
                       | _ \<Rightarrow> None)
                  | _ \<Rightarrow> None)
               else None
           | _ \<Rightarrow> None)
      | _ \<Rightarrow> None)"

record credentials =
  cr_client :: "string option"
  cr_secret :: "string option"
  cr_method :: auth_method

text \<open>\<open>/^Basic\s+/i\<close>: the rest of the header after it.\<close>

definition basic_rest :: "string \<Rightarrow> string option" where
  "basic_rest h =
     (if to_lower (take 5 h) = ''basic'' \<and> drop 5 h \<noteq> [] \<and> is_space (hd (drop 5 h))
      then Some (trim_start (drop 5 h)) else None)"

definition read_client_credentials :: "string option \<Rightarrow> params \<Rightarrow> credentials res" where
  "read_client_credentials header form =
     (case (case header of None \<Rightarrow> None | Some h \<Rightarrow> basic_rest h) of
        Some rest \<Rightarrow>
          (case atob (trim rest) of
             None \<Rightarrow> Inl (KodyError ''invalid_client'' 401)
           | Some decoded \<Rightarrow>
             if CHR '':'' \<notin> set decoded then Inl (KodyError ''invalid_client'' 401)
             else
               (case decode_uri_component (takeWhile (\<lambda>c. c \<noteq> CHR '':'') decoded) of
                  None \<Rightarrow> internal_error
                | Some cid \<Rightarrow>
                  (case decode_uri_component (tl (dropWhile (\<lambda>c. c \<noteq> CHR '':'') decoded)) of
                     None \<Rightarrow> internal_error
                   | Some sec \<Rightarrow> Inr \<lparr>cr_client = Some cid, cr_secret = Some sec, cr_method = AuthBasic\<rparr>)))
      | None \<Rightarrow>
        (let sec = map_of form ''client_secret'' in
         Inr \<lparr>cr_client = map_of form ''client_id'', cr_secret = sec,
              cr_method = (if some_text sec \<noteq> None then AuthPost else AuthNone)\<rparr>))"

section \<open>Lemmas\<close>

lemma xor_zero_iff: "xor (m::nat) n = 0 \<longleftrightarrow> m = n"
proof
  assume "xor m n = 0"
  then have "xor (xor m n) n = n" by simp
  then show "m = n" by (simp add: xor.assoc)
qed simp

lemma foldl_or_zero: "foldl (\<lambda>d (x, y). or d (f x y)) (n::nat) ps = 0 \<longleftrightarrow> n = 0 \<and> (\<forall>(x, y)\<in>set ps. f x y = 0)"
  by (induction ps arbitrary: n) (auto simp: or_eq_0_iff)

lemma zip_all_eq: "length a = length b \<Longrightarrow> (\<forall>(x, y)\<in>set (zip a b). x = y) \<longleftrightarrow> a = b"
  by (induction a b rule: list_induct2) auto

lemma constant_time_equal_iff: "constant_time_equal a b \<longleftrightarrow> a = b"
proof (cases "length a = length b")
  case True
  have "constant_time_equal a b \<longleftrightarrow> (\<forall>(x, y)\<in>set (zip a b). x = y)"
    using True by (simp add: constant_time_equal_def diff_bytes_def foldl_or_zero xor_zero_iff unit_of_eq_iff)
  then show ?thesis using zip_all_eq [OF True] by simp
qed (auto simp: constant_time_equal_def)

lemma constant_time_string_eq: "constant_time_equal_string a b \<longleftrightarrow> a = b"
  by (simp add: constant_time_equal_string_def constant_time_equal_iff utf8_encode_inject)

text \<open>The comparison without an early exit decides equality, for passwords' hashes, PKCE
  challenges and client secrets alike.\<close>

theorem constant_time_equal_decides:
  "constant_time_equal_string a b = (a = b)"
  by (rule constant_time_string_eq)

lemma map_res_redirects:
  "map_res (validate_redirect_uri U) vs = Inr rs \<Longrightarrow> length rs = length vs \<and>
     (\<forall>r\<in>set rs. \<exists>t u. U t = Some u \<and> r = href u \<and> hash u = [] \<and> username u = [] \<and> password u = [] \<and>
       (protocol u = ''http:'' \<longrightarrow> is_loopback_host (hostname u)) \<and>
       protocol u \<notin> {''javascript:'', ''data:'', ''file:''})"
proof (induction vs arbitrary: rs)
  case (Cons v vs)
  then obtain r rs' where rs: "rs = r # rs'" "validate_redirect_uri U v = Inr r"
      "map_res (validate_redirect_uri U) vs = Inr rs'"
    by (auto split: sum.splits)
  have "\<exists>t u. U t = Some u \<and> r = href u \<and> hash u = [] \<and> username u = [] \<and> password u = [] \<and>
       (protocol u = ''http:'' \<longrightarrow> is_loopback_host (hostname u)) \<and>
       protocol u \<notin> {''javascript:'', ''data:'', ''file:''}"
    using rs(2) by (auto simp: validate_redirect_uri_def split: json.splits option.splits if_splits)
  with Cons.IH [OF rs(3)] rs(1) show ?case by simp
qed simp

lemma is_str_member: "list_ex (is_str t) vs \<Longrightarrow> t \<in> set (map str_of vs)"
  by (induction vs) (auto simp: is_str_def str_of_def split: json.splits)

text \<open>A registration that is accepted has between one and sixteen redirect URIs, each of them
  parsed from an absolute URL without fragment and credentials, over http only on a loopback host and never
  with a scheme that runs code or reads files, and the client may use the authorization code grant.\<close>

theorem registered_redirects_safe:
  assumes "parse_client_registration U body = Inr r"
  shows "1 \<le> length (rg_redirect_uris r) \<and> length (rg_redirect_uris r) \<le> 16 \<and>
    (\<forall>t\<in>set (rg_redirect_uris r). \<exists>s u. U s = Some u \<and> t = href u \<and> hash u = [] \<and> username u = [] \<and> password u = [] \<and>
       (protocol u = ''http:'' \<longrightarrow> is_loopback_host (hostname u)) \<and>
       protocol u \<notin> {''javascript:'', ''data:'', ''file:''}) \<and>
    ''authorization_code'' \<in> set (rg_grant_types r)"
proof -
  obtain meta where b: "body = JObj meta"
    using assms by (auto simp: parse_client_registration_def split: json.splits)
  let ?uris = "array_or [] (json_field ''redirect_uris'' meta)"
  let ?grants = "array_or [JStr ''authorization_code'', JStr ''refresh_token''] (json_field ''grant_types'' meta)"
  have n: "?uris \<noteq> []" "length ?uris \<le> 16"
    using assms by (auto simp: b parse_client_registration_def Let_def split: if_splits)
  have "bind_res (map_res (validate_redirect_uri U) ?uris) (client_metadata U meta) = Inr r"
    using assms n by (simp add: b parse_client_registration_def Let_def)
  then obtain rs where rs: "map_res (validate_redirect_uri U) ?uris = Inr rs" and m: "client_metadata U meta rs = Inr r"
    by (auto simp: bind_res_Inr)
  from m have rs': "rg_redirect_uris r = rs" "rg_grant_types r = map str_of ?grants"
      "list_ex (is_str ''authorization_code'') ?grants"
    by (auto simp: client_metadata_def Let_def bind_res_Inr split: option.splits if_split_asm)
  have "1 \<le> length rs" "length rs \<le> 16"
    using map_res_redirects [OF rs] n by (simp_all add: Suc_le_eq)
  moreover have "''authorization_code'' \<in> set (map str_of ?grants)"
    by (rule is_str_member) (rule rs'(3))
  moreover note conjunct2 [OF map_res_redirects [OF rs]]
  ultimately show ?thesis
    unfolding rs'(1,2) by (intro conjI)
qed

text \<open>A parser that knows two URLs.\<close>

definition two_urls :: url_parser where
  "two_urls t =
     (if t = ''https://app.example/cb'' then
        Some \<lparr>protocol = ''https:'', username = [], password = [], hostname = ''app.example'', pathname = ''/cb'',
              search = [], hash = [], href = t\<rparr>
      else if t = ''http://127.0.0.1:8123/cb'' then
        Some \<lparr>protocol = ''http:'', username = [], password = [], hostname = ''127.0.0.1'', pathname = ''/cb'',
              search = [], hash = [], href = t\<rparr>
      else None)"

theorem registered_redirects_safe_witness:
  "\<exists>r. parse_client_registration two_urls
      (JObj [(''redirect_uris'', JArr [JStr ''https://app.example/cb'', JStr ''http://127.0.0.1:8123/cb''])]) = Inr r \<and>
    1 \<le> length (rg_redirect_uris r)"
proof -
  let ?body = "JObj [(''redirect_uris'', JArr [JStr ''https://app.example/cb'', JStr ''http://127.0.0.1:8123/cb''])]"
  obtain r where r: "parse_client_registration two_urls ?body = Inr r"
    by (simp add: parse_client_registration_def client_metadata_def Let_def bind_res_def array_or_def json_field_def
        validate_redirect_uri_def two_urls_def is_loopback_host_def auth_method_of_def is_str_def read_string_def
        read_http_url_def)
  then show ?thesis using registered_redirects_safe [OF r] by blast
qed

lemma redirect_uri_matchesD:
  assumes "redirect_uri_matches U r uris"
  shows "r \<in> set uris \<or>
      (\<exists>req reg t. U r = Some req \<and> t \<in> set uris \<and> U t = Some reg \<and>
        loopback_redirect req \<and> loopback_redirect reg \<and> hostname req = hostname reg \<and>
        pathname req = pathname reg \<and> search req = search reg)"
proof (cases "r \<in> set uris")
  case False
  then obtain req where req: "U r = Some req" "loopback_redirect req"
    using assms by (auto simp: redirect_uri_matches_def split: option.split_asm if_split_asm)
  then obtain t where "t \<in> set uris" "case U t of None \<Rightarrow> False | Some reg \<Rightarrow>
      loopback_redirect reg \<and> hostname reg = hostname req \<and> pathname reg = pathname req \<and> search reg = search req"
    using assms False by (auto simp: redirect_uri_matches_def list_ex_iff)
  then obtain reg where "U t = Some reg" "loopback_redirect reg" "hostname reg = hostname req"
      "pathname reg = pathname req" "search reg = search req"
    by (cases "U t") auto
  then show ?thesis
    using req \<open>t \<in> set uris\<close> by (intro disjI2 exI [of _ req] exI [of _ reg] exI [of _ t]) simp
qed simp

text \<open>An authorize request that is accepted goes to a redirect URI the client registered, letter by
  letter, or to a loopback http URI that differs from a registered one in the port at most; it carries a
  well-formed PKCE challenge, and its scopes and resource are the server's own.\<close>

theorem authorize_request_checked:
  assumes "parse_authorize_request U q (Some uris) issuer = Inr a"
  shows "(az_redirect a \<in> set uris \<or>
      (\<exists>req reg t. U (az_redirect a) = Some req \<and> t \<in> set uris \<and> U t = Some reg \<and>
        loopback_redirect req \<and> loopback_redirect reg \<and> hostname req = hostname reg \<and>
        pathname req = pathname reg \<and> search req = search reg)) \<and>
    pkce_text (az_challenge a) \<and> map_of q ''response_type'' = Some ''code'' \<and>
    az_resource a = issuer @ ''/mcp'' \<and>
    (\<exists>ss. az_scope a = join_with '' '' ss \<and> set ss \<subseteq> set oauth_scopes)"
proof -
  have "redirect_uri_matches U (az_redirect a) uris \<and> pkce_text (az_challenge a) \<and>
      map_of q ''response_type'' = Some ''code'' \<and> az_resource a = issuer @ ''/mcp'' \<and>
      az_scope a = normalize_scope (map_of q ''scope'')"
  proof -
    note A = assms [unfolded parse_authorize_request_def Let_def option.case]
    obtain client where c: "some_text (map_of q ''client_id'') = Some client"
      by (cases "some_text (map_of q ''client_id'')") (use A in simp_all)
    note B = A [unfolded c option.case]
    let ?redirect = "some_text (case map_of q ''redirect_uri'' of None \<Rightarrow> if length uris = 1 then Some (hd uris) else None
        | Some r \<Rightarrow> Some r)"
    obtain r where r: "?redirect = Some r" by (cases ?redirect) (use B in simp_all)
    note D = B [unfolded r option.case]
    have m: "redirect_uri_matches U r uris" by (rule ccontr) (use D in simp)
    have t: "map_of q ''response_type'' = Some ''code''" by (rule ccontr) (use D m in simp)
    obtain ch where ch: "map_of q ''code_challenge'' = Some ch"
      by (cases "map_of q ''code_challenge''") (use D m t in simp_all)
    have p: "pkce_text ch" by (rule ccontr) (use D m t ch in simp)
    show ?thesis
      using D m t ch p by (simp split: if_split_asm) (auto split: if_split_asm)
  qed
  moreover note redirect_uri_matchesD [of U "az_redirect a" uris]
  moreover have "\<exists>ss. normalize_scope v = join_with '' '' ss \<and> set ss \<subseteq> set oauth_scopes" for v
    unfolding normalize_scope_def Let_def by (rule exI, rule conjI, rule refl) auto
  ultimately show ?thesis by simp
qed

theorem authorize_request_checked_witness:
  "\<exists>a. parse_authorize_request two_urls
      [(''client_id'', ''c''), (''response_type'', ''code''), (''code_challenge'', replicate 43 CHR ''A''),
       (''scope'', ''email admin'')] (Some [''https://app.example/cb'']) ''https://kody.example'' = Inr a \<and>
    az_resource a = ''https://kody.example/mcp''"
proof -
  have p: "pkce_text (replicate 43 CHR ''A'')" by code_simp
  obtain a where a: "parse_authorize_request two_urls
      [(''client_id'', ''c''), (''response_type'', ''code''), (''code_challenge'', replicate 43 CHR ''A''),
       (''scope'', ''email admin'')] (Some [''https://app.example/cb'']) ''https://kody.example'' = Inr a"
    by (simp add: parse_authorize_request_def some_text_def Let_def redirect_uri_matches_def p)
  then show ?thesis using authorize_request_checked [OF a] by auto
qed

end
