(* ===== verification/Accounts.thy ===== *)
theory Accounts
  imports OAuthProtocol
begin

text \<open>
  The registry cell: src/src/cells/registry-cell.ts with the tables of
  src/src/auth/account-store.ts and the password functions of src/src/auth/password.ts.
  Users, API tokens, passwords, one-time sign-in links, browser sessions, hand-off ids, inbox
  names, the audit log and the index of outbound messages. Unicode normalisation and PBKDF2
  are parameters; random ids, tokens and salts and every reading of the clock are arguments.
\<close>

section \<open>Passwords\<close>

record password_env =
  pe_crypto :: crypto
  pe_nfkc :: "string \<Rightarrow> string"
  pe_pbkdf2 :: "string \<Rightarrow> string \<Rightarrow> int \<Rightarrow> string"

definition password_min_length :: nat where "password_min_length = 12"
definition password_max_length :: nat where "password_max_length = 256"
definition password_iterations :: nat where "password_iterations = 600000"

definition validate_password :: "json \<Rightarrow> string res" where
  "validate_password v =
     (case v of
        JStr p \<Rightarrow>
          if length p < password_min_length then fails ''invalid_password''
          else if password_max_length < length p then fails ''invalid_password''
          else Inr p
      | _ \<Rightarrow> fails ''invalid_password'')"

definition derive :: "password_env \<Rightarrow> string \<Rightarrow> string \<Rightarrow> int \<Rightarrow> string" where
  "derive E pass salt iterations = pe_pbkdf2 E (utf8_encode (pe_nfkc E pass)) salt iterations"

definition hash_password :: "password_env \<Rightarrow> string \<Rightarrow> string \<Rightarrow> string" where
  "hash_password E salt pass =
     ''pbkdf2-sha256$'' @ show_nat password_iterations @ ''$'' @ bytes_to_hex salt @ ''$'' @
       bytes_to_hex (derive E pass salt (int password_iterations))"

text \<open>A missing part of \<open>stored.split('$')\<close> is undefined, which the code treats like an empty one.\<close>

definition stored_part :: "string \<Rightarrow> nat \<Rightarrow> string" where
  "stored_part stored i = (let ps = split_on CHR ''$'' stored in if i < length ps then ps ! i else [])"

definition verify_password :: "password_env \<Rightarrow> string \<Rightarrow> string \<Rightarrow> bool" where
  "verify_password E pass stored =
     (if stored_part stored 0 \<noteq> ''pbkdf2-sha256'' \<or> stored_part stored 1 = [] \<or> stored_part stored 2 = []
        \<or> stored_part stored 3 = [] then False
      else
        (case integer_value (js_number (stored_part stored 1)) of
           None \<Rightarrow> False
         | Some iterations \<Rightarrow>
           if iterations < 1000 then False
           else constant_time_equal (hex_to_bytes (stored_part stored 3))
             (derive E pass (hex_to_bytes (stored_part stored 2)) iterations)))"

definition at_least :: "js_num \<Rightarrow> rat \<Rightarrow> bool" where
  "at_least v n = (case v of NaN \<Rightarrow> False | Infinity neg \<Rightarrow> \<not> neg | Num r \<Rightarrow> n \<le> r)"

definition password_needs_rehash :: "string \<Rightarrow> bool" where
  "password_needs_rehash stored = (\<not> at_least (js_number (stored_part stored 1)) (of_nat password_iterations))"

definition dummy_hash :: string where
  "dummy_hash = ''pbkdf2-sha256$600000$'' @ replicate 32 CHR ''0'' @ ''$'' @ replicate 64 CHR ''0''"

section \<open>Tables\<close>

record user_row =
  us_id :: string
  us_email :: string
  us_created :: time

record api_token_row =
  at_hash :: string
  at_user :: string
  at_label :: string
  at_created :: time
  at_last_used :: "time option"

record password_row =
  pw_user :: string
  pw_hash :: string
  pw_updated :: time

record signin_row =
  sl_hash :: string
  sl_user :: string
  sl_kind :: string
  sl_created :: time
  sl_expires :: time

record session_row =
  se_hash :: string
  se_id :: string
  se_user :: string
  se_created :: time
  se_expires :: time
  se_last_seen :: time
  se_agent :: "string option"

record attempt_row =
  sa_email :: string
  sa_failures :: nat
  sa_locked_until :: "time option"

record handoff_row =
  ho_jti :: string
  ho_expires :: time

record inbox_row =
  ib_local :: string
  ib_user :: string
  ib_created :: time

record audit_entry =
  au_id :: string
  au_at :: time
  au_actor :: string
  au_action :: string
  au_target :: "string option"
  au_details :: "json option"

record outbound_row =
  ob_provider :: string
  ob_provider_id :: string
  ob_user :: string
  ob_message :: string
  ob_created :: time

record registry =
  rc_users :: "user_row list"
  rc_tokens :: "api_token_row list"
  rc_passwords :: "password_row list"
  rc_links :: "signin_row list"
  rc_sessions :: "session_row list"
  rc_attempts :: "attempt_row list"
  rc_handoffs :: "handoff_row list"
  rc_inboxes :: "inbox_row list"
  rc_audit :: "audit_entry list"
  rc_outbound :: "outbound_row list"

section \<open>Users and API tokens\<close>

definition normal_email :: "string \<Rightarrow> string" where
  "normal_email e = to_lower (trim e)"

text \<open>\<open>/^[^@\s]+@[^@\s]+\.[^@\s]+$/\<close>.\<close>

definition valid_email :: "string \<Rightarrow> bool" where
  "valid_email e =
     (list_all (\<lambda>c. \<not> is_space c) e \<and>
      (case split_on CHR ''@'' e of
         [a, d] \<Rightarrow> a \<noteq> [] \<and> list_ex (\<lambda>i. d ! i = CHR ''.'') [1..<length d - 1]
       | _ \<Rightarrow> False))"

definition get_user :: "string \<Rightarrow> registry \<Rightarrow> user_row option" where
  "get_user uid s = select_one (\<lambda>u. us_id u = uid) (rc_users s)"

definition get_user_by_email :: "string \<Rightarrow> registry \<Rightarrow> user_row option" where
  "get_user_by_email email s = select_one (\<lambda>u. us_email u = normal_email email) (rc_users s)"

definition issue_token :: "crypto \<Rightarrow> string \<Rightarrow> string \<Rightarrow> string \<Rightarrow> time \<Rightarrow> registry \<Rightarrow> string \<times> registry" where
  "issue_token C uid label raw now s =
     (let tok = random_token ''kc'' raw
      in (tok, s\<lparr>rc_tokens := rc_tokens s @
            [\<lparr>at_hash = sha256_hex C tok, at_user = uid, at_label = label, at_created = now, at_last_used = None\<rparr>]\<rparr>))"

definition create_user ::
  "crypto \<Rightarrow> string \<Rightarrow> string option \<Rightarrow> string \<times> string \<Rightarrow> time \<Rightarrow> registry \<Rightarrow> (user_row \<times> string \<times> bool) res \<times> registry" where
  "create_user C email label random now s =
     (let email = normal_email email; (new_id, raw) = random in
      if \<not> valid_email email then (fails ''invalid_email'', s)
      else
        (let existing = select_one (\<lambda>u. us_email u = email) (rc_users s);
             u = (case existing of Some u \<Rightarrow> u | None \<Rightarrow> \<lparr>us_id = new_id, us_email = email, us_created = now\<rparr>);
             s1 = (if existing = None then s\<lparr>rc_users := rc_users s @ [u]\<rparr> else s);
             (tok, s2) = issue_token C (us_id u) (case label of Some l \<Rightarrow> l | None \<Rightarrow> ''default'') raw now s1
         in (Inr (u, tok, existing = None), s2)))"

definition resolve_token :: "crypto \<Rightarrow> string \<Rightarrow> time \<Rightarrow> registry \<Rightarrow> user_row option \<times> registry" where
  "resolve_token C tok now s =
     (let h = sha256_hex C tok in
      case Option.bind (select_one (\<lambda>t. at_hash t = h) (rc_tokens s)) (\<lambda>t. get_user (at_user t) s) of
        None \<Rightarrow> (None, s)
      | Some u \<Rightarrow>
        (Some u, s\<lparr>rc_tokens := update_where (\<lambda>t. at_hash t = h) (\<lambda>t. t\<lparr>at_last_used := Some now\<rparr>) (rc_tokens s)\<rparr>))"

definition ensure_user :: "string \<Rightarrow> string \<Rightarrow> time \<Rightarrow> registry \<Rightarrow> (user_row \<times> bool) res \<times> registry" where
  "ensure_user email new_id now s =
     (let email = normal_email email in
      if \<not> valid_email email then (fails ''invalid_email'', s)
      else case get_user_by_email email s of
        Some u \<Rightarrow> (Inr (u, False), s)
      | None \<Rightarrow>
        (let u = \<lparr>us_id = new_id, us_email = email, us_created = now\<rparr>
         in (Inr (u, True), s\<lparr>rc_users := rc_users s @ [u]\<rparr>)))"

definition list_users :: "registry \<Rightarrow> user_row list" where
  "list_users s = sort_key us_created (rc_users s)"

definition user_count :: "registry \<Rightarrow> nat" where
  "user_count s = length (rc_users s)"

definition api_token_id :: "string \<Rightarrow> string" where
  "api_token_id token_hash = take 16 token_hash"

definition api_token_list :: "string \<Rightarrow> registry \<Rightarrow> (string \<times> string \<times> time \<times> time option) list" where
  "api_token_list uid s =
     (let rows = filter (\<lambda>t. at_user t = uid) (rc_tokens s)
      in map (\<lambda>t. (api_token_id (at_hash t), at_label t, at_created t, at_last_used t))
           (newest at_created (length rows) rows))"

definition api_token_revoke :: "string \<Rightarrow> string \<Rightarrow> registry \<Rightarrow> bool \<times> registry" where
  "api_token_revoke uid token_id s =
     (let P = (\<lambda>t. at_user t = uid \<and> take 16 (at_hash t) = token_id)
      in (rows_written P (rc_tokens s), s\<lparr>rc_tokens := delete_where P (rc_tokens s)\<rparr>))"

section \<open>Password sign-in\<close>

definition signin_max_failures :: nat where "signin_max_failures = 5"
definition signin_lock_ms :: int where "signin_lock_ms = 15 * 60 * 1000"

definition password_set :: "password_env \<Rightarrow> string \<Rightarrow> string \<Rightarrow> string \<Rightarrow> time \<Rightarrow> registry \<Rightarrow> unit res \<times> registry" where
  "password_set E uid pass salt now s =
     (case validate_password (JStr pass) of
        Inl e \<Rightarrow> (Inl e, s)
      | Inr p \<Rightarrow>
        (let h = hash_password E salt p
         in (Inr (), s\<lparr>rc_passwords := upsert (\<lambda>r. pw_user r = uid) (\<lambda>r. r\<lparr>pw_hash := h, pw_updated := now\<rparr>)
              \<lparr>pw_user = uid, pw_hash = h, pw_updated = now\<rparr> (rc_passwords s)\<rparr>)))"

definition password_is_set :: "string \<Rightarrow> registry \<Rightarrow> bool" where
  "password_is_set uid s = list_ex (\<lambda>r. pw_user r = uid) (rc_passwords s)"

definition password_clear :: "string \<Rightarrow> registry \<Rightarrow> registry" where
  "password_clear uid s = s\<lparr>rc_passwords := delete_where (\<lambda>r. pw_user r = uid) (rc_passwords s)\<rparr>"

definition attempt_of :: "string \<Rightarrow> registry \<Rightarrow> attempt_row option" where
  "attempt_of email s = select_one (\<lambda>a. sa_email a = email) (rc_attempts s)"

definition attempt_locked :: "time \<Rightarrow> attempt_row option \<Rightarrow> bool" where
  "attempt_locked now a = (case a of Some r \<Rightarrow> (case sa_locked_until r of Some t \<Rightarrow> now < t | None \<Rightarrow> False) | None \<Rightarrow> False)"

definition failures_of :: "attempt_row option \<Rightarrow> nat" where
  "failures_of a = (case a of Some r \<Rightarrow> sa_failures r | None \<Rightarrow> 0)"

definition record_failure :: "string \<Rightarrow> time \<Rightarrow> attempt_row option \<Rightarrow> registry \<Rightarrow> registry" where
  "record_failure email now a s =
     (let n = failures_of a + 1;
          locked = (if signin_max_failures \<le> n then Some (now + signin_lock_ms) else None);
          n' = (if locked = None then n else 0)
      in s\<lparr>rc_attempts := upsert (\<lambda>r. sa_email r = email) (\<lambda>r. r\<lparr>sa_failures := n', sa_locked_until := locked\<rparr>)
             \<lparr>sa_email = email, sa_failures = n', sa_locked_until = locked\<rparr> (rc_attempts s)\<rparr>)"

text \<open>What follows the key derivation, from the attempt \<open>a\<close> and the credential row that were read before it.\<close>

definition password_finish ::
  "password_env \<Rightarrow> string \<Rightarrow> string option \<Rightarrow> string \<Rightarrow> string \<Rightarrow> time \<times> time \<Rightarrow> attempt_row option \<Rightarrow>
     password_row option \<Rightarrow> registry \<Rightarrow> bool res \<times> registry" where
  "password_finish E email uid pass salt clocks a row s =
     (let ok = verify_password E pass (case row of Some r \<Rightarrow> pw_hash r | None \<Rightarrow> dummy_hash) in
      case (row, some_text uid) of
        (Some r, Some u) \<Rightarrow>
          if \<not> ok then (Inr False, record_failure email (fst clocks) a s)
          else
            (let s1 = s\<lparr>rc_attempts := delete_where (\<lambda>q. sa_email q = email) (rc_attempts s)\<rparr> in
             if password_needs_rehash (pw_hash r) then
               (case password_set E u pass salt (snd clocks) s1 of
                  (Inl e, s2) \<Rightarrow> (Inl e, s2)
                | (Inr _, s2) \<Rightarrow> (Inr True, s2))
             else (Inr True, s1))
      | _ \<Rightarrow> (Inr False, record_failure email (fst clocks) a s))"

definition credential_of :: "string option \<Rightarrow> registry \<Rightarrow> password_row option" where
  "credential_of uid s =
     (case some_text uid of Some u \<Rightarrow> select_one (\<lambda>r. pw_user r = u) (rc_passwords s) | None \<Rightarrow> None)"

definition password_verify ::
  "password_env \<Rightarrow> string \<Rightarrow> string option \<Rightarrow> string \<Rightarrow> string \<Rightarrow> time \<times> time \<Rightarrow> registry \<Rightarrow> bool res \<times> registry" where
  "password_verify E email uid pass salt clocks s =
     (let email = normal_email email; a = attempt_of email s in
      if attempt_locked (fst clocks) a then (Inl (KodyError ''signin_locked'' 429), s)
      else password_finish E email uid pass salt clocks a (credential_of uid s) s)"

definition password_signin ::
  "password_env \<Rightarrow> string \<Rightarrow> string \<Rightarrow> string \<Rightarrow> time \<times> time \<Rightarrow> registry \<Rightarrow> user_row option res \<times> registry" where
  "password_signin E email pass salt clocks s =
     (let user = get_user_by_email email s in
      case password_verify E email (map_option us_id user) pass salt clocks s of
        (Inl e, s') \<Rightarrow> (Inl e, s')
      | (Inr ok, s') \<Rightarrow> (Inr (if ok then user else None), s'))"

section \<open>One-time sign-in links\<close>

definition signin_token_kinds :: "string list" where
  "signin_token_kinds = [''invite'', ''magic'', ''reset'']"

definition invite_ttl_ms :: int where "invite_ttl_ms = 7 * 24 * 60 * 60 * 1000"
definition magic_link_ttl_ms :: int where "magic_link_ttl_ms = 15 * 60 * 1000"

definition account_purge :: "time \<Rightarrow> registry \<Rightarrow> registry" where
  "account_purge now s =
     s\<lparr>rc_links := delete_where (\<lambda>r. sl_expires r \<le> now) (rc_links s),
       rc_sessions := delete_where (\<lambda>r. se_expires r \<le> now) (rc_sessions s)\<rparr>"

text \<open>The clocks of an issue are those of the purge and of the new row.\<close>

definition signin_token_issue ::
  "crypto \<Rightarrow> string \<Rightarrow> string \<Rightarrow> int option \<Rightarrow> string \<Rightarrow> time \<times> time \<Rightarrow> registry \<Rightarrow> (string \<times> time) \<times> registry" where
  "signin_token_issue C uid kind ttl raw clocks s =
     (let s1 = account_purge (fst clocks) s;
          tok = random_token (''ks'' @ take 1 kind) raw;
          now = snd clocks;
          expires = now + (case ttl of Some t \<Rightarrow> t | None \<Rightarrow> if kind = ''magic'' then magic_link_ttl_ms else invite_ttl_ms)
      in ((tok, expires), s1\<lparr>rc_links := rc_links s1 @
           [\<lparr>sl_hash = sha256_hex C tok, sl_user = uid, sl_kind = kind, sl_created = now, sl_expires = expires\<rparr>]\<rparr>))"

definition link_peek :: "crypto \<Rightarrow> string \<Rightarrow> time \<Rightarrow> registry \<Rightarrow> signin_row option" where
  "link_peek C tok now s =
     (case select_one (\<lambda>r. sl_hash r = sha256_hex C tok) (rc_links s) of
        None \<Rightarrow> None
      | Some r \<Rightarrow>
        if sl_expires r \<le> now then None
        else if sl_kind r \<notin> set signin_token_kinds then None
        else Some r)"

text \<open>The \<open>DELETE\<close> that spends a link; its answer is \<open>rowsWritten > 0\<close>.\<close>

definition link_burn :: "crypto \<Rightarrow> string \<Rightarrow> registry \<Rightarrow> bool \<times> registry" where
  "link_burn C tok s =
     (let P = (\<lambda>r. sl_hash r = sha256_hex C tok)
      in (rows_written P (rc_links s), s\<lparr>rc_links := delete_where P (rc_links s)\<rparr>))"

definition link_consume :: "crypto \<Rightarrow> string \<Rightarrow> time \<Rightarrow> registry \<Rightarrow> signin_row option \<times> registry" where
  "link_consume C tok now s =
     (case link_peek C tok now s of
        None \<Rightarrow> (None, s)
      | Some r \<Rightarrow> (let (burnt, s') = link_burn C tok s in (if burnt then Some r else None, s')))"

definition signin_tokens_revoke :: "string \<Rightarrow> string option \<Rightarrow> registry \<Rightarrow> registry" where
  "signin_tokens_revoke uid kind s =
     (case some_text kind of
        Some k \<Rightarrow> s\<lparr>rc_links := delete_where (\<lambda>r. sl_user r = uid \<and> sl_kind r = k) (rc_links s)\<rparr>
      | None \<Rightarrow> s\<lparr>rc_links := delete_where (\<lambda>r. sl_user r = uid) (rc_links s)\<rparr>)"

definition signin_token_peek :: "crypto \<Rightarrow> string \<Rightarrow> time \<Rightarrow> registry \<Rightarrow> (signin_row \<times> user_row) option" where
  "signin_token_peek C tok now s =
     Option.bind (link_peek C tok now s) (\<lambda>r. map_option (\<lambda>u. (r, u)) (get_user (sl_user r) s))"

definition signin_token_consume ::
  "crypto \<Rightarrow> string \<Rightarrow> time \<Rightarrow> registry \<Rightarrow> (signin_row \<times> user_row) option \<times> registry" where
  "signin_token_consume C tok now s =
     (let (found, s') = link_consume C tok now s
      in (Option.bind found (\<lambda>r. map_option (\<lambda>u. (r, u)) (get_user (sl_user r) s')), s'))"

section \<open>Browser sessions\<close>

definition session_create ::
  "crypto \<Rightarrow> string \<Rightarrow> int \<Rightarrow> string option \<Rightarrow> string \<times> string \<Rightarrow> time \<times> time \<Rightarrow> registry \<Rightarrow> (string \<times> time) \<times> registry" where
  "session_create C uid ttl agent random clocks s =
     (let s1 = account_purge (fst clocks) s; (raw, public_id) = random; now = snd clocks;
          sid = random_token ''kss'' raw
      in ((sid, now + ttl), s1\<lparr>rc_sessions := rc_sessions s1 @
           [\<lparr>se_hash = sha256_hex C sid, se_id = public_id, se_user = uid, se_created = now, se_expires = now + ttl,
             se_last_seen = now, se_agent = map_option (take 200) agent\<rparr>]\<rparr>))"

text \<open>The row the code answers: last seen now, expiring \<open>ttl\<close> from now.\<close>

definition session_lookup :: "crypto \<Rightarrow> string \<Rightarrow> int \<Rightarrow> time \<Rightarrow> registry \<Rightarrow> session_row option \<times> registry" where
  "session_lookup C sid ttl now s =
     (let h = sha256_hex C sid in
      case select_one (\<lambda>r. se_hash r = h) (rc_sessions s) of
        None \<Rightarrow> (None, s)
      | Some r \<Rightarrow>
        if se_expires r \<le> now
        then (None, s\<lparr>rc_sessions := delete_where (\<lambda>r. se_hash r = h) (rc_sessions s)\<rparr>)
        else (Some (r\<lparr>se_last_seen := now, se_expires := now + ttl\<rparr>),
              if now - se_last_seen r > 60000
              then s\<lparr>rc_sessions := update_where (\<lambda>r. se_hash r = h)
                (\<lambda>r. r\<lparr>se_last_seen := now, se_expires := now + ttl\<rparr>) (rc_sessions s)\<rparr>
              else s))"

definition session_resolve ::
  "crypto \<Rightarrow> string \<Rightarrow> int \<Rightarrow> time \<Rightarrow> registry \<Rightarrow> (session_row \<times> user_row) option \<times> registry" where
  "session_resolve C sid ttl now s =
     (let (found, s') = session_lookup C sid ttl now s
      in (Option.bind found (\<lambda>r. map_option (\<lambda>u. (r, u)) (get_user (se_user r) s')), s'))"

definition session_delete :: "crypto \<Rightarrow> string \<Rightarrow> registry \<Rightarrow> bool \<times> registry" where
  "session_delete C sid s =
     (let P = (\<lambda>r. se_hash r = sha256_hex C sid)
      in (rows_written P (rc_sessions s), s\<lparr>rc_sessions := delete_where P (rc_sessions s)\<rparr>))"

definition session_list :: "string \<Rightarrow> time \<Rightarrow> registry \<Rightarrow> session_row list \<times> registry" where
  "session_list uid now s =
     (let s1 = account_purge now s; rows = filter (\<lambda>r. se_user r = uid) (rc_sessions s1)
      in (newest se_last_seen (length rows) rows, s1))"

definition session_revoke :: "string \<Rightarrow> string option \<Rightarrow> registry \<Rightarrow> nat \<times> registry" where
  "session_revoke uid session_id s =
     (let P = (case some_text session_id of
            Some i \<Rightarrow> (\<lambda>r. se_user r = uid \<and> se_id r = i)
          | None \<Rightarrow> (\<lambda>r. se_user r = uid))
      in (length (filter P (rc_sessions s)), s\<lparr>rc_sessions := delete_where P (rc_sessions s)\<rparr>))"

definition session_alive :: "string \<Rightarrow> string \<Rightarrow> time \<Rightarrow> registry \<Rightarrow> bool" where
  "session_alive uid session_id now s =
     (case select_one (\<lambda>r. se_id r = session_id \<and> se_user r = uid) (rc_sessions s) of
        None \<Rightarrow> False
      | Some r \<Rightarrow> now < se_expires r)"

text \<open>\<open>INSERT OR IGNORE\<close> of a hand-off id, after the expired ones are dropped.\<close>

definition app_handoff_burn :: "string \<Rightarrow> time \<Rightarrow> time \<Rightarrow> registry \<Rightarrow> bool \<times> registry" where
  "app_handoff_burn jti expires now s =
     (let rows = delete_where (\<lambda>r. ho_expires r \<le> now) (rc_handoffs s) in
      if list_ex (\<lambda>r. ho_jti r = jti) rows then (False, s\<lparr>rc_handoffs := rows\<rparr>)
      else (True, s\<lparr>rc_handoffs := rows @ [\<lparr>ho_jti = jti, ho_expires = expires\<rparr>]\<rparr>))"

section \<open>Inbox names\<close>

definition reserved_inbox_locals :: "string list" where
  "reserved_inbox_locals =
     [''abuse'', ''admin'', ''administrator'', ''hostmaster'', ''kody'', ''mailer-daemon'', ''no-reply'', ''noreply'',
      ''postmaster'', ''root'', ''security'', ''support'', ''webmaster'']"

definition max_inbox_locals :: nat where "max_inbox_locals = 10"

text \<open>\<open>/^[a-z0-9][a-z0-9._-]{1,62}$/\<close>.\<close>

definition inbox_local_ok :: "string \<Rightarrow> bool" where
  "inbox_local_ok l =
     (2 \<le> length l \<and> length l \<le> 63 \<and> (is_lower (hd l) \<or> is_digit (hd l)) \<and>
      list_all (\<lambda>c. is_lower c \<or> is_digit c \<or> c = CHR ''.'' \<or> c = CHR ''_'' \<or> c = CHR ''-'') (tl l))"

definition inbox_list :: "string \<Rightarrow> registry \<Rightarrow> inbox_row list" where
  "inbox_list uid s = sort_key ib_created (filter (\<lambda>r. ib_user r = uid) (rc_inboxes s))"

definition inbox_claim :: "string \<Rightarrow> string \<Rightarrow> time \<Rightarrow> registry \<Rightarrow> inbox_row res \<times> registry" where
  "inbox_claim uid name now s =
     (let l = to_lower (trim name) in
      if \<not> inbox_local_ok l \<or> contains l ''+'' \<or> contains l ''..'' then (fails ''invalid_inbox_local'', s)
      else if l \<in> set reserved_inbox_locals then (Inl (KodyError ''inbox_local_reserved'' 409), s)
      else case select_one (\<lambda>r. ib_local r = l) (rc_inboxes s) of
        Some r \<Rightarrow>
          if ib_user r \<noteq> uid then (Inl (KodyError ''inbox_local_taken'' 409), s)
          else (Inr \<lparr>ib_local = l, ib_user = uid, ib_created = ib_created r\<rparr>, s)
      | None \<Rightarrow>
          if max_inbox_locals \<le> length (inbox_list uid s) then (Inl (KodyError ''inbox_local_limit'' 429), s)
          else
            (let r = \<lparr>ib_local = l, ib_user = uid, ib_created = now\<rparr>
             in (Inr r, s\<lparr>rc_inboxes := rc_inboxes s @ [r]\<rparr>)))"

definition inbox_release :: "string \<Rightarrow> string \<Rightarrow> registry \<Rightarrow> bool \<times> registry" where
  "inbox_release uid name s =
     (let P = (\<lambda>r. ib_local r = to_lower (trim name) \<and> ib_user r = uid)
      in (rows_written P (rc_inboxes s), s\<lparr>rc_inboxes := delete_where P (rc_inboxes s)\<rparr>))"

definition inbox_resolve :: "string \<Rightarrow> registry \<Rightarrow> user_row option" where
  "inbox_resolve name s =
     Option.bind (select_one (\<lambda>r. ib_local r = to_lower (trim name)) (rc_inboxes s)) (\<lambda>r. get_user (ib_user r) s)"

section \<open>The audit log and the index of outbound messages\<close>

definition audit_append ::
  "nat \<Rightarrow> string \<Rightarrow> string \<times> string \<times> string option \<times> json option \<Rightarrow> time \<Rightarrow> registry \<Rightarrow> audit_entry \<times> registry" where
  "audit_append retention new_id e now s =
     (let (actor, action, target, details) = e;
          r = \<lparr>au_id = new_id, au_at = now, au_actor = actor, au_action = action, au_target = target, au_details = details\<rparr>;
          rows = rc_audit s @ [r];
          kept = set (map au_id (newest au_at retention rows))
      in (r, s\<lparr>rc_audit := delete_where (\<lambda>q. au_id q \<notin> kept) rows\<rparr>))"

text \<open>SQLite's \<open>LIKE\<close>: \<open>%\<close> any text, \<open>_\<close> any character, ASCII letters in either case.\<close>

fun like :: "string \<Rightarrow> string \<Rightarrow> bool" where
  "like [] s = (s = [])"
| "like (p # ps) s =
     (if p = CHR ''%'' then list_ex (\<lambda>i. like ps (drop i s)) [0..<Suc (length s)]
      else case s of
        [] \<Rightarrow> False
      | c # cs \<Rightarrow> (p = CHR ''_'' \<or> lower_char p = lower_char c) \<and> like ps cs)"

definition audit_list :: "int option \<Rightarrow> string option \<Rightarrow> string option \<Rightarrow> registry \<Rightarrow> audit_entry list" where
  "audit_list limit actor action s =
     (let n = min (max (case limit of Some l \<Rightarrow> l | None \<Rightarrow> 50) 1) 1000;
          by_actor = (case some_text actor of None \<Rightarrow> (\<lambda>r. True) | Some a \<Rightarrow> (\<lambda>r. au_actor r = a));
          by_action = (case some_text action of None \<Rightarrow> (\<lambda>r. True) | Some a \<Rightarrow> (\<lambda>r. like (a @ ''%'') (au_action r)))
      in newest au_at (nat n) (filter (\<lambda>r. by_actor r \<and> by_action r) (rc_audit s)))"

definition outbound_index_ttl_ms :: int where "outbound_index_ttl_ms = 30 * 24 * 60 * 60 * 1000"

definition outbound_index_set ::
  "string \<Rightarrow> string \<Rightarrow> string \<Rightarrow> string \<Rightarrow> time \<times> time \<Rightarrow> registry \<Rightarrow> registry" where
  "outbound_index_set provider pid uid mid clocks s =
     s\<lparr>rc_outbound := delete_where (\<lambda>r. ob_created r < snd clocks - outbound_index_ttl_ms)
        (upsert (\<lambda>r. ob_provider r = provider \<and> ob_provider_id r = pid)
          (\<lambda>r. r\<lparr>ob_user := uid, ob_message := mid\<rparr>)
          \<lparr>ob_provider = provider, ob_provider_id = pid, ob_user = uid, ob_message = mid, ob_created = fst clocks\<rparr>
          (rc_outbound s))\<rparr>"

definition outbound_index_resolve :: "string \<Rightarrow> string \<Rightarrow> registry \<Rightarrow> (string \<times> string) option" where
  "outbound_index_resolve provider pid s =
     map_option (\<lambda>r. (ob_user r, ob_message r))
       (select_one (\<lambda>r. ob_provider r = provider \<and> ob_provider_id r = pid) (rc_outbound s))"

section \<open>The lock bounds the guesses\<close>



definition attempts_ok :: "registry \<Rightarrow> bool" where
  "attempts_ok s = (distinct (map sa_email (rc_attempts s)) \<and>
     (\<forall>a\<in>set (rc_attempts s). sa_failures a < signin_max_failures))"

lemma credential_record_failure [simp]: "credential_of uid (record_failure e now a s) = credential_of uid s"
proof -
  have "rc_passwords (record_failure e now a s) = rc_passwords s"
    by (simp add: record_failure_def Let_def)
  then show ?thesis unfolding credential_of_def by (simp only:)
qed


lemma record_failure_attempt:
  "attempt_of email (record_failure email now a s) =
    Some (if failures_of a + 1 < signin_max_failures
          then \<lparr>sa_email = email, sa_failures = failures_of a + 1, sa_locked_until = None\<rparr>
          else \<lparr>sa_email = email, sa_failures = 0, sa_locked_until = Some (now + signin_lock_ms)\<rparr>)"
proof -
  define n' locked where "n' = (if failures_of a + 1 < signin_max_failures then failures_of a + 1 else 0)"
    and "locked = (if failures_of a + 1 < signin_max_failures then None else Some (now + signin_lock_ms))"
  have "rc_attempts (record_failure email now a s) = upsert (\<lambda>r. sa_email r = email)
      (\<lambda>r. r\<lparr>sa_failures := n', sa_locked_until := locked\<rparr>)
      \<lparr>sa_email = email, sa_failures = n', sa_locked_until = locked\<rparr> (rc_attempts s)"
    by (simp add: record_failure_def Let_def n'_def locked_def not_le)
  moreover have "(case select_one (\<lambda>r. sa_email r = email) (rc_attempts s) of
      None \<Rightarrow> \<lparr>sa_email = email, sa_failures = n', sa_locked_until = locked\<rparr>
    | Some r \<Rightarrow> r\<lparr>sa_failures := n', sa_locked_until := locked\<rparr>) =
      \<lparr>sa_email = email, sa_failures = n', sa_locked_until = locked\<rparr>"
    by (auto dest!: select_one_SomeD split: option.split)
  ultimately have "attempt_of email (record_failure email now a s) =
      Some \<lparr>sa_email = email, sa_failures = n', sa_locked_until = locked\<rparr>"
    by (simp add: attempt_of_def select_one_upsert)
  then show ?thesis by (simp add: n'_def locked_def)
qed

lemma record_failure_ok:
  assumes "attempts_ok s"
  shows "attempts_ok (record_failure email now (attempt_of email s) s)"
proof -
  have "distinct (map sa_email (rc_attempts (record_failure email now (attempt_of email s) s)))"
    using assms unfolding attempts_ok_def record_failure_def Let_def
    by (simp add: distinct_upsert)
  moreover have "sa_failures a < signin_max_failures"
    if "a \<in> set (rc_attempts (record_failure email now (attempt_of email s) s))" for a
    using that assms unfolding attempts_ok_def record_failure_def Let_def
    by (auto simp: upsert_def set_update_where signin_max_failures_def split: if_splits)
  ultimately show ?thesis unfolding attempts_ok_def by blast
qed




definition empty_registry :: registry where
  "empty_registry =
     \<lparr>rc_users = [], rc_tokens = [], rc_passwords = [], rc_links = [], rc_sessions = [], rc_attempts = [],
      rc_handoffs = [], rc_inboxes = [], rc_audit = [], rc_outbound = []\<rparr>"

definition sample_passwords :: password_env where
  "sample_passwords = \<lparr>pe_crypto = sample_crypto, pe_nfkc = (\<lambda>s. s), pe_pbkdf2 = (\<lambda>p s n. p)\<rparr>"


text \<open>Attempts that overlap: each reads the counter before its key derivation and writes it afterwards. However
  many of them fail, they count as one, so the bound above does not cover attempts made in parallel.\<close>

theorem parallel_guesses_count_once:
  assumes "\<forall>g\<in>set gs. \<not> verify_password E (fst g) (pw_hash r)" "gs \<noteq> []"
    "failures_of a + 1 < signin_max_failures"
  shows "attempt_of email (fold (\<lambda>g s. snd (password_finish E email uid (fst g) [] (snd g) a (Some r) s)) gs s) =
    Some \<lparr>sa_email = email, sa_failures = failures_of a + 1, sa_locked_until = None\<rparr>"
  using assms(1,2)
proof (induction gs arbitrary: s rule: rev_induct)
  case (snoc g gs)
  have "snd (password_finish E email uid (fst g) [] (snd g) a (Some r) t) = record_failure email (fst (snd g)) a t" for t
    using snoc.prems by (simp add: password_finish_def Let_def split: option.split)
  then show ?case
    using assms(3) by (simp add: record_failure_attempt)
qed simp

theorem parallel_guesses_count_once_witness:
  "attempt_of ''a@b.c'' (fold (\<lambda>g s. snd (password_finish sample_passwords ''a@b.c'' (Some ''u1'') (fst g) [] (snd g) None
      (Some \<lparr>pw_user = ''u1'', pw_hash = ''plain'', pw_updated = 0\<rparr>) s)) (replicate 100 (''guess'', 0, 0)) empty_registry) =
    Some \<lparr>sa_email = ''a@b.c'', sa_failures = 1, sa_locked_until = None\<rparr>"
  using parallel_guesses_count_once [of "replicate 100 (''guess'', 0, 0)" sample_passwords
      "\<lparr>pw_user = ''u1'', pw_hash = ''plain'', pw_updated = 0\<rparr>" None "''a@b.c''" "Some ''u1''" empty_registry]
  by (simp add: verify_password_def stored_part_def failures_of_def signin_max_failures_def)

section \<open>Links and hand-offs are used once\<close>

definition link_burned :: "crypto \<Rightarrow> string \<Rightarrow> registry \<Rightarrow> bool" where
  "link_burned C tok s = (\<forall>r\<in>set (rc_links s). sl_hash r \<noteq> sha256_hex C tok)"

interpretation links: one_time "link_burn C" "link_burned C" for C
  by unfold_locales (auto simp: link_burn_def link_burned_def rows_written_def list_ex_iff Let_def)

text \<open>A sign-in link works once: consuming it succeeds exactly when it is live and its row is the one
  this request deletes, and of any number of requests that race for it at most one deletes the row.\<close>

theorem signin_link_used_once:
  "(fst (link_consume C tok now s) \<noteq> None \<longleftrightarrow> link_peek C tok now s \<noteq> None \<and> fst (link_burn C tok s)) \<and>
   successes (link_burn C) tok toks s \<le> 1"
proof
  show "fst (link_consume C tok now s) \<noteq> None \<longleftrightarrow> link_peek C tok now s \<noteq> None \<and> fst (link_burn C tok s)"
    by (auto simp: link_consume_def Let_def case_prod_beta split: option.splits)
  show "successes (link_burn C) tok toks s \<le> 1"
    by (rule links.at_most_once)
qed

lemma handoff_kept:
  assumes "r \<in> set (rc_handoffs s)" "now < ho_expires r"
  shows "r \<in> set (rc_handoffs (snd (app_handoff_burn jti e now s)))"
  using assms by (auto simp: app_handoff_burn_def Let_def)

text \<open>A hand-off id that was accepted is refused until it expires, whatever other ids are burnt
  in the meantime.\<close>

theorem handoff_used_once:
  assumes "fst (app_handoff_burn jti expires now s)" "\<forall>b\<in>set bs. snd (snd b) < expires" "later < expires"
  shows "\<not> fst (app_handoff_burn jti expires' later
    (fold (\<lambda>b s. snd (app_handoff_burn (fst b) (fst (snd b)) (snd (snd b)) s)) bs (snd (app_handoff_burn jti expires now s))))"
proof -
  let ?r = "\<lparr>ho_jti = jti, ho_expires = expires\<rparr>"
  have r: "?r \<in> set (rc_handoffs (snd (app_handoff_burn jti expires now s)))"
    using assms(1) by (auto simp: app_handoff_burn_def Let_def split: if_splits)
  have "?r \<in> set (rc_handoffs t) \<Longrightarrow>
      ?r \<in> set (rc_handoffs (fold (\<lambda>b s. snd (app_handoff_burn (fst b) (fst (snd b)) (snd (snd b)) s)) bs t))" for t
    using assms(2) by (induction bs arbitrary: t) (simp_all add: handoff_kept)
  moreover have "?r \<in> set (rc_handoffs t) \<Longrightarrow> \<not> fst (app_handoff_burn jti expires' later t)" for t
    using assms(3) by (auto simp: app_handoff_burn_def Let_def list_ex_iff intro!: bexI [of _ ?r])
  ultimately show ?thesis using r by blast
qed

theorem handoff_used_once_witness:
  "\<not> fst (app_handoff_burn ''j'' 100 20 (snd (app_handoff_burn ''k'' 15 10 (snd (app_handoff_burn ''j'' 100 0 empty_registry)))))"
  using handoff_used_once [of "''j''" 100 0 empty_registry "[(''k'', 15, 10)]" 20 100]
  by (simp add: app_handoff_burn_def Let_def empty_registry_def)

section \<open>Sessions\<close>

lemma session_lookup_user:
  "fst (session_lookup C sid ttl now s) = Some r \<Longrightarrow>
    \<exists>q\<in>set (rc_sessions s). se_hash q = sha256_hex C sid \<and> se_user q = se_user r \<and> se_id q = se_id r \<and> now < se_expires q"
  by (auto simp: session_lookup_def Let_def dest!: select_one_SomeD split: option.splits if_splits)

text \<open>A browser session resolves only while its row is there and unexpired, to a user that exists;
  after a user revoked all sessions none of them resolves to that user and no package app sees one alive.\<close>

theorem session_revocation_complete:
  "(case fst (session_resolve C sid ttl now s) of
      None \<Rightarrow> True
    | Some (r, u) \<Rightarrow> us_id u = se_user r \<and> u \<in> set (rc_users s) \<and>
        (\<exists>q\<in>set (rc_sessions s). se_hash q = sha256_hex C sid \<and> se_user q = se_user r \<and> now < se_expires q)) \<and>
   (case fst (session_resolve C sid ttl now (snd (session_revoke uid None s))) of
      None \<Rightarrow> True
    | Some (r, u) \<Rightarrow> us_id u \<noteq> uid) \<and>
   \<not> session_alive uid session_id now (snd (session_revoke uid None s))"
proof -
  have users: "rc_users (snd (session_lookup C sid ttl now t)) = rc_users t" for t
    by (auto simp: session_lookup_def Let_def split: option.split)
  have found: "(r, u) = x \<Longrightarrow> fst (session_resolve C sid ttl now t) = Some x \<Longrightarrow>
      us_id u = se_user r \<and> u \<in> set (rc_users t) \<and>
      (\<exists>q\<in>set (rc_sessions t). se_hash q = sha256_hex C sid \<and> se_user q = se_user r \<and> now < se_expires q)" for t r u x
    using users [of t] session_lookup_user [of C sid ttl now t]
    by (auto simp: session_resolve_def Let_def case_prod_beta get_user_def bind_eq_Some_conv dest!: select_one_SomeD)
  have gone: "q \<in> set (rc_sessions (snd (session_revoke uid None s))) \<Longrightarrow> se_user q \<noteq> uid" for q
    by (simp add: session_revoke_def some_text_def Let_def)
  have "session_alive uid session_id now (snd (session_revoke uid None s)) \<Longrightarrow> False"
    using gone by (auto simp: session_alive_def dest!: select_one_SomeD split: option.splits)
  then show ?thesis
    using found [OF refl] gone by (fastforce split: option.split)
qed

section \<open>What the registry keeps\<close>

definition inboxes_ok :: "registry \<Rightarrow> bool" where
  "inboxes_ok s =
     (distinct (map ib_local (rc_inboxes s)) \<and>
      (\<forall>r\<in>set (rc_inboxes s). inbox_local_ok (ib_local r) \<and> ib_local r \<notin> set reserved_inbox_locals \<and>
         length (filter (\<lambda>q. ib_user q = ib_user r) (rc_inboxes s)) \<le> max_inbox_locals))"

definition registry_ok :: "nat \<Rightarrow> registry \<Rightarrow> bool" where
  "registry_ok retention s =
     (distinct (map us_id (rc_users s)) \<and> distinct (map us_email (rc_users s)) \<and>
      distinct (map pw_user (rc_passwords s)) \<and> attempts_ok s \<and> inboxes_ok s \<and>
      distinct (map au_id (rc_audit s)) \<and> length (rc_audit s) \<le> retention)"

datatype registry_op =
    CreateUser string "string option" "string \<times> string" time
  | EnsureUser string string time
  | SetPassword string string string time
  | ClearPassword string
  | SignIn string string string "time \<times> time"
  | ClaimInbox string string time
  | ReleaseInbox string string
  | AppendAudit string "string \<times> string \<times> string option \<times> json option" time
  | ConsumeLink string time
  | ResolveSession string int time

text \<open>New ids are random and taken to be unused.\<close>

fun registry_step :: "password_env \<Rightarrow> nat \<Rightarrow> registry_op \<Rightarrow> registry \<Rightarrow> registry" where
  "registry_step E n (CreateUser email label random now) s =
     (if fst random \<in> us_id ` set (rc_users s) then s else snd (create_user (pe_crypto E) email label random now s))"
| "registry_step E n (EnsureUser email i now) s =
     (if i \<in> us_id ` set (rc_users s) then s else snd (ensure_user email i now s))"
| "registry_step E n (SetPassword uid pass salt now) s = snd (password_set E uid pass salt now s)"
| "registry_step E n (ClearPassword uid) s = password_clear uid s"
| "registry_step E n (SignIn email pass salt clocks) s = snd (password_signin E email pass salt clocks s)"
| "registry_step E n (ClaimInbox uid name now) s = snd (inbox_claim uid name now s)"
| "registry_step E n (ReleaseInbox uid name) s = snd (inbox_release uid name s)"
| "registry_step E n (AppendAudit i e now) s =
     (if i \<in> au_id ` set (rc_audit s) then s else snd (audit_append n i e now s))"
| "registry_step E n (ConsumeLink tok now) s = snd (signin_token_consume (pe_crypto E) tok now s)"
| "registry_step E n (ResolveSession sid ttl now) s = snd (session_resolve (pe_crypto E) sid ttl now s)"

lemma create_user_ok:
  assumes "registry_ok n s" "fst random \<notin> us_id ` set (rc_users s)"
  shows "registry_ok n (snd (create_user C email label random now s))"
proof (cases "select_one (\<lambda>u. us_email u = normal_email email) (rc_users s)")
  case None
  then have "normal_email email \<notin> us_email ` set (rc_users s)"
    by (auto simp: select_one_None_iff)
  then show ?thesis
    using None assms
    by (cases random) (auto simp: create_user_def issue_token_def Let_def registry_ok_def attempts_ok_def inboxes_ok_def)
next
  case (Some u)
  then show ?thesis
    using assms(1)
    by (cases random) (auto simp: create_user_def issue_token_def Let_def registry_ok_def attempts_ok_def inboxes_ok_def)
qed

lemma is_space_lower [simp]: "is_space (lower_char c) = is_space c"
  by (auto simp: is_space_def lower_char_def in_range_def unit_of_char_of)

lemma normal_email_idem [simp]: "normal_email (normal_email e) = normal_email e"
proof -
  have "trim (to_lower (trim e)) = to_lower (trim e)"
    using trim_ends [of e]
    by (cases "trim e = []") (auto simp: to_lower_def last_map hd_map intro!: trim_id)
  then show ?thesis by (simp add: normal_email_def)
qed

lemma ensure_user_ok:
  assumes "registry_ok n s" "i \<notin> us_id ` set (rc_users s)"
  shows "registry_ok n (snd (ensure_user email i now s))"
proof (cases "get_user_by_email (normal_email email) s")
  case None
  then have "normal_email email \<notin> us_email ` set (rc_users s)"
    by (auto simp: get_user_by_email_def select_one_None_iff)
  then show ?thesis
    using None assms
    by (auto simp: ensure_user_def Let_def registry_ok_def attempts_ok_def inboxes_ok_def)
next
  case (Some u)
  then show ?thesis using assms(1) by (auto simp: ensure_user_def Let_def)
qed

lemma password_set_ok: "registry_ok n s \<Longrightarrow> registry_ok n (snd (password_set E uid pass salt now s))"
  by (auto simp: password_set_def Let_def registry_ok_def attempts_ok_def inboxes_ok_def distinct_upsert split: sum.split)

lemma registry_ok_attempts:
  "registry_ok n s \<Longrightarrow> attempts_ok (s\<lparr>rc_attempts := as\<rparr>) \<Longrightarrow> registry_ok n (s\<lparr>rc_attempts := as\<rparr>)"
  by (simp add: registry_ok_def inboxes_ok_def)

lemma record_failure_registry_ok:
  assumes "registry_ok n s"
  shows "registry_ok n (record_failure email now (attempt_of email s) s)"
  using assms record_failure_ok [of s email now] registry_ok_attempts [OF assms]
  unfolding registry_ok_def [of n s] record_failure_def Let_def by blast

lemma clear_attempts_ok:
  "registry_ok n s \<Longrightarrow> registry_ok n (s\<lparr>rc_attempts := delete_where P (rc_attempts s)\<rparr>)"
  by (rule registry_ok_attempts) (auto simp: registry_ok_def attempts_ok_def distinct_delete_where)

lemma password_verify_ok:
  assumes "registry_ok n s"
  shows "registry_ok n (snd (password_verify E email uid pass salt clocks s))"
  using record_failure_registry_ok [OF assms] clear_attempts_ok [OF assms] assms
    password_set_ok [OF clear_attempts_ok [OF assms]]
  by (auto simp: password_verify_def password_finish_def Let_def case_prod_beta split: option.split sum.split)

lemma inbox_claim_ok:
  assumes "inboxes_ok s"
  shows "inboxes_ok (snd (inbox_claim uid name now s))"
proof (cases "select_one (\<lambda>r. ib_local r = to_lower (trim name)) (rc_inboxes s)")
  case None
  then have "to_lower (trim name) \<notin> ib_local ` set (rc_inboxes s)"
    by (auto simp: select_one_None_iff)
  moreover have "length (filter (\<lambda>q. ib_user q = u) (rc_inboxes s)) \<le> max_inbox_locals" for u
    using assms by (cases "filter (\<lambda>q. ib_user q = u) (rc_inboxes s)")
      (auto simp: inboxes_ok_def filter_eq_Cons_iff)
  ultimately show ?thesis
    using None assms by (auto simp: inbox_claim_def Let_def inboxes_ok_def inbox_list_def not_le)
next
  case (Some r)
  then show ?thesis using assms by (auto simp: inbox_claim_def Let_def)
qed

lemma inbox_release_ok: "inboxes_ok s \<Longrightarrow> inboxes_ok (snd (inbox_release uid name s))"
  by (auto simp: inboxes_ok_def inbox_release_def Let_def distinct_delete_where
      intro: order_trans [OF length_filter_delete_where])

lemma audit_append_ok:
  assumes "distinct (map au_id (rc_audit s))" "i \<notin> au_id ` set (rc_audit s)"
  shows "distinct (map au_id (rc_audit (snd (audit_append n i e now s))))"
    "length (rc_audit (snd (audit_append n i e now s))) \<le> n"
proof -
  obtain a b c d where e: "e = (a, b, c, d)" by (cases e)
  let ?rows = "rc_audit s @ [\<lparr>au_id = i, au_at = now, au_actor = a, au_action = b, au_target = c, au_details = d\<rparr>]"
  let ?kept = "set (map au_id (newest au_at n ?rows))"
  have eq: "rc_audit (snd (audit_append n i e now s)) = delete_where (\<lambda>q. au_id q \<notin> ?kept) ?rows"
    by (simp add: audit_append_def e Let_def)
  have d: "distinct (map au_id ?rows)" using assms by auto
  then show "distinct (map au_id (rc_audit (snd (audit_append n i e now s))))"
    unfolding eq by (rule distinct_delete_where)
  then have "length (rc_audit (snd (audit_append n i e now s))) = card (au_id ` set (rc_audit (snd (audit_append n i e now s))))"
    by (metis distinct_card length_map set_map)
  also have "\<dots> \<le> card ?kept"
    unfolding eq by (rule card_mono) auto
  also have "\<dots> \<le> n"
    using card_length [of "map au_id (newest au_at n ?rows)"] by (simp del: set_map)
  finally show "length (rc_audit (snd (audit_append n i e now s))) \<le> n" .
qed

lemma registry_step_ok:
  assumes "registry_ok n s"
  shows "registry_ok n (registry_step E n op s)"
proof (cases op)
  case (SignIn email pass salt clocks)
  have "snd (password_signin E email pass salt clocks s) =
      snd (password_verify E email (map_option us_id (get_user_by_email email s)) pass salt clocks s)"
    by (simp add: password_signin_def Let_def split: prod.split sum.split)
  then show ?thesis
    using SignIn password_verify_ok [OF assms] by simp
next
  case (ClaimInbox uid name now)
  have "rc_users (snd (inbox_claim uid name now s)) = rc_users s"
    "rc_passwords (snd (inbox_claim uid name now s)) = rc_passwords s"
    "rc_attempts (snd (inbox_claim uid name now s)) = rc_attempts s"
    "rc_audit (snd (inbox_claim uid name now s)) = rc_audit s"
    by (auto simp: inbox_claim_def Let_def split: option.split)
  then show ?thesis
    using ClaimInbox assms inbox_claim_ok [of s] by (simp add: registry_ok_def attempts_ok_def)
next
  case (ReleaseInbox uid name)
  then show ?thesis
    using assms inbox_release_ok [of s uid name]
    by (simp add: registry_ok_def attempts_ok_def) (simp add: inbox_release_def Let_def)
next
  case (AppendAudit i e now)
  have "rc_users (snd (audit_append n i e now s)) = rc_users s"
    "rc_passwords (snd (audit_append n i e now s)) = rc_passwords s"
    "rc_attempts (snd (audit_append n i e now s)) = rc_attempts s"
    "rc_inboxes (snd (audit_append n i e now s)) = rc_inboxes s"
    by (simp_all add: audit_append_def Let_def case_prod_beta)
  then show ?thesis
    using AppendAudit assms audit_append_ok [of s i n e now]
    by (auto simp: registry_ok_def attempts_ok_def inboxes_ok_def)
next
  case (ConsumeLink tok now)
  then show ?thesis
    using assms by (auto simp: signin_token_consume_def link_consume_def link_burn_def Let_def registry_ok_def
        attempts_ok_def inboxes_ok_def split: option.split)
next
  case (ResolveSession sid ttl now)
  then show ?thesis
    using assms by (auto simp: session_resolve_def session_lookup_def Let_def registry_ok_def
        attempts_ok_def inboxes_ok_def split: option.split)
next
  case (ClearPassword uid)
  then show ?thesis
    using assms by (auto simp: password_clear_def registry_ok_def attempts_ok_def inboxes_ok_def distinct_delete_where)
qed (use assms in \<open>auto simp: create_user_ok ensure_user_ok password_set_ok\<close>)

interpretation registry: invariant_store "registry_step E n" "registry_ok n" for E n
  by unfold_locales (rule registry_step_ok)

text \<open>C40 (invariant). Whatever requests the registry serves, user ids and emails stay unique, no failure counter
  reaches the limit without a lock, inbox names are unique, well-formed, not reserved and at most ten per user, and
  the audit log keeps within its retention.\<close>

theorem registry_consistent:
  "registry_ok retention (fold (registry_step E retention) ops empty_registry)"
  by (rule registry.run_inv) (simp add: registry_ok_def attempts_ok_def inboxes_ok_def empty_registry_def)

end
