(* ===== verification/OAuthStore.thy ===== *)
theory OAuthStore
  imports OAuthProtocol
begin

text \<open>
  src/src/oauth/server-store.ts, the authorization server's tables, and the token and revoke
  endpoints of src/src/oauth/routes.ts that work on them. Only hashes of codes, tokens and
  client secrets are stored. Random values (ids, tokens) are arguments, and so is every
  reading of the clock. JSON text of a token response, which is sealed for replays, is the
  pair of functions \<open>oe_stringify\<close> and \<open>oe_parse\<close>.
\<close>

record token_response =
  tr_access :: string
  tr_refresh :: string
  tr_expires_in :: int
  tr_scope :: string

record oauth_env =
  oe_crypto :: crypto
  oe_ring :: keyring
  oe_stringify :: "token_response \<Rightarrow> string"
  oe_parse :: "string \<Rightarrow> token_response option"

record client_row =
  cl_id :: string
  cl_secret_hash :: "string option"
  cl_registration :: registration
  cl_created :: time
  cl_last_used :: "time option"

record code_row =
  cd_hash :: string
  cd_client :: string
  cd_user :: string
  cd_redirect :: string
  cd_challenge :: string
  cd_scope :: string
  cd_resource :: string
  cd_created :: time
  cd_expires :: time

record grant_row =
  og_id :: string
  og_user :: string
  og_client :: string
  og_scope :: string
  og_created :: time
  og_last_used :: "time option"

record token_row =
  tk_hash :: string
  tk_refresh :: bool
  tk_grant :: string
  tk_family :: string
  tk_created :: time
  tk_expires :: time
  tk_replaced :: "time option"
  tk_replay :: "encrypted_value option"

record oauth =
  oa_clients :: "client_row list"
  oa_codes :: "code_row list"
  oa_grants :: "grant_row list"
  oa_tokens :: "token_row list"

section \<open>Housekeeping\<close>

definition purge :: "time \<Rightarrow> oauth \<Rightarrow> oauth" where
  "purge now s =
     s\<lparr>oa_codes := delete_where (\<lambda>c. cd_expires c \<le> now) (oa_codes s),
       oa_tokens :=
         update_where (\<lambda>t. tk_replay t \<noteq> None \<and>
             (case tk_replaced t of None \<Rightarrow> False | Some r \<Rightarrow> r \<le> now - replay_grace))
           (\<lambda>t. t\<lparr>tk_replay := None\<rparr>)
           (delete_where (\<lambda>t. tk_expires t \<le> now) (oa_tokens s)),
       oa_clients := delete_where (\<lambda>c. cl_last_used c = None \<and> cl_created c \<le> now - unused_client_ttl
           \<and> cl_id c \<notin> og_client ` set (oa_grants s)) (oa_clients s)\<rparr>"

definition family_revoke :: "string \<Rightarrow> oauth \<Rightarrow> oauth" where
  "family_revoke fam s = s\<lparr>oa_tokens := delete_where (\<lambda>t. tk_family t = fam) (oa_tokens s)\<rparr>"

definition touch_client :: "string \<Rightarrow> time \<Rightarrow> oauth \<Rightarrow> oauth" where
  "touch_client cid now s =
     s\<lparr>oa_clients := update_where (\<lambda>c. cl_id c = cid) (\<lambda>c. c\<lparr>cl_last_used := Some now\<rparr>) (oa_clients s)\<rparr>"

section \<open>Clients\<close>


definition client_get :: "string \<Rightarrow> oauth \<Rightarrow> client_row option" where
  "client_get cid s = select_one (\<lambda>c. cl_id c = cid) (oa_clients s)"

definition client_authenticate :: "crypto \<Rightarrow> credentials \<Rightarrow> oauth \<Rightarrow> client_row res" where
  "client_authenticate C cr s =
     (let bad = Inl (KodyError ''invalid_client'' 401) in
      case some_text (cr_client cr) of
        None \<Rightarrow> bad
      | Some cid \<Rightarrow>
        (case client_get cid s of
           None \<Rightarrow> bad
         | Some c \<Rightarrow>
           (case some_text (cl_secret_hash c) of
              Some h \<Rightarrow>
                (case some_text (cr_secret cr) of
                   None \<Rightarrow> bad
                 | Some sec \<Rightarrow>
                   if cr_method cr \<noteq> rg_auth_method (cl_registration c) then bad
                   else if \<not> constant_time_equal_string (sha256_hex C sec) h then bad
                   else Inr c)
            | None \<Rightarrow> if some_text (cr_secret cr) \<noteq> None then bad else Inr c)))"

section \<open>Codes\<close>



definition code_consume :: "crypto \<Rightarrow> string \<Rightarrow> time \<Rightarrow> oauth \<Rightarrow> code_row option \<times> oauth" where
  "code_consume C code now s =
     (let h = sha256_hex C code in
      case select_one (\<lambda>c. cd_hash c = h) (oa_codes s) of
        None \<Rightarrow> (None, s)
      | Some row \<Rightarrow>
        (if cd_expires row \<le> now then None else Some row,
         s\<lparr>oa_codes := delete_where (\<lambda>c. cd_hash c = h) (oa_codes s)\<rparr>))"

section \<open>Grants\<close>

definition merge_scopes :: "string \<Rightarrow> string \<Rightarrow> string" where
  "merge_scopes a b =
     join_with '' '' (foldl (\<lambda>s x. if x \<in> set s then s else s @ [x]) []
       (filter (\<lambda>w. w \<noteq> []) (split_on CHR '' '' a @ split_on CHR '' '' b)))"

definition grant_ensure :: "string \<Rightarrow> string \<Rightarrow> string \<Rightarrow> string \<Rightarrow> time \<Rightarrow> oauth \<Rightarrow> string \<times> oauth" where
  "grant_ensure user client scope new_id now s =
     (case select_one (\<lambda>g. og_user g = user \<and> og_client g = client) (oa_grants s) of
        Some g \<Rightarrow>
          (og_id g, s\<lparr>oa_grants := update_where (\<lambda>q. og_id q = og_id g)
             (\<lambda>q. q\<lparr>og_scope := merge_scopes (og_scope g) scope, og_last_used := Some now\<rparr>) (oa_grants s)\<rparr>)
      | None \<Rightarrow>
          (new_id, s\<lparr>oa_grants := oa_grants s @
             [\<lparr>og_id = new_id, og_user = user, og_client = client, og_scope = scope, og_created = now,
               og_last_used = Some now\<rparr>]\<rparr>))"

definition grant_revoke :: "string \<Rightarrow> string \<Rightarrow> oauth \<Rightarrow> unit res \<times> oauth" where
  "grant_revoke user gid s =
     (if \<not> list_ex (\<lambda>g. og_id g = gid \<and> og_user g = user) (oa_grants s)
      then (Inl (KodyError ''oauth_grant_not_found'' 404), s)
      else (Inr (), s\<lparr>oa_tokens := delete_where (\<lambda>t. tk_grant t = gid) (oa_tokens s),
                      oa_grants := delete_where (\<lambda>g. og_id g = gid) (oa_grants s)\<rparr>))"




section \<open>Tokens\<close>

definition new_token :: "crypto \<Rightarrow> string \<Rightarrow> bool \<Rightarrow> string \<Rightarrow> string \<Rightarrow> time \<Rightarrow> token_row" where
  "new_token C tok refresh gid fam now =
     \<lparr>tk_hash = sha256_hex C tok, tk_refresh = refresh, tk_grant = gid, tk_family = fam, tk_created = now,
      tk_expires = now + (if refresh then refresh_ttl else access_ttl * 1000), tk_replaced = None, tk_replay = None\<rparr>"

definition mint_pair ::
  "crypto \<Rightarrow> string \<Rightarrow> string \<Rightarrow> string \<Rightarrow> string \<times> string \<Rightarrow> time \<Rightarrow> oauth \<Rightarrow> token_response \<times> oauth" where
  "mint_pair C gid fam scope raws now s =
     (let access = random_token ''mcpat'' (fst raws); refresh = random_token ''mcprt'' (snd raws)
      in (\<lparr>tr_access = access, tr_refresh = refresh, tr_expires_in = access_ttl, tr_scope = scope\<rparr>,
          s\<lparr>oa_tokens := oa_tokens s @ [new_token C access False gid fam now, new_token C refresh True gid fam now],
            oa_grants := update_where (\<lambda>g. og_id g = gid) (\<lambda>g. g\<lparr>og_last_used := Some now\<rparr>) (oa_grants s)\<rparr>))"

definition tokens_issue ::
  "crypto \<Rightarrow> string \<Rightarrow> string \<Rightarrow> string \<Rightarrow> string \<Rightarrow> string \<times> string \<Rightarrow> time \<Rightarrow> oauth \<Rightarrow> token_response \<times> oauth" where
  "tokens_issue C gid client scope fam raws now s =
     mint_pair C gid fam scope raws now (touch_client client now (purge now s))"

text \<open>The join of a token with its grant.\<close>

definition joined_token :: "(token_row \<Rightarrow> bool) \<Rightarrow> oauth \<Rightarrow> (token_row \<times> grant_row) option" where
  "joined_token P s =
     (case select_one P (oa_tokens s) of
        None \<Rightarrow> None
      | Some t \<Rightarrow>
        (case select_one (\<lambda>g. og_id g = tk_grant t) (oa_grants s) of
           None \<Rightarrow> None
         | Some g \<Rightarrow> Some (t, g)))"

definition replay_scope :: string where
  "replay_scope = ''oauth-server:replay''"

definition seal_replay :: "oauth_env \<Rightarrow> string \<Rightarrow> token_response \<Rightarrow> encrypted_value" where
  "seal_replay E iv r =
     encrypt_secret_value (oe_crypto E) iv (rk_key (hd (oe_ring E))) replay_scope (oe_stringify E r)"

definition open_replay :: "oauth_env \<Rightarrow> encrypted_value \<Rightarrow> token_response option" where
  "open_replay E v =
     (case decrypt_with_keyring (oe_crypto E) (oe_ring E) replay_scope v of
        Inl _ \<Rightarrow> None
      | Inr text \<Rightarrow> oe_parse E text)"

record refresh_input =
  ri_token :: string
  ri_client :: string
  ri_raws :: "string \<times> string"
  ri_iv :: string

text \<open>\<open>t0\<close> is the clock of the purge, \<open>t1\<close> the one of the checks, \<open>t2\<close> the one of the new pair.\<close>

definition tokens_refresh ::
  "oauth_env \<Rightarrow> refresh_input \<Rightarrow> time \<times> time \<times> time \<Rightarrow> oauth \<Rightarrow> token_response res \<times> oauth" where
  "tokens_refresh E i clocks s =
     (let (t0, t1, t2) = clocks; C = oe_crypto E; s0 = purge t0 s; h = sha256_hex C (ri_token i) in
      case joined_token (\<lambda>t. tk_hash t = h \<and> tk_refresh t) s0 of
        None \<Rightarrow> (fails ''invalid_grant'', s0)
      | Some (t, g) \<Rightarrow>
        if og_client g \<noteq> ri_client i then (fails ''invalid_grant'', s0)
        else if tk_expires t \<le> t1 then (fails ''invalid_grant'', family_revoke (tk_family t) s0)
        else
          (case tk_replaced t of
             Some replaced \<Rightarrow>
               (case (if t1 - replaced \<le> replay_grace then Option.bind (tk_replay t) (open_replay E) else None) of
                  Some r \<Rightarrow> (Inr r, s0)
                | None \<Rightarrow> (fails ''invalid_grant'', family_revoke (tk_family t) s0))
           | None \<Rightarrow>
             (let s1 = s0\<lparr>oa_tokens :=
                    update_where (\<lambda>q. tk_family q = tk_family t) (\<lambda>q. q\<lparr>tk_replay := None\<rparr>)
                      (delete_where (\<lambda>q. tk_family q = tk_family t \<and> \<not> tk_refresh q) (oa_tokens s0))\<rparr>;
                  (fresh, s2) = mint_pair C (tk_grant t) (tk_family t) (og_scope g) (ri_raws i) t2 s1;
                  s3 = s2\<lparr>oa_tokens := update_where (\<lambda>q. tk_hash q = h)
                    (\<lambda>q. q\<lparr>tk_replaced := Some t1, tk_replay := Some (seal_replay E (ri_iv i) fresh)\<rparr>) (oa_tokens s2)\<rparr>
              in (Inr fresh, touch_client (ri_client i) t2 s3))))"

record resolved_access =
  ra_user :: string
  ra_grant :: string
  ra_client :: string
  ra_scope :: string
  ra_expires :: time

definition access_token_resolve :: "crypto \<Rightarrow> string \<Rightarrow> time \<Rightarrow> oauth \<Rightarrow> resolved_access option" where
  "access_token_resolve C tok now s =
     (case joined_token (\<lambda>t. tk_hash t = sha256_hex C tok \<and> \<not> tk_refresh t) s of
        None \<Rightarrow> None
      | Some (t, g) \<Rightarrow>
        if client_get (og_client g) s = None \<or> tk_expires t \<le> now then None
        else Some \<lparr>ra_user = og_user g, ra_grant = tk_grant t, ra_client = og_client g, ra_scope = og_scope g,
                   ra_expires = tk_expires t\<rparr>)"


section \<open>The token endpoint\<close>



record randoms =
  rn_grant :: string
  rn_family :: string
  rn_raws :: "string \<times> string"
  rn_iv :: string

definition exchange_code ::
  "oauth_env \<Rightarrow> client_row \<Rightarrow> params \<Rightarrow> randoms \<Rightarrow> time \<Rightarrow> oauth \<Rightarrow> token_response res \<times> oauth" where
  "exchange_code E c form rn now s =
     (let C = oe_crypto E in
      if ''authorization_code'' \<notin> set (rg_grant_types (cl_registration c)) then (fails ''unauthorized_client'', s)
      else case some_text (map_of form ''code'') of
        None \<Rightarrow> (fails ''invalid_request'', s)
      | Some code \<Rightarrow>
        (let (found, s1) = code_consume C code now s in
         case found of
           None \<Rightarrow> (fails ''invalid_grant'', s1)
         | Some row \<Rightarrow>
           if cd_client row \<noteq> cl_id c then (fails ''invalid_grant'', s1)
           else if (case some_text (map_of form ''redirect_uri'') of None \<Rightarrow> False | Some r \<Rightarrow> r \<noteq> cd_redirect row)
           then (fails ''invalid_grant'', s1)
           else if \<not> verify_pkce C (map_of form ''code_verifier'') (cd_challenge row)
           then (fails ''invalid_grant'', s1)
           else if (case some_text (map_of form ''resource'') of None \<Rightarrow> False | Some r \<Rightarrow> r \<noteq> cd_resource row)
           then (fails ''invalid_target'', s1)
           else
             (let (gid, s2) = grant_ensure (cd_user row) (cl_id c) (cd_scope row) (rn_grant rn) now s1;
                  (tokens, s3) = tokens_issue C gid (cl_id c) (cd_scope row) (rn_family rn) (rn_raws rn) now s2
              in (Inr tokens, s3))))"



section \<open>Codes are used once\<close>

text \<open>A presentation of a code at the \<open>i\<close>-th reading of the clock; the state counts the readings.\<close>

definition spend_code :: "crypto \<Rightarrow> (nat \<Rightarrow> time) \<Rightarrow> string \<Rightarrow> oauth \<times> nat \<Rightarrow> bool \<times> oauth \<times> nat" where
  "spend_code C clock code s =
     (let (row, s') = code_consume C code (clock (snd s)) (fst s) in (row \<noteq> None, s', Suc (snd s)))"

definition code_spent :: "crypto \<Rightarrow> string \<Rightarrow> oauth \<times> nat \<Rightarrow> bool" where
  "code_spent C code s = (\<forall>c\<in>set (oa_codes (fst s)). cd_hash c \<noteq> sha256_hex C code)"

lemma code_consume_codes:
  "set (oa_codes (snd (code_consume C code now s))) = {c \<in> set (oa_codes s). cd_hash c \<noteq> sha256_hex C code}"
  by (auto simp: code_consume_def Let_def select_one_None_iff split: option.split)

lemma code_consume_other [simp]:
  "oa_tokens (snd (code_consume C code now s)) = oa_tokens s"
  "oa_grants (snd (code_consume C code now s)) = oa_grants s"
  "oa_clients (snd (code_consume C code now s)) = oa_clients s"
  by (auto simp: code_consume_def Let_def split: option.split)

interpretation codes: one_time "spend_code C clock" "code_spent C" for C clock
proof
  fix k s k'
  show "code_spent C k (snd (spend_code C clock k s))"
    by (simp add: spend_code_def code_spent_def Let_def case_prod_beta code_consume_codes)
  show "code_spent C k (snd (spend_code C clock k' s))" if "code_spent C k s"
    using that by (simp add: spend_code_def code_spent_def Let_def case_prod_beta code_consume_codes)
  show "\<not> fst (spend_code C clock k s)" if "code_spent C k s"
  proof -
    have "select_one (\<lambda>c. cd_hash c = sha256_hex C k) (oa_codes (fst s)) = None"
      using that by (simp add: code_spent_def select_one_None_iff)
    then show ?thesis by (simp add: spend_code_def Let_def case_prod_beta code_consume_def)
  qed
qed

text \<open>C7 (safety). However often authorization codes are presented, and by whom, at most one presentation of
  a code succeeds.\<close>

theorem code_used_at_most_once:
  "successes (spend_code C clock) code codes (s, n) \<le> 1"
  by (rule codes.at_most_once)

lemma grant_ensure_codes: "oa_codes (snd (grant_ensure u c sc i now s)) = oa_codes s"
  by (auto simp: grant_ensure_def split: option.split)

lemma tokens_issue_codes: "set (oa_codes (snd (tokens_issue C g c sc f rs now s))) \<subseteq> set (oa_codes s)"
  by (auto simp: tokens_issue_def mint_pair_def Let_def touch_client_def purge_def)

text \<open>C6 (safety). A code exchange that yields tokens was made by the client the code was issued to, before the
  code expired, with the redirect URI of the authorization if one is given and a verifier whose digest is the
  PKCE challenge; the code is gone afterwards, also when the exchange fails.\<close>

theorem code_exchange_checked:
  assumes "exchange_code E c form rn now s = (r, s')" "some_text (map_of form ''code'') = Some code"
    "''authorization_code'' \<in> set (rg_grant_types (cl_registration c))"
  shows "(\<forall>row\<in>set (oa_codes s'). cd_hash row \<noteq> sha256_hex (oe_crypto E) code) \<and>
    (is_ok r \<longrightarrow> (\<exists>row\<in>set (oa_codes s). cd_hash row = sha256_hex (oe_crypto E) code \<and>
       cd_client row = cl_id c \<and> now < cd_expires row \<and>
       (\<forall>u. map_of form ''redirect_uri'' = Some u \<longrightarrow> u = [] \<or> u = cd_redirect row) \<and>
       (\<exists>v. map_of form ''code_verifier'' = Some v \<and> pkce_text v \<and> pkce_challenge (oe_crypto E) v = cd_challenge row)))"
proof -
  let ?C = "oe_crypto E"
  obtain found s1 where co: "code_consume ?C code now s = (found, s1)" by (cases "code_consume ?C code now s")
  then have gone: "\<forall>row\<in>set (oa_codes s1). cd_hash row \<noteq> sha256_hex ?C code"
    using code_consume_codes [of ?C code now s] by simp
  define gid where "gid row = fst (grant_ensure (cd_user row) (cl_id c) (cd_scope row) (rn_grant rn) now s1)" for row :: code_row
  define s2 where "s2 row = snd (grant_ensure (cd_user row) (cl_id c) (cd_scope row) (rn_grant rn) now s1)" for row :: code_row
  have ge: "grant_ensure (cd_user row) (cl_id c) (cd_scope row) (rn_grant rn) now s1 = (gid row, s2 row)" for row :: code_row
    by (simp add: gid_def s2_def)
  show ?thesis
  proof (cases found)
    case None
    then show ?thesis using assms co gone by (auto simp: exchange_code_def Let_def)
  next
    case (Some row)
    have row: "row \<in> set (oa_codes s)" "cd_hash row = sha256_hex ?C code" "now < cd_expires row"
      using co Some by (auto simp: code_consume_def Let_def not_le dest: select_one_SomeD
          split: option.splits if_splits)
    have ex: "exchange_code E c form rn now s =
        (if cd_client row \<noteq> cl_id c then (fails ''invalid_grant'', s1)
         else if (case some_text (map_of form ''redirect_uri'') of None \<Rightarrow> False | Some r \<Rightarrow> r \<noteq> cd_redirect row)
         then (fails ''invalid_grant'', s1)
         else if \<not> verify_pkce ?C (map_of form ''code_verifier'') (cd_challenge row)
         then (fails ''invalid_grant'', s1)
         else if (case some_text (map_of form ''resource'') of None \<Rightarrow> False | Some r \<Rightarrow> r \<noteq> cd_resource row)
         then (fails ''invalid_target'', s1)
         else (Inr (fst (tokens_issue ?C (gid row) (cl_id c) (cd_scope row) (rn_family rn) (rn_raws rn) now (s2 row))),
               snd (tokens_issue ?C (gid row) (cl_id c) (cd_scope row) (rn_family rn) (rn_raws rn) now (s2 row))))"
      using assms(2,3) co Some by (simp add: exchange_code_def Let_def ge case_prod_beta)
    have "set (oa_codes s') \<subseteq> set (oa_codes s1)"
      using assms(1) tokens_issue_codes [of ?C "gid row" "cl_id c" "cd_scope row" "rn_family rn" "rn_raws rn" now "s2 row"]
        grant_ensure_codes [of "cd_user row" "cl_id c" "cd_scope row" "rn_grant rn" now s1]
      unfolding ex by (auto simp: ge split: if_split_asm)
    moreover have "verify_pkce ?C (map_of form ''code_verifier'') (cd_challenge row) \<Longrightarrow>
        \<exists>v. map_of form ''code_verifier'' = Some v \<and> pkce_text v \<and> pkce_challenge ?C v = cd_challenge row"
      by (auto simp: verify_pkce_def constant_time_string_eq split: option.split_asm if_split_asm)
    moreover have "\<not> (case some_text v of None \<Rightarrow> False | Some r \<Rightarrow> r \<noteq> x) \<Longrightarrow> \<forall>u. v = Some u \<longrightarrow> u = [] \<or> u = x" for v x
      by (auto simp: some_text_def split: if_splits option.splits)
    moreover have "is_ok r \<Longrightarrow> cd_client row = cl_id c \<and>
        \<not> (case some_text (map_of form ''redirect_uri'') of None \<Rightarrow> False | Some r \<Rightarrow> r \<noteq> cd_redirect row) \<and>
        verify_pkce ?C (map_of form ''code_verifier'') (cd_challenge row)"
      using assms(1) unfolding ex by (auto split: if_split_asm)
    ultimately show ?thesis
      using gone row by blast
  qed
qed



section \<open>Refresh-token rotation\<close>

text \<open>C8 (safety). Presenting a refresh token that was rotated out more than a minute ago ends its whole
  family: no token of the family, old or new, access or refresh, is left.\<close>

theorem refresh_reuse_ends_family:
  assumes "joined_token (\<lambda>t. tk_hash t = sha256_hex (oe_crypto E) (ri_token i) \<and> tk_refresh t) (purge t0 s) = Some (t, g)"
    "og_client g = ri_client i" "tk_replaced t = Some replaced" "replay_grace < t1 - replaced"
  shows "fst (tokens_refresh E i (t0, t1, t2) s) = Inl (KodyError ''invalid_grant'' 400) \<and>
    (\<forall>q\<in>set (oa_tokens (snd (tokens_refresh E i (t0, t1, t2) s))). tk_family q \<noteq> tk_family t) \<and>
    (\<forall>tok now a q. tk_hash q = sha256_hex (oe_crypto E) tok \<and> q \<in> set (oa_tokens s) \<and> tk_family q = tk_family t \<and>
       distinct (map tk_hash (oa_tokens s)) \<longrightarrow>
       access_token_resolve (oe_crypto E) tok now (snd (tokens_refresh E i (t0, t1, t2) s)) = None)"
proof -
  let ?s' = "family_revoke (tk_family t) (purge t0 s)"
  have r: "tokens_refresh E i (t0, t1, t2) s = (fails ''invalid_grant'', ?s')"
    using assms by (simp add: tokens_refresh_def Let_def)
  have "access_token_resolve (oe_crypto E) tok now ?s' = None"
    if q: "tk_hash q = sha256_hex (oe_crypto E) tok" "q \<in> set (oa_tokens s)" "tk_family q = tk_family t"
      "distinct (map tk_hash (oa_tokens s))" for tok now q
  proof -
    have "tk_hash x \<noteq> tk_hash q" if "x \<in> set (oa_tokens ?s')" for x
    proof
      assume h: "tk_hash x = tk_hash q"
      have "x \<in> set (oa_tokens (purge t0 s))" "tk_family x \<noteq> tk_family t"
        using that by (auto simp: family_revoke_def)
      then obtain y where "y \<in> set (oa_tokens s)" "tk_hash y = tk_hash x" "tk_family y = tk_family x"
        by (fastforce simp: purge_def set_update_where split: if_splits)
      then show False
        using q h \<open>tk_family x \<noteq> tk_family t\<close> by (metis distinct_map inj_onD)
    qed
    then have "select_one (\<lambda>x. tk_hash x = sha256_hex (oe_crypto E) tok \<and> \<not> tk_refresh x) (oa_tokens ?s') = None"
      using q(1) by (auto simp: select_one_None_iff)
    then show ?thesis by (simp add: access_token_resolve_def joined_token_def)
  qed
  then show ?thesis
    unfolding r by (auto simp: family_revoke_def)
qed

text \<open>What the clients of the store rely on when a refresh succeeds.\<close>

definition oauth_env_ok :: "oauth_env \<Rightarrow> bool" where
  "oauth_env_ok E = (crypto_ok (oe_crypto E) \<and> keyring_ok (oe_crypto E) (oe_ring E) \<and> oe_ring E \<noteq> [] \<and>
     (\<forall>r. oe_parse E (oe_stringify E r) = Some r))"

lemma open_seal_replay: "oauth_env_ok E \<Longrightarrow> open_replay E (seal_replay E iv r) = Some r"
  unfolding oauth_env_ok_def open_replay_def seal_replay_def
  by (cases "oe_ring E") (auto simp: decrypt_with_keyring_entry)

definition token_live :: "token_row \<Rightarrow> bool" where
  "token_live t = (tk_refresh t \<and> tk_replaced t = None)"

definition oauth_inv :: "oauth \<Rightarrow> bool" where
  "oauth_inv s =
     (distinct (map cl_id (oa_clients s)) \<and> distinct (map cd_hash (oa_codes s)) \<and>
      distinct (map og_id (oa_grants s)) \<and> distinct (map (\<lambda>g. (og_user g, og_client g)) (oa_grants s)) \<and>
      distinct (map tk_hash (oa_tokens s)) \<and> distinct (map tk_family (filter token_live (oa_tokens s))) \<and>
      tk_grant ` set (oa_tokens s) \<subseteq> og_id ` set (oa_grants s))"

text \<open>The random values of a request are new to the store.\<close>

definition fresh_tokens :: "crypto \<Rightarrow> string \<times> string \<Rightarrow> oauth \<Rightarrow> bool" where
  "fresh_tokens C raws s =
     (let a = sha256_hex C (random_token ''mcpat'' (fst raws)); r = sha256_hex C (random_token ''mcprt'' (snd raws))
      in a \<noteq> r \<and> a \<notin> tk_hash ` set (oa_tokens s) \<and> r \<notin> tk_hash ` set (oa_tokens s))"


lemma distinct_subfilter:
  assumes "distinct (map f (filter P xs))"
  shows "distinct (map f (filter (\<lambda>x. P x \<and> Q x) xs))" "distinct (map f (filter (\<lambda>x. Q x \<and> P x) xs))"
  using distinct_map_filter [OF assms, of Q] by (simp_all add: conj_commute)

lemma purge_tokens:
  "map tk_hash (oa_tokens (purge now s)) = map tk_hash (filter (\<lambda>t. now < tk_expires t) (oa_tokens s))"
  "map tk_family (filter token_live (oa_tokens (purge now s))) =
     map tk_family (filter token_live (filter (\<lambda>t. now < tk_expires t) (oa_tokens s)))"
  "tk_hash ` set (oa_tokens (purge now s)) \<subseteq> tk_hash ` set (oa_tokens s)"
  "tk_family ` set (oa_tokens (purge now s)) \<subseteq> tk_family ` set (oa_tokens s)"
  "tk_grant ` set (oa_tokens (purge now s)) \<subseteq> tk_grant ` set (oa_tokens s)"
  "oa_grants (purge now s) = oa_grants s"
proof -
  let ?P = "\<lambda>t. tk_replay t \<noteq> None \<and> (case tk_replaced t of None \<Rightarrow> False | Some r \<Rightarrow> r \<le> now - replay_grace)"
  have p: "oa_tokens (purge now s) = update_where ?P (\<lambda>t. t\<lparr>tk_replay := None\<rparr>)
      (filter (\<lambda>t. now < tk_expires t) (oa_tokens s))"
    by (simp add: purge_def delete_where_def not_le)
  have l: "map tk_family (filter token_live (update_where ?P (\<lambda>t. t\<lparr>tk_replay := None\<rparr>) ts)) =
      map tk_family (filter token_live ts)" for ts
    by (induction ts) (auto simp: token_live_def)
  show "map tk_hash (oa_tokens (purge now s)) = map tk_hash (filter (\<lambda>t. now < tk_expires t) (oa_tokens s))"
    unfolding p by (rule map_update_where) simp
  show "map tk_family (filter token_live (oa_tokens (purge now s))) =
     map tk_family (filter token_live (filter (\<lambda>t. now < tk_expires t) (oa_tokens s)))"
    unfolding p by (rule l)
  show "tk_hash ` set (oa_tokens (purge now s)) \<subseteq> tk_hash ` set (oa_tokens s)"
    "tk_family ` set (oa_tokens (purge now s)) \<subseteq> tk_family ` set (oa_tokens s)"
    "tk_grant ` set (oa_tokens (purge now s)) \<subseteq> tk_grant ` set (oa_tokens s)"
    unfolding p by (auto simp: set_update_where)
  show "oa_grants (purge now s) = oa_grants s" by (simp add: purge_def)
qed

lemma purge_inv: "oauth_inv s \<Longrightarrow> oauth_inv (purge now s)"
  unfolding oauth_inv_def purge_tokens
  using purge_tokens(5) [of now s]
  by (auto simp: distinct_map_filter distinct_subfilter purge_def distinct_delete_where)

lemma delete_tokens_inv:
  "oauth_inv s \<Longrightarrow> oauth_inv (s\<lparr>oa_tokens := delete_where P (oa_tokens s)\<rparr>)"
  unfolding oauth_inv_def
  by (auto simp: distinct_map_filter delete_where_def distinct_subfilter)

lemma mint_inv:
  assumes "oauth_inv s" "fresh_tokens C raws s" "fam \<notin> tk_family ` set (filter token_live (oa_tokens s))"
    "gid \<in> og_id ` set (oa_grants s)"
  shows "oauth_inv (snd (mint_pair C gid fam scope raws now s))"
proof -
  have g: "map og_id (update_where P (\<lambda>g. g\<lparr>og_last_used := Some now\<rparr>) t) = map og_id t"
    "map (\<lambda>g. (og_user g, og_client g)) (update_where P (\<lambda>g. g\<lparr>og_last_used := Some now\<rparr>) t)
      = map (\<lambda>g. (og_user g, og_client g)) t"
    "og_id ` set (update_where P (\<lambda>g. g\<lparr>og_last_used := Some now\<rparr>) t) = og_id ` set t"
    for P and t :: "grant_row list"
    by (rule map_update_where image_update_where, simp)+
  show ?thesis
    using assms
    by (auto simp: oauth_inv_def mint_pair_def Let_def g new_token_def fresh_tokens_def token_live_def simp del: image_iff)
qed

lemma touch_inv [simp]: "oauth_inv (touch_client cid now s) = oauth_inv s"
proof -
  have "map cl_id (update_where P (\<lambda>c. c\<lparr>cl_last_used := Some now\<rparr>) t) = map cl_id t" for P and t :: "client_row list"
    by (rule map_update_where) simp
  then show ?thesis by (simp add: oauth_inv_def touch_client_def)
qed

text \<open>The tokens of a family after a refresh, before the new pair: no access token, no older replay, and the
  presented token marked as replaced.\<close>

definition retired :: "string \<Rightarrow> string \<Rightarrow> time \<Rightarrow> encrypted_value \<Rightarrow> token_row list \<Rightarrow> token_row list" where
  "retired h fam t1 sealed ts =
     update_where (\<lambda>q. tk_hash q = h) (\<lambda>q. q\<lparr>tk_replaced := Some t1, tk_replay := Some sealed\<rparr>)
       (update_where (\<lambda>q. tk_family q = fam) (\<lambda>q. q\<lparr>tk_replay := None\<rparr>)
         (delete_where (\<lambda>q. tk_family q = fam \<and> \<not> tk_refresh q) ts))"

definition refreshed_pair :: "refresh_input \<Rightarrow> string \<Rightarrow> token_response" where
  "refreshed_pair i scope =
     \<lparr>tr_access = random_token ''mcpat'' (fst (ri_raws i)), tr_refresh = random_token ''mcprt'' (snd (ri_raws i)),
      tr_expires_in = access_ttl, tr_scope = scope\<rparr>"

lemma oauth_update_order: "s\<lparr>oa_grants := gs, oa_tokens := ts\<rparr> = s\<lparr>oa_tokens := ts, oa_grants := gs\<rparr>"
  by simp

lemma tokens_refresh_rotates:
  assumes "joined_token (\<lambda>t. tk_hash t = sha256_hex (oe_crypto E) (ri_token i) \<and> tk_refresh t) (purge t0 s) = Some (t, g)"
    "og_client g = ri_client i" "t1 < tk_expires t" "tk_replaced t = None" "fresh_tokens (oe_crypto E) (ri_raws i) s"
  shows "tokens_refresh E i (t0, t1, t2) s =
    (Inr (refreshed_pair i (og_scope g)),
     touch_client (ri_client i) t2 (snd (mint_pair (oe_crypto E) (tk_grant t) (tk_family t) (og_scope g) (ri_raws i) t2
       ((purge t0 s)\<lparr>oa_tokens := retired (tk_hash t) (tk_family t) t1
          (seal_replay E (ri_iv i) (refreshed_pair i (og_scope g))) (oa_tokens (purge t0 s))\<rparr>))))"
proof -
  let ?C = "oe_crypto E"
  have t: "t \<in> set (oa_tokens (purge t0 s))" "tk_hash t = sha256_hex ?C (ri_token i)"
    using assms(1) by (auto simp: joined_token_def dest!: select_one_SomeD split: option.splits)
  then have "tk_hash t \<in> tk_hash ` set (oa_tokens s)"
    using purge_tokens(3) [of t0 s] by (meson imageI subsetD)
  then have "sha256_hex ?C (random_token ''mcpat'' (fst (ri_raws i))) \<noteq> sha256_hex ?C (ri_token i)"
    "sha256_hex ?C (random_token ''mcprt'' (snd (ri_raws i))) \<noteq> sha256_hex ?C (ri_token i)"
    using assms(5) t(2) by (auto simp: fresh_tokens_def Let_def)
  then show ?thesis
    using assms(1-4) t(2)
    by (simp add: tokens_refresh_def mint_pair_def Let_def retired_def refreshed_pair_def new_token_def oauth_update_order)
qed

lemma retired_keys:
  "tk_hash ` set (retired h fam t1 x ts) \<subseteq> tk_hash ` set ts"
  "tk_grant ` set (retired h fam t1 x ts) \<subseteq> tk_grant ` set ts"
  "distinct (map tk_hash ts) \<Longrightarrow> distinct (map tk_hash (retired h fam t1 x ts))"
  "map tk_family (filter token_live (retired h fam t1 x ts)) =
     map tk_family (filter (\<lambda>t. token_live t \<and> tk_hash t \<noteq> h) ts)"
proof -
  show "tk_hash ` set (retired h fam t1 x ts) \<subseteq> tk_hash ` set ts"
    "tk_grant ` set (retired h fam t1 x ts) \<subseteq> tk_grant ` set ts"
    by (auto simp: retired_def set_update_where)
  show "distinct (map tk_hash (retired h fam t1 x ts))" if "distinct (map tk_hash ts)"
    unfolding retired_def using that by (simp add: map_update_where distinct_delete_where)
  show "map tk_family (filter token_live (retired h fam t1 x ts)) =
     map tk_family (filter (\<lambda>t. token_live t \<and> tk_hash t \<noteq> h) ts)"
    by (induction ts) (auto simp: retired_def token_live_def)
qed

lemma retired_mem:
  assumes "t \<in> set ts" "tk_refresh t"
  shows "t\<lparr>tk_replaced := Some t1, tk_replay := Some x\<rparr> \<in> set (retired (tk_hash t) (tk_family t) t1 x ts)"
proof -
  let ?ts = "update_where (\<lambda>q. tk_family q = tk_family t) (\<lambda>q. q\<lparr>tk_replay := None\<rparr>)
    (delete_where (\<lambda>q. tk_family q = tk_family t \<and> \<not> tk_refresh q) ts)"
  have "t\<lparr>tk_replay := None\<rparr> \<in> set ?ts"
    unfolding set_update_where by (rule image_eqI [of _ _ t]) (use assms in simp_all)
  then show ?thesis
    unfolding retired_def set_update_where [of "\<lambda>q. tk_hash q = tk_hash t"]
    by (rule image_eqI [rotated]) simp
qed

lemma purge_keeps:
  assumes "q \<in> set (oa_tokens s)" "now < tk_expires q" "tk_replaced q = Some r" "now - replay_grace < r"
  shows "q \<in> set (oa_tokens (purge now s))"
proof -
  have "q \<in> set (delete_where (\<lambda>t. tk_expires t \<le> now) (oa_tokens s))" using assms(1,2) by simp
  then show ?thesis
    using assms(3,4) unfolding purge_def by (simp add: set_update_where image_iff)
qed

lemma refresh_inv:
  assumes "oauth_inv s" "fresh_tokens (oe_crypto E) (ri_raws i) s"
  shows "oauth_inv (snd (tokens_refresh E i (t0, t1, t2) s))"
proof -
  let ?C = "oe_crypto E" and ?s0 = "purge t0 s"
  let ?j = "joined_token (\<lambda>t. tk_hash t = sha256_hex ?C (ri_token i) \<and> tk_refresh t) ?s0"
  have inv0: "oauth_inv ?s0" using assms(1) by (rule purge_inv)
  consider (none) "?j = None" | (rotate) t g where "?j = Some (t, g)" "og_client g = ri_client i" "t1 < tk_expires t" "tk_replaced t = None"
    | (other) t g where "?j = Some (t, g)" "\<not> (og_client g = ri_client i \<and> t1 < tk_expires t \<and> tk_replaced t = None)"
    by (metis option.exhaust prod.exhaust)
  then show ?thesis
  proof cases
    case none
    then show ?thesis using inv0 by (simp add: tokens_refresh_def Let_def)
  next
    case other
    then have "snd (tokens_refresh E i (t0, t1, t2) s) \<in> {?s0, family_revoke (tk_family t) ?s0}"
      by (auto simp: tokens_refresh_def Let_def split: option.split)
    then show ?thesis
      using inv0 delete_tokens_inv [OF inv0] by (auto simp: family_revoke_def)
  next
    case rotate
    define ts where "ts = retired (tk_hash t) (tk_family t) t1
      (seal_replay E (ri_iv i) (refreshed_pair i (og_scope g))) (oa_tokens ?s0)"
    have t: "t \<in> set (oa_tokens ?s0)" "tk_refresh t" "g \<in> set (oa_grants ?s0)" "og_id g = tk_grant t"
      using rotate(1) by (auto simp: joined_token_def dest!: select_one_SomeD split: option.splits)
    have inv1: "oauth_inv (?s0\<lparr>oa_tokens := ts\<rparr>)"
      using inv0 order_trans [OF retired_keys(2)] unfolding ts_def oauth_inv_def
      by (simp add: retired_keys(3,4) distinct_subfilter)
    have fresh: "fresh_tokens ?C (ri_raws i) (?s0\<lparr>oa_tokens := ts\<rparr>)"
      using assms(2) retired_keys(1) purge_tokens(3) [of t0 s] unfolding ts_def fresh_tokens_def Let_def
      by (auto dest!: subsetD [OF retired_keys(1)] subsetD [OF purge_tokens(3)])
    have "tk_family t \<notin> set (map tk_family (filter (\<lambda>q. token_live q \<and> tk_hash q \<noteq> tk_hash t) (oa_tokens ?s0)))"
    proof
      assume "tk_family t \<in> set (map tk_family (filter (\<lambda>q. token_live q \<and> tk_hash q \<noteq> tk_hash t) (oa_tokens ?s0)))"
      then obtain q where q: "q \<in> set (oa_tokens ?s0)" "token_live q" "tk_hash q \<noteq> tk_hash t" "tk_family q = tk_family t"
        by auto
      then have "q \<in> set (filter token_live (oa_tokens ?s0))" "t \<in> set (filter token_live (oa_tokens ?s0))"
        using t rotate(4) by (auto simp: token_live_def)
      then have "q = t"
        using inv0 q(4) unfolding oauth_inv_def distinct_map by (meson inj_onD)
      with q(3) show False by simp
    qed
    then have "tk_family t \<notin> tk_family ` set (filter token_live ts)"
      unfolding ts_def set_map [symmetric] retired_keys(4) .
    then have fam: "tk_family t \<notin> tk_family ` set (filter token_live (oa_tokens (?s0\<lparr>oa_tokens := ts\<rparr>)))"
      by simp
    have gid: "tk_grant t \<in> og_id ` set (oa_grants (?s0\<lparr>oa_tokens := ts\<rparr>))"
      using t(3) unfolding t(4) [symmetric] by simp
    have "oauth_inv (snd (mint_pair ?C (tk_grant t) (tk_family t) (og_scope g) (ri_raws i) t2 (?s0\<lparr>oa_tokens := ts\<rparr>)))"
      by (rule mint_inv [OF inv1 fresh fam gid])
    then show ?thesis
      using tokens_refresh_rotates [OF rotate assms(2)] unfolding ts_def by simp
  qed
qed

section \<open>The store as a state machine\<close>











text \<open>A refresh with the live token answers a new pair, leaves the new access token as the only one
  of its family, and when the reply was lost, presenting the old token again within a minute answers the very
  same pair.\<close>

theorem refresh_rotates_and_replays:
  assumes "oauth_env_ok E" "oauth_inv s" "fresh_tokens (oe_crypto E) (ri_raws i) s"
    "joined_token (\<lambda>t. tk_hash t = sha256_hex (oe_crypto E) (ri_token i) \<and> tk_refresh t) (purge t0 s) = Some (t, g)"
    "og_client g = ri_client i" "t1 < tk_expires t" "tk_replaced t = None"
    "tokens_refresh E i (t0, t1, t2) s = (r, s')"
    "t0' < t1 + replay_grace" "t1' \<le> t1 + replay_grace" "t0' < tk_expires t" "t1' < tk_expires t"
    "ri_token i' = ri_token i" "ri_client i' = ri_client i"
  shows "r = Inr (refreshed_pair i (og_scope g)) \<and>
    (\<forall>q\<in>set (oa_tokens s'). tk_family q = tk_family t \<and> \<not> tk_refresh q \<longrightarrow>
       tk_hash q = sha256_hex (oe_crypto E) (tr_access (refreshed_pair i (og_scope g)))) \<and>
    fst (tokens_refresh E i' (t0', t1', t2') s') = Inr (refreshed_pair i (og_scope g))"
proof (intro conjI)
  let ?C = "oe_crypto E" and ?s0 = "purge t0 s"
  let ?pair = "refreshed_pair i (og_scope g)"
  let ?sealed = "seal_replay E (ri_iv i) ?pair"
  let ?ts = "retired (tk_hash t) (tk_family t) t1 ?sealed (oa_tokens ?s0)"
  have rs: "r = Inr ?pair" "s' = touch_client (ri_client i) t2 (snd (mint_pair ?C (tk_grant t) (tk_family t)
      (og_scope g) (ri_raws i) t2 (?s0\<lparr>oa_tokens := ?ts\<rparr>)))"
    using assms(8) tokens_refresh_rotates [OF assms(4-7,3)] by simp_all
  show "r = Inr ?pair" by (rule rs(1))
  have tokens: "oa_tokens s' = ?ts @ [new_token ?C (tr_access ?pair) False (tk_grant t) (tk_family t) t2,
      new_token ?C (tr_refresh ?pair) True (tk_grant t) (tk_family t) t2]"
    unfolding rs(2) by (simp add: mint_pair_def Let_def touch_client_def refreshed_pair_def)
  have grants: "oa_grants s' = update_where (\<lambda>q. og_id q = tk_grant t) (\<lambda>q. q\<lparr>og_last_used := Some t2\<rparr>) (oa_grants s)"
    unfolding rs(2) by (simp add: mint_pair_def Let_def touch_client_def purge_tokens)
  have t: "t \<in> set (oa_tokens ?s0)" "tk_hash t = sha256_hex ?C (ri_token i)" "tk_refresh t"
      "select_one (\<lambda>q. og_id q = tk_grant t) (oa_grants s) = Some g"
    using assms(4) by (auto simp: joined_token_def purge_tokens dest!: select_one_SomeD split: option.splits)
  have old: "tk_refresh q" if "q \<in> set ?ts" "tk_family q = tk_family t" for q
    using that by (auto simp: retired_def set_update_where split: if_splits)
  then show "\<forall>q\<in>set (oa_tokens s'). tk_family q = tk_family t \<and> \<not> tk_refresh q \<longrightarrow>
       tk_hash q = sha256_hex ?C (tr_access ?pair)"
    unfolding tokens by (auto simp: new_token_def)
  let ?t = "t\<lparr>tk_replaced := Some t1, tk_replay := Some ?sealed\<rparr>"
  have "?t \<in> set ?ts"
    using t(1,3) by (rule retired_mem)
  then have "?t \<in> set (oa_tokens (purge t0' s'))"
    using assms(9,11) by (intro purge_keeps [where r = t1]) (simp_all add: tokens)
  moreover have inv': "oauth_inv s'"
    using refresh_inv [OF assms(2,3), of t0 t1 t2] assms(8) by simp
  then have "distinct (map tk_hash (oa_tokens (purge t0' s')))"
    using purge_inv unfolding oauth_inv_def by blast
  ultimately have "select_one (\<lambda>q. tk_hash q = sha256_hex ?C (ri_token i') \<and> tk_refresh q) (oa_tokens (purge t0' s')) = Some ?t"
    using t(2,3) assms(13) by (intro select_one_unique [where key = tk_hash]) simp_all
  moreover have "select_one (\<lambda>q. og_id q = tk_grant t) (oa_grants s') = Some (g\<lparr>og_last_used := Some t2\<rparr>)"
    unfolding grants using t(4) select_one_SomeD [OF t(4)] by (simp add: select_one_update_where)
  ultimately have "joined_token (\<lambda>q. tk_hash q = sha256_hex ?C (ri_token i') \<and> tk_refresh q) (purge t0' s') =
      Some (?t, g\<lparr>og_last_used := Some t2\<rparr>)"
    by (simp add: joined_token_def purge_tokens)
  then show "fst (tokens_refresh E i' (t0', t1', t2') s') = Inr ?pair"
    using assms(5,10,12,14) open_seal_replay [OF assms(1)] by (simp add: tokens_refresh_def Let_def)
qed

text \<open>C9 (safety). Disconnecting a client takes effect at once and completely: after the owner revoked a grant,
  no access token gives access under it and no refresh token of it mints new ones; somebody else's attempt to
  revoke it changes nothing.\<close>

theorem grant_revocation_complete:
  "(\<forall>u s'. grant_revoke u gid s = (Inr (), s') \<longrightarrow>
      (\<forall>tok now a. access_token_resolve (oe_crypto E) tok now s' = Some a \<longrightarrow> ra_grant a \<noteq> gid) \<and>
      (\<forall>i clocks t g. joined_token (\<lambda>t. tk_hash t = sha256_hex (oe_crypto E) (ri_token i) \<and> tk_refresh t) s = Some (t, g) \<and>
         tk_grant t = gid \<and> distinct (map tk_hash (oa_tokens s)) \<longrightarrow>
         fst (tokens_refresh E i clocks s') = Inl (KodyError ''invalid_grant'' 400))) \<and>
   (\<forall>u. (\<forall>g\<in>set (oa_grants s). og_id g = gid \<longrightarrow> og_user g \<noteq> u) \<longrightarrow> snd (grant_revoke u gid s) = s)"
proof (intro conjI allI impI)
  fix u s' tok now a
  assume r: "grant_revoke u gid s = (Inr (), s')" and a: "access_token_resolve (oe_crypto E) tok now s' = Some a"
  have s': "s' = s\<lparr>oa_tokens := delete_where (\<lambda>t. tk_grant t = gid) (oa_tokens s),
      oa_grants := delete_where (\<lambda>g. og_id g = gid) (oa_grants s)\<rparr>"
    using r by (auto simp: grant_revoke_def split: if_splits)
  show "ra_grant a \<noteq> gid"
    using a unfolding s'
    by (auto simp: access_token_resolve_def joined_token_def dest!: select_one_SomeD split: option.splits if_splits)
next
  fix u s' t g and i :: refresh_input and clocks :: "time \<times> time \<times> time"
  assume r: "grant_revoke u gid s = (Inr (), s')"
    and t: "joined_token (\<lambda>t. tk_hash t = sha256_hex (oe_crypto E) (ri_token i) \<and> tk_refresh t) s = Some (t, g) \<and>
         tk_grant t = gid \<and> distinct (map tk_hash (oa_tokens s))"
  obtain t0 t1 t2 where c: "clocks = (t0, t1, t2)" by (cases clocks)
  have tt: "t \<in> set (oa_tokens s)" "tk_hash t = sha256_hex (oe_crypto E) (ri_token i)"
    using t by (auto simp: joined_token_def dest!: select_one_SomeD split: option.splits)
  have inj: "inj_on tk_hash (set (oa_tokens s))" using t by (simp add: distinct_map)
  have "tk_hash q \<noteq> tk_hash t" if "q \<in> set (oa_tokens s')" for q
  proof -
    have "q \<in> set (oa_tokens s)" "tk_grant q \<noteq> gid"
      using that r by (auto simp: grant_revoke_def split: if_splits)
    then show ?thesis using inj t tt(1) by (auto dest: inj_onD)
  qed
  then have "tk_hash t \<notin> tk_hash ` set (oa_tokens s')" by (metis imageE)
  then have "tk_hash t \<notin> tk_hash ` set (oa_tokens (purge t0 s'))"
    using purge_tokens(3) by blast
  then have "select_one (\<lambda>q. tk_hash q = sha256_hex (oe_crypto E) (ri_token i) \<and> tk_refresh q) (oa_tokens (purge t0 s')) = None"
    using tt(2) by (auto simp: select_one_None_iff) (metis imageI)
  then show "fst (tokens_refresh E i clocks s') = Inl (KodyError ''invalid_grant'' 400)"
    by (simp add: tokens_refresh_def c Let_def joined_token_def)
next
  fix u
  assume "\<forall>g\<in>set (oa_grants s). og_id g = gid \<longrightarrow> og_user g \<noteq> u"
  then have "\<not> list_ex (\<lambda>g. og_id g = gid \<and> og_user g = u) (oa_grants s)"
    by (auto simp: list_ex_iff)
  then show "snd (grant_revoke u gid s) = s" by (simp add: grant_revoke_def)
qed

text \<open>A client that registered a secret is authenticated only by a credential with that secret, sent
  by the method it registered; a public client only by one without a secret.\<close>

theorem client_authentication:
  assumes "client_authenticate C cr s = Inr c"
  shows "c \<in> set (oa_clients s) \<and> cr_client cr = Some (cl_id c) \<and>
    (case some_text (cl_secret_hash c) of
       Some h \<Rightarrow> \<exists>sec. cr_secret cr = Some sec \<and> sec \<noteq> [] \<and> sha256_hex C sec = h \<and>
         cr_method cr = rg_auth_method (cl_registration c)
     | None \<Rightarrow> cr_secret cr \<in> {None, Some []})"
proof -
  obtain cid where cid: "cr_client cr = Some cid" "some_text (cr_client cr) = Some cid"
    using assms by (auto simp: client_authenticate_def Let_def some_text_def split: option.splits if_splits)
  obtain c' where c': "client_get cid s = Some c'"
    using assms cid by (auto simp: client_authenticate_def Let_def split: option.splits)
  have "c' = c"
    using assms cid c' by (auto simp: client_authenticate_def Let_def split: option.splits if_splits)
  with c' have c: "client_get cid s = Some c" "c \<in> set (oa_clients s)" "cl_id c = cid"
    by (auto simp: client_get_def dest: select_one_SomeD)
  show ?thesis
  proof (cases "some_text (cl_secret_hash c)")
    case None
    then show ?thesis
      using assms cid c by (auto simp: client_authenticate_def Let_def some_text_def split: option.splits if_splits)
  next
    case (Some h)
    then obtain sec where "some_text (cr_secret cr) = Some sec" "cr_method cr = rg_auth_method (cl_registration c)"
        "sha256_hex C sec = h"
      using assms cid c by (auto simp: client_authenticate_def Let_def constant_time_string_eq split: option.splits if_splits)
    moreover from this(1) have "cr_secret cr = Some sec" "sec \<noteq> []"
      by (auto simp: some_text_def split: option.splits if_splits)
    ultimately show ?thesis using Some cid c by simp
  qed
qed

section \<open>Witnesses\<close>

definition sample_registration :: registration where
  "sample_registration =
     \<lparr>rg_client_name = ''app'', rg_redirect_uris = [''https://app.example/cb''], rg_auth_method = AuthNone,
      rg_grant_types = [''authorization_code'', ''refresh_token''], rg_client_uri = None, rg_logo_uri = None,
      rg_software_id = None, rg_software_version = None\<rparr>"

definition sample_client :: client_row where
  "sample_client =
     \<lparr>cl_id = ''c1'', cl_secret_hash = None, cl_registration = sample_registration, cl_created = 0,
      cl_last_used = Some 0\<rparr>"

definition sample_token :: token_row where
  "sample_token =
     \<lparr>tk_hash = sha256_hex sample_crypto ''old'', tk_refresh = True, tk_grant = ''g1'', tk_family = ''f1'',
      tk_created = 0, tk_expires = 1000000, tk_replaced = None, tk_replay = None\<rparr>"

definition sample_grant :: grant_row where
  "sample_grant =
     \<lparr>og_id = ''g1'', og_user = ''u1'', og_client = ''c1'', og_scope = ''email'', og_created = 0, og_last_used = None\<rparr>"

definition sample_code :: code_row where
  "sample_code =
     \<lparr>cd_hash = sha256_hex sample_crypto ''code1'', cd_client = ''c1'', cd_user = ''u1'',
      cd_redirect = ''https://app.example/cb'', cd_challenge = pkce_challenge sample_crypto (replicate 43 CHR ''A''),
      cd_scope = ''email'', cd_resource = ''https://kody.example/mcp'', cd_created = 0, cd_expires = 1000\<rparr>"

definition sample_oauth :: oauth where
  "sample_oauth =
     \<lparr>oa_clients = [sample_client], oa_codes = [sample_code], oa_grants = [sample_grant],
      oa_tokens = [sample_token]\<rparr>"

text \<open>A text format for token responses that parses back, in place of JSON.\<close>

fun read_field :: "string \<Rightarrow> string \<times> string" where
  "read_field (a # c # r) = (if a = CHR ''.'' then ([], c # r) else (c # fst (read_field r), snd (read_field r)))"
| "read_field [a] = ([], [])"
| "read_field [] = ([], [])"

definition write_field :: "string \<Rightarrow> string" where
  "write_field s = concat (map (\<lambda>c. [CHR ''x'', c]) s) @ ''.''"

definition write_response :: "token_response \<Rightarrow> string" where
  "write_response r =
     write_field (tr_access r) @ write_field (tr_refresh r) @ write_field (tr_scope r) @
     (if tr_expires_in r < 0 then CHR ''-'' else CHR ''+'') # replicate (nat \<bar>tr_expires_in r\<bar>) (CHR ''1'')"

definition read_response :: "string \<Rightarrow> token_response option" where
  "read_response t =
     (let (a, t1) = read_field t; (r, t2) = read_field t1; (sc, t3) = read_field t2;
          n = int (length (tl t3))
      in Some \<lparr>tr_access = a, tr_refresh = r, tr_expires_in = (if hd t3 = CHR ''-'' then - n else n), tr_scope = sc\<rparr>)"

lemma read_write_field: "r \<noteq> [] \<Longrightarrow> read_field (write_field s @ r) = (s, r)"
  by (induction s) (auto simp: write_field_def neq_Nil_conv)

lemma read_write_response: "read_response (write_response r) = Some r"
  by (simp add: read_response_def write_response_def read_write_field)

definition oauth_sample :: oauth_env where
  "oauth_sample =
     \<lparr>oe_crypto = sample_crypto, oe_ring = build_master_keyring sample_crypto ''master'' None,
      oe_stringify = write_response, oe_parse = read_response\<rparr>"

lemma oauth_sample_ok: "oauth_env_ok oauth_sample"
proof -
  have k: "configured_keys ''master'' None = [''master'']" by code_simp
  have "build_master_keyring sample_crypto ''master'' None \<noteq> []"
    by (simp add: build_master_keyring_def k)
  then show ?thesis
    by (simp add: oauth_env_ok_def oauth_sample_def sample_crypto_ok read_write_response build_master_keyring_ok)
qed

lemmas sample_simps = sample_registration_def sample_client_def sample_token_def sample_grant_def sample_code_def
  sample_oauth_def

theorem client_authentication_witness:
  "sample_client \<in> set (oa_clients sample_oauth)"
proof -
  have "client_authenticate sample_crypto \<lparr>cr_client = Some ''c1'', cr_secret = None, cr_method = AuthNone\<rparr> sample_oauth
      = Inr sample_client"
    by (simp add: client_authenticate_def client_get_def some_text_def Let_def sample_simps)
  from client_authentication [OF this] show ?thesis by simp
qed

theorem code_exchange_checked_witness:
  "\<exists>r s'. exchange_code oauth_sample sample_client
      [(''code'', ''code1''), (''code_verifier'', replicate 43 CHR ''A'')]
      \<lparr>rn_grant = ''g2'', rn_family = ''f2'', rn_raws = (''a'', ''b''), rn_iv = ''iv''\<rparr> 500 sample_oauth = (Inr r, s') \<and>
    (\<forall>row\<in>set (oa_codes s'). cd_hash row \<noteq> sha256_hex sample_crypto ''code1'')"
proof -
  have p: "pkce_text (replicate 43 CHR ''A'')" by code_simp
  obtain r s' where e: "exchange_code oauth_sample sample_client
      [(''code'', ''code1''), (''code_verifier'', replicate 43 CHR ''A'')]
      \<lparr>rn_grant = ''g2'', rn_family = ''f2'', rn_raws = (''a'', ''b''), rn_iv = ''iv''\<rparr> 500 sample_oauth = (Inr r, s')"
    using p by (simp add: exchange_code_def code_consume_def some_text_def Let_def sample_simps oauth_sample_def verify_pkce_def
        constant_time_string_eq case_prod_beta)
  from code_exchange_checked [OF e] e show ?thesis
    by (auto simp: some_text_def sample_simps oauth_sample_def)
qed

definition replaced_token :: token_row where
  "replaced_token = sample_token\<lparr>tk_replaced := Some 0\<rparr>"

theorem refresh_reuse_ends_family_witness:
  "fst (tokens_refresh oauth_sample \<lparr>ri_token = ''old'', ri_client = ''c1'', ri_raws = (''a'', ''b''), ri_iv = ''iv''\<rparr>
      (70000, 70000, 70000) (sample_oauth\<lparr>oa_tokens := [replaced_token]\<rparr>)) = Inl (KodyError ''invalid_grant'' 400)"
proof -
  have "joined_token (\<lambda>t. tk_hash t = sha256_hex (oe_crypto oauth_sample) (ri_token \<lparr>ri_token = ''old'', ri_client = ''c1'',
      ri_raws = (''a'', ''b''), ri_iv = ''iv''\<rparr>) \<and> tk_refresh t)
      (purge 70000 (sample_oauth\<lparr>oa_tokens := [replaced_token]\<rparr>)) = Some (replaced_token, sample_grant)"
    by (simp add: joined_token_def purge_def sample_simps replaced_token_def oauth_sample_def)
  from refresh_reuse_ends_family [OF this, of 0 70000 70000] show ?thesis
    by (simp add: sample_simps replaced_token_def replay_grace_def)
qed

theorem grant_revocation_complete_witness:
  "fst (tokens_refresh oauth_sample \<lparr>ri_token = ''old'', ri_client = ''c1'', ri_raws = (''a'', ''b''), ri_iv = ''iv''\<rparr>
     (500, 500, 500) (snd (grant_revoke ''u1'' ''g1'' sample_oauth))) = Inl (KodyError ''invalid_grant'' 400)"
proof -
  have "grant_revoke ''u1'' ''g1'' sample_oauth = (Inr (), snd (grant_revoke ''u1'' ''g1'' sample_oauth))"
    by (simp add: grant_revoke_def sample_simps)
  moreover have "joined_token (\<lambda>t. tk_hash t = sha256_hex (oe_crypto oauth_sample) ''old'' \<and> tk_refresh t) sample_oauth =
      Some (sample_token, sample_grant)"
    by (simp add: joined_token_def sample_simps oauth_sample_def)
  ultimately show ?thesis
    using grant_revocation_complete [of "''g1''" sample_oauth oauth_sample]
    by (simp add: sample_simps)
qed

theorem refresh_rotates_and_replays_witness:
  "let i = \<lparr>ri_token = ''old'', ri_client = ''c1'', ri_raws = (''a'', ''b''), ri_iv = ''iv''\<rparr>;
       i' = \<lparr>ri_token = ''old'', ri_client = ''c1'', ri_raws = (''c'', ''d''), ri_iv = ''i2''\<rparr>;
       first = tokens_refresh oauth_sample i (500, 500, 500) sample_oauth
   in fst first = Inr (refreshed_pair i ''email'') \<and>
      fst (tokens_refresh oauth_sample i' (30000, 30000, 30000) (snd first)) = fst first"
proof -
  let ?i = "\<lparr>ri_token = ''old'', ri_client = ''c1'', ri_raws = (''a'', ''b''), ri_iv = ''iv''\<rparr>"
  have j: "joined_token (\<lambda>t. tk_hash t = sha256_hex (oe_crypto oauth_sample) (ri_token ?i) \<and> tk_refresh t)
      (purge 500 sample_oauth) = Some (sample_token, sample_grant)"
    by (simp add: joined_token_def purge_def sample_simps oauth_sample_def)
  have inv: "oauth_inv sample_oauth"
    by (simp add: oauth_inv_def sample_simps token_live_def)
  have fresh: "fresh_tokens (oe_crypto oauth_sample) (ri_raws ?i) sample_oauth"
    by (simp add: fresh_tokens_def Let_def sample_simps oauth_sample_def sha256_hex_def bytes_to_hex_inject
        random_token_def sample_crypto_def utf8_encode_def unit_of_def bytes_to_hex_def hex_digit_def)
  obtain r s' where rs: "tokens_refresh oauth_sample ?i (500, 500, 500) sample_oauth = (r, s')"
    by (cases "tokens_refresh oauth_sample ?i (500, 500, 500) sample_oauth")
  from refresh_rotates_and_replays [OF oauth_sample_ok inv fresh j _ _ _ rs, of 30000 30000
      "\<lparr>ri_token = ''old'', ri_client = ''c1'', ri_raws = (''c'', ''d''), ri_iv = ''i2''\<rparr>" 30000]
  show ?thesis unfolding Let_def rs fst_conv snd_conv
    by (simp add: sample_token_def sample_grant_def replay_grace_def)
qed

end
