(* ===== verification/Authenticate.thy ===== *)
theory Authenticate
  imports Accounts OAuthStore
begin

text \<open>
  src/src/auth/authenticate.ts: from a request's Authorization header to the user, through the
  API tokens of the registry or the access tokens of the authorization server, whose tables
  live in the same cell. The initialisation of the user's own cell is not repeated here.
\<close>

record principal =
  pr_user :: user_row
  pr_oauth :: bool
  pr_client :: "string option"

text \<open>\<open>/^Bearer\s+(.+)$/i\<close> on a header, which has no line breaks.\<close>

definition bearer :: "string option \<Rightarrow> string option" where
  "bearer header =
     (let h = (case header of Some t \<Rightarrow> t | None \<Rightarrow> []) in
      if 8 \<le> length h \<and> to_lower (take 6 h) = ''bearer'' \<and> is_space (h ! 6) then Some (trim (drop 7 h)) else None)"

definition oauth_access_token_prefix :: string where
  "oauth_access_token_prefix = ''mcpat_''"

definition oauth_access_token_resolve ::
  "crypto \<Rightarrow> string \<Rightarrow> time \<Rightarrow> oauth \<Rightarrow> registry \<Rightarrow> (resolved_access \<times> user_row) option" where
  "oauth_access_token_resolve C tok now oa s =
     Option.bind (access_token_resolve C tok now oa) (\<lambda>a. map_option (\<lambda>u. (a, u)) (get_user (ra_user a) s))"

definition authenticate_bearer ::
  "crypto \<Rightarrow> string option \<Rightarrow> time \<Rightarrow> oauth \<Rightarrow> registry \<Rightarrow> principal option \<times> registry" where
  "authenticate_bearer C header now oa s =
     (case some_text (bearer header) of
        None \<Rightarrow> (None, s)
      | Some tok \<Rightarrow>
        if starts_with tok oauth_access_token_prefix then
          (map_option (\<lambda>(a, u). \<lparr>pr_user = u, pr_oauth = True,
               pr_client = map_option (\<lambda>c. rg_client_name (cl_registration c)) (client_get (ra_client a) oa)\<rparr>)
             (oauth_access_token_resolve C tok now oa s), s)
        else
          (let (u, s') = resolve_token C tok now s
           in (map_option (\<lambda>u. \<lparr>pr_user = u, pr_oauth = False, pr_client = None\<rparr>) u, s')))"

text \<open>A credential that stands behind a principal.\<close>

definition backed_by_api_token :: "crypto \<Rightarrow> string \<Rightarrow> user_row \<Rightarrow> registry \<Rightarrow> bool" where
  "backed_by_api_token C tok u s = (\<exists>t\<in>set (rc_tokens s). at_hash t = sha256_hex C tok \<and> at_user t = us_id u)"

definition backed_by_grant :: "crypto \<Rightarrow> string \<Rightarrow> user_row \<Rightarrow> time \<Rightarrow> oauth \<Rightarrow> bool" where
  "backed_by_grant C tok u now oa =
     (\<exists>t\<in>set (oa_tokens oa). \<exists>g\<in>set (oa_grants oa). tk_hash t = sha256_hex C tok \<and> \<not> tk_refresh t \<and> now < tk_expires t \<and>
        tk_grant t = og_id g \<and> og_user g = us_id u)"

text \<open>C10 (safety). A request is let in as a user only if the user exists and the bearer token is an API token of
  that user or an unexpired access token under a grant of that user that still exists; a refresh token or an
  authorization code is never accepted in its place.\<close>

theorem bearer_backed_by_credential:
  assumes "authenticate_bearer C header now oa s = (Some p, s')"
  shows "pr_user p \<in> set (rc_users s) \<and>
    (\<exists>tok. bearer header = Some tok \<and>
       (if pr_oauth p then backed_by_grant C tok (pr_user p) now oa else backed_by_api_token C tok (pr_user p) s))"
proof -
  obtain tok where tok: "bearer header = Some tok" "some_text (bearer header) = Some tok"
    using assms by (auto simp: authenticate_bearer_def some_text_def split: option.splits if_splits)
  show ?thesis
  proof (cases "starts_with tok oauth_access_token_prefix")
    case True
    then obtain a u where a: "access_token_resolve C tok now oa = Some a" "get_user (ra_user a) s = Some u"
        and p: "pr_user p = u" "pr_oauth p"
      using assms tok by (auto simp: authenticate_bearer_def oauth_access_token_resolve_def bind_eq_Some_conv)
    from a(2) have u: "u \<in> set (rc_users s)" "us_id u = ra_user a"
      by (auto simp: get_user_def dest!: select_one_SomeD)
    obtain t g where j: "joined_token (\<lambda>t. tk_hash t = sha256_hex C tok \<and> \<not> tk_refresh t) oa = Some (t, g)"
        and t: "now < tk_expires t" "og_user g = us_id u"
      using a(1) u(2) by (auto simp: access_token_resolve_def not_le split: option.splits if_splits)
    from j have "t \<in> set (oa_tokens oa)" "g \<in> set (oa_grants oa)" "tk_hash t = sha256_hex C tok" "\<not> tk_refresh t"
        "tk_grant t = og_id g"
      by (auto simp: joined_token_def dest!: select_one_SomeD split: option.splits)
    with t have "backed_by_grant C tok u now oa"
      unfolding backed_by_grant_def by blast
    then show ?thesis using u p tok(1) by simp
  next
    case False
    then obtain u where r: "resolve_token C tok now s = (Some u, s')" and p: "pr_user p = u" "\<not> pr_oauth p"
      using assms tok by (auto simp: authenticate_bearer_def Let_def split: prod.splits)
    from r obtain t where t: "select_one (\<lambda>t. at_hash t = sha256_hex C tok) (rc_tokens s) = Some t"
        "get_user (at_user t) s = Some u"
      by (auto simp: resolve_token_def Let_def bind_eq_Some_conv split: option.splits)
    then have "u \<in> set (rc_users s)" "backed_by_api_token C tok u s"
      by (auto simp: backed_by_api_token_def get_user_def dest!: select_one_SomeD)
    then show ?thesis using p tok(1) by simp
  qed
qed

definition one_user :: registry where
  "one_user = empty_registry
     \<lparr>rc_users := [\<lparr>us_id = ''u1'', us_email = ''a@b.c'', us_created = 0\<rparr>],
      rc_tokens := [\<lparr>at_hash = sha256_hex sample_crypto ''kc_1'', at_user = ''u1'', at_label = ''default'', at_created = 0,
        at_last_used = None\<rparr>]\<rparr>"

theorem bearer_backed_by_credential_witness:
  "backed_by_api_token sample_crypto ''kc_1'' \<lparr>us_id = ''u1'', us_email = ''a@b.c'', us_created = 0\<rparr> one_user"
proof -
  have b: "bearer (Some ''Bearer kc_1'') = Some ''kc_1''" by code_simp
  have "authenticate_bearer sample_crypto (Some ''Bearer kc_1'') 5 sample_oauth one_user =
      (Some \<lparr>pr_user = \<lparr>us_id = ''u1'', us_email = ''a@b.c'', us_created = 0\<rparr>, pr_oauth = False, pr_client = None\<rparr>,
       snd (resolve_token sample_crypto ''kc_1'' 5 one_user))"
    by (simp add: authenticate_bearer_def b some_text_def oauth_access_token_prefix_def resolve_token_def Let_def
        one_user_def empty_registry_def get_user_def)
  from bearer_backed_by_credential [OF this] b show ?thesis by simp
qed

end
