(* ===== verification/Schedule.thy ===== *)
theory Schedule
  imports OAuthProtocol "HOL-Library.While_Combinator"
begin

text \<open>
  src/src/jobs/schedule.ts: interval texts, cron expressions and the next run of a schedule.
  \<open>Intl.DateTimeFormat\<close> and \<open>Date.parse\<close> are parameters: the former gives the wall-clock
  texts of an instant in a time zone it knows.
\<close>

section \<open>Intervals\<close>

definition interval_units :: "(string \<times> int) list" where
  "interval_units =
     [(''s'', 1000), (''sec'', 1000), (''second'', 1000), (''seconds'', 1000),
      (''m'', 60000), (''min'', 60000), (''minute'', 60000), (''minutes'', 60000),
      (''h'', 3600000), (''hr'', 3600000), (''hour'', 3600000), (''hours'', 3600000),
      (''d'', 86400000), (''day'', 86400000), (''days'', 86400000),
      (''w'', 604800000), (''week'', 604800000), (''weeks'', 604800000)]"

definition minimum_interval_ms :: int where "minimum_interval_ms = 60000"

text \<open>\<open>/^\s*(\d+(?:\.\d+)?)\s*([a-z]+)\s*$/i\<close>.\<close>

definition match_interval :: "string \<Rightarrow> (string \<times> string) option" where
  "match_interval every =
     (let s = trim every; whole = takeWhile is_digit s; r = dropWhile is_digit s;
          frac = (if r \<noteq> [] \<and> hd r = CHR ''.'' then takeWhile is_digit (tl r) else []);
          num = (if frac = [] then whole else whole @ ''.'' @ frac);
          u = trim_start (if frac = [] then r else drop (length frac + 1) r)
      in if whole = [] \<or> u = [] \<or> \<not> list_all (\<lambda>c. is_lower c \<or> is_upper c) u then None else Some (num, u))"

definition round_half_up :: "rat \<Rightarrow> int" where
  "round_half_up r = \<lfloor>r + 1 / 2\<rfloor>"

definition parse_interval_ms :: "string \<Rightarrow> int res" where
  "parse_interval_ms every =
     (case match_interval every of
        None \<Rightarrow> fails ''invalid_schedule''
      | Some (num, u) \<Rightarrow>
        (case map_of interval_units (to_lower u) of
           None \<Rightarrow> fails ''invalid_schedule''
         | Some k \<Rightarrow>
           (case js_number num of
              Num r \<Rightarrow>
                if r * of_int k < of_int minimum_interval_ms then fails ''invalid_schedule''
                else Inr (round_half_up (r * of_int k))
            | _ \<Rightarrow> fails ''invalid_schedule'')))"

section \<open>Cron expressions\<close>

record cron =
  cr_minute :: "int list"
  cr_hour :: "int list"
  cr_day :: "int list"
  cr_month :: "int list"
  cr_weekday :: "int list"
  cr_any_day :: bool
  cr_any_weekday :: bool

definition month_names :: "string list" where
  "month_names = [''jan'', ''feb'', ''mar'', ''apr'', ''may'', ''jun'', ''jul'', ''aug'', ''sep'', ''oct'', ''nov'', ''dec'']"

definition day_names :: "string list" where
  "day_names = [''sun'', ''mon'', ''tue'', ''wed'', ''thu'', ''fri'', ''sat'']"

text \<open>\<open>indexOf\<close>: -1 when absent.\<close>

fun index_in :: "string \<Rightarrow> string list \<Rightarrow> int" where
  "index_in x [] = -1"
| "index_in x (y # ys) = (if x = y then 0 else (let i = index_in x ys in if i < 0 then -1 else i + 1))"

definition cron_number :: "string list \<Rightarrow> int \<Rightarrow> string \<Rightarrow> int res" where
  "cron_number names lo token =
     (let l = to_lower token; i = index_in (take 3 l) names in
      if 0 \<le> i \<and> length l \<le> 3 then Inr (i + lo)
      else if \<not> all_digits token then fails ''invalid_schedule''
      else Inr (digits_value 10 token))"

definition cron_step :: "string list \<Rightarrow> int res" where
  "cron_step parts =
     (if length parts < 2 then Inr 1
      else case integer_value (js_number (parts ! 1)) of
        None \<Rightarrow> fails ''invalid_schedule''
      | Some n \<Rightarrow> if n < 1 then fails ''invalid_schedule'' else Inr n)"

definition cron_range :: "string list \<Rightarrow> int \<Rightarrow> int \<Rightarrow> string \<Rightarrow> bool \<Rightarrow> (int \<times> int) res" where
  "cron_range names lo hi r stepped =
     (if r = ''*'' \<or> r = [] then Inr (lo, hi)
      else if contains r ''-'' then
        (let ab = split_on CHR ''-'' r in
         bind_res (cron_number names lo (ab ! 0)) (\<lambda>a.
         bind_res (cron_number names lo (ab ! 1)) (\<lambda>b.
           if b < a then fails ''invalid_schedule'' else Inr (a, b))))
      else bind_res (cron_number names lo r) (\<lambda>a. Inr (a, if stepped then hi else a)))"

definition cron_part :: "string list \<Rightarrow> int \<Rightarrow> int \<Rightarrow> string \<Rightarrow> int list res" where
  "cron_part names lo hi part =
     (let ps = split_on CHR ''/'' part in
      bind_res (cron_step ps) (\<lambda>step.
      bind_res (cron_range names lo hi (hd ps) (2 \<le> length ps)) (\<lambda>(a, b).
        if a < lo \<or> hi < b then fails ''invalid_schedule''
        else Inr (filter (\<lambda>v. (v - a) mod step = 0) [a..b]))))"

definition parse_cron_field :: "string \<Rightarrow> int \<Rightarrow> int \<Rightarrow> string list \<Rightarrow> int list res" where
  "parse_cron_field field lo hi names =
     map_sum id concat (map_res (cron_part names lo hi) (split_on CHR '','' field))"

text \<open>\<open>dow.replace(/(^|,)7(?=,|$|-)/g, '$10')\<close>: a 7 that begins a part is Sunday.\<close>

definition sunday :: "string \<Rightarrow> string" where
  "sunday part = (if part = ''7'' \<or> starts_with part ''7-'' then CHR ''0'' # tl part else part)"

definition parse_cron :: "string \<Rightarrow> cron res" where
  "parse_cron expression =
     (case words expression of
        [minute, hour, mday, month, wday] \<Rightarrow>
          bind_res (parse_cron_field (join_with '','' (map sunday (split_on CHR '','' wday))) 0 6 day_names) (\<lambda>wd.
          bind_res (parse_cron_field minute 0 59 []) (\<lambda>mi.
          bind_res (parse_cron_field hour 0 23 []) (\<lambda>h.
          bind_res (parse_cron_field mday 1 31 []) (\<lambda>d.
          bind_res (parse_cron_field month 1 12 month_names) (\<lambda>mo.
            Inr \<lparr>cr_minute = mi, cr_hour = h, cr_day = d, cr_month = mo, cr_weekday = wd,
                 cr_any_day = (mday = ''*''), cr_any_weekday = (wday = ''*'')\<rparr>)))))
      | _ \<Rightarrow> fails ''invalid_schedule'')"

section \<open>Wall-clock time\<close>

text \<open>The numbers and the weekday text that the formatter gives.\<close>

record zone_text =
  zt_minute :: int
  zt_hour :: int
  zt_day :: int
  zt_month :: int
  zt_weekday :: string

record calendar =
  ca_zone :: "string \<Rightarrow> (time \<Rightarrow> zone_text) option"
  ca_parse_date :: "string \<Rightarrow> time option"

record zoned_parts =
  zp_minute :: int
  zp_hour :: int
  zp_day :: int
  zp_month :: int
  zp_weekday :: int

definition zoned_parts_of :: "zone_text \<Rightarrow> zoned_parts" where
  "zoned_parts_of z =
     \<lparr>zp_minute = zt_minute z, zp_hour = zt_hour z mod 24, zp_day = zt_day z, zp_month = zt_month z,
      zp_weekday = index_in (take 3 (to_lower (zt_weekday z))) day_names\<rparr>"

definition cron_matches :: "cron \<Rightarrow> zoned_parts \<Rightarrow> bool" where
  "cron_matches c p =
     (if zp_minute p \<notin> set (cr_minute c) then False
      else if zp_hour p \<notin> set (cr_hour c) then False
      else if zp_month p \<notin> set (cr_month c) then False
      else
        (let dom_ok = zp_day p \<in> set (cr_day c); dow_ok = zp_weekday p \<in> set (cr_weekday c) in
         if cr_any_day c \<and> cr_any_weekday c then True
         else if cr_any_day c then dow_ok
         else if cr_any_weekday c then dom_ok
         else dom_ok \<or> dow_ok))"

text \<open>The first index from \<open>i\<close> on, of \<open>n\<close>, that satisfies \<open>P\<close>: the scan over the minutes.\<close>

primrec first_from :: "(nat \<Rightarrow> bool) \<Rightarrow> nat \<Rightarrow> nat \<Rightarrow> nat option" where
  "first_from P i 0 = None"
| "first_from P i (Suc n) = (if P i then Some i else first_from P (Suc i) n)"

definition cron_scan_limit :: nat where "cron_scan_limit = 60 * 24 * 400"

definition minute_start :: "time \<Rightarrow> time" where
  "minute_start t = t - t mod 60000"

definition next_cron_occurrence :: "calendar \<Rightarrow> string \<Rightarrow> time \<Rightarrow> string \<Rightarrow> time res" where
  "next_cron_occurrence Z expression after timezone =
     bind_res (parse_cron expression) (\<lambda>c.
       case ca_zone Z timezone of
         None \<Rightarrow> fails ''invalid_schedule''
       | Some wall \<Rightarrow>
         (case first_from (\<lambda>i. cron_matches c (zoned_parts_of (wall (minute_start after + int i * 60000)))) 1 cron_scan_limit of
            None \<Rightarrow> fails ''invalid_schedule''
          | Some i \<Rightarrow> Inr (minute_start after + int i * 60000)))"

section \<open>Schedules\<close>

datatype schedule = Cron string | Interval string | Once string

definition validate_schedule :: "calendar \<Rightarrow> schedule \<Rightarrow> string option \<Rightarrow> time \<Rightarrow> unit res" where
  "validate_schedule Z sch timezone now =
     (case sch of
        Cron e \<Rightarrow> map_sum id (\<lambda>_. ()) (next_cron_occurrence Z e now (case timezone of Some z \<Rightarrow> z | None \<Rightarrow> ''UTC''))
      | Interval e \<Rightarrow> map_sum id (\<lambda>_. ()) (parse_interval_ms e)
      | Once d \<Rightarrow> if ca_parse_date Z d = None then fails ''invalid_schedule'' else Inr ())"

text \<open>\<open>while (next <= now) next += every\<close>; an interval is at least a minute, so the guard on \<open>every\<close> never
  decides.\<close>

function catch_up :: "int \<Rightarrow> time \<Rightarrow> time \<Rightarrow> time" where
  "catch_up every now next_at = (if next_at \<le> now \<and> 0 < every then catch_up every now (next_at + every) else next_at)"
  by pat_completeness auto

termination
  by (relation "measure (\<lambda>(every, now, next_at). nat (now - next_at + 1))") auto

text \<open>The answer of \<open>computeNextRun\<close>: null, a date, or a date that does not exist.\<close>

datatype next_run = NoRun | RunAt time | RunNever

definition compute_next_run :: "calendar \<Rightarrow> schedule \<Rightarrow> time \<Rightarrow> string option \<Rightarrow> time option \<Rightarrow> next_run res" where
  "compute_next_run Z sch now timezone last_run =
     (case sch of
        Cron e \<Rightarrow> map_sum id RunAt (next_cron_occurrence Z e now (case timezone of Some z \<Rightarrow> z | None \<Rightarrow> ''UTC''))
      | Interval e \<Rightarrow>
          map_sum id (\<lambda>every. RunAt (catch_up every now ((case last_run of Some t \<Rightarrow> t | None \<Rightarrow> now) + every)))
            (parse_interval_ms e)
      | Once d \<Rightarrow>
          if last_run \<noteq> None then Inr NoRun
          else case ca_parse_date Z d of
            None \<Rightarrow> Inr RunNever
          | Some t \<Rightarrow> Inr (RunAt (if t \<le> now then now else t)))"

section \<open>Scans and loops\<close>

declare catch_up.simps [simp del]

lemma first_from_Some:
  "first_from P i n = Some j \<Longrightarrow> i \<le> j \<and> j < i + n \<and> P j \<and> (\<forall>k. i \<le> k \<and> k < j \<longrightarrow> \<not> P k)"
proof (induction n arbitrary: i)
  case (Suc n)
  show ?case
  proof (cases "P i")
    case False
    then have "first_from P (Suc i) n = Some j" using Suc.prems by simp
    note ih = Suc.IH [OF this]
    have "\<not> P k" if "i \<le> k" "k < j" for k
      using ih False that by (cases "k = i") auto
    with ih show ?thesis by auto
  qed (use Suc.prems in auto)
qed simp

lemma first_from_hit: "P i \<Longrightarrow> 0 < n \<Longrightarrow> first_from P i n = Some i"
  by (cases n) auto

lemma first_from_None: "first_from P i n = None \<longleftrightarrow> (\<forall>k. i \<le> k \<and> k < i + n \<longrightarrow> \<not> P k)"
proof (induction n arbitrary: i)
  case (Suc n)
  have "(\<forall>k. i \<le> k \<and> k < i + Suc n \<longrightarrow> \<not> P k) \<longleftrightarrow> \<not> P i \<and> (\<forall>k. Suc i \<le> k \<and> k < Suc i + n \<longrightarrow> \<not> P k)"
  proof (intro iffI conjI allI impI)
    fix k assume "\<not> P i \<and> (\<forall>k. Suc i \<le> k \<and> k < Suc i + n \<longrightarrow> \<not> P k)" "i \<le> k \<and> k < i + Suc n"
    then show "\<not> P k" by (cases "k = i") auto
  qed auto
  then show ?case using Suc.IH [of "Suc i"] by simp
qed auto

lemma catch_up_first:
  "0 < every \<Longrightarrow> \<exists>k. catch_up every now next_at = next_at + int k * every \<and> now < catch_up every now next_at \<and>
     (k = 0 \<or> catch_up every now next_at - every \<le> now)"
proof (induction every now next_at rule: catch_up.induct)
  case (1 every now next_at)
  show ?case
  proof (cases "next_at \<le> now")
    case True
    then obtain k where k: "catch_up every now (next_at + every) = next_at + every + int k * every"
        "now < catch_up every now (next_at + every)" "k = 0 \<or> catch_up every now (next_at + every) - every \<le> now"
      using 1 by blast
    have "catch_up every now next_at = catch_up every now (next_at + every)"
      using True 1(2) by (simp add: catch_up.simps [of every now next_at])
    then show ?thesis
      using k True by (intro exI [of _ "Suc k"]) (auto simp: algebra_simps)
  next
    case False
    then show ?thesis by (intro exI [of _ 0]) (simp add: catch_up.simps [of every now next_at])
  qed
qed

lemma parse_interval_least:
  assumes "parse_interval_ms e = Inr every"
  shows "minimum_interval_ms \<le> every"
proof -
  obtain r :: rat where "of_int minimum_interval_ms \<le> r" "every = round_half_up r"
    using assms by (auto simp: parse_interval_ms_def not_less split: option.splits js_num.splits if_splits prod.splits)
  then show ?thesis
    unfolding round_half_up_def le_floor_iff by linarith
qed

text \<open>The loop that catches an interval schedule up with the clock ends, however long ago the
  last run was, and the function above is the value it leaves in \<open>next\<close>.\<close>

theorem catch_up_loop_ends:
  assumes "parse_interval_ms e = Inr every"
  shows "while_option (\<lambda>next_at. next_at \<le> now) (\<lambda>next_at. next_at + every) start = Some (catch_up every now start)"
proof -
  have "0 < every" using parse_interval_least [OF assms] by (simp add: minimum_interval_ms_def)
  then show ?thesis
  proof (induction every now start rule: catch_up.induct)
    case (1 every now start)
    then show ?case
      by (simp add: while_option_unfold [of _ _ start] catch_up.simps [of every now start])
  qed
qed

text \<open>The next run of an interval schedule is after now, a whole number of intervals after the last
  run (or now, for a new job), and the first such time: no slot between is skipped, and a missed slot is not
  run twice.\<close>

theorem interval_next_run_first:
  assumes "compute_next_run Z (Interval e) now timezone last_run = Inr run"
  shows "\<exists>every k t. parse_interval_ms e = Inr every \<and> minimum_interval_ms \<le> every \<and> run = RunAt t \<and>
    t = (case last_run of Some l \<Rightarrow> l | None \<Rightarrow> now) + int (Suc k) * every \<and> now < t \<and> (k = 0 \<or> t - every \<le> now)"
proof -
  obtain every where e: "parse_interval_ms e = Inr every"
      "run = RunAt (catch_up every now ((case last_run of Some t \<Rightarrow> t | None \<Rightarrow> now) + every))"
    using assms by (cases "parse_interval_ms e") (auto simp: compute_next_run_def)
  have least: "minimum_interval_ms \<le> every" using e(1) by (rule parse_interval_least)
  let ?n = "(case last_run of Some t \<Rightarrow> t | None \<Rightarrow> now) + every"
  obtain k where "catch_up every now ?n = ?n + int k * every" "now < catch_up every now ?n"
      "k = 0 \<or> catch_up every now ?n - every \<le> now"
    using catch_up_first [of every now ?n] least by (auto simp: minimum_interval_ms_def)
  then show ?thesis
    using e least by (intro exI [of _ every] exI [of _ k] exI [of _ "catch_up every now ?n"]) (auto simp: algebra_simps)
qed

lemma minute_start_bounds: "minute_start t \<le> t" "t < minute_start t + 60000"
  using pos_mod_bound [of 60000 t] pos_mod_sign [of 60000 t] by (simp_all add: minute_start_def)

text \<open>C31 (functional). The next run of a cron schedule is a whole minute after now whose wall-clock time matches the
  expression, and no whole minute between now and then matches.\<close>

theorem cron_next_run_first:
  assumes "next_cron_occurrence Z e now timezone = Inr t"
  shows "\<exists>c wall. parse_cron e = Inr c \<and> ca_zone Z timezone = Some wall \<and> now < t \<and> t mod 60000 = 0 \<and>
    cron_matches c (zoned_parts_of (wall t)) \<and>
    (\<forall>u. now < u \<and> u < t \<and> u mod 60000 = 0 \<longrightarrow> \<not> cron_matches c (zoned_parts_of (wall u)))"
proof -
  let ?m = "minute_start now"
  obtain c wall where c: "parse_cron e = Inr c" "ca_zone Z timezone = Some wall"
    using assms by (cases "parse_cron e") (auto simp: next_cron_occurrence_def bind_res_Inr split: option.splits)
  let ?P = "\<lambda>i. cron_matches c (zoned_parts_of (wall (?m + int i * 60000)))"
  obtain i where i: "first_from ?P 1 cron_scan_limit = Some i" "t = ?m + int i * 60000"
    using assms c by (auto simp: next_cron_occurrence_def bind_res_Inr split: option.splits)
  note first = first_from_Some [OF i(1)]
  have m: "?m mod 60000 = 0" by (simp add: minute_start_def mod_diff_left_eq [symmetric])
  have "\<not> cron_matches c (zoned_parts_of (wall u))" if u: "now < u" "u < t" "u mod 60000 = 0" for u
  proof -
    have "60000 dvd u - ?m" using u(3) m by (simp add: dvd_diff mod_0_imp_dvd)
    then obtain q where q: "u - ?m = 60000 * q" ..
    have "0 < u - ?m" using u(1) minute_start_bounds(1) [of now] by linarith
    then have "0 < q" using q by linarith
    then obtain j where j: "q = int j" "1 \<le> j" by (cases q) auto
    have ju: "u = ?m + int j * 60000" using q j(1) by linarith
    have "int j < int i" using ju u(2) i(2) by linarith
    then have "j < i" by simp
    with first j(2) have "\<not> ?P j" by blast
    then show ?thesis unfolding ju .
  qed
  moreover have "1 \<le> int i" using first by simp
  then have "now < t" using i(2) minute_start_bounds(2) [of now] by linarith
  moreover have "t mod 60000 = 0" using m i(2) by (metis mod_mult_self1)
  moreover have "cron_matches c (zoned_parts_of (wall t))" using first i(2) by blast
  ultimately show ?thesis
    using c by (intro exI [of _ c] exI [of _ wall] conjI allI impI) (simp_all only:, blast)
qed

lemma next_cron_later: "next_cron_occurrence Z e now timezone = Inr t \<Longrightarrow> now < t"
proof -
  assume "next_cron_occurrence Z e now timezone = Inr t"
  then obtain c wall i where i: "first_from (\<lambda>i. cron_matches c (zoned_parts_of (wall (minute_start now + int i * 60000)))) 1
      cron_scan_limit = Some i" "t = minute_start now + int i * 60000"
    by (cases "parse_cron e") (auto simp: next_cron_occurrence_def bind_res_Inr split: option.splits)
  then have "1 \<le> int i" using first_from_Some [OF i(1)] by simp
  then show "now < t" using i(2) minute_start_bounds(2) [of now] by linarith
qed

section \<open>Witnesses\<close>

text \<open>A calendar for the first day of 1970, a Thursday, in UTC.\<close>

definition first_day :: calendar where
  "first_day =
     \<lparr>ca_zone = (\<lambda>z. if z = ''UTC'' then Some (\<lambda>t. \<lparr>zt_minute = t div 60000 mod 60, zt_hour = t div 3600000 mod 24,
         zt_day = 1, zt_month = 1, zt_weekday = ''Thu''\<rparr>) else None),
      ca_parse_date = (\<lambda>d. None)\<rparr>"

lemma parse_5m: "parse_interval_ms ''5m'' = Inr 300000"
  by code_simp

theorem interval_next_run_first_witness:
  "\<exists>k. 900000 = 0 + int (Suc k) * (300000::int) \<and>
     compute_next_run first_day (Interval ''5m'') 700000 None (Some 0) = Inr (RunAt 900000)"
proof -
  have c: "catch_up 300000 700000 300000 = 900000"
    by (simp add: catch_up.simps)
  have r: "compute_next_run first_day (Interval ''5m'') 700000 None (Some 0) = Inr (RunAt 900000)"
    by (simp add: compute_next_run_def parse_5m c)
  from interval_next_run_first [OF r] show ?thesis using r parse_5m by auto
qed

lemma every_minute: "\<exists>c. parse_cron ''* * * * *'' = Inr c \<and> cron_matches c \<lparr>zp_minute = 1, zp_hour = 0, zp_day = 1, zp_month = 1, zp_weekday = 4\<rparr>"
proof -
  have "case parse_cron ''* * * * *'' of Inl _ \<Rightarrow> False
      | Inr c \<Rightarrow> cron_matches c \<lparr>zp_minute = 1, zp_hour = 0, zp_day = 1, zp_month = 1, zp_weekday = 4\<rparr>"
    by code_simp
  then show ?thesis by (simp split: sum.splits)
qed

theorem cron_next_run_first_witness:
  "next_cron_occurrence first_day ''* * * * *'' 30000 ''UTC'' = Inr 60000 \<and> (30000::int) < 60000"
proof -
  obtain c where c: "parse_cron ''* * * * *'' = Inr c"
      "cron_matches c \<lparr>zp_minute = 1, zp_hour = 0, zp_day = 1, zp_month = 1, zp_weekday = 4\<rparr>"
    using every_minute by blast
  have "index_in (take 3 (to_lower ''Thu'')) day_names = 4" by code_simp
  then have "first_from (\<lambda>i. cron_matches c (zoned_parts_of \<lparr>zt_minute = int i mod 60, zt_hour = int i div 60 mod 24,
      zt_day = 1, zt_month = 1, zt_weekday = ''Thu''\<rparr>)) 1 cron_scan_limit = Some 1"
    using c(2) by (intro first_from_hit) (simp_all add: zoned_parts_of_def cron_scan_limit_def)
  then have n: "next_cron_occurrence first_day ''* * * * *'' 30000 ''UTC'' = Inr 60000"
    using c(1) by (simp add: next_cron_occurrence_def bind_res_def first_day_def minute_start_def)
  from cron_next_run_first [OF n] n show ?thesis by auto
qed

theorem catch_up_loop_ends_witness:
  "while_option (\<lambda>n. n \<le> (700000::int)) (\<lambda>n. n + 300000) 300000 = Some 900000"
  using catch_up_loop_ends [OF parse_5m, of 700000 300000] by (simp add: catch_up.simps)

end
