(* ===== verification/Jobs.thy ===== *)
theory Jobs
  imports Schedule "HOL-Library.Char_ord" "HOL-Library.List_Lexorder"
begin

text \<open>
  The job tables of a user's cell (src/src/cells/user-cell.ts, reconcileJobs and job*) and the
  dispatcher of src/src/jobs/dispatcher.ts. A schedule is kept as parsed (the JSON column is
  not modelled), a JSON text of a result as a string. Running a package is a parameter of the
  dispatcher; ids and readings of the clock are arguments.
\<close>

section \<open>Tables\<close>

record job_row =
  jb_id :: string
  jb_package :: string
  jb_name :: string
  jb_entry :: string
  jb_schedule :: schedule
  jb_timezone :: "string option"
  jb_description :: "string option"
  jb_enabled :: bool
  jb_next_run :: "time option"
  jb_last_run :: "time option"
  jb_last_status :: "string option"
  jb_last_error :: "string option"
  jb_created :: time
  jb_updated :: time

record job_run_row =
  jr_id :: string
  jr_job :: string
  jr_trigger :: string
  jr_started :: time
  jr_finished :: "time option"
  jr_status :: string
  jr_result :: "string option"
  jr_error :: "string option"
  jr_logs :: string

record jobs =
  js_jobs :: "job_row list"
  js_runs :: "job_run_row list"

text \<open>\<open>nextRun?.toISOString() ?? null\<close>: an invalid date throws.\<close>

definition stored_next :: "next_run \<Rightarrow> time option res" where
  "stored_next r = (case r of NoRun \<Rightarrow> Inr None | RunAt t \<Rightarrow> Inr (Some t) | RunNever \<Rightarrow> internal_error)"

definition next_of :: "calendar \<Rightarrow> schedule \<Rightarrow> time \<Rightarrow> string option \<Rightarrow> time option \<Rightarrow> time option res" where
  "next_of Z sch now timezone last_run = bind_res (compute_next_run Z sch now timezone last_run) stored_next"

section \<open>Jobs of a manifest\<close>

record manifest_job =
  mj_entry :: string
  mj_schedule :: schedule
  mj_timezone :: "string option"
  mj_description :: "string option"
  mj_enabled :: "bool option"

definition job_id :: "string \<Rightarrow> string \<Rightarrow> string" where
  "job_id package name = package @ ''#'' @ name"

definition reconciled_enabled :: "job_row option \<Rightarrow> manifest_job \<Rightarrow> bool" where
  "reconciled_enabled existing m =
     (case existing of
        Some r \<Rightarrow> jb_enabled r \<or> mj_enabled m = Some True
      | None \<Rightarrow> mj_enabled m \<noteq> Some False)"

definition reconcile_job ::
  "calendar \<Rightarrow> string \<Rightarrow> job_row list \<Rightarrow> time \<Rightarrow> string \<times> manifest_job \<Rightarrow> jobs \<Rightarrow> unit res \<times> jobs" where
  "reconcile_job Z package rows now e s =
     (let (name, m) = e;
          existing = find (\<lambda>r. jb_name r = name) rows;
          enabled = reconciled_enabled existing m
      in
      case next_of Z (mj_schedule m) now (mj_timezone m) (Option.bind existing jb_last_run) of
        Inl err \<Rightarrow> (Inl err, s)
      | Inr next_at \<Rightarrow>
        (Inr (), s\<lparr>js_jobs := upsert (\<lambda>r. jb_id r = job_id package name)
           (\<lambda>r. r\<lparr>jb_entry := mj_entry m, jb_schedule := mj_schedule m, jb_timezone := mj_timezone m,
                  jb_description := mj_description m, jb_enabled := enabled, jb_next_run := next_at, jb_updated := now\<rparr>)
           \<lparr>jb_id = job_id package name, jb_package = package, jb_name = name, jb_entry = mj_entry m,
            jb_schedule = mj_schedule m, jb_timezone = mj_timezone m, jb_description = mj_description m,
            jb_enabled = enabled, jb_next_run = next_at, jb_last_run = None, jb_last_status = None,
            jb_last_error = None, jb_created = now, jb_updated = now\<rparr>
           (js_jobs s)\<rparr>))"

fun reconcile_entries ::
  "calendar \<Rightarrow> string \<Rightarrow> job_row list \<Rightarrow> time \<Rightarrow> (string \<times> manifest_job) list \<Rightarrow> jobs \<Rightarrow> unit res \<times> jobs" where
  "reconcile_entries Z package rows now [] s = (Inr (), s)"
| "reconcile_entries Z package rows now (e # es) s =
     (case reconcile_job Z package rows now e s of
        (Inl err, s') \<Rightarrow> (Inl err, s')
      | (Inr _, s') \<Rightarrow> reconcile_entries Z package rows now es s')"

definition reconcile_jobs ::
  "calendar \<Rightarrow> string \<Rightarrow> (string \<times> manifest_job) list \<Rightarrow> time \<Rightarrow> jobs \<Rightarrow> unit res \<times> jobs" where
  "reconcile_jobs Z package declared now s =
     (let rows = filter (\<lambda>r. jb_package r = package) (js_jobs s);
          gone = map jb_id (filter (\<lambda>r. jb_name r \<notin> fst ` set declared) rows);
          s1 = s\<lparr>js_jobs := delete_where (\<lambda>r. jb_id r \<in> set gone) (js_jobs s)\<rparr>
      in reconcile_entries Z package rows now declared s1)"

section \<open>Operations\<close>

definition job_list :: "string option \<Rightarrow> jobs \<Rightarrow> job_row list" where
  "job_list package s =
     sort_key jb_id (case some_text package of Some p \<Rightarrow> filter (\<lambda>r. jb_package r = p) (js_jobs s) | None \<Rightarrow> js_jobs s)"

definition job_get :: "string \<Rightarrow> jobs \<Rightarrow> job_row option" where
  "job_get i s = select_one (\<lambda>r. jb_id r = i) (js_jobs s)"

definition job_update :: "calendar \<Rightarrow> string \<Rightarrow> bool option \<Rightarrow> time \<Rightarrow> jobs \<Rightarrow> job_row res \<times> jobs" where
  "job_update Z i enabled now s =
     (case job_get i s of
        None \<Rightarrow> (Inl (KodyError ''job_not_found'' 404), s)
      | Some job \<Rightarrow>
        (case enabled of
           None \<Rightarrow> (Inr job, s)
         | Some en \<Rightarrow>
           (case (if en then next_of Z (jb_schedule job) now (jb_timezone job) (jb_last_run job) else Inr None) of
              Inl e \<Rightarrow> (Inl e, s)
            | Inr next_at \<Rightarrow>
              (let s' = s\<lparr>js_jobs := update_where (\<lambda>r. jb_id r = i)
                     (\<lambda>r. r\<lparr>jb_enabled := en, jb_next_run := next_at, jb_updated := now\<rparr>) (js_jobs s)\<rparr>
               in (Inr (the (job_get i s')), s')))))"

definition job_due :: "time \<Rightarrow> job_row \<Rightarrow> bool" where
  "job_due now r = (jb_enabled r \<and> (case jb_next_run r of Some t \<Rightarrow> t \<le> now | None \<Rightarrow> False))"

definition due_jobs :: "time \<Rightarrow> jobs \<Rightarrow> job_row list" where
  "due_jobs now s = sort_key (\<lambda>r. the (jb_next_run r)) (filter (job_due now) (js_jobs s))"

fun claim_each :: "calendar \<Rightarrow> time \<Rightarrow> job_row list \<Rightarrow> jobs \<Rightarrow> unit res \<times> jobs" where
  "claim_each Z now [] s = (Inr (), s)"
| "claim_each Z now (job # jobs) s =
     (case next_of Z (jb_schedule job) now (jb_timezone job) (Some now) of
        Inl e \<Rightarrow> (Inl e, s)
      | Inr next_at \<Rightarrow>
        claim_each Z now jobs (s\<lparr>js_jobs := update_where (\<lambda>r. jb_id r = jb_id job)
          (\<lambda>r. r\<lparr>jb_next_run := next_at, jb_last_run := Some now, jb_last_status := Some ''running'', jb_updated := now\<rparr>)
          (js_jobs s)\<rparr>))"

definition jobs_claim_due :: "calendar \<Rightarrow> time \<Rightarrow> jobs \<Rightarrow> job_row list res \<times> jobs" where
  "jobs_claim_due Z now s =
     (case claim_each Z now (due_jobs now s) s of
        (Inl e, s') \<Rightarrow> (Inl e, s')
      | (Inr _, s') \<Rightarrow> (Inr (due_jobs now s), s'))"


record finish_input =
  fi_id :: string
  fi_job :: string
  fi_status :: string
  fi_result :: "string option"
  fi_error :: "string option"
  fi_logs :: "string option"

definition runs_kept_per_job :: nat where "runs_kept_per_job = 50"

definition job_run_finish :: "finish_input \<Rightarrow> time \<Rightarrow> jobs \<Rightarrow> jobs" where
  "job_run_finish i now s =
     (let runs = update_where (\<lambda>r. jr_id r = fi_id i)
            (\<lambda>r. r\<lparr>jr_finished := Some now, jr_status := fi_status i, jr_result := fi_result i, jr_error := fi_error i,
                   jr_logs := (case fi_logs i of Some l \<Rightarrow> l | None \<Rightarrow> ''[]'')\<rparr>) (js_runs s);
          rows = update_where (\<lambda>r. jb_id r = fi_job i)
            (\<lambda>r. r\<lparr>jb_last_status := Some (fi_status i), jb_last_error := fi_error i, jb_updated := now\<rparr>) (js_jobs s);
          kept = set (map jr_id (newest jr_started runs_kept_per_job (filter (\<lambda>r. jr_job r = fi_job i) runs)))
      in s\<lparr>js_jobs := rows, js_runs := delete_where (\<lambda>r. jr_job r = fi_job i \<and> jr_id r \<notin> kept) runs\<rparr>)"

definition job_run_list :: "string option \<Rightarrow> int option \<Rightarrow> jobs \<Rightarrow> job_run_row list" where
  "job_run_list job limit s =
     (let n = min (max (case limit of Some l \<Rightarrow> l | None \<Rightarrow> 20) 1) 200
      in newest jr_started (nat n)
        (case some_text job of Some j \<Rightarrow> filter (\<lambda>r. jr_job r = j) (js_runs s) | None \<Rightarrow> js_runs s))"

section \<open>The dispatcher\<close>






section \<open>Claiming\<close>





lemma due_jobs_set: "set (due_jobs now s) = {r \<in> set (js_jobs s). job_due now r}"
  by (simp add: due_jobs_def)



lemma claim_each_stuck:
  assumes "distinct (map jb_id jobs)" "job \<in> set jobs" "\<not> is_ok (next_of Z (jb_schedule job) now (jb_timezone job) (Some now))"
    "set jobs \<subseteq> set (js_jobs s)"
  shows "\<exists>e s'. claim_each Z now jobs s = (Inl e, s') \<and> (\<exists>r\<in>set jobs. r \<in> set (js_jobs s'))"
  using assms
proof (induction jobs arbitrary: s)
  case (Cons j jobs)
  show ?case
  proof (cases "next_of Z (jb_schedule j) now (jb_timezone j) (Some now)")
    case (Inl e)
    then show ?thesis using Cons.prems(4) by auto
  next
    case (Inr next_at)
    then have job: "job \<in> set jobs" using Cons.prems(2,3) by auto
    let ?s = "s\<lparr>js_jobs := update_where (\<lambda>r. jb_id r = jb_id j)
        (\<lambda>r. r\<lparr>jb_next_run := next_at, jb_last_run := Some now, jb_last_status := Some ''running'', jb_updated := now\<rparr>)
        (js_jobs s)\<rparr>"
    have "set jobs \<subseteq> set (js_jobs ?s)"
    proof
      fix r assume "r \<in> set jobs"
      then have "r \<in> set (js_jobs s)" "jb_id r \<noteq> jb_id j" using Cons.prems(1,4) by (auto simp: image_iff)
      then show "r \<in> set (js_jobs ?s)" by (auto simp: set_update_where)
    qed
    with Cons.IH [of ?s] Cons.prems(1,3) job Inr show ?thesis by auto
  qed
qed simp

text \<open>One job whose next run cannot be computed (a cron expression such as that of a leap day, which may have no
  match within the scanned 400 days) makes the whole claim of its user fail, and a due job stays due, so
  that the claims that follow fail as well.\<close>

theorem stuck_job_blocks_claims:
  assumes "distinct (map jb_id (js_jobs s))" "job \<in> set (js_jobs s)" "job_due now job"
    "\<not> is_ok (next_of Z (jb_schedule job) now (jb_timezone job) (Some now))"
  shows "\<not> is_ok (fst (jobs_claim_due Z now s)) \<and> (\<exists>r\<in>set (js_jobs (snd (jobs_claim_due Z now s))). job_due now r)"
proof -
  have "distinct (map jb_id (due_jobs now s))"
    using assms(1) by (simp add: due_jobs_def distinct_map inj_on_def)
  then obtain e s' where "claim_each Z now (due_jobs now s) s = (Inl e, s')" "\<exists>r\<in>set (due_jobs now s). r \<in> set (js_jobs s')"
    using claim_each_stuck [of "due_jobs now s" job Z now s] assms by (auto simp: due_jobs_set)
  then show ?thesis by (auto simp: jobs_claim_due_def due_jobs_set)
qed

text \<open>After a run of a job is finished, at most fifty runs of that job are kept.\<close>

theorem job_runs_bounded:
  assumes "distinct (map jr_id (js_runs s))"
  shows "length (filter (\<lambda>r. jr_job r = fi_job i) (js_runs (job_run_finish i now s))) \<le> 50"
proof -
  define runs where "runs = update_where (\<lambda>r. jr_id r = fi_id i)
      (\<lambda>r. r\<lparr>jr_finished := Some now, jr_status := fi_status i, jr_result := fi_result i, jr_error := fi_error i,
             jr_logs := (case fi_logs i of Some l \<Rightarrow> l | None \<Rightarrow> ''[]'')\<rparr>) (js_runs s)"
  have "map jr_id runs = map jr_id (js_runs s)"
    unfolding runs_def by (rule map_update_where) simp
  then have "distinct (map jr_id runs)" using assms by simp
  from length_kept_newest [OF this, of "\<lambda>r. jr_job r = fi_job i" jr_started runs_kept_per_job]
  show ?thesis by (simp add: job_run_finish_def Let_def runs_def runs_kept_per_job_def)
qed

section \<open>Dispatching\<close>





section \<open>Witnesses\<close>

definition sample_job :: job_row where
  "sample_job =
     \<lparr>jb_id = ''p#j'', jb_package = ''p'', jb_name = ''j'', jb_entry = ''jobs/j.ts'', jb_schedule = Interval ''5m'',
      jb_timezone = None, jb_description = None, jb_enabled = True, jb_next_run = Some 300000, jb_last_run = Some 0,
      jb_last_status = None, jb_last_error = None, jb_created = 0, jb_updated = 0\<rparr>"

definition sample_jobs :: jobs where
  "sample_jobs = \<lparr>js_jobs = [sample_job], js_runs = []\<rparr>"






theorem job_runs_bounded_witness:
  "length (filter (\<lambda>r. jr_job r = ''p#j'') (js_runs (job_run_finish
      \<lparr>fi_id = ''x'', fi_job = ''p#j'', fi_status = ''success'', fi_result = None, fi_error = None, fi_logs = None\<rparr> 5 sample_jobs))) \<le> 50"
  using job_runs_bounded [of sample_jobs
      "\<lparr>fi_id = ''x'', fi_job = ''p#j'', fi_status = ''success'', fi_result = None, fi_error = None, fi_logs = None\<rparr>" 5]
  by (simp add: sample_jobs_def)

definition leap_job :: job_row where
  "leap_job = sample_job\<lparr>jb_id := ''p#leap'', jb_schedule := Cron ''0 0 29 2 *''\<rparr>"

lemma leap_never: "next_of first_day (Cron ''0 0 29 2 *'') now None (Some now) = Inl (KodyError ''invalid_schedule'' 400)"
proof -
  have "case parse_cron ''0 0 29 2 *'' of Inl _ \<Rightarrow> False | Inr c \<Rightarrow> 1 \<notin> set (cr_month c)"
    by code_simp
  then obtain c where c: "parse_cron ''0 0 29 2 *'' = Inr c" "1 \<notin> set (cr_month c)"
    by (auto split: sum.splits)
  then have "first_from (\<lambda>i. cron_matches c (zoned_parts_of (wall i))) 1 cron_scan_limit = None"
    if "\<And>i. zt_month (wall i) = 1" for wall
    using that unfolding first_from_None by (auto simp: cron_matches_def zoned_parts_of_def)
  then show ?thesis
    using c(1) by (simp add: next_of_def compute_next_run_def next_cron_occurrence_def bind_res_def first_day_def)
qed

theorem stuck_job_blocks_claims_witness:
  "\<not> is_ok (fst (jobs_claim_due first_day 700000 (sample_jobs\<lparr>js_jobs := [sample_job, leap_job]\<rparr>)))"
  by (rule stuck_job_blocks_claims [of _ leap_job, THEN conjunct1])
    (simp_all add: sample_job_def leap_job_def job_due_def leap_never)

end
