(* ===== verification/WebhookVerify.thy ===== *)
theory WebhookVerify
  imports OAuthProtocol
begin

text \<open>
  src/src/webhooks/verify.ts: what a webhook signature covers and whether a header carries it,
  with the declaration types of src/src/packages/manifest.ts. Parsing an ISO date is a
  parameter.
\<close>

section \<open>Declarations\<close>

datatype signature_encoding = HexSignature | Base64Signature
datatype signed_payload = SignedBody | SignedTimestampBody
datatype timestamp_format = UnixSeconds | UnixMillis | IsoTime | StripeSignature
datatype response_mode = AckResponse | SyncResponse
datatype input_mode = RequestInput | ParamsInput

record verification =
  vf_header :: string
  vf_secret :: string
  vf_encoding :: signature_encoding
  vf_prefix :: "string option"
  vf_payload :: signed_payload

record replay =
  rp_timestamp_header :: "string option"
  rp_format :: "timestamp_format option"
  rp_tolerance :: "int option"
  rp_delivery_header :: "string option"

record webhook_definition =
  wd_name :: string
  wd_export :: string
  wd_entry :: string
  wd_response :: response_mode
  wd_input :: input_mode
  wd_rate :: nat
  wd_verification :: "verification option"
  wd_replay :: "replay option"
  wd_description :: "string option"

section \<open>Signatures\<close>

definition strip_prefix :: "string \<Rightarrow> string option \<Rightarrow> string" where
  "strip_prefix v p =
     (case some_text p of None \<Rightarrow> v | Some q \<Rightarrow> if starts_with v q then drop (length q) v else v)"

text \<open>\<open>/^[a-z][a-z0-9_-]*$/i\<close>.\<close>

definition key_text :: "string \<Rightarrow> bool" where
  "key_text k =
     (k \<noteq> [] \<and> (is_lower (hd k) \<or> is_upper (hd k)) \<and>
      list_all (\<lambda>c. is_alnum c \<or> c = CHR ''_'' \<or> c = CHR ''-'') (tl k))"

text \<open>The candidate a comma-separated part contributes.\<close>

definition candidate_of :: "string option \<Rightarrow> string \<Rightarrow> string list" where
  "candidate_of p part =
     (let piece = trim part in
      if piece = [] then []
      else case index_of ''='' piece of
        Some eq \<Rightarrow>
          if 0 < eq \<and> key_text (take eq piece) \<and> p = None then
            (if to_lower (take eq piece) = ''t'' then [] else [trim (drop (Suc eq) piece)])
          else [trim (strip_prefix piece p)]
      | None \<Rightarrow> [trim (strip_prefix piece p)])"

definition parse_signature_header :: "string option \<Rightarrow> verification \<Rightarrow> string list" where
  "parse_signature_header raw v =
     (case some_text raw of
        None \<Rightarrow> []
      | Some h \<Rightarrow> filter (\<lambda>c. c \<noteq> []) (concat (map (candidate_of (vf_prefix v)) (split_on CHR '','' h))))"

text \<open>\<open>constantTimeEqual\<close> on code units.\<close>

definition constant_time_text :: "string \<Rightarrow> string \<Rightarrow> bool" where
  "constant_time_text a b =
     (if length a \<noteq> length b then False
      else foldl (\<lambda>d (x, y). or d (xor (unit_of x) (unit_of y))) 0 (zip a b) = 0)"

definition signature_matches :: "string list \<Rightarrow> string \<times> string \<Rightarrow> signature_encoding \<Rightarrow> bool" where
  "signature_matches candidates digest enc =
     (let expected = (if enc = HexSignature then to_lower (fst digest) else snd digest)
      in list_ex (\<lambda>c. constant_time_text (if enc = HexSignature then to_lower c else c) expected) candidates)"

section \<open>Timestamps\<close>

text \<open>\<open>/(?:^|,)\s*t=(\d+)/\<close>: the digits after the first comma-separated part that starts with \<open>t=\<close>.\<close>

definition stripe_part :: "string \<Rightarrow> string option" where
  "stripe_part part =
     (let r = trim_start part; ds = takeWhile is_digit (drop 2 r)
      in if starts_with r ''t='' \<and> ds \<noteq> [] then Some ds else None)"

definition first_some :: "'a option list \<Rightarrow> 'a option" where
  "first_some xs = Option.bind (find (\<lambda>x. x \<noteq> None) xs) (\<lambda>x. x)"

definition stripe_timestamp :: "string \<Rightarrow> string option" where
  "stripe_timestamp v = first_some (map stripe_part (split_on CHR '','' v))"

text \<open>From here on \<open>Number(digits)\<close> is Infinity.\<close>

definition double_limit :: int where
  "double_limit = 2 ^ 1024 - 2 ^ 970"

definition unix_timestamp :: "string \<Rightarrow> int \<Rightarrow> time option" where
  "unix_timestamp v scale =
     (if \<not> all_digits v then None
      else if double_limit \<le> digits_value 10 v then None
      else Some (digits_value 10 v * scale))"

definition parse_timestamp :: "(string \<Rightarrow> time option) \<Rightarrow> string option \<Rightarrow> timestamp_format \<Rightarrow> time option" where
  "parse_timestamp parse_date raw format =
     (case some_text raw of
        None \<Rightarrow> None
      | Some t \<Rightarrow>
        (case format of
           StripeSignature \<Rightarrow> Option.bind (stripe_timestamp (trim t)) (\<lambda>d. unix_timestamp d 1000)
         | IsoTime \<Rightarrow> parse_date (trim t)
         | UnixMillis \<Rightarrow> unix_timestamp (trim t) 1
         | UnixSeconds \<Rightarrow> unix_timestamp (trim t) 1000))"

definition within_tolerance :: "time \<Rightarrow> time \<Rightarrow> int \<Rightarrow> bool" where
  "within_tolerance timestamp now seconds = (\<bar>now - timestamp\<bar> \<le> seconds * 1000)"

definition signed_message :: "verification \<Rightarrow> string \<Rightarrow> string option \<Rightarrow> timestamp_format option \<Rightarrow> string option" where
  "signed_message v body raw format =
     (if vf_payload v = SignedBody then Some body
      else case some_text raw of
        None \<Rightarrow> None
      | Some t \<Rightarrow>
        if format = Some StripeSignature then map_option (\<lambda>d. d @ ''.'' @ body) (stripe_timestamp t)
        else Some (trim t @ ''.'' @ body))"

section \<open>Lemmas\<close>

lemma constant_time_text_eq: "constant_time_text a b \<longleftrightarrow> a = b"
proof -
  have "foldl (\<lambda>d (x, y). or d (xor (unit_of x) (unit_of y))) 0 (zip a b) = (0::nat) \<longleftrightarrow>
      (\<forall>(x, y)\<in>set (zip a b). x = y)"
    unfolding foldl_or_zero by (auto simp: xor_zero_iff unit_of_eq_iff)
  then show ?thesis
    using zip_all_eq [of a b] by (auto simp: constant_time_text_def)
qed

lemma signature_matches_iff:
  "signature_matches cs digest enc \<longleftrightarrow>
     (\<exists>c\<in>set cs. if enc = HexSignature then to_lower c = to_lower (fst digest) else c = snd digest)"
  by (auto simp: signature_matches_def Let_def list_ex_iff constant_time_text_eq)

lemma split_on_none': "(\<forall>c\<in>set s. c \<noteq> d) \<Longrightarrow> split_on d s = [s]"
  by (rule split_on_none) auto

lemma index_of_single: "c \<notin> set s \<Longrightarrow> index_of [c] (s @ c # r) = Some (length s)"
  by (induction s) auto

lemma alnum_chars:
  assumes "is_alnum c \<or> c = CHR ''_'' \<or> c = CHR ''-''"
  shows "\<not> is_space c \<and> c \<noteq> CHR '','' \<and> c \<noteq> CHR ''=''"
  using assms by (auto simp: is_alnum_def is_digit_def is_lower_def is_upper_def is_space_def in_range_def unit_of_def)

lemma key_text_chars:
  assumes "key_text k" "c \<in> set k"
  shows "\<not> is_space c \<and> c \<noteq> CHR '','' \<and> c \<noteq> CHR ''=''"
proof (rule alnum_chars)
  show "is_alnum c \<or> c = CHR ''_'' \<or> c = CHR ''-''"
    using assms by (cases k) (auto simp: key_text_def is_alnum_def list_all_iff)
qed

lemma trim_no_space: "\<forall>c\<in>set s. \<not> is_space c \<Longrightarrow> trim s = s"
  by (rule trim_id) (metis hd_in_set last_in_set)

text \<open>A header that is one plain signature is one candidate.\<close>

lemma plain_candidate:
  assumes "s \<noteq> []" "list_all is_alnum s"
  shows "parse_signature_header (Some s) (v\<lparr>vf_prefix := None\<rparr>) = [s]"
proof -
  have chars: "\<forall>c\<in>set s. \<not> is_space c \<and> c \<noteq> CHR '','' \<and> c \<noteq> CHR ''=''"
    using assms(2) alnum_chars by (auto simp: list_all_iff)
  have "index_of ''='' s = None"
    using chars by (induction s) auto
  then show ?thesis
    using assms(1) chars
    by (simp add: parse_signature_header_def some_text_def split_on_none' candidate_of_def trim_no_space strip_prefix_def Let_def)
qed

text \<open>Of a scheme without a prefix, a header that holds just a base64 digest ending in the padding sign
  yields no signature at all when the digest has neither a plus nor a slash and begins with a letter: the
  digest is read as the name of an empty parameter.\<close>

theorem padded_digest_dropped:
  assumes "key_text d" "vf_prefix v = None"
  shows "parse_signature_header (Some (d @ ''='')) v = []"
proof -
  have chars: "\<forall>c\<in>set d. \<not> is_space c \<and> c \<noteq> CHR '','' \<and> c \<noteq> CHR ''=''"
    using key_text_chars [OF assms(1)] by blast
  then have "trim (d @ ''='') = d @ ''=''"
    by (intro trim_no_space) (auto simp: is_space_def in_range_def unit_of_def)
  moreover have "split_on CHR '','' (d @ ''='') = [d @ ''='']"
    using chars by (intro split_on_none') auto
  moreover have "index_of ''='' (d @ ''='') = Some (length d)"
    using chars by (intro index_of_single) auto
  moreover have "0 < length d" using assms(1) by (simp add: key_text_def)
  ultimately show ?thesis
    using assms by (simp add: parse_signature_header_def some_text_def candidate_of_def Let_def trim_def trim_start_def)
qed

theorem padded_digest_dropped_witness:
  "parse_signature_header (Some ''tKHmBxIFvLfHQ96Wk3OWMRAwGcwBJDWvTNiRzFJSTfY='')
     \<lparr>vf_header = ''x-hmac'', vf_secret = ''hook'', vf_encoding = Base64Signature, vf_prefix = None, vf_payload = SignedBody\<rparr> = []"
proof -
  have "key_text ''tKHmBxIFvLfHQ96Wk3OWMRAwGcwBJDWvTNiRzFJSTfY''" by code_simp
  from padded_digest_dropped [OF this, of "\<lparr>vf_header = ''x-hmac'', vf_secret = ''hook'', vf_encoding = Base64Signature,
      vf_prefix = None, vf_payload = SignedBody\<rparr>"]
  show ?thesis by simp
qed

end
