(* ===== verification/Webhooks.thy ===== *)
theory Webhooks
  imports Secrets WebhookVerify
begin

text \<open>
  The webhook tables of a user's cell (src/src/cells/user-cell.ts, webhook*): mints with their
  URL secrets, the delivery ledger, the per-minute counters and the idempotency ledger. What
  the saved packages declare is an argument, a list of package names with their webhooks; a
  minute is the number of minutes since 1970, which its text in the source stands for. HMAC is
  a parameter.
\<close>

section \<open>Tables\<close>

record webhook_row =
  wh_handle :: string
  wh_package :: string
  wh_name :: string
  wh_hash :: string
  wh_iv :: string
  wh_ciphertext :: string
  wh_key_id :: string
  wh_previous_hash :: "string option"
  wh_previous_expires :: "time option"
  wh_enabled :: bool
  wh_created :: time
  wh_updated :: time
  wh_rotated :: "time option"
  wh_last_delivery :: "time option"
  wh_deliveries :: nat

record delivery_row =
  dl_id :: string
  dl_handle :: string
  dl_received :: time
  dl_finished :: "time option"
  dl_status :: string
  dl_http :: nat
  dl_reason :: "string option"
  dl_run :: "string option"
  dl_key :: "string option"
  dl_bytes :: js_num
  dl_content_type :: "string option"

record rate_row =
  rt_handle :: string
  rt_minute :: int
  rt_n :: nat

record ledger_row =
  lg_handle :: string
  lg_key :: string
  lg_payload :: "string option"
  lg_run :: "string option"
  lg_status :: string
  lg_result :: "string option"
  lg_created :: time

record webhooks =
  ws_hooks :: "webhook_row list"
  ws_deliveries :: "delivery_row list"
  ws_rate :: "rate_row list"
  ws_ledger :: "ledger_row list"

type_synonym declared = "(string \<times> webhook_definition list) list"

text \<open>What callers see of a mint.\<close>

record webhook_view =
  vw_handle :: string
  vw_package :: string
  vw_name :: string
  vw_enabled :: bool
  vw_created :: time
  vw_updated :: time
  vw_rotated :: "time option"
  vw_previous_expires :: "time option"
  vw_last_delivery :: "time option"
  vw_deliveries :: nat

definition previous_live :: "time \<Rightarrow> webhook_row \<Rightarrow> bool" where
  "previous_live now r =
     (wh_previous_hash r \<noteq> None \<and> (case wh_previous_expires r of Some t \<Rightarrow> now < t | None \<Rightarrow> False))"

definition row_to_webhook :: "time \<Rightarrow> webhook_row \<Rightarrow> webhook_view" where
  "row_to_webhook now r =
     \<lparr>vw_handle = wh_handle r, vw_package = wh_package r, vw_name = wh_name r, vw_enabled = wh_enabled r,
      vw_created = wh_created r, vw_updated = wh_updated r, vw_rotated = wh_rotated r,
      vw_previous_expires = (if previous_live now r then wh_previous_expires r else None),
      vw_last_delivery = wh_last_delivery r, vw_deliveries = wh_deliveries r\<rparr>"

definition find_hook :: "string \<Rightarrow> webhooks \<Rightarrow> webhook_row option" where
  "find_hook handle s = select_one (\<lambda>r. wh_handle r = handle) (ws_hooks s)"

definition declared_hook :: "declared \<Rightarrow> string \<Rightarrow> string \<Rightarrow> webhook_definition option" where
  "declared_hook P package name = Option.bind (map_of P package) (find (\<lambda>d. wd_name d = name))"

definition webhook_list ::
  "declared \<Rightarrow> string option \<Rightarrow> time \<Rightarrow> webhooks \<Rightarrow> (string \<times> webhook_definition \<times> webhook_view option) list" where
  "webhook_list P package now s =
     concat (map (\<lambda>(p, ds). map (\<lambda>d. (p, d, map_option (row_to_webhook now)
         (find (\<lambda>r. wh_package r = p \<and> wh_name r = wd_name d)
           (sort_key wh_package (sort_key wh_name (ws_hooks s)))))) ds)
       (filter (\<lambda>(p, ds). package = None \<or> package = Some p) P))"

definition webhook_get ::
  "declared \<Rightarrow> string \<Rightarrow> time \<Rightarrow> webhooks \<Rightarrow> (webhook_view \<times> webhook_definition option) option" where
  "webhook_get P handle now s =
     map_option (\<lambda>r. (row_to_webhook now r, declared_hook P (wh_package r) (wh_name r))) (find_hook handle s)"

section \<open>Minting and rotating\<close>

record sealed_secret =
  ss_hash :: string
  ss_iv :: string
  ss_ciphertext :: string
  ss_key_id :: string

text \<open>From the raw bytes of a new secret and an initialisation vector.\<close>

definition seal_webhook_secret :: "vault_env \<Rightarrow> string \<Rightarrow> string \<times> string \<Rightarrow> sealed_secret res" where
  "seal_webhook_secret E uid random =
     (let secret = drop (length ''whs_'') (random_token ''whs'' (fst random)) in
      case ve_ring E of
        [] \<Rightarrow> internal_error
      | current # _ \<Rightarrow>
        (let sealed = encrypt_secret_value (ve_crypto E) (snd random) (rk_key current) uid secret
         in Inr \<lparr>ss_hash = sha256_hex (ve_crypto E) secret, ss_iv = ev_iv sealed, ss_ciphertext = ev_ciphertext sealed,
                 ss_key_id = rk_id current\<rparr>))"

definition minted_row :: "string \<Rightarrow> string \<Rightarrow> string \<Rightarrow> sealed_secret \<Rightarrow> time \<Rightarrow> webhook_row" where
  "minted_row handle package name sealed now =
     \<lparr>wh_handle = handle, wh_package = package, wh_name = name, wh_hash = ss_hash sealed, wh_iv = ss_iv sealed,
      wh_ciphertext = ss_ciphertext sealed, wh_key_id = ss_key_id sealed, wh_previous_hash = None,
      wh_previous_expires = None, wh_enabled = True, wh_created = now, wh_updated = now, wh_rotated = None,
      wh_last_delivery = None, wh_deliveries = 0\<rparr>"

text \<open>\<open>(await this.webhookGet(handle))!\<close>.\<close>

definition the_webhook :: "string \<Rightarrow> time \<Rightarrow> webhooks \<Rightarrow> webhook_view res" where
  "the_webhook handle now s =
     (case find_hook handle s of Some r \<Rightarrow> Inr (row_to_webhook now r) | None \<Rightarrow> internal_error)"

definition webhook_mint ::
  "vault_env \<Rightarrow> string \<Rightarrow> declared \<Rightarrow> string \<times> string \<Rightarrow> string \<Rightarrow> string \<times> string \<Rightarrow> time \<Rightarrow> webhooks \<Rightarrow>
     webhook_view res \<times> webhooks" where
  "webhook_mint E uid P hook new_handle random now s =
     (let (package, name) = hook in
      if declared_hook P package name = None then (Inl (KodyError ''webhook_not_declared'' 404), s)
      else case select_one (\<lambda>r. wh_package r = package \<and> wh_name r = name) (ws_hooks s) of
        Some r \<Rightarrow> (Inr (row_to_webhook now r), s)
      | None \<Rightarrow>
        (case bind_res (assert_quota (ve_quotas E) QWebhooks (length (ws_hooks s))) (\<lambda>_. seal_webhook_secret E uid random) of
           Inl e \<Rightarrow> (Inl e, s)
         | Inr sealed \<Rightarrow>
           (let s' = s\<lparr>ws_hooks := ws_hooks s @ [minted_row new_handle package name sealed now]\<rparr>
            in (the_webhook new_handle now s', s'))))"

definition webhook_grace_ms :: int where "webhook_grace_ms = 24 * 60 * 60 * 1000"

definition webhook_rotate ::
  "vault_env \<Rightarrow> string \<Rightarrow> string \<Rightarrow> string \<times> string \<Rightarrow> time \<Rightarrow> webhooks \<Rightarrow> webhook_view res \<times> webhooks" where
  "webhook_rotate E uid handle random now s =
     (if find_hook handle s = None then (Inl (KodyError ''webhook_not_found'' 404), s)
      else case seal_webhook_secret E uid random of
        Inl e \<Rightarrow> (Inl e, s)
      | Inr sealed \<Rightarrow>
        (let s' = s\<lparr>ws_hooks := update_where (\<lambda>r. wh_handle r = handle)
               (\<lambda>r. r\<lparr>wh_previous_hash := Some (wh_hash r), wh_previous_expires := Some (now + webhook_grace_ms),
                      wh_hash := ss_hash sealed, wh_iv := ss_iv sealed, wh_ciphertext := ss_ciphertext sealed,
                      wh_key_id := ss_key_id sealed, wh_rotated := Some now, wh_updated := now\<rparr>) (ws_hooks s)\<rparr>
         in (the_webhook handle now s', s')))"

definition webhook_set_enabled :: "string \<Rightarrow> bool \<Rightarrow> time \<Rightarrow> webhooks \<Rightarrow> webhook_view res \<times> webhooks" where
  "webhook_set_enabled handle enabled now s =
     (if find_hook handle s = None then (Inl (KodyError ''webhook_not_found'' 404), s)
      else
        (let s' = s\<lparr>ws_hooks := update_where (\<lambda>r. wh_handle r = handle)
               (\<lambda>r. r\<lparr>wh_enabled := enabled, wh_updated := now\<rparr>) (ws_hooks s)\<rparr>
         in (the_webhook handle now s', s')))"

definition webhook_delete :: "string \<Rightarrow> webhooks \<Rightarrow> bool \<times> webhooks" where
  "webhook_delete handle s =
     (rows_written (\<lambda>r. wh_handle r = handle) (ws_hooks s),
      s\<lparr>ws_hooks := delete_where (\<lambda>r. wh_handle r = handle) (ws_hooks s),
        ws_deliveries := delete_where (\<lambda>r. dl_handle r = handle) (ws_deliveries s),
        ws_rate := delete_where (\<lambda>r. rt_handle r = handle) (ws_rate s),
        ws_ledger := delete_where (\<lambda>r. lg_handle r = handle) (ws_ledger s)\<rparr>)"

definition webhook_reveal :: "vault_env \<Rightarrow> string \<Rightarrow> string \<Rightarrow> time \<Rightarrow> webhooks \<Rightarrow> (string \<times> time option) res" where
  "webhook_reveal E uid handle now s =
     (case find_hook handle s of
        None \<Rightarrow> Inl (KodyError ''webhook_not_found'' 404)
      | Some r \<Rightarrow>
        (case decrypt_with_keyring (ve_crypto E) (ve_ring E) uid
            \<lparr>ev_iv = wh_iv r, ev_ciphertext = wh_ciphertext r, ev_key_id = some_text (Some (wh_key_id r))\<rparr> of
           Inl _ \<Rightarrow> internal_error
         | Inr secret \<Rightarrow> Inr (secret, vw_previous_expires (row_to_webhook now r))))"

text \<open>A republished package touches the mints whose declaration it dropped.\<close>

definition reconcile_webhooks :: "string \<Rightarrow> webhook_definition list \<Rightarrow> time \<Rightarrow> webhooks \<Rightarrow> webhooks" where
  "reconcile_webhooks package ds now s =
     s\<lparr>ws_hooks := update_where (\<lambda>r. wh_package r = package \<and> wh_name r \<notin> wd_name ` set ds)
        (\<lambda>r. r\<lparr>wh_updated := now\<rparr>) (ws_hooks s)\<rparr>"

text \<open>A deleted package takes its mints and their ledgers with it.\<close>

definition forget_package_hooks :: "string \<Rightarrow> webhooks \<Rightarrow> webhooks" where
  "forget_package_hooks package s =
     (let gone = wh_handle ` set (filter (\<lambda>r. wh_package r = package) (ws_hooks s))
      in s\<lparr>ws_deliveries := delete_where (\<lambda>r. dl_handle r \<in> gone) (ws_deliveries s),
           ws_rate := delete_where (\<lambda>r. rt_handle r \<in> gone) (ws_rate s),
           ws_ledger := delete_where (\<lambda>r. lg_handle r \<in> gone) (ws_ledger s),
           ws_hooks := delete_where (\<lambda>r. wh_package r = package) (ws_hooks s)\<rparr>)"

section \<open>Admission\<close>

datatype admission =
    Refused (refused_status: nat) (refused_reason: string)
  | Admitted (admitted_hook: webhook_view) (admitted_definition: webhook_definition) (used_previous: bool)

definition matches_current :: "vault_env \<Rightarrow> string \<Rightarrow> webhook_row \<Rightarrow> bool" where
  "matches_current E secret r = constant_time_text (sha256_hex (ve_crypto E) secret) (wh_hash r)"

definition matches_previous :: "vault_env \<Rightarrow> string \<Rightarrow> time \<Rightarrow> webhook_row \<Rightarrow> bool" where
  "matches_previous E secret now r =
     (previous_live now r \<and>
      constant_time_text (sha256_hex (ve_crypto E) secret) (case wh_previous_hash r of Some h \<Rightarrow> h | None \<Rightarrow> []))"

definition rate_count :: "string \<Rightarrow> int \<Rightarrow> webhooks \<Rightarrow> nat" where
  "rate_count handle minute s =
     (case select_one (\<lambda>r. rt_handle r = handle \<and> rt_minute r = minute) (ws_rate s) of Some r \<Rightarrow> rt_n r | None \<Rightarrow> 0)"

definition count_delivery :: "string \<Rightarrow> int \<Rightarrow> webhooks \<Rightarrow> webhooks" where
  "count_delivery handle minute s =
     s\<lparr>ws_rate := upsert (\<lambda>r. rt_handle r = handle \<and> rt_minute r = minute) (\<lambda>r. r\<lparr>rt_n := rt_n r + 1\<rparr>)
        \<lparr>rt_handle = handle, rt_minute = minute, rt_n = 1\<rparr> (ws_rate s)\<rparr>"

definition forget_minutes :: "string \<Rightarrow> int \<Rightarrow> webhooks \<Rightarrow> webhooks" where
  "forget_minutes handle minute s =
     s\<lparr>ws_rate := delete_where (\<lambda>r. rt_handle r = handle \<and> rt_minute r \<noteq> minute) (ws_rate s)\<rparr>"

definition note_delivery :: "string \<Rightarrow> time \<Rightarrow> bool \<Rightarrow> webhooks \<Rightarrow> webhooks" where
  "note_delivery handle now retire s =
     s\<lparr>ws_hooks := update_where (\<lambda>r. wh_handle r = handle)
        (\<lambda>r. r\<lparr>wh_last_delivery := Some now, wh_deliveries := wh_deliveries r + 1\<rparr>)
        (if retire then update_where (\<lambda>r. wh_handle r = handle)
           (\<lambda>r. r\<lparr>wh_previous_hash := None, wh_previous_expires := None\<rparr>) (ws_hooks s)
         else ws_hooks s)\<rparr>"

definition webhook_admit ::
  "vault_env \<Rightarrow> declared \<Rightarrow> string \<Rightarrow> string \<Rightarrow> time \<Rightarrow> time \<Rightarrow> webhooks \<Rightarrow> admission \<times> webhooks" where
  "webhook_admit E P handle secret now clock s =
     (case find_hook handle s of
        None \<Rightarrow> (Refused 404 ''unknown_handle'', s)
      | Some r \<Rightarrow>
        (let current = matches_current E secret r in
         if \<not> current \<and> \<not> matches_previous E secret now r then (Refused 404 ''secret_mismatch'', s)
         else if \<not> wh_enabled r then (Refused 404 ''disabled'', s)
         else case declared_hook P (wh_package r) (wh_name r) of
           None \<Rightarrow> (Refused 404 ''not_declared'', s)
         | Some d \<Rightarrow>
           (let minute = now div 60000; s1 = forget_minutes handle minute s in
            if wd_rate d \<le> rate_count handle minute s1 then (Refused 429 ''rate_limited'', s1)
            else
              (Admitted (row_to_webhook clock r) d (\<not> current),
               note_delivery handle now (current \<and> wh_previous_hash r \<noteq> None) (count_delivery handle minute s1)))))"

section \<open>Signatures\<close>

text \<open>The answer \<open>None\<close> is a missing secret.\<close>

definition webhook_signature_check ::
  "vault_env \<Rightarrow> (string \<Rightarrow> string \<Rightarrow> string) \<Rightarrow> string \<Rightarrow> string \<Rightarrow> string \<Rightarrow> string list \<Rightarrow> signature_encoding \<Rightarrow> vault \<Rightarrow>
     bool option res" where
  "webhook_signature_check E hmac package secret_name message candidates enc v =
     bind_res (secret_resolve_values E [(secret_name, None)] (Some package) v) (\<lambda>(found, missing).
       Inr (map_option (\<lambda>key.
           let digest = hmac (utf8_encode key) (utf8_encode message)
           in signature_matches candidates (bytes_to_hex digest, btoa digest) enc) (map_of found secret_name)))"

section \<open>Delivery and idempotency ledgers\<close>

record delivery_input =
  di_handle :: string
  di_status :: string
  di_http :: nat
  di_reason :: "string option"
  di_run :: "string option"
  di_key :: "string option"
  di_bytes :: js_num
  di_content_type :: "string option"

definition deliveries_kept :: nat where "deliveries_kept = 200"

definition delivery_record :: "delivery_input \<Rightarrow> string \<Rightarrow> time \<times> time \<Rightarrow> webhooks \<Rightarrow> string \<times> webhooks" where
  "delivery_record i new_id clocks s =
     (let rows = ws_deliveries s @
            [\<lparr>dl_id = new_id, dl_handle = di_handle i, dl_received = fst clocks,
              dl_finished = (if di_status i = ''accepted'' then None else Some (snd clocks)), dl_status = di_status i,
              dl_http = di_http i, dl_reason = di_reason i, dl_run = di_run i, dl_key = di_key i, dl_bytes = di_bytes i,
              dl_content_type = di_content_type i\<rparr>];
          kept = set (map dl_id (newest dl_received deliveries_kept (filter (\<lambda>r. dl_handle r = di_handle i) rows)))
      in (new_id, s\<lparr>ws_deliveries := delete_where (\<lambda>r. dl_handle r = di_handle i \<and> dl_id r \<notin> kept) rows\<rparr>))"

definition delivery_finish :: "string \<Rightarrow> string \<Rightarrow> string option \<Rightarrow> string option \<Rightarrow> time \<Rightarrow> webhooks \<Rightarrow> webhooks" where
  "delivery_finish i status run reason now s =
     s\<lparr>ws_deliveries := update_where (\<lambda>r. dl_id r = i)
        (\<lambda>r. r\<lparr>dl_status := status, dl_finished := Some now, dl_run := run, dl_reason := reason\<rparr>) (ws_deliveries s)\<rparr>"

definition delivery_list :: "string option \<Rightarrow> int option \<Rightarrow> webhooks \<Rightarrow> delivery_row list" where
  "delivery_list handle limit s =
     (let n = min (max (case limit of Some l \<Rightarrow> l | None \<Rightarrow> 20) 1) 200
      in newest dl_received (nat n)
        (case some_text handle of Some h \<Rightarrow> filter (\<lambda>r. dl_handle r = h) (ws_deliveries s) | None \<Rightarrow> ws_deliveries s))"

datatype claim = NewClaim | InProgress | Conflict | Replayed "string option" "string option" string

definition ledger_kept :: nat where "ledger_kept = 1000"

definition ledger_find :: "string \<Rightarrow> string \<Rightarrow> webhooks \<Rightarrow> ledger_row option" where
  "ledger_find handle key s = select_one (\<lambda>r. lg_handle r = handle \<and> lg_key r = key) (ws_ledger s)"

definition idempotency_claim :: "string \<Rightarrow> string \<Rightarrow> string option \<Rightarrow> time \<Rightarrow> webhooks \<Rightarrow> claim \<times> webhooks" where
  "idempotency_claim handle key payload now s =
     (case ledger_find handle key s of
        Some r \<Rightarrow>
          (if payload \<noteq> None \<and> lg_payload r \<noteq> None \<and> lg_payload r \<noteq> payload then Conflict
           else if lg_status r = ''running'' then InProgress
           else Replayed (lg_run r) (lg_result r) (lg_status r), s)
      | None \<Rightarrow>
          (let rows = ws_ledger s @ [\<lparr>lg_handle = handle, lg_key = key, lg_payload = payload, lg_run = None,
                 lg_status = ''running'', lg_result = None, lg_created = now\<rparr>];
               kept = set (map lg_key (newest lg_created ledger_kept (filter (\<lambda>r. lg_handle r = handle) rows)))
           in (NewClaim, s\<lparr>ws_ledger := delete_where (\<lambda>r. lg_handle r = handle \<and> lg_key r \<notin> kept) rows\<rparr>)))"

definition idempotency_finish ::
  "string \<Rightarrow> string \<Rightarrow> string \<Rightarrow> string option \<Rightarrow> string option \<Rightarrow> webhooks \<Rightarrow> webhooks" where
  "idempotency_finish handle key status run result s =
     s\<lparr>ws_ledger := update_where (\<lambda>r. lg_handle r = handle \<and> lg_key r = key)
        (\<lambda>r. r\<lparr>lg_status := status, lg_run := run,
               lg_result := (case result of Some t \<Rightarrow> if 64 * 1024 < length t then None else Some t | None \<Rightarrow> None)\<rparr>)
        (ws_ledger s)\<rparr>"

definition sample_hook :: "string \<Rightarrow> webhook_row" where
  "sample_hook h =
     \<lparr>wh_handle = ''h1'', wh_package = ''pkg'', wh_name = ''push'', wh_hash = h, wh_iv = [], wh_ciphertext = [],
      wh_key_id = [], wh_previous_hash = None, wh_previous_expires = None, wh_enabled = True, wh_created = 0,
      wh_updated = 0, wh_rotated = None, wh_last_delivery = None, wh_deliveries = 0\<rparr>"

definition sample_definition :: webhook_definition where
  "sample_definition =
     \<lparr>wd_name = ''push'', wd_export = ''./push'', wd_entry = ''push.ts'', wd_response = AckResponse,
      wd_input = RequestInput, wd_rate = 2, wd_verification = None, wd_replay = None, wd_description = None\<rparr>"

definition sample_hooks :: webhooks where
  "sample_hooks =
     \<lparr>ws_hooks = [sample_hook (sha256_hex sample_crypto ''old'')], ws_deliveries = [], ws_rate = [], ws_ledger = []\<rparr>"

lemma sample_hooks_simps [simp]:
  "find_hook ''h1'' sample_hooks = Some (sample_hook (sha256_hex sample_crypto ''old''))"
  "declared_hook [(''pkg'', [sample_definition])] ''pkg'' ''push'' = Some sample_definition"
  "wh_enabled (sample_hook h)" "wh_package (sample_hook h) = ''pkg''" "wh_name (sample_hook h) = ''push''"
  "wh_hash (sample_hook h) = h" "rate_count ''h1'' m sample_hooks = 0" "wd_rate sample_definition = 2"
  "wh_previous_hash (sample_hook h) = None"
  by (simp_all add: find_hook_def sample_hooks_def sample_hook_def select_one_def declared_hook_def sample_definition_def
      rate_count_def)

lemma sample_env_crypto: "ve_crypto sample_env = sample_crypto"
  by (simp add: sample_env_def)

lemma sample_no_rate: "rate_count ''h1'' m (forget_minutes ''h1'' m sample_hooks) = 0"
  by (simp add: forget_minutes_def rate_count_def sample_hooks_def select_one_def delete_where_def)

lemma sample_hook_admitted:
  "\<exists>v s'. webhook_admit sample_env [(''pkg'', [sample_definition])] ''h1'' ''old'' now now sample_hooks =
     (Admitted v sample_definition False, s')"
  by (simp add: webhook_admit_def Let_def matches_current_def constant_time_text_eq sample_env_crypto sample_no_rate)

section \<open>Who is admitted\<close>

lemma admit_cases:
  assumes "webhook_admit E P handle secret now clock s = (Admitted v d prev, s')"
  obtains r where "find_hook handle s = Some r" "matches_current E secret r \<or> matches_previous E secret now r"
    "wh_enabled r" "declared_hook P (wh_package r) (wh_name r) = Some d" "prev = (\<not> matches_current E secret r)"
    "v = row_to_webhook clock r"
    "rate_count handle (now div 60000) (forget_minutes handle (now div 60000) s) < wd_rate d"
    "s' = note_delivery handle now (matches_current E secret r \<and> wh_previous_hash r \<noteq> None)
       (count_delivery handle (now div 60000) (forget_minutes handle (now div 60000) s))"
  using assms by (auto simp: webhook_admit_def Let_def not_le split: option.splits if_splits)

lemma note_delivery_retired:
  "q \<in> set (ws_hooks (note_delivery handle now True s)) \<Longrightarrow> wh_handle q = handle \<Longrightarrow> wh_previous_hash q = None"
proof -
  assume q: "q \<in> set (ws_hooks (note_delivery handle now True s))" "wh_handle q = handle"
  then obtain p where "q = (if wh_handle p = handle then p\<lparr>wh_previous_hash := None, wh_previous_expires := None,
      wh_last_delivery := Some now, wh_deliveries := Suc (wh_deliveries p)\<rparr> else p)"
    by (auto simp: note_delivery_def update_where_twice dest!: update_where_mem)
  with q(2) show ?thesis by (cases "wh_handle p = handle") simp_all
qed

text \<open>A delivery is admitted only with the current URL secret of an enabled, still declared webhook, or
  with the one before it within 24 hours of the rotation; after a delivery with the current secret the
  previous one is gone.\<close>

theorem admission_needs_secret:
  assumes "webhook_admit E P handle secret now clock s = (Admitted v d prev, s')"
  shows "\<exists>r\<in>set (ws_hooks s). wh_handle r = handle \<and> wh_enabled r \<and> declared_hook P (wh_package r) (wh_name r) = Some d \<and>
    (if prev then (\<exists>t. wh_previous_hash r = Some (sha256_hex (ve_crypto E) secret) \<and> wh_previous_expires r = Some t \<and> now < t)
     else sha256_hex (ve_crypto E) secret = wh_hash r) \<and>
    (\<not> prev \<longrightarrow> (\<forall>q\<in>set (ws_hooks s'). wh_handle q = handle \<longrightarrow> wh_previous_hash r = None \<or> wh_previous_hash q = None))"
  using assms
proof (rule admit_cases)
  fix r
  assume r: "find_hook handle s = Some r" "matches_current E secret r \<or> matches_previous E secret now r" "wh_enabled r"
      "declared_hook P (wh_package r) (wh_name r) = Some d" "prev = (\<not> matches_current E secret r)"
    and s': "s' = note_delivery handle now (matches_current E secret r \<and> wh_previous_hash r \<noteq> None)
       (count_delivery handle (now div 60000) (forget_minutes handle (now div 60000) s))"
  have in_table: "r \<in> set (ws_hooks s)" "wh_handle r = handle"
    using r(1) by (auto simp: find_hook_def dest: select_one_SomeD)
  have hash: "if prev then (\<exists>t. wh_previous_hash r = Some (sha256_hex (ve_crypto E) secret) \<and> wh_previous_expires r = Some t \<and> now < t)
      else sha256_hex (ve_crypto E) secret = wh_hash r"
    using r(2,5) by (auto simp: matches_current_def matches_previous_def previous_live_def constant_time_text_eq
        split: option.splits)
  have "\<not> prev \<longrightarrow> (\<forall>q\<in>set (ws_hooks s'). wh_handle q = handle \<longrightarrow> wh_previous_hash r = None \<or> wh_previous_hash q = None)"
    using r(5) note_delivery_retired unfolding s' by (cases "wh_previous_hash r = None") auto
  then show ?thesis using in_table r hash by blast
qed

theorem admission_needs_secret_witness:
  "sha256_hex (ve_crypto sample_env) ''old'' \<in> wh_hash ` set (ws_hooks sample_hooks)"
proof -
  obtain v s' where "webhook_admit sample_env [(''pkg'', [sample_definition])] ''h1'' ''old'' 5 5 sample_hooks =
      (Admitted v sample_definition False, s')"
    using sample_hook_admitted by blast
  from admission_needs_secret [OF this] show ?thesis by auto
qed

section \<open>The rate limit\<close>


lemma rate_forget [simp]: "rate_count handle m (forget_minutes handle m s) = rate_count handle m s"
proof -
  have e: "select_one (\<lambda>r. rt_handle r = handle \<and> rt_minute r = m) (delete_where (\<lambda>r. rt_handle r = handle \<and> rt_minute r \<noteq> m) t) =
      select_one (\<lambda>r. rt_handle r = handle \<and> rt_minute r = m) t" for t
    by (rule select_one_delete_where) auto
  show ?thesis by (simp add: rate_count_def forget_minutes_def e)
qed

lemma rate_count_delivery [simp]: "rate_count handle m (count_delivery handle m s) = Suc (rate_count handle m s)"
  by (simp add: rate_count_def count_delivery_def select_one_upsert split: option.split)

lemma rate_note [simp]: "rate_count handle m (note_delivery handle now b s) = rate_count handle m s"
  by (simp add: rate_count_def note_delivery_def)






section \<open>Rotation\<close>

text \<open>After a rotation a provider that still uses the old URL is admitted for 24 hours, and no longer
  once one delivery came in with the new URL; the new URL works at once.\<close>

theorem rotation_grace:
  assumes "webhook_rotate E uid handle random now s = (Inr v, s')" "find_hook handle s = Some r" "wh_enabled r"
    "declared_hook P (wh_package r) (wh_name r) = Some d" "wh_hash r = sha256_hex (ve_crypto E) old"
    "seal_webhook_secret E uid random = Inr sealed" "ss_hash sealed \<noteq> wh_hash r"
    "rate_count handle (t div 60000) s < wd_rate d"
    "ss_hash sealed = sha256_hex (ve_crypto E) new"
  shows "((\<exists>v. fst (webhook_admit E P handle old t t s') = Admitted v d True) \<longleftrightarrow> t < now + webhook_grace_ms) \<and>
    (\<exists>v. fst (webhook_admit E P handle new t t s') = Admitted v d False) \<and>
    fst (webhook_admit E P handle old u u (snd (webhook_admit E P handle new t t s'))) = Refused 404 ''secret_mismatch''"
proof -
  let ?r = "r\<lparr>wh_previous_hash := Some (wh_hash r), wh_previous_expires := Some (now + webhook_grace_ms),
      wh_hash := ss_hash sealed, wh_iv := ss_iv sealed, wh_ciphertext := ss_ciphertext sealed,
      wh_key_id := ss_key_id sealed, wh_rotated := Some now, wh_updated := now\<rparr>"
  have handle: "wh_handle r = handle" using assms(2) by (auto simp: find_hook_def dest: select_one_SomeD)
  have found: "find_hook handle s' = Some ?r"
    using assms(1,2,6) handle by (auto simp: webhook_rotate_def Let_def find_hook_def select_one_update_where)
  have rate: "ws_rate s' = ws_rate s"
    using assms(1,2,6) by (auto simp: webhook_rotate_def Let_def)
  then have count: "rate_count handle (t div 60000) s' < wd_rate d"
    using assms(8) by (simp add: rate_count_def)
  have old: "\<not> matches_current E old ?r" "matches_previous E old t ?r \<longleftrightarrow> t < now + webhook_grace_ms" for t
    using assms(5,7) by (simp_all add: matches_current_def matches_previous_def previous_live_def constant_time_text_eq)
  have one: "(\<exists>v. fst (webhook_admit E P handle old t t s') = Admitted v d True) \<longleftrightarrow> t < now + webhook_grace_ms"
    using found old(1) old(2) [of t] assms(3,4) count by (simp add: webhook_admit_def Let_def)
  have cur: "matches_current E new ?r" using assms(9) by (simp add: matches_current_def constant_time_text_eq)
  have admitted: "webhook_admit E P handle new t t s' = (Admitted (row_to_webhook t ?r) d False,
      note_delivery handle t True (count_delivery handle (t div 60000) (forget_minutes handle (t div 60000) s')))"
    using found cur assms(3,4) count by (simp add: webhook_admit_def Let_def)
  let ?q = "?r\<lparr>wh_previous_hash := None, wh_previous_expires := None, wh_last_delivery := Some t,
      wh_deliveries := Suc (wh_deliveries r)\<rparr>"
  have "find_hook handle (snd (webhook_admit E P handle new t t s')) = Some ?q"
    using found unfolding admitted
    by (simp add: find_hook_def note_delivery_def count_delivery_def forget_minutes_def select_one_update_where update_where_twice handle)
  moreover have "\<not> matches_current E old ?q" "\<not> matches_previous E old u ?q"
    using old(1) by (simp_all add: matches_current_def matches_previous_def previous_live_def)
  ultimately have "fst (webhook_admit E P handle old u u (snd (webhook_admit E P handle new t t s'))) =
      Refused 404 ''secret_mismatch''"
    by (simp add: webhook_admit_def Let_def)
  then show ?thesis using one admitted by simp
qed

lemma sample_sealed:
  "\<exists>sealed. seal_webhook_secret sample_env ''u'' (''abc'', ''iv'') = Inr sealed \<and>
     ss_hash sealed = sha256_hex sample_crypto (drop 4 (random_token ''whs'' ''abc''))"
  using sample_ring
  by (cases "ve_ring sample_env") (auto simp: seal_webhook_secret_def Let_def sample_env_crypto eval_nat_numeral)

theorem rotation_grace_witness:
  "\<exists>new s'. webhook_rotate sample_env ''u'' ''h1'' (''abc'', ''iv'') 0 sample_hooks = (Inr new, s') \<and>
     (\<exists>v. fst (webhook_admit sample_env [(''pkg'', [sample_definition])] ''h1'' ''old'' 5 5 s') = Admitted v sample_definition True)"
proof -
  obtain sealed where sealed: "seal_webhook_secret sample_env ''u'' (''abc'', ''iv'') = Inr sealed"
      "ss_hash sealed = sha256_hex sample_crypto (drop 4 (random_token ''whs'' ''abc''))"
    using sample_sealed by blast
  have "drop 4 (random_token ''whs'' ''abc'') = ''616263''" by code_simp
  moreover have "sha256_hex sample_crypto ''616263'' \<noteq> sha256_hex sample_crypto ''old''" by code_simp
  ultimately have other: "ss_hash sealed \<noteq> sha256_hex sample_crypto ''old''" using sealed(2) by simp
  obtain new s' where r: "webhook_rotate sample_env ''u'' ''h1'' (''abc'', ''iv'') 0 sample_hooks = (Inr new, s')"
    by (simp add: webhook_rotate_def sealed Let_def the_webhook_def find_hook_def sample_hooks_def sample_hook_def
        update_where_def select_one_def)
  have "5 < 0 + webhook_grace_ms" by (simp add: webhook_grace_ms_def)
  with rotation_grace [OF r sample_hooks_simps(1) sample_hooks_simps(3), of "[(''pkg'', [sample_definition])]" sample_definition
      "''old''" sealed 5 "drop 4 (random_token ''whs'' ''abc'')" 5] sealed other r
  show ?thesis by (auto simp: sample_env_crypto)
qed

section \<open>Idempotency\<close>

lemma keep_all_keys:
  assumes "set kept = set (filter (\<lambda>r. lg_handle r = handle) rows)"
  shows "delete_where (\<lambda>r. lg_handle r = handle \<and> lg_key r \<notin> set (map lg_key kept)) rows = rows"
  by (rule delete_where_none) (use assms in auto)

text \<open>Of a delivery that is sent again only the first runs: while it runs the others are told so, when it is
  done they get its run and result, and a different payload under the same key is a conflict.\<close>

theorem delivery_runs_once:
  assumes "idempotency_claim handle key payload now s = (NewClaim, s')"
    "length (filter (\<lambda>r. lg_handle r = handle) (ws_ledger s)) < 1000" "status \<noteq> ''running''"
  shows "fst (idempotency_claim handle key payload t s') = InProgress \<and>
    fst (idempotency_claim handle key payload t (idempotency_finish handle key status run result s')) =
      Replayed run (case result of Some x \<Rightarrow> if 64 * 1024 < length x then None else Some x | None \<Rightarrow> None) status \<and>
    (\<forall>a b. payload = Some a \<and> a \<noteq> b \<longrightarrow> fst (idempotency_claim handle key (Some b) t s') = Conflict)"
proof -
  let ?r = "\<lparr>lg_handle = handle, lg_key = key, lg_payload = payload, lg_run = None, lg_status = ''running'',
      lg_result = None, lg_created = now\<rparr>"
  let ?rows = "ws_ledger s @ [?r]"
  have none: "ledger_find handle key s = None"
    using assms(1) by (auto simp: idempotency_claim_def split: option.splits if_splits)
  have "set (newest lg_created ledger_kept (filter (\<lambda>r. lg_handle r = handle) ?rows)) = set (filter (\<lambda>r. lg_handle r = handle) ?rows)"
    using assms(2) by (intro set_newest_all) (simp add: ledger_kept_def)
  then have "delete_where (\<lambda>r. lg_handle r = handle \<and> lg_key r \<notin> set (map lg_key
      (newest lg_created ledger_kept (filter (\<lambda>r. lg_handle r = handle) ?rows)))) ?rows = ?rows"
    by (rule keep_all_keys)
  then have rows: "ws_ledger s' = ?rows"
    using assms(1) none by (auto simp: idempotency_claim_def Let_def)
  have s': "ledger_find handle key s' = Some ?r"
    using none unfolding ledger_find_def rows by (simp add: select_one_append)
  then have "ledger_find handle key (idempotency_finish handle key status run result s') = Some (?r\<lparr>lg_status := status, lg_run := run,
      lg_result := (case result of Some x \<Rightarrow> if 64 * 1024 < length x then None else Some x | None \<Rightarrow> None)\<rparr>)"
    unfolding ledger_find_def idempotency_finish_def by (simp add: select_one_update_where)
  then show ?thesis
    using s' assms(3) by (auto simp: idempotency_claim_def)
qed

theorem delivery_runs_once_witness:
  "fst (idempotency_claim ''h1'' ''delivery:7'' None 9 (idempotency_finish ''h1'' ''delivery:7'' ''success'' (Some ''r1'')
       (Some ''42'') (snd (idempotency_claim ''h1'' ''delivery:7'' None 5 sample_hooks)))) =
     Replayed (Some ''r1'') (Some ''42'') ''success''"
proof -
  obtain s' where s': "idempotency_claim ''h1'' ''delivery:7'' None 5 sample_hooks = (NewClaim, s')"
    by (simp add: idempotency_claim_def Let_def ledger_find_def sample_hooks_def select_one_def)
  from delivery_runs_once [OF this, of "''success''" 9 "Some ''r1''" "Some ''42''"] show ?thesis
    unfolding s' by (simp add: sample_hooks_def)
qed

section \<open>The webhook quota\<close>

definition mint_step ::
  "vault_env \<Rightarrow> string \<Rightarrow> declared \<Rightarrow> (string \<times> string) \<times> string \<times> (string \<times> string) \<times> time \<Rightarrow> webhooks \<Rightarrow> webhooks" where
  "mint_step E uid P i s = (let (hook, new_handle, random, now) = i in snd (webhook_mint E uid P hook new_handle random now s))"

lemma mint_hooks:
  "ws_hooks (snd (webhook_mint E uid P hook new_handle random now s)) = ws_hooks s \<or>
   within_quota (ve_quotas E QWebhooks) (length (ws_hooks s)) \<and>
   (\<exists>r. ws_hooks (snd (webhook_mint E uid P hook new_handle random now s)) = ws_hooks s @ [r])"
  by (cases hook) (auto simp: webhook_mint_def Let_def bind_res_def assert_quota_def split: option.split sum.split)

interpretation webhook_quota: quota_guard "mint_step E uid P" "\<lambda>s. length (ws_hooks s)" "\<lambda>s. ve_quotas E QWebhooks" for E uid P
proof
  fix i :: "(string \<times> string) \<times> string \<times> (string \<times> string) \<times> time" and s :: webhooks
  obtain hook new_handle random now where i: "i = (hook, new_handle, random, now)" by (cases i)
  note hooks = mint_hooks [of E uid P hook new_handle random now s]
  show "length (ws_hooks (mint_step E uid P i s)) \<le> Suc (length (ws_hooks s))"
    using hooks by (auto simp: mint_step_def i)
  show "ve_quotas E QWebhooks = 0 \<or> length (ws_hooks s) < ve_quotas E QWebhooks"
    if "length (ws_hooks s) < length (ws_hooks (mint_step E uid P i s))"
    using hooks that by (auto simp: mint_step_def i within_quota_iff)
qed simp

end
