(* ===== verification/Ingress.thy ===== *)
theory Ingress
  imports Webhooks RpcErrors
begin

text \<open>
  src/src/webhooks/ingress.ts: \<open>POST /webhooks/:userId/:handle/:secret\<close>, from the path to the
  answer. The registry's users, the saved packages, percent decoding, JSON and date parsing,
  HMAC, the clocks and the new ids are in the environment, and so is \<open>executeRun\<close>, which may
  change any user's cell. Header names are lower case, as the request's \<open>Headers\<close> give them.
  Every executed run is in the trace.
\<close>

section \<open>Environment and state\<close>

record user_cell =
  uc_vault :: vault
  uc_hooks :: webhooks

record run_request =
  rn_user :: "string \<times> string"
  rn_package :: string
  rn_export :: string
  rn_params :: "json option"

record run_error =
  re_name :: string
  re_message :: string
  re_stack :: "string option"

record run_result =
  rs_run :: string
  rs_ok :: bool
  rs_result :: "json option"
  rs_error :: "run_error option"

type_synonym cells = "string \<Rightarrow> user_cell"

record ingress_env =
  ie_vault :: vault_env
  ie_users :: "string \<Rightarrow> (string \<times> string) option"
  ie_declared :: "string \<Rightarrow> declared"
  ie_decode :: "string \<Rightarrow> string option"
  ie_parse_json :: "string \<Rightarrow> json option"
  ie_stringify :: "json \<Rightarrow> string"
  ie_parse_date :: "string \<Rightarrow> time option"
  ie_iso :: "time \<Rightarrow> string"
  ie_hmac :: "string \<Rightarrow> string \<Rightarrow> string"
  ie_max_body :: nat
  ie_now :: time
  ie_clock :: "nat \<Rightarrow> time"
  ie_id :: "nat \<Rightarrow> string"
  ie_exec :: "run_request \<Rightarrow> cells \<Rightarrow> (js_error + run_result) \<times> cells"

record ingress =
  ig_cells :: cells
  ig_runs :: "run_request list"

record delivery_request =
  dr_method :: string
  dr_origin :: string
  dr_path :: string
  dr_search :: string
  dr_headers :: "(string \<times> string) list"
  dr_body :: string

record answer =
  an_status :: nat
  an_body :: "(string \<times> json) list"
  an_headers :: "(string \<times> string) list"

definition header_get :: "string \<Rightarrow> delivery_request \<Rightarrow> string option" where
  "header_get name rq = map_of (dr_headers rq) (to_lower name)"

definition set_hooks :: "string \<Rightarrow> webhooks \<Rightarrow> cells \<Rightarrow> cells" where
  "set_hooks uid w cs = cs(uid := (cs uid)\<lparr>uc_hooks := w\<rparr>)"

section \<open>Answers\<close>

definition json_answer :: "(string \<times> json) list \<Rightarrow> nat \<Rightarrow> (string \<times> string) list \<Rightarrow> answer" where
  "json_answer payload status hs = \<lparr>an_status = status, an_body = payload, an_headers = (''cache-control'', ''no-store'') # hs\<rparr>"

text \<open>The status decides what the provider reads, and the reason only of a 409 or a 400.\<close>

definition rejected_body :: "nat \<Rightarrow> string \<Rightarrow> string \<times> string" where
  "rejected_body status reason =
     (if status = 429 then (''rate_limited'', ''Too many deliveries for this webhook; retry later.'')
      else if status = 413 then (''payload_too_large'', ''Webhook body exceeds the configured limit.'')
      else if status = 401 then (''unauthorized'', ''Webhook signature verification failed.'')
      else if status = 409 then (reason, ''This delivery conflicts with a previous one.'')
      else if status = 400 then (reason, ''The webhook request could not be interpreted.'')
      else (''not_found'', ''No such webhook.''))"

definition rejected :: "nat \<Rightarrow> string \<Rightarrow> answer" where
  "rejected status reason =
     json_answer [(''error'', JStr (fst (rejected_body status reason))), (''message'', JStr (snd (rejected_body status reason)))]
       status (if status = 429 then [(''retry-after'', ''60'')] else [])"

definition method_not_allowed :: answer where
  "method_not_allowed =
     json_answer [(''error'', JStr ''method_not_allowed''), (''message'', JStr ''Webhooks accept POST.'')] 405 [(''allow'', ''POST'')]"

definition text_or_null :: "string option \<Rightarrow> json" where
  "text_or_null t = (case t of Some v \<Rightarrow> JStr v | None \<Rightarrow> JNull)"

text \<open>A property whose value is undefined is left out.\<close>

definition given :: "string \<Rightarrow> json option \<Rightarrow> (string \<times> json) list" where
  "given k v = (case v of Some j \<Rightarrow> [(k, j)] | None \<Rightarrow> [])"

definition error_json :: "run_error \<Rightarrow> json" where
  "error_json e =
     JObj ([(''name'', JStr (re_name e)), (''message'', JStr (re_message e))] @ given ''stack'' (map_option JStr (re_stack e)))"

section \<open>Reading the request\<close>

definition path_segments :: "string \<Rightarrow> string list" where
  "path_segments path = filter (\<lambda>t. t \<noteq> []) (split_on CHR ''/'' path)"

definition segment :: "nat \<Rightarrow> string list \<Rightarrow> string" where
  "segment n ts = (if n < length ts then ts ! n else [])"

text \<open>\<open>None\<close> is a \<open>URIError\<close>.\<close>

definition read_path :: "ingress_env \<Rightarrow> string \<Rightarrow> (string \<times> string \<times> string) option option" where
  "read_path E path =
     (let ts = path_segments path in
      case ie_decode E (segment 1 ts) of None \<Rightarrow> None
      | Some uid \<Rightarrow>
        (case ie_decode E (segment 2 ts) of None \<Rightarrow> None
         | Some handle \<Rightarrow>
           (case ie_decode E (segment 3 ts) of None \<Rightarrow> None
            | Some secret \<Rightarrow>
              Some (if length ts \<noteq> 4 \<or> uid = [] \<or> handle = [] \<or> secret = [] then None else Some (uid, handle, secret)))))"

definition content_type :: "delivery_request \<Rightarrow> string option" where
  "content_type rq = map_option (\<lambda>v. to_lower (trim (hd (split_on CHR '';'' v)))) (header_get ''content-type'' rq)"

definition number_above :: "js_num \<Rightarrow> nat \<Rightarrow> bool" where
  "number_above v n = (case v of NaN \<Rightarrow> False | Infinity neg \<Rightarrow> \<not> neg | Num r \<Rightarrow> of_nat n < r)"

text \<open>\<open>Inl\<close> is the size of a body that is too large.\<close>

definition body_size :: "ingress_env \<Rightarrow> delivery_request \<Rightarrow> js_num + js_num" where
  "body_size E rq =
     (let declared = (case header_get ''content-length'' rq of Some v \<Rightarrow> js_number v | None \<Rightarrow> Num 0) in
      if number_above declared (ie_max_body E) then Inl declared
      else
        (let n = length (utf8_encode (dr_body rq)) in
         if ie_max_body E < n then Inl (Num (of_nat n)) else Inr (Num (of_nat n))))"

datatype 'a verdict = Pass 'a | Reject nat string | Thrown kody_error

definition timestamp_header :: "webhook_definition \<Rightarrow> string option" where
  "timestamp_header d = Option.bind (wd_replay d) (\<lambda>r. some_text (rp_timestamp_header r))"

definition timestamp_raw :: "webhook_definition \<Rightarrow> delivery_request \<Rightarrow> string option" where
  "timestamp_raw d rq = Option.bind (timestamp_header d) (\<lambda>h. header_get h rq)"

definition check_timestamp :: "ingress_env \<Rightarrow> delivery_request \<Rightarrow> webhook_definition \<Rightarrow> unit verdict" where
  "check_timestamp E rq d =
     (case wd_replay d of
        None \<Rightarrow> Pass ()
      | Some replay \<Rightarrow>
        if timestamp_header d = None then Pass ()
        else
          (case parse_timestamp (ie_parse_date E) (timestamp_raw d rq)
              (case rp_format replay of Some f \<Rightarrow> f | None \<Rightarrow> UnixSeconds) of
             None \<Rightarrow> Reject 401 ''timestamp_missing''
           | Some t \<Rightarrow>
             if within_tolerance t (ie_now E) (case rp_tolerance replay of Some n \<Rightarrow> n | None \<Rightarrow> 300) then Pass ()
             else Reject 401 ''timestamp_out_of_window''))"

definition check_signature ::
  "ingress_env \<Rightarrow> delivery_request \<Rightarrow> string \<Rightarrow> webhook_definition \<Rightarrow> vault \<Rightarrow> unit verdict" where
  "check_signature E rq package d v =
     (case wd_verification d of
        None \<Rightarrow> Pass ()
      | Some vf \<Rightarrow>
        (let candidates = parse_signature_header (header_get (vf_header vf) rq) vf in
         if candidates = [] then Reject 401 ''signature_missing''
         else case signed_message vf (dr_body rq) (timestamp_raw d rq) (Option.bind (wd_replay d) rp_format) of
           None \<Rightarrow> Reject 401 ''timestamp_missing''
         | Some message \<Rightarrow>
           (case webhook_signature_check (ie_vault E) (ie_hmac E) package (vf_secret vf) message candidates (vf_encoding vf) v of
              Inl e \<Rightarrow> Thrown e
            | Inr None \<Rightarrow> Reject 401 ''secret_missing''
            | Inr (Some ok) \<Rightarrow> if ok then Pass () else Reject 401 ''signature_mismatch'')))"

definition parse_body :: "ingress_env \<Rightarrow> delivery_request \<Rightarrow> json option" where
  "parse_body E rq = (if trim (dr_body rq) = [] then None else ie_parse_json E (dr_body rq))"

definition read_params :: "ingress_env \<Rightarrow> delivery_request \<Rightarrow> webhook_definition \<Rightarrow> (string \<times> json) list verdict" where
  "read_params E rq d =
     (if wd_input d = ParamsInput then
        (case parse_body E rq of
           Some (JObj es) \<Rightarrow> Pass (case json_field ''params'' es of Some (JObj ps) \<Rightarrow> ps | _ \<Rightarrow> es)
         | _ \<Rightarrow> Reject 400 ''invalid_params'')
      else Pass [])"

definition explicit_key :: "delivery_request \<Rightarrow> webhook_definition \<Rightarrow> (string \<times> json) list \<Rightarrow> string option" where
  "explicit_key rq d ps =
     (case header_get ''idempotency-key'' rq of
        Some k \<Rightarrow> Some k
      | None \<Rightarrow>
        if wd_input d = ParamsInput then (case json_field ''idempotencyKey'' ps of Some (JStr k) \<Rightarrow> Some k | _ \<Rightarrow> None)
        else None)"

definition max_idempotency_key :: nat where "max_idempotency_key = 200"

text \<open>The key of the delivery and the hash of its payload.\<close>

definition idempotency_of ::
  "ingress_env \<Rightarrow> delivery_request \<Rightarrow> webhook_definition \<Rightarrow> (string \<times> json) list \<Rightarrow>
     (string \<times> string option) option verdict" where
  "idempotency_of E rq d ps =
     (case some_text (Option.bind (Option.bind (wd_replay d) (\<lambda>r. some_text (rp_delivery_header r))) (\<lambda>h. header_get h rq)) of
        Some i \<Rightarrow> Pass (Some (''delivery:'' @ take max_idempotency_key i, None))
      | None \<Rightarrow>
        (case some_text (explicit_key rq d ps) of
           None \<Rightarrow> Pass None
         | Some k \<Rightarrow>
           if max_idempotency_key < length k then Reject 400 ''idempotency_key_too_long''
           else Pass (Some (''client:'' @ k, Some (sha256_hex (ve_crypto (ie_vault E)) (dr_body rq))))))"

section \<open>The delivery ledger\<close>

definition record_in ::
  "ingress_env \<Rightarrow> string \<Rightarrow> delivery_input \<Rightarrow> ingress \<Rightarrow> string \<times> ingress" where
  "record_in E uid i s =
     (let (delivery, w) = delivery_record i (ie_id E 0) (ie_clock E 0, ie_clock E 1) (uc_hooks (ig_cells s uid))
      in (delivery, s\<lparr>ig_cells := set_hooks uid w (ig_cells s)\<rparr>))"

definition reject ::
  "ingress_env \<Rightarrow> string \<Rightarrow> string \<Rightarrow> js_num \<Rightarrow> string option \<Rightarrow> nat \<Rightarrow> string \<Rightarrow> ingress \<Rightarrow> answer res \<times> ingress" where
  "reject E uid handle bytes ct status reason s =
     (Inr (rejected status reason),
      snd (record_in E uid \<lparr>di_handle = handle, di_status = ''rejected'', di_http = status, di_reason = Some reason,
        di_run = None, di_key = None, di_bytes = bytes, di_content_type = ct\<rparr> s))"

section \<open>Running\<close>

definition headers_to_object :: "(string \<times> string) list \<Rightarrow> (string \<times> json) list" where
  "headers_to_object hs =
     map (\<lambda>(k, v). (k, JStr v)) (filter (\<lambda>(k, v). k \<noteq> ''authorization'' \<and> k \<noteq> ''cookie'' \<and> k \<noteq> ''__proto__'') hs)"

definition redacted_url :: "delivery_request \<Rightarrow> string" where
  "redacted_url rq =
     dr_origin rq @ ''/'' @ join_with ''/'' ((path_segments (dr_path rq))[3 := ''<secret>'']) @ dr_search rq"

definition request_params :: "ingress_env \<Rightarrow> delivery_request \<Rightarrow> string \<Rightarrow> string \<Rightarrow> webhook_definition \<Rightarrow> string \<Rightarrow> bool \<Rightarrow> json" where
  "request_params E rq handle package d delivery previous =
     JObj
       [(''webhook'', JObj
          [(''handle'', JStr handle), (''name'', JStr (wd_name d)), (''packageName'', JStr package),
           (''deliveryId'', JStr delivery), (''receivedAt'', JStr (ie_iso E (ie_now E))),
           (''usedPreviousSecret'', JBool previous)]),
        (''request'', JObj
          [(''method'', JStr (dr_method rq)), (''url'', JStr (redacted_url rq)),
           (''headers'', JObj (headers_to_object (dr_headers rq))), (''body'', JStr (dr_body rq)),
           (''json'', case parse_body E rq of Some j \<Rightarrow> j | None \<Rightarrow> JNull)])]"

definition revived :: "js_error \<Rightarrow> kody_error" where
  "revived e = (case from_unknown e of Some k \<Rightarrow> k | None \<Rightarrow> KodyError ''internal_error'' 500)"

definition finish_idempotency ::
  "string \<Rightarrow> (string \<times> string option) option \<Rightarrow> string \<Rightarrow> string option \<Rightarrow> string option \<Rightarrow> webhooks \<Rightarrow> webhooks" where
  "finish_idempotency handle idem status run result w =
     (case idem of None \<Rightarrow> w | Some (key, _) \<Rightarrow> idempotency_finish handle key status run result w)"

definition run_delivery ::
  "ingress_env \<Rightarrow> string \<Rightarrow> string \<Rightarrow> string \<Rightarrow> (string \<times> string option) option \<Rightarrow> run_request \<Rightarrow> ingress \<Rightarrow>
     run_result res \<times> ingress" where
  "run_delivery E uid handle delivery idem rq s =
     (let (out, cs) = ie_exec E rq (ig_cells s);
          w = uc_hooks (cs uid);
          done = (\<lambda>w. s\<lparr>ig_cells := set_hooks uid w cs, ig_runs := ig_runs s @ [rq]\<rparr>)
      in case out of
        Inl e \<Rightarrow>
          (Inl (revived e),
           done (finish_idempotency handle idem ''error'' None None
             (delivery_finish delivery ''error'' None (Some (emessage e)) (ie_clock E 2) w)))
      | Inr r \<Rightarrow>
          (let status = (if rs_ok r then ''success'' else ''error'');
               reason = (if rs_ok r then None
                         else Some (case rs_error r of Some e \<Rightarrow> re_message e | None \<Rightarrow> ''error''));
               result = (if rs_ok r then map_option (ie_stringify E) (rs_result r) else None)
           in (Inr r,
               done (finish_idempotency handle idem status (Some (rs_run r)) result
                 (delivery_finish delivery status (Some (rs_run r)) reason (ie_clock E 2) w)))))"

definition run_answer :: "string \<Rightarrow> run_result \<Rightarrow> answer" where
  "run_answer delivery r =
     json_answer ([(''ok'', JBool (rs_ok r)), (''deliveryId'', JStr delivery), (''runId'', JStr (rs_run r))] @
         (if rs_ok r then given ''result'' (rs_result r) else given ''error'' (map_option error_json (rs_error r))))
       (if rs_ok r then 200 else 500) []"

text \<open>From the claim on. An acknowledged delivery runs after its answer, and the error it may throw is only logged.\<close>

definition accept_delivery ::
  "ingress_env \<Rightarrow> delivery_request \<Rightarrow> string \<times> string \<Rightarrow> string \<Rightarrow> string \<Rightarrow> webhook_definition \<Rightarrow> bool \<Rightarrow> js_num \<Rightarrow>
     (string \<times> json) list \<Rightarrow> (string \<times> string option) option \<Rightarrow> ingress \<Rightarrow> answer res \<times> ingress" where
  "accept_delivery E rq user handle package d previous bytes ps idem s =
     (let ack = (wd_response d = AckResponse);
          (delivery, s1) = record_in E (fst user) \<lparr>di_handle = handle, di_status = ''accepted'',
            di_http = (if ack then 202 else 200), di_reason = None, di_run = None, di_key = map_option fst idem,
            di_bytes = bytes, di_content_type = content_type rq\<rparr> s;
          params = (if wd_input d = RequestInput then request_params E rq handle package d delivery previous else JObj ps);
          (r, s2) = run_delivery E (fst user) handle delivery idem
            \<lparr>rn_user = user, rn_package = package, rn_export = wd_export d, rn_params = Some params\<rparr> s1
      in (if ack then Inr (json_answer [(''accepted'', JBool True), (''deliveryId'', JStr delivery)] 202 [])
          else map_sum id (run_answer delivery) r, s2))"

definition replay_input :: "string \<Rightarrow> string \<Rightarrow> js_num \<Rightarrow> string option \<Rightarrow> nat \<Rightarrow> string \<Rightarrow> string option \<Rightarrow> delivery_input" where
  "replay_input handle key bytes ct status reason run =
     \<lparr>di_handle = handle, di_status = ''replayed'', di_http = status, di_reason = Some reason, di_run = run,
      di_key = Some key, di_bytes = bytes, di_content_type = ct\<rparr>"

definition replay_answer :: "ingress_env \<Rightarrow> string option \<Rightarrow> string option \<Rightarrow> string \<Rightarrow> answer res" where
  "replay_answer E run result status =
     (let reply = (\<lambda>j. Inr (json_answer ([(''ok'', JBool (status = ''success'')), (''replayed'', JBool True),
            (''runId'', text_or_null run)] @ given ''result'' j)
            (if status = ''success'' then 200 else 500) [(''x-kody-replayed'', ''true'')]))
      in case result of
        None \<Rightarrow> reply None
      | Some t \<Rightarrow> (case ie_parse_json E t of Some j \<Rightarrow> reply (Some j) | None \<Rightarrow> internal_error))"

definition claim_delivery ::
  "ingress_env \<Rightarrow> delivery_request \<Rightarrow> string \<times> string \<Rightarrow> string \<Rightarrow> string \<Rightarrow> webhook_definition \<Rightarrow> bool \<Rightarrow> js_num \<Rightarrow>
     (string \<times> json) list \<Rightarrow> string \<times> string option \<Rightarrow> ingress \<Rightarrow> answer res \<times> ingress" where
  "claim_delivery E rq user handle package d previous bytes ps idem s =
     (let ack = (wd_response d = AckResponse);
          ct = content_type rq;
          (c, w) = idempotency_claim handle (fst idem) (snd idem) (ie_clock E 3) (uc_hooks (ig_cells s (fst user)));
          s1 = s\<lparr>ig_cells := set_hooks (fst user) w (ig_cells s)\<rparr>;
          note = (\<lambda>status reason run. snd (record_in E (fst user) (replay_input handle (fst idem) bytes ct status reason run) s1))
      in case c of
        Conflict \<Rightarrow> reject E (fst user) handle bytes ct 409 ''idempotency_mismatch'' s1
      | InProgress \<Rightarrow>
          (Inr (if ack then json_answer [(''accepted'', JBool True), (''replayed'', JBool True)] 202 []
                else rejected 409 ''invocation_in_progress''),
           note (if ack then 202 else 409) ''in_progress'' None)
      | Replayed run result status \<Rightarrow>
          (if ack then Inr (json_answer [(''accepted'', JBool True), (''replayed'', JBool True), (''runId'', text_or_null run)] 202 [])
           else replay_answer E run result status,
           note (if ack then 202 else 200) ''replay'' run)
      | NewClaim \<Rightarrow> accept_delivery E rq user handle package d previous bytes ps (Some idem) s1)"

section \<open>The handler\<close>

text \<open>What follows an admission.\<close>

definition handle_admitted ::
  "ingress_env \<Rightarrow> delivery_request \<Rightarrow> string \<times> string \<Rightarrow> string \<Rightarrow> string \<Rightarrow> webhook_definition \<Rightarrow> bool \<Rightarrow> ingress \<Rightarrow>
     answer res \<times> ingress" where
  "handle_admitted E rq user handle package d previous s =
     (let ct = content_type rq; uid = fst user in
      case body_size E rq of
        Inl n \<Rightarrow> reject E uid handle n ct 413 ''body_too_large'' s
      | Inr bytes \<Rightarrow>
        (case check_timestamp E rq d of
           Reject status reason \<Rightarrow> reject E uid handle bytes ct status reason s
         | Thrown e \<Rightarrow> (Inl e, s)
         | Pass _ \<Rightarrow>
           (case check_signature E rq package d (uc_vault (ig_cells s uid)) of
              Reject status reason \<Rightarrow> reject E uid handle bytes ct status reason s
            | Thrown e \<Rightarrow> (Inl e, s)
            | Pass _ \<Rightarrow>
              (case read_params E rq d of
                 Reject status reason \<Rightarrow> reject E uid handle bytes ct status reason s
               | Thrown e \<Rightarrow> (Inl e, s)
               | Pass ps \<Rightarrow>
                 (case idempotency_of E rq d ps of
                    Reject status reason \<Rightarrow> reject E uid handle bytes ct status reason s
                  | Thrown e \<Rightarrow> (Inl e, s)
                  | Pass None \<Rightarrow> accept_delivery E rq user handle package d previous bytes ps None s
                  | Pass (Some idem) \<Rightarrow> claim_delivery E rq user handle package d previous bytes ps idem s)))))"

definition init_cell :: "string \<Rightarrow> ingress \<Rightarrow> ingress" where
  "init_cell uid s =
     s\<lparr>ig_cells := (ig_cells s)(uid := (ig_cells s uid)\<lparr>uc_vault := vault_init uid (uc_vault (ig_cells s uid))\<rparr>)\<rparr>"

definition handle_webhook_ingress :: "ingress_env \<Rightarrow> delivery_request \<Rightarrow> ingress \<Rightarrow> answer res \<times> ingress" where
  "handle_webhook_ingress E rq s =
     (case read_path E (dr_path rq) of
        None \<Rightarrow> (internal_error, s)
      | Some None \<Rightarrow> (Inr (rejected 404 ''malformed''), s)
      | Some (Some (account, handle, secret)) \<Rightarrow>
        if dr_method rq \<noteq> ''POST'' then (Inr method_not_allowed, s)
        else case ie_users E account of
          None \<Rightarrow> (Inr (rejected 404 ''unknown_user''), s)
        | Some user \<Rightarrow>
          (let uid = fst user; s1 = init_cell uid s;
               (a, w) = webhook_admit (ie_vault E) (ie_declared E uid) handle secret (ie_now E) (ie_clock E 4)
                 (uc_hooks (ig_cells s1 uid));
               s2 = s1\<lparr>ig_cells := set_hooks uid w (ig_cells s1)\<rparr>
           in case a of
             Refused status reason \<Rightarrow>
               (Inr (rejected status reason),
                if reason = ''unknown_handle'' then s2
                else snd (record_in E uid \<lparr>di_handle = handle, di_status = ''rejected'', di_http = status,
                  di_reason = Some reason, di_run = None, di_key = None, di_bytes = Num 0, di_content_type = None\<rparr> s2))
           | Admitted v d previous \<Rightarrow> handle_admitted E rq user handle (vw_package v) d previous s2))"

section \<open>What runs\<close>

lemma reject_runs [simp]: "ig_runs (snd (reject E uid handle bytes ct status reason s)) = ig_runs s"
  by (simp add: reject_def record_in_def Let_def case_prod_beta)

lemma record_in_runs [simp]: "ig_runs (snd (record_in E uid i s)) = ig_runs s"
  by (simp add: record_in_def Let_def case_prod_beta)

lemma init_cell_simps [simp]:
  "ig_runs (init_cell uid s) = ig_runs s" "uc_hooks (ig_cells (init_cell uid s) u) = uc_hooks (ig_cells s u)"
  by (simp_all add: init_cell_def)

lemma set_hooks_vault [simp]: "uc_vault (set_hooks uid w cs u) = uc_vault (cs u)"
  by (simp add: set_hooks_def)

lemma run_delivery_runs [simp]: "ig_runs (snd (run_delivery E uid handle delivery idem rn s)) = ig_runs s @ [rn]"
  by (simp add: run_delivery_def Let_def case_prod_beta split: sum.split)











text \<open>C29 (safety). Whoever does not have the URL secret of a webhook gets one and the same answer, whether the user, the
  webhook or the secret does not exist, and nothing runs.\<close>

theorem outsider_learns_nothing:
  assumes "read_path E (dr_path rq) = Some (Some (account, handle, secret))" "dr_method rq = ''POST''"
    "\<And>user r. ie_users E account = Some user \<Longrightarrow> find_hook handle (uc_hooks (ig_cells s (fst user))) = Some r \<Longrightarrow>
       \<not> matches_current (ie_vault E) secret r \<and> \<not> matches_previous (ie_vault E) secret (ie_now E) r"
  shows "fst (handle_webhook_ingress E rq s) = Inr (rejected 404 ''unknown_handle'') \<and>
    ig_runs (snd (handle_webhook_ingress E rq s)) = ig_runs s"
proof (cases "ie_users E account")
  case None
  then show ?thesis using assms(1,2) by (simp add: handle_webhook_ingress_def rejected_def rejected_body_def)
next
  case (Some user)
  then show ?thesis
    using assms
    by (cases "find_hook handle (uc_hooks (ig_cells s (fst user)))")
      (simp_all add: handle_webhook_ingress_def Let_def webhook_admit_def rejected_def rejected_body_def)
qed

section \<open>A delivery\<close>

definition sample_ingress_env :: ingress_env where
  "sample_ingress_env =
     \<lparr>ie_vault = sample_env, ie_users = (\<lambda>u. if u = ''u1'' then Some (''u1'', ''a@b.c'') else None),
      ie_declared = (\<lambda>_. [(''pkg'', [sample_definition])]), ie_decode = Some, ie_parse_json = (\<lambda>_. None),
      ie_stringify = (\<lambda>_. []), ie_parse_date = (\<lambda>_. None), ie_iso = (\<lambda>_. []), ie_hmac = (\<lambda>k m. k @ m),
      ie_max_body = 10, ie_now = 5, ie_clock = (\<lambda>_. 5), ie_id = (\<lambda>_. ''d1''),
      ie_exec = (\<lambda>rn cs. (Inr \<lparr>rs_run = ''r1'', rs_ok = True, rs_result = None, rs_error = None\<rparr>, cs))\<rparr>"

definition sample_ingress :: ingress where
  "sample_ingress =
     \<lparr>ig_cells = (\<lambda>_. \<lparr>uc_vault = \<lparr>v_user = None, v_secrets = [], v_hosts = []\<rparr>, uc_hooks = sample_hooks\<rparr>), ig_runs = []\<rparr>"

definition sample_delivery :: "string \<Rightarrow> delivery_request" where
  "sample_delivery secret =
     \<lparr>dr_method = ''POST'', dr_origin = ''https://k'', dr_path = ''/webhooks/u1/h1/'' @ secret, dr_search = [],
      dr_headers = [], dr_body = ''{}''\<rparr>"

lemma sample_path:
  "read_path sample_ingress_env (dr_path (sample_delivery ''old'')) = Some (Some (''u1'', ''h1'', ''old''))"
  "read_path sample_ingress_env (dr_path (sample_delivery ''new'')) = Some (Some (''u1'', ''h1'', ''new''))"
proof -
  have "path_segments (''/webhooks/u1/h1/'' @ ''old'') = [''webhooks'', ''u1'', ''h1'', ''old'']"
    "path_segments (''/webhooks/u1/h1/'' @ ''new'') = [''webhooks'', ''u1'', ''h1'', ''new'']"
    by code_simp+
  then show "read_path sample_ingress_env (dr_path (sample_delivery ''old'')) = Some (Some (''u1'', ''h1'', ''old''))"
    "read_path sample_ingress_env (dr_path (sample_delivery ''new'')) = Some (Some (''u1'', ''h1'', ''new''))"
    by (simp_all add: read_path_def sample_delivery_def sample_ingress_env_def segment_def)
qed

lemma sample_env_fields [simp]:
  "ie_vault sample_ingress_env = sample_env" "ie_users sample_ingress_env ''u1'' = Some (''u1'', ''a@b.c'')"
  "ie_declared sample_ingress_env u = [(''pkg'', [sample_definition])]" "ie_now sample_ingress_env = 5"
  "ie_clock sample_ingress_env n = 5" "uc_hooks (ig_cells sample_ingress u) = sample_hooks"
  by (simp_all add: sample_ingress_env_def sample_ingress_def)

lemma sample_definition_simps [simp]: "wd_input sample_definition = RequestInput" "wd_replay sample_definition = None"
  "wd_verification sample_definition = None" "wd_export sample_definition = ''./push''"
  by (simp_all add: sample_definition_def)



theorem outsider_learns_nothing_witness:
  "fst (handle_webhook_ingress sample_ingress_env (sample_delivery ''new'') sample_ingress) = Inr (rejected 404 ''unknown_handle'')"
proof -
  have "\<not> matches_current sample_env ''new'' (sample_hook (sha256_hex sample_crypto ''old''))"
    by (simp add: matches_current_def constant_time_text_eq sample_env_crypto) code_simp
  moreover have "dr_method (sample_delivery ''new'') = ''POST''" by (simp add: sample_delivery_def)
  ultimately show ?thesis
    by (intro conjunct1 [OF outsider_learns_nothing [OF sample_path(2)]]) (auto simp: matches_previous_def previous_live_def)
qed

end
