(* ===== verification/RunTriage.thy ===== *)
theory RunTriage
  imports JsValue Prelude
begin

text \<open>
  src/src/runs/triage-args.ts: the arguments of the run triage operations, read from the JSON a
  caller sends. A missing field is \<open>None\<close>; parsing an ISO date is a parameter.
\<close>

section \<open>Vocabulary\<close>

datatype run_kind = ExecuteRun | PackageRun | JobRun | WebhookRun | SubscriptionRun | SecretProviderRun | AppRun

definition run_kinds :: "(string \<times> run_kind) list" where
  "run_kinds =
     [(''execute'', ExecuteRun), (''package'', PackageRun), (''job'', JobRun), (''webhook'', WebhookRun),
      (''subscription'', SubscriptionRun), (''secret-provider'', SecretProviderRun), (''app'', AppRun)]"

datatype triage = Ignored | Resolved

datatype triage_update = SetTriage triage | Reopen

definition triage_updates :: "(string \<times> triage_update) list" where
  "triage_updates = [(''ignored'', SetTriage Ignored), (''resolved'', SetTriage Resolved), (''open'', Reopen)]"

datatype triage_filter = OpenErrors | Triaged triage | AllRuns

definition triage_filters :: "(string \<times> triage_filter) list" where
  "triage_filters =
     [(''open'', OpenErrors), (''ignored'', Triaged Ignored), (''resolved'', Triaged Resolved), (''all'', AllRuns)]"

record bulk_filter =
  bf_kind :: "run_kind option"
  bf_package :: "string option"
  bf_job :: "string option"
  bf_error_name :: "string option"
  bf_error_message :: "string option"
  bf_triage :: triage_filter

record bulk_input =
  bk_ids :: "string list option"
  bk_filter :: "bulk_filter option"
  bk_triage :: triage_update
  bk_note :: "string option"
  bk_limit :: nat
  bk_dry :: bool

definition max_note_length :: nat where "max_note_length = 2000"
definition bulk_max_limit :: nat where "bulk_max_limit = 100"

section \<open>Reading arguments\<close>

abbreviation invalid :: "'a res" where "invalid \<equiv> fails ''invalid_args''"

definition nullish :: "json option \<Rightarrow> bool" where
  "nullish v = (v = None \<or> v = Some JNull)"

definition one_of :: "json option \<Rightarrow> (string \<times> 'a) list \<Rightarrow> 'a res" where
  "one_of v allowed =
     (case v of Some (JStr t) \<Rightarrow> (case map_of allowed t of Some x \<Rightarrow> Inr x | None \<Rightarrow> invalid) | _ \<Rightarrow> invalid)"

definition optional_text :: "json option \<Rightarrow> string option res" where
  "optional_text v =
     (if nullish v then Inr None
      else case v of Some (JStr t) \<Rightarrow> if t = [] then invalid else Inr (Some t) | _ \<Rightarrow> invalid)"

definition parse_run_triage :: "json option \<Rightarrow> triage_update res" where
  "parse_run_triage v = one_of v triage_updates"

definition parse_triage_note :: "json option \<Rightarrow> string option res" where
  "parse_triage_note v =
     (if nullish v then Inr None
      else case v of Some (JStr t) \<Rightarrow> if max_note_length < length t then invalid else Inr (Some (trim t)) | _ \<Rightarrow> invalid)"

definition parse_triage_filter :: "json option \<Rightarrow> triage_filter \<Rightarrow> triage_filter res" where
  "parse_triage_filter v fallback = (if nullish v then Inr fallback else one_of v triage_filters)"

definition parse_since :: "(string \<Rightarrow> int option) \<Rightarrow> json option \<Rightarrow> int option res" where
  "parse_since parse_date v =
     (if nullish v then Inr None
      else case v of Some (JStr t) \<Rightarrow> (case parse_date t of Some n \<Rightarrow> Inr (Some n) | None \<Rightarrow> invalid) | _ \<Rightarrow> invalid)"

definition parse_bulk_limit :: "json option \<Rightarrow> nat res" where
  "parse_bulk_limit v =
     (if nullish v then Inr bulk_max_limit
      else case v of
        Some (JNum x) \<Rightarrow>
          (case integer_value x of
             Some n \<Rightarrow> if n < 1 \<or> int bulk_max_limit < n then invalid else Inr (nat n)
           | None \<Rightarrow> invalid)
      | _ \<Rightarrow> invalid)"

definition nonempty_text :: "json \<Rightarrow> string option" where
  "nonempty_text j = (case j of JStr t \<Rightarrow> if t = [] then None else Some t | _ \<Rightarrow> None)"

definition parse_run_ids :: "json option \<Rightarrow> string list res" where
  "parse_run_ids v =
     (case v of
        Some (JArr js) \<Rightarrow>
          if js = [] \<or> bulk_max_limit < length js \<or> \<not> list_all (\<lambda>j. nonempty_text j \<noteq> None) js then invalid
          else Inr (map (\<lambda>j. the (nonempty_text j)) js)
      | _ \<Rightarrow> invalid)"

definition parse_bulk_filter :: "(string \<times> json) list \<Rightarrow> triage_update \<Rightarrow> bulk_filter res" where
  "parse_bulk_filter source t =
     bind_res (if nullish (json_field ''kind'' source) then Inr None
        else map_sum id Some (one_of (json_field ''kind'' source) run_kinds)) (\<lambda>k.
     bind_res (optional_text (json_field ''packageName'' source)) (\<lambda>p.
     bind_res (optional_text (json_field ''jobId'' source)) (\<lambda>j.
     bind_res (optional_text (json_field ''errorName'' source)) (\<lambda>n.
     bind_res (optional_text (json_field ''errorMessage'' source)) (\<lambda>m.
       if k = None \<and> p = None \<and> j = None \<and> n = None \<and> m = None then invalid
       else
         bind_res (if t = Reopen then
             (case json_field ''errorTriage'' source of
                Some (JStr x) \<Rightarrow>
                  if x = ''ignored'' then Inr (Triaged Ignored) else if x = ''resolved'' then Inr (Triaged Resolved) else invalid
              | _ \<Rightarrow> invalid)
           else parse_triage_filter (json_field ''errorTriage'' source) OpenErrors) (\<lambda>f.
           Inr \<lparr>bf_kind = k, bf_package = p, bf_job = j, bf_error_name = n, bf_error_message = m, bf_triage = f\<rparr>))))))"

definition bulk_by_ids :: "json option \<Rightarrow> triage_update \<Rightarrow> string option \<Rightarrow> nat \<Rightarrow> bool \<Rightarrow> bulk_input res" where
  "bulk_by_ids ids t note limit dry =
     bind_res (parse_run_ids ids) (\<lambda>l.
       Inr \<lparr>bk_ids = Some l, bk_filter = None, bk_triage = t, bk_note = note, bk_limit = limit, bk_dry = dry\<rparr>)"

definition bulk_by_filter :: "json option \<Rightarrow> triage_update \<Rightarrow> string option \<Rightarrow> nat \<Rightarrow> bool \<Rightarrow> bulk_input res" where
  "bulk_by_filter raw t note limit dry =
     (case raw of
        Some (JObj source) \<Rightarrow>
          bind_res (parse_bulk_filter source t) (\<lambda>f.
            Inr \<lparr>bk_ids = None, bk_filter = Some f, bk_triage = t, bk_note = note, bk_limit = limit, bk_dry = dry\<rparr>)
      | _ \<Rightarrow> invalid)"

definition parse_run_triage_bulk :: "(string \<times> json) list \<Rightarrow> bulk_input res" where
  "parse_run_triage_bulk args =
     bind_res (parse_run_triage (json_field ''triage'' args)) (\<lambda>t.
     bind_res (parse_triage_note (json_field ''note'' args)) (\<lambda>note.
       if nullish (json_field ''runIds'' args) = nullish (json_field ''filter'' args) then invalid
       else
         bind_res (parse_bulk_limit (json_field ''limit'' args)) (\<lambda>limit.
           (if nullish (json_field ''runIds'' args) then bulk_by_filter (json_field ''filter'' args)
            else bulk_by_ids (json_field ''runIds'' args)) t note limit (json_field ''dryRun'' args = Some (JBool True)))))"

section \<open>What a parsed call looks like\<close>

definition bulk_filter_ok :: "triage_update \<Rightarrow> bulk_filter \<Rightarrow> bool" where
  "bulk_filter_ok t f =
     ((bf_kind f \<noteq> None \<or> bf_package f \<noteq> None \<or> bf_job f \<noteq> None \<or> bf_error_name f \<noteq> None \<or> bf_error_message f \<noteq> None) \<and>
      [] \<notin> set (concat (map (\<lambda>g. case g f of Some v \<Rightarrow> [v] | None \<Rightarrow> []) [bf_package, bf_job, bf_error_name, bf_error_message])) \<and>
      (t = Reopen \<longrightarrow> (\<exists>x. bf_triage f = Triaged x)))"

definition bulk_input_ok :: "bulk_input \<Rightarrow> bool" where
  "bulk_input_ok i =
     (1 \<le> bk_limit i \<and> bk_limit i \<le> bulk_max_limit \<and>
      (case bk_note i of Some n \<Rightarrow> length n \<le> max_note_length \<and> trim n = n | None \<Rightarrow> True) \<and>
      (case (bk_ids i, bk_filter i) of
         (Some ids, None) \<Rightarrow> ids \<noteq> [] \<and> length ids \<le> bulk_max_limit \<and> [] \<notin> set ids
       | (None, Some f) \<Rightarrow> bulk_filter_ok (bk_triage i) f
       | _ \<Rightarrow> False))"

lemma limit_ok: "parse_bulk_limit v = Inr n \<Longrightarrow> 1 \<le> n \<and> n \<le> bulk_max_limit"
  by (auto simp: parse_bulk_limit_def bulk_max_limit_def split: if_splits option.splits json.splits)

lemma nonempty_text_some: "nonempty_text j = Some t \<Longrightarrow> t \<noteq> []"
  by (auto simp: nonempty_text_def split: json.splits if_splits)

lemma ids_ok: "parse_run_ids v = Inr l \<Longrightarrow> l \<noteq> [] \<and> length l \<le> bulk_max_limit \<and> [] \<notin> set l"
  by (fastforce simp: parse_run_ids_def list_all_iff split: if_splits option.splits json.splits dest: nonempty_text_some)

lemma trim_length: "length (trim s) \<le> length s"
  by (simp add: trim_def trim_start_def) (metis le_trans length_dropWhile_le length_rev)

lemma trim_trim [simp]: "trim (trim s) = trim s"
  by (cases "trim s = []") (simp_all add: trim_id trim_ends del: trim_ends)

lemma note_ok: "parse_triage_note v = Inr (Some n) \<Longrightarrow> length n \<le> max_note_length \<and> trim n = n"
  by (auto simp: parse_triage_note_def not_less le_trans [OF trim_length] split: if_splits option.splits json.splits)

lemma optional_text_ok: "optional_text v = Inr (Some t) \<Longrightarrow> t \<noteq> []"
  by (auto simp: optional_text_def split: if_splits option.splits json.splits)

lemma filter_ok:
  assumes "parse_bulk_filter source t = Inr f"
  shows "bulk_filter_ok t f"
proof -
  obtain k p j n m x where f: "f = \<lparr>bf_kind = k, bf_package = p, bf_job = j, bf_error_name = n, bf_error_message = m, bf_triage = x\<rparr>"
    and texts: "optional_text (json_field ''packageName'' source) = Inr p" "optional_text (json_field ''jobId'' source) = Inr j"
      "optional_text (json_field ''errorName'' source) = Inr n" "optional_text (json_field ''errorMessage'' source) = Inr m"
    and one: "\<not> (k = None \<and> p = None \<and> j = None \<and> n = None \<and> m = None)"
    and open': "t = Reopen \<Longrightarrow> (case json_field ''errorTriage'' source of
                Some (JStr x) \<Rightarrow>
                  if x = ''ignored'' then Inr (Triaged Ignored) else if x = ''resolved'' then Inr (Triaged Resolved) else invalid
              | _ \<Rightarrow> invalid) = Inr x"
    using assms by (auto simp: parse_bulk_filter_def bind_res_Inr split: if_splits)
  have "t = Reopen \<longrightarrow> (\<exists>y. x = Triaged y)"
    using open' by (auto split: option.splits json.splits if_splits)
  moreover have "p \<noteq> Some []" "j \<noteq> Some []" "n \<noteq> Some []" "m \<noteq> Some []"
    using texts optional_text_ok by blast+
  ultimately show ?thesis
    using one by (auto simp: bulk_filter_ok_def f split: option.splits)
qed

lemma by_ids_ok:
  assumes "bulk_by_ids ids t n limit dry = Inr i" "1 \<le> limit" "limit \<le> bulk_max_limit"
    "\<forall>x. n = Some x \<longrightarrow> length x \<le> max_note_length \<and> trim x = x"
  shows "bulk_input_ok i"
  using assms ids_ok by (auto simp: bulk_by_ids_def bind_res_Inr bulk_input_ok_def split: option.split)

lemma by_filter_ok:
  assumes "bulk_by_filter raw t n limit dry = Inr i" "1 \<le> limit" "limit \<le> bulk_max_limit"
    "\<forall>x. n = Some x \<longrightarrow> length x \<le> max_note_length \<and> trim x = x"
  shows "bulk_input_ok i"
proof -
  obtain source f where "parse_bulk_filter source t = Inr f"
      "i = \<lparr>bk_ids = None, bk_filter = Some f, bk_triage = t, bk_note = n, bk_limit = limit, bk_dry = dry\<rparr>"
    using assms(1) by (auto simp: bulk_by_filter_def bind_res_Inr split: option.splits json.splits)
  then show ?thesis
    using filter_ok assms(2-4) by (auto simp: bulk_input_ok_def split: option.split)
qed

text \<open>What the bulk triage accepts is well formed: either 1 to 100 non-empty run ids or a filter with at least
  one non-empty criterion, never both, a limit from 1 to 100, a trimmed note of at most 2000 characters, and a
  reopening filter names the state it reopens from.\<close>

theorem bulk_arguments_well_formed:
  assumes "parse_run_triage_bulk args = Inr i"
  shows "bulk_input_ok i"
proof -
  let ?rest = "\<lambda>t n limit. (if nullish (json_field ''runIds'' args) then bulk_by_filter (json_field ''filter'' args)
       else bulk_by_ids (json_field ''runIds'' args)) t n limit (json_field ''dryRun'' args = Some (JBool True))"
  from assms obtain t n where n: "parse_triage_note (json_field ''note'' args) = Inr n"
    and r: "(if nullish (json_field ''runIds'' args) = nullish (json_field ''filter'' args) then invalid
      else bind_res (parse_bulk_limit (json_field ''limit'' args)) (\<lambda>limit. ?rest t n limit)) = Inr i"
    unfolding parse_run_triage_bulk_def bind_res_Inr by blast
  from r obtain limit where limit: "parse_bulk_limit (json_field ''limit'' args) = Inr limit" and i: "?rest t n limit = Inr i"
    by (cases "nullish (json_field ''runIds'' args) = nullish (json_field ''filter'' args)") (auto simp only: bind_res_Inr if_True if_False simp_thms sum.distinct)
  have "\<forall>x. n = Some x \<longrightarrow> length x \<le> max_note_length \<and> trim x = x"
    using n note_ok by blast
  then show ?thesis
    using i limit_ok [OF limit] by (auto split: if_split_asm intro: by_ids_ok by_filter_ok)
qed

theorem bulk_arguments_well_formed_witness:
  "\<exists>i. parse_run_triage_bulk [(''triage'', JStr ''ignored''), (''runIds'', JArr [JStr ''run_1''])] = Inr i \<and> bulk_input_ok i"
proof -
  have ok: "parse_run_triage_bulk [(''triage'', JStr ''ignored''), (''runIds'', JArr [JStr ''run_1''])] =
      Inr \<lparr>bk_ids = Some [''run_1''], bk_filter = None, bk_triage = SetTriage Ignored, bk_note = None, bk_limit = 100, bk_dry = False\<rparr>"
    by (simp add: parse_run_triage_bulk_def bulk_by_ids_def bind_res_def parse_run_triage_def one_of_def triage_updates_def json_field_def
        parse_triage_note_def nullish_def parse_bulk_limit_def bulk_max_limit_def parse_run_ids_def nonempty_text_def Let_def)
  then show ?thesis using bulk_arguments_well_formed [OF ok] by blast
qed

end
