(* ===== verification/Runs.thy ===== *)
theory Runs
  imports Quotas RunTriage "HOL-Library.Multiset" "HOL-Library.List_Lexorder" "HOL-Library.Char_ord"
begin

text \<open>
  The run history of a user's cell (src/src/cells/user-cell.ts, run* and usage*) and its triage
  (src/src/runs/triage-store.ts): runs, daily usage, retention, the resolution of earlier errors
  by a later success. Times are milliseconds; a day is its number since 1970. A new id is an
  argument.
\<close>

section \<open>Tables\<close>

datatype run_status = Running | Success | Failed

record run_row =
  ro_id :: string
  ro_kind :: run_kind
  ro_package :: "string option"
  ro_key :: "string option"
  ro_status :: run_status
  ro_created :: int
  ro_finished :: "int option"
  ro_duration :: "int option"
  ro_result :: "string option"
  ro_error :: "(string \<times> string) option"
  ro_logs :: string
  ro_warnings :: "string list"
  ro_gateway :: "json list"
  ro_triage :: "triage option"
  ro_note :: "string option"
  ro_triaged_at :: "int option"
  ro_triaged_by :: "string option"
  ro_job :: "string option"

record usage_row =
  ug_day :: int
  ug_runs :: nat
  ug_errors :: nat
  ug_execute :: nat
  ug_sends :: nat
  ug_receives :: nat

record history =
  hi_runs :: "run_row list"
  hi_usage :: "usage_row list"

definition no_usage :: "int \<Rightarrow> usage_row" where
  "no_usage day = \<lparr>ug_day = day, ug_runs = 0, ug_errors = 0, ug_execute = 0, ug_sends = 0, ug_receives = 0\<rparr>"

definition usage_for :: "int \<Rightarrow> history \<Rightarrow> usage_row" where
  "usage_for day s =
     (case select_one (\<lambda>u. ug_day u = day) (hi_usage s) of Some u \<Rightarrow> u | None \<Rightarrow> no_usage day)"

text \<open>The days of the usage report, the latest first.\<close>

definition usage_history :: "int option \<Rightarrow> history \<Rightarrow> usage_row list" where
  "usage_history days s =
     (let n = min (max (case days of Some d \<Rightarrow> d | None \<Rightarrow> 7) 1) 90
      in map (\<lambda>u. usage_for (ug_day u) s) (newest ug_day (nat n) (hi_usage s)))"

section \<open>Starting and finishing\<close>

definition prune_runs :: "limits \<Rightarrow> int \<Rightarrow> history \<Rightarrow> history" where
  "prune_runs L now s =
     (let kept = set (map ro_id (newest ro_created (nat (lim_runRetentionCount L)) (hi_runs s)));
          s1 = s\<lparr>hi_runs := delete_where (\<lambda>r. ro_status r \<noteq> Running \<and> ro_id r \<notin> kept) (hi_runs s)\<rparr>
      in if 0 < lim_runRetentionDays L then
           (let cutoff = now - lim_runRetentionDays L * 86400000
            in s1\<lparr>hi_runs := delete_where (\<lambda>r. ro_created r < cutoff \<and> ro_status r \<noteq> Running) (hi_runs s1),
                  hi_usage := delete_where (\<lambda>u. ug_day u < utc_day cutoff) (hi_usage s1)\<rparr>)
         else s1)"

definition run_by_id :: "string \<Rightarrow> history \<Rightarrow> run_row option" where
  "run_by_id i s = select_one (\<lambda>r. ro_id r = i) (hi_runs s)"

text \<open>\<open>runGet\<close> with a filter: an id that is not empty, else the idempotency key.\<close>

definition run_get :: "string option \<Rightarrow> string option \<Rightarrow> history \<Rightarrow> run_row option" where
  "run_get i key s =
     (case some_text i of
        Some x \<Rightarrow> run_by_id x s
      | None \<Rightarrow> select_one (\<lambda>r. ro_key r = Some (case key of Some k \<Rightarrow> k | None \<Rightarrow> [])) (hi_runs s))"

definition new_run :: "string \<Rightarrow> run_kind \<Rightarrow> string option \<Rightarrow> string option \<Rightarrow> string option \<Rightarrow> int \<Rightarrow> run_row" where
  "new_run i kind package key job now =
     \<lparr>ro_id = i, ro_kind = kind, ro_package = package, ro_key = key, ro_status = Running, ro_created = now,
      ro_finished = None, ro_duration = None, ro_result = None, ro_error = None, ro_logs = ''[]'', ro_warnings = [],
      ro_gateway = [], ro_triage = None, ro_note = None, ro_triaged_at = None, ro_triaged_by = None, ro_job = job\<rparr>"

definition count_run :: "int \<Rightarrow> history \<Rightarrow> history" where
  "count_run day s =
     s\<lparr>hi_usage := upsert (\<lambda>u. ug_day u = day) (\<lambda>u. u\<lparr>ug_runs := ug_runs u + 1\<rparr>) ((no_usage day)\<lparr>ug_runs := 1\<rparr>) (hi_usage s)\<rparr>"

text \<open>The flag says whether an earlier run is replayed. The indexes refuse a second row of an id or a key.\<close>

definition run_start ::
  "quotas \<Rightarrow> limits \<Rightarrow> string \<Rightarrow> run_kind \<Rightarrow> string option \<Rightarrow> string option \<Rightarrow> string option \<Rightarrow> int \<Rightarrow> history \<Rightarrow>
     (run_row \<times> bool) res \<times> history" where
  "run_start Q L i kind package key job now s =
     (case Option.bind (some_text key) (\<lambda>k. run_get None (Some k) s) of
        Some r \<Rightarrow> (Inr (r, True), s)
      | None \<Rightarrow>
        (let day = utc_day now; u = usage_for day s in
         case bind_res (assert_quota Q QRunsPerDay (ug_runs u)) (\<lambda>_. assert_quota Q QExecuteMsPerDay (ug_execute u)) of
           Inl e \<Rightarrow> (Inl e, s)
         | Inr _ \<Rightarrow>
           if list_ex (\<lambda>r. ro_id r = i \<or> key \<noteq> None \<and> ro_key r = key) (hi_runs s) then (internal_error, s)
           else
             (let s' = prune_runs L now (count_run day (s\<lparr>hi_runs := hi_runs s @ [new_run i kind package key job now]\<rparr>))
              in (case run_get (Some i) None s' of Some r \<Rightarrow> Inr (r, False) | None \<Rightarrow> internal_error, s'))))"

definition auto_resolve_note :: string where "auto_resolve_note = ''auto-resolved: later success of the same job''"
definition auto_resolve_by :: string where "auto_resolve_by = ''system:auto-resolve''"

definition earlier :: "run_row \<Rightarrow> run_row \<Rightarrow> bool" where
  "earlier r q = (ro_created r < ro_created q \<or> ro_created r = ro_created q \<and> ro_id r < ro_id q)"

definition open_error :: "run_row \<Rightarrow> bool" where
  "open_error r = (ro_status r = Failed \<and> ro_triage r = None)"

definition auto_resolve_job :: "string \<Rightarrow> string \<Rightarrow> int \<Rightarrow> history \<Rightarrow> nat \<times> history" where
  "auto_resolve_job i job now s =
     (case run_by_id i s of
        None \<Rightarrow> (0, s)
      | Some q \<Rightarrow>
        (let P = (\<lambda>r. open_error r \<and> ro_kind r = JobRun \<and> ro_job r = Some job \<and>
               (ro_created r < ro_created q \<or> ro_created r = ro_created q \<and> ro_id r < i))
         in (length (filter P (hi_runs s)),
             s\<lparr>hi_runs := update_where P
               (\<lambda>r. r\<lparr>ro_triage := Some Resolved, ro_note := Some auto_resolve_note, ro_triaged_at := Some now,
                      ro_triaged_by := Some auto_resolve_by\<rparr>) (hi_runs s)\<rparr>)))"

record run_outcome =
  oc_ok :: bool
  oc_result :: "string option"
  oc_error :: "(string \<times> string) option"
  oc_logs :: "string option"
  oc_warnings :: "string list"
  oc_duration :: int

definition record_text_limit :: nat where "record_text_limit = 256 * 1024"

definition quoted :: "string \<Rightarrow> string" where
  "quoted t = [CHR 34] @ t @ [CHR 34]"

definition result_too_large :: string where
  "result_too_large = [CHR ''{''] @ quoted ''truncated'' @ '':true,'' @ quoted ''note'' @ '':'' @
     quoted ''Result exceeded the 256 KiB run-record limit.'' @ [CHR ''}'']"

definition logs_too_large :: string where
  "logs_too_large = ''[{'' @ quoted ''level'' @ '':'' @ quoted ''warn'' @ '','' @ quoted ''args'' @ '':['' @
     quoted ''Logs exceeded the 256 KiB run-record limit.'' @ '']}]''"

definition kept_result :: "string option \<Rightarrow> string option" where
  "kept_result r = map_option (\<lambda>t. if record_text_limit < length t then result_too_large else t) r"

definition kept_logs :: "string option \<Rightarrow> string" where
  "kept_logs l =
     (let t = (case l of Some t \<Rightarrow> t | None \<Rightarrow> ''[]'') in if record_text_limit < length t then logs_too_large else t)"

definition count_finish :: "int \<Rightarrow> run_outcome \<Rightarrow> history \<Rightarrow> history" where
  "count_finish day out s =
     (let errors = (if oc_ok out then 0 else 1); ms = nat (max 0 (oc_duration out))
      in s\<lparr>hi_usage := upsert (\<lambda>u. ug_day u = day)
           (\<lambda>u. u\<lparr>ug_errors := ug_errors u + errors, ug_execute := ug_execute u + ms\<rparr>)
           ((no_usage day)\<lparr>ug_errors := errors, ug_execute := ms\<rparr>) (hi_usage s)\<rparr>)"

definition finished_row :: "run_outcome \<Rightarrow> int \<Rightarrow> run_row \<Rightarrow> run_row" where
  "finished_row out now r =
     r\<lparr>ro_status := (if oc_ok out then Success else Failed), ro_finished := Some now, ro_duration := Some (oc_duration out),
       ro_result := kept_result (oc_result out), ro_error := oc_error out, ro_logs := kept_logs (oc_logs out),
       ro_warnings := oc_warnings out\<rparr>"

definition resolve_earlier :: "string \<Rightarrow> int \<Rightarrow> history \<Rightarrow> history" where
  "resolve_earlier i now s =
     (case run_by_id i s of
        Some r \<Rightarrow>
          (case some_text (ro_job r) of
             Some job \<Rightarrow> if ro_kind r = JobRun then snd (auto_resolve_job i job now s) else s
           | None \<Rightarrow> s)
      | None \<Rightarrow> s)"

definition run_finish :: "limits \<Rightarrow> string \<Rightarrow> run_outcome \<Rightarrow> int \<Rightarrow> history \<Rightarrow> run_row res \<times> history" where
  "run_finish L i out now s =
     (let s1 = s\<lparr>hi_runs := update_where (\<lambda>r. ro_id r = i) (finished_row out now) (hi_runs s)\<rparr>;
          s2 = (if oc_ok out then resolve_earlier i now s1 else s1);
          s3 = prune_runs L now (count_finish (utc_day now) out s2)
      in (case run_get (Some i) None s3 of Some r \<Rightarrow> Inr r | None \<Rightarrow> internal_error, s3))"

definition gateway_events_kept :: nat where "gateway_events_kept = 100"

definition last_n :: "nat \<Rightarrow> 'a list \<Rightarrow> 'a list" where
  "last_n n xs = drop (length xs - n) xs"

definition run_record_gateway_event :: "string \<Rightarrow> json \<Rightarrow> history \<Rightarrow> history" where
  "run_record_gateway_event i e s =
     s\<lparr>hi_runs := update_where (\<lambda>r. ro_id r = i)
        (\<lambda>r. r\<lparr>ro_gateway := last_n gateway_events_kept (ro_gateway r @ [e])\<rparr>) (hi_runs s)\<rparr>"

section \<open>Triage\<close>

definition error_triage_where :: "triage_filter \<Rightarrow> run_row \<Rightarrow> bool" where
  "error_triage_where f r =
     (case f of OpenErrors \<Rightarrow> open_error r | Triaged t \<Rightarrow> ro_triage r = Some t | AllRuns \<Rightarrow> True)"

text \<open>\<open>ORDER BY created_at DESC, id DESC\<close>.\<close>

definition latest_first :: "run_row list \<Rightarrow> run_row list" where
  "latest_first t = rev (sort_key ro_created (sort_key ro_id t))"

definition run_list :: "int option \<Rightarrow> triage_filter option \<Rightarrow> history \<Rightarrow> run_row list" where
  "run_list limit f s =
     (let n = min (max (case limit of Some l \<Rightarrow> l | None \<Rightarrow> 20) 1) 200
      in take (nat n) (latest_first (filter (error_triage_where (case f of Some g \<Rightarrow> g | None \<Rightarrow> AllRuns)) (hi_runs s))))"

record run_summary =
  su_since :: int
  su_total :: nat
  su_errors :: nat
  su_ignored :: nat
  su_resolved :: nat
  su_running :: nat
  su_kinds :: "(run_kind \<times> nat \<times> nat) list"

definition kinds_by_name :: "run_kind list" where
  "kinds_by_name = [AppRun, ExecuteRun, JobRun, PackageRun, SecretProviderRun, SubscriptionRun, WebhookRun]"

definition summary :: "int option \<Rightarrow> int \<Rightarrow> history \<Rightarrow> run_summary" where
  "summary since now s =
     (let oldest = (case map ro_created (hi_runs s) of [] \<Rightarrow> now | ts \<Rightarrow> Min (set ts));
          start = (case since of Some t \<Rightarrow> t | None \<Rightarrow> oldest);
          rows = filter (\<lambda>r. start \<le> ro_created r) (hi_runs s);
          n = (\<lambda>P. length (filter P rows))
      in \<lparr>su_since = start, su_total = length rows, su_errors = n open_error,
          su_ignored = n (\<lambda>r. ro_triage r = Some Ignored), su_resolved = n (\<lambda>r. ro_triage r = Some Resolved),
          su_running = n (\<lambda>r. ro_status r = Running),
          su_kinds = map (\<lambda>k. (k, n (\<lambda>r. ro_kind r = k), n (\<lambda>r. ro_kind r = k \<and> open_error r)))
            (filter (\<lambda>k. list_ex (\<lambda>r. ro_kind r = k) rows) kinds_by_name)\<rparr>)"

definition triage_row :: "triage_update \<Rightarrow> string option \<Rightarrow> string \<Rightarrow> int \<Rightarrow> run_row \<Rightarrow> run_row" where
  "triage_row t note editor now r =
     (case t of
        Reopen \<Rightarrow> r\<lparr>ro_triage := None, ro_note := None, ro_triaged_at := None, ro_triaged_by := None\<rparr>
      | SetTriage v \<Rightarrow>
        (case note of
           None \<Rightarrow> r\<lparr>ro_triage := Some v, ro_triaged_at := Some now, ro_triaged_by := Some editor\<rparr>
         | Some n \<Rightarrow>
           r\<lparr>ro_triage := Some v, ro_note := some_text (Some (trim n)), ro_triaged_at := Some now, ro_triaged_by := Some editor\<rparr>))"

definition apply_triage ::
  "string list \<Rightarrow> triage_update \<Rightarrow> string option \<Rightarrow> string \<Rightarrow> int \<Rightarrow> history \<Rightarrow> nat \<times> history" where
  "apply_triage ids t note editor now s =
     (length (filter (\<lambda>r. ro_id r \<in> set ids) (hi_runs s)),
      s\<lparr>hi_runs := update_where (\<lambda>r. ro_id r \<in> set ids) (triage_row t note editor now) (hi_runs s)\<rparr>)"

definition run_triage_update ::
  "string \<Rightarrow> triage_update \<Rightarrow> string option \<Rightarrow> string \<Rightarrow> int \<Rightarrow> history \<Rightarrow> run_row res \<times> history" where
  "run_triage_update i t note editor now s =
     (case run_by_id i s of
        None \<Rightarrow> (Inl (KodyError ''run_not_found'' 404), s)
      | Some r \<Rightarrow>
        if t \<noteq> Reopen \<and> ro_status r \<noteq> Failed then (fails ''run_not_error'', s)
        else
          (let s' = snd (apply_triage [i] t note editor now s)
           in (case run_get (Some i) None s' of Some q \<Rightarrow> Inr q | None \<Rightarrow> Inl (KodyError ''run_not_found'' 404), s')))"

definition filter_matches :: "bulk_filter \<Rightarrow> run_row \<Rightarrow> bool" where
  "filter_matches f r =
     (error_triage_where (bf_triage f) r \<and>
      (case bf_kind f of Some k \<Rightarrow> ro_kind r = k | None \<Rightarrow> True) \<and>
      (case bf_package f of Some p \<Rightarrow> ro_package r = Some p | None \<Rightarrow> True) \<and>
      (case bf_job f of Some j \<Rightarrow> ro_job r = Some j | None \<Rightarrow> True) \<and>
      (case bf_error_name f of Some n \<Rightarrow> map_option fst (ro_error r) = Some n | None \<Rightarrow> True) \<and>
      (case bf_error_message f of Some m \<Rightarrow> map_option snd (ro_error r) = Some m | None \<Rightarrow> True))"

definition bulk_matches :: "bulk_input \<Rightarrow> run_row \<Rightarrow> bool" where
  "bulk_matches i r =
     (ro_status r = Failed \<and>
      (case bk_triage i of Reopen \<Rightarrow> ro_triage r \<noteq> None | SetTriage t \<Rightarrow> ro_triage r \<noteq> Some t) \<and>
      (case bk_ids i of Some ids \<Rightarrow> ro_id r \<in> set ids | None \<Rightarrow> True) \<and>
      (case bk_filter i of Some f \<Rightarrow> filter_matches f r | None \<Rightarrow> True))"

record bulk_result =
  br_ids :: "string list"
  br_updated :: nat
  br_more :: bool
  br_dry :: bool

definition run_triage_bulk :: "bulk_input \<Rightarrow> string \<Rightarrow> int \<Rightarrow> history \<Rightarrow> bulk_result \<times> history" where
  "run_triage_bulk i editor now s =
     (let ids = map ro_id (take (bk_limit i + 1) (latest_first (filter (bulk_matches i) (hi_runs s))));
          matched = take (bk_limit i) ids;
          more = (bk_limit i < length ids)
      in if bk_dry i \<or> matched = [] then
           (\<lparr>br_ids = matched, br_updated = 0, br_more = more, br_dry = bk_dry i\<rparr>, s)
         else
           (let (n, s') = apply_triage matched (bk_triage i) (bk_note i) editor now s
            in (\<lparr>br_ids = matched, br_updated = n, br_more = more, br_dry = False\<rparr>, s')))"

section \<open>Bulk triage makes progress\<close>

primrec bulk_repeat :: "bulk_input \<Rightarrow> string \<Rightarrow> nat \<Rightarrow> int \<Rightarrow> history \<Rightarrow> history" where
  "bulk_repeat i editor 0 now s = s"
| "bulk_repeat i editor (Suc k) now s = bulk_repeat i editor k now (snd (run_triage_bulk i editor now s))"

definition pending :: "bulk_input \<Rightarrow> history \<Rightarrow> nat" where
  "pending i s = length (filter (bulk_matches i) (hi_runs s))"

lemma latest_first_mset [simp]: "mset (latest_first t) = mset t"
  by (simp add: latest_first_def)

lemma latest_first_set [simp]: "set (latest_first t) = set t"
  by (metis latest_first_mset set_mset_mset)

lemma latest_first_length [simp]: "length (latest_first t) = length t"
  by (metis latest_first_mset size_mset)

lemma length_filter_mset: "mset xs = mset ys \<Longrightarrow> length (filter P xs) = length (filter P ys)"
  by (metis mset_filter size_mset)

lemma triaged_no_match: "\<not> bulk_matches i (triage_row (bk_triage i) note editor now r)"
  by (simp add: bulk_matches_def triage_row_def split: triage_update.split option.split)

definition bulk_picks :: "bulk_input \<Rightarrow> history \<Rightarrow> string list" where
  "bulk_picks i s = map ro_id (take (bk_limit i) (latest_first (filter (bulk_matches i) (hi_runs s))))"

lemma bulk_ids: "br_ids (fst (run_triage_bulk i editor now s)) = bulk_picks i s"
  by (simp add: run_triage_bulk_def bulk_picks_def Let_def take_map min_def case_prod_beta)

lemma bulk_more: "br_more (fst (run_triage_bulk i editor now s)) \<longleftrightarrow> bk_limit i < pending i s"
  by (cases "filter (bulk_matches i) (hi_runs s) = []")
    (auto simp: run_triage_bulk_def pending_def Let_def case_prod_beta min_def latest_first_def)

lemma bulk_state:
  assumes "\<not> bk_dry i"
  shows "hi_runs (snd (run_triage_bulk i editor now s)) =
    update_where (\<lambda>r. ro_id r \<in> set (bulk_picks i s)) (triage_row (bk_triage i) (bk_note i) editor now) (hi_runs s)"
proof (cases "bulk_picks i s = []")
  case True
  then have "snd (run_triage_bulk i editor now s) = s"
    by (simp add: run_triage_bulk_def bulk_picks_def Let_def take_map min_def)
  moreover have "update_where (\<lambda>r. False) f t = t" for f :: "run_row \<Rightarrow> run_row" and t
    by (simp add: update_where_def)
  ultimately show ?thesis using True by simp
next
  case False
  then show ?thesis
    using assms by (simp add: run_triage_bulk_def bulk_picks_def apply_triage_def Let_def take_map min_def)
qed

lemma pending_decreases:
  assumes "\<not> bk_dry i"
  shows "pending i (snd (run_triage_bulk i editor now s)) \<le> pending i s - bk_limit i"
proof -
  let ?ids = "set (bulk_picks i s)" and ?sorted = "latest_first (filter (bulk_matches i) (hi_runs s))"
  have "filter (bulk_matches i) (update_where (\<lambda>r. ro_id r \<in> ?ids) (triage_row (bk_triage i) (bk_note i) editor now) t) =
      filter (\<lambda>r. ro_id r \<notin> ?ids) (filter (bulk_matches i) t)" for t
    by (induction t) (auto simp: triaged_no_match)
  then have "pending i (snd (run_triage_bulk i editor now s)) =
      length (filter (\<lambda>r. ro_id r \<notin> ?ids) (filter (bulk_matches i) (hi_runs s)))"
    unfolding pending_def bulk_state [OF assms] by (simp only:)
  also have "\<dots> = length (filter (\<lambda>r. ro_id r \<notin> ?ids) ?sorted)"
    by (rule length_filter_mset) simp
  also have "filter (\<lambda>r. ro_id r \<notin> ?ids) ?sorted =
      filter (\<lambda>r. ro_id r \<notin> ?ids) (take (bk_limit i) ?sorted) @ filter (\<lambda>r. ro_id r \<notin> ?ids) (drop (bk_limit i) ?sorted)"
    by (metis append_take_drop_id filter_append)
  also have "filter (\<lambda>r. ro_id r \<notin> ?ids) (take (bk_limit i) ?sorted) = []"
    by (auto simp: bulk_picks_def filter_empty_conv)
  also have "length ([] @ filter (\<lambda>r. ro_id r \<notin> ?ids) (drop (bk_limit i) ?sorted)) \<le> length (drop (bk_limit i) ?sorted)"
    unfolding append_Nil by (rule length_filter_le)
  also have "\<dots> = pending i s - bk_limit i" by (simp add: pending_def)
  finally show ?thesis .
qed

text \<open>C15 (liveness). A bulk triage that is repeated while it reports more always gets done: after as many calls as the limit
  needs to cover the matching runs none is left, and the next call finds nothing and reports no more.\<close>

theorem bulk_triage_finishes:
  assumes "parse_run_triage_bulk args = Inr i" "\<not> bk_dry i" "pending i s \<le> k * bk_limit i"
  shows "br_ids (fst (run_triage_bulk i editor now (bulk_repeat i editor k now s))) = [] \<and>
    \<not> br_more (fst (run_triage_bulk i editor now (bulk_repeat i editor k now s)))"
proof -
  have "pending i (bulk_repeat i editor k now s) = 0"
    using assms(3)
  proof (induction k arbitrary: s)
    case (Suc k)
    have "pending i (snd (run_triage_bulk i editor now s)) \<le> k * bk_limit i"
      using pending_decreases [OF assms(2), of editor now s] Suc.prems by simp
    from Suc.IH [OF this] show ?case by simp
  qed simp
  then show ?thesis by (simp add: bulk_ids bulk_more bulk_picks_def pending_def latest_first_def)
qed

theorem bulk_triage_finishes_witness:
  "\<exists>i. bk_limit i = 1 \<and> pending i \<lparr>hi_runs = [(new_run ''a'' JobRun None None None 1)\<lparr>ro_status := Failed\<rparr>,
       (new_run ''b'' JobRun None None None 2)\<lparr>ro_status := Failed\<rparr>], hi_usage = []\<rparr> = 2 \<and>
     br_ids (fst (run_triage_bulk i ''u'' 9 (bulk_repeat i ''u'' 2 9 \<lparr>hi_runs = [(new_run ''a'' JobRun None None None 1)\<lparr>ro_status := Failed\<rparr>,
       (new_run ''b'' JobRun None None None 2)\<lparr>ro_status := Failed\<rparr>], hi_usage = []\<rparr>))) = []"
proof -
  let ?args = "[(''triage'', JStr ''ignored''), (''runIds'', JArr [JStr ''a'', JStr ''b'']), (''limit'', JNum (Num 1))]"
  let ?i = "\<lparr>bk_ids = Some [''a'', ''b''], bk_filter = None, bk_triage = SetTriage Ignored, bk_note = None, bk_limit = 1, bk_dry = False\<rparr>"
  let ?s = "\<lparr>hi_runs = [(new_run ''a'' JobRun None None None 1)\<lparr>ro_status := Failed\<rparr>,
       (new_run ''b'' JobRun None None None 2)\<lparr>ro_status := Failed\<rparr>], hi_usage = []\<rparr>"
  have ok: "parse_run_triage_bulk ?args = Inr ?i"
    by (simp add: parse_run_triage_bulk_def bulk_by_ids_def bind_res_def parse_run_triage_def one_of_def triage_updates_def
        json_field_def parse_triage_note_def nullish_def parse_bulk_limit_def integer_value_def bulk_max_limit_def parse_run_ids_def
        nonempty_text_def)
  have two: "pending ?i ?s = 2"
    by (simp add: pending_def bulk_matches_def new_run_def)
  have "br_ids (fst (run_triage_bulk ?i ''u'' 9 (bulk_repeat ?i ''u'' 2 9 ?s))) = []"
    by (rule conjunct1 [OF bulk_triage_finishes [OF ok]]) (use two in simp_all)
  with two show ?thesis by (intro exI [of _ ?i]) simp
qed

section \<open>Retention\<close>

lemma pruned_subset: "set (hi_runs (prune_runs L now s)) \<subseteq> set (hi_runs s)"
  by (auto simp: prune_runs_def Let_def)

lemma prune_small:
  assumes "length (hi_runs s) \<le> nat (lim_runRetentionCount L)" "lim_runRetentionDays L \<le> 0"
  shows "prune_runs L now s = s"
proof -
  have "delete_where (\<lambda>r. ro_status r \<noteq> Running \<and> ro_id r \<notin> set (map ro_id (newest ro_created (nat (lim_runRetentionCount L)) (hi_runs s))))
      (hi_runs s) = hi_runs s"
    using set_newest_all [OF assms(1), of ro_created] by (intro delete_where_none) auto
  then show ?thesis using assms(2) by (simp add: prune_runs_def Let_def)
qed

lemma running_kept: "r \<in> set (hi_runs s) \<Longrightarrow> ro_status r = Running \<Longrightarrow> r \<in> set (hi_runs (prune_runs L now s))"
  by (auto simp: prune_runs_def Let_def)

lemma count_run_runs [simp]: "hi_runs (count_run day s) = hi_runs s"
  by (simp add: count_run_def)

lemma count_finish_runs [simp]: "hi_runs (count_finish day out s) = hi_runs s"
  by (simp add: count_finish_def Let_def)

definition resolved_row :: "int \<Rightarrow> run_row \<Rightarrow> run_row" where
  "resolved_row now r =
     r\<lparr>ro_triage := Some Resolved, ro_note := Some auto_resolve_note, ro_triaged_at := Some now, ro_triaged_by := Some auto_resolve_by\<rparr>"

lemma resolved_row_simps [simp]: "ro_id (resolved_row now r) = ro_id r" "ro_triage (resolved_row now r) = Some Resolved"
  by (simp_all add: resolved_row_def)

definition earlier_error :: "string \<Rightarrow> run_row \<Rightarrow> run_row \<Rightarrow> bool" where
  "earlier_error job q r = (open_error r \<and> ro_kind r = JobRun \<and> ro_job r = Some job \<and> earlier r q)"

lemma resolve_earlier_eq:
  assumes "run_by_id i s = Some q" "ro_kind q = JobRun" "ro_job q = Some job" "job \<noteq> []"
  shows "hi_runs (resolve_earlier i now s) = update_where (earlier_error job q) (resolved_row now) (hi_runs s)"
proof -
  have "ro_id q = i" using assms(1) by (auto simp: run_by_id_def dest: select_one_SomeD)
  then have "earlier_error job q = (\<lambda>r. open_error r \<and> ro_kind r = JobRun \<and> ro_job r = Some job \<and>
      (ro_created r < ro_created q \<or> ro_created r = ro_created q \<and> ro_id r < i))"
    by (auto simp: earlier_error_def earlier_def)
  moreover have "resolved_row now = (\<lambda>r. r\<lparr>ro_triage := Some Resolved, ro_note := Some auto_resolve_note,
      ro_triaged_at := Some now, ro_triaged_by := Some auto_resolve_by\<rparr>)"
    by (simp add: resolved_row_def fun_eq_iff)
  ultimately show ?thesis
    using assms by (simp add: resolve_earlier_def auto_resolve_job_def some_text_def Let_def)
qed

lemma resolve_earlier_mem:
  "r \<in> set (hi_runs (resolve_earlier i now s)) \<Longrightarrow> \<exists>p\<in>set (hi_runs s). ro_id p = ro_id r \<and> (r = p \<or> open_error p)"
  by (auto simp: resolve_earlier_def auto_resolve_job_def Let_def split: option.splits if_splits dest!: update_where_mem)

lemma finished_mem:
  assumes "p \<in> set (update_where (\<lambda>r. ro_id r = i) (finished_row out now) t)"
  shows "if ro_id p = i then ro_status p = (if oc_ok out then Success else Failed) else p \<in> set t"
proof -
  obtain p0 where p0: "p0 \<in> set t" "p = (if ro_id p0 = i then finished_row out now p0 else p0)"
    using update_where_mem [OF assms] by blast
  have "ro_id (finished_row out now p0) = ro_id p0"
    "ro_status (finished_row out now p0) = (if oc_ok out then Success else Failed)"
    by (simp_all add: finished_row_def)
  with p0 show ?thesis by (cases "ro_id p0 = i") simp_all
qed

lemma run_get_id: "run_get (Some i) None s = Some r \<Longrightarrow> i \<noteq> [] \<Longrightarrow> r \<in> set (hi_runs s) \<and> ro_id r = i"
  by (auto simp: run_get_def some_text_def run_by_id_def dest: select_one_SomeD)

lemma run_by_id_mem: "distinct (map ro_id (hi_runs s)) \<Longrightarrow> r \<in> set (hi_runs s) \<Longrightarrow> run_by_id (ro_id r) s = Some r"
  unfolding run_by_id_def by (rule select_one_unique [where key = ro_id]) auto

lemma resolve_earlier_find:
  assumes "run_by_id i s = Some r" "\<not> open_error r"
  shows "run_by_id i (resolve_earlier i now s) = Some r"
proof -
  have "run_by_id i (snd (auto_resolve_job i job now s)) = Some r" for job
    using assms by (simp add: auto_resolve_job_def Let_def run_by_id_def select_one_update_where)
  then show ?thesis
    using assms(1) by (simp add: resolve_earlier_def split: option.split)
qed

lemma resolve_earlier_length [simp]: "length (hi_runs (resolve_earlier i now s)) = length (hi_runs s)"
  by (simp add: resolve_earlier_def auto_resolve_job_def Let_def split: option.split)

text \<open>Finishing a run before it is pruned.\<close>

definition finished_state :: "string \<Rightarrow> run_outcome \<Rightarrow> int \<Rightarrow> history \<Rightarrow> history" where
  "finished_state i out now s =
     (let s1 = s\<lparr>hi_runs := update_where (\<lambda>r. ro_id r = i) (finished_row out now) (hi_runs s)\<rparr>
      in count_finish (utc_day now) out (if oc_ok out then resolve_earlier i now s1 else s1))"

lemma run_finish_state: "snd (run_finish L i out now s) = prune_runs L now (finished_state i out now s)"
  by (simp add: run_finish_def finished_state_def Let_def)

lemma finished_state_find:
  assumes "run_by_id i s = Some r"
  shows "run_by_id i (finished_state i out now s) = Some (finished_row out now r)"
proof -
  let ?s1 = "s\<lparr>hi_runs := update_where (\<lambda>r. ro_id r = i) (finished_row out now) (hi_runs s)\<rparr>"
  have "ro_id r = i" using assms by (auto simp: run_by_id_def dest: select_one_SomeD)
  then have one: "run_by_id i ?s1 = Some (finished_row out now r)"
    using assms by (simp add: run_by_id_def select_one_update_where finished_row_def)
  moreover have "run_by_id i (resolve_earlier i now ?s1) = Some (finished_row out now r)" if "oc_ok out"
    using one that by (intro resolve_earlier_find) (simp_all add: open_error_def finished_row_def)
  ultimately show ?thesis by (simp add: finished_state_def Let_def run_by_id_def)
qed

lemma finished_state_length [simp]: "length (hi_runs (finished_state i out now s)) = length (hi_runs s)"
  by (simp add: finished_state_def Let_def)

lemma finish_answers:
  assumes "run_by_id i s = Some r" "i \<noteq> []" "length (hi_runs s) \<le> nat (lim_runRetentionCount L)" "lim_runRetentionDays L \<le> 0"
  shows "fst (run_finish L i out now s) = Inr (finished_row out now r)"
proof -
  have "prune_runs L now (finished_state i out now s) = finished_state i out now s"
    using assms(3,4) by (intro prune_small) simp_all
  then have "run_get (Some i) None (prune_runs L now (finished_state i out now s)) = Some (finished_row out now r)"
    using finished_state_find [OF assms(1)] assms(2) by (simp add: run_get_def some_text_def)
  then show ?thesis by (simp add: run_finish_def finished_state_def Let_def)
qed

text \<open>When a run of a job succeeds, every open error of that job that started before it is resolved, and no
  other run is touched apart from the finished one: an error of an overlapping run that started later stays open.\<close>

theorem later_success_resolves:
  assumes "run_finish L i out now s = (Inr q, s')" "i \<noteq> []" "oc_ok out" "distinct (map ro_id (hi_runs s))"
    "ro_kind q = JobRun" "ro_job q = Some job" "job \<noteq> []"
  shows "(\<forall>r\<in>set (hi_runs s'). \<not> earlier_error job q r) \<and>
    (\<forall>r\<in>set (hi_runs s'). ro_id r \<noteq> i \<longrightarrow>
       (\<exists>p\<in>set (hi_runs s). r = (if earlier_error job q p then resolved_row now p else p)))"
proof -
  define s1 where "s1 = s\<lparr>hi_runs := update_where (\<lambda>r. ro_id r = i) (finished_row out now) (hi_runs s)\<rparr>"
  define s2 where "s2 = resolve_earlier i now s1"
  have sub: "set (hi_runs s') \<subseteq> set (hi_runs s2)" and get: "run_get (Some i) None s' = Some q"
    using assms(1,3) pruned_subset by (fastforce simp: run_finish_def Let_def s1_def s2_def split: option.splits)+
  have ids: "distinct (map ro_id (hi_runs s1))"
    using assms(4) by (simp add: s1_def map_update_where finished_row_def)
  have q: "q \<in> set (hi_runs s2)" "ro_id q = i"
    using run_get_id [OF get assms(2)] sub by auto
  obtain p where p: "p \<in> set (hi_runs s1)" "ro_id p = i" "q = p \<or> open_error p"
    using resolve_earlier_mem [OF q(1) [unfolded s2_def]] q(2) by blast
  have "ro_status p = Success"
    using finished_mem [of p i out now "hi_runs s"] p(1,2) assms(3) by (simp add: s1_def)
  then have "q = p" using p(3) by (simp add: open_error_def)
  then have "run_by_id i s1 = Some q"
    using run_by_id_mem [OF ids p(1)] p(2) by simp
  then have rows: "hi_runs s2 = update_where (earlier_error job q) (resolved_row now) (hi_runs s1)"
    unfolding s2_def using assms(5-7) by (rule resolve_earlier_eq)
  have one: "\<exists>p\<in>set (hi_runs s1). r = (if earlier_error job q p then resolved_row now p else p)" if "r \<in> set (hi_runs s')" for r
    using that sub unfolding rows by (blast dest: update_where_mem)
  have "\<not> earlier_error job q r" if r: "r \<in> set (hi_runs s')" for r
  proof -
    obtain p where p: "r = (if earlier_error job q p then resolved_row now p else p)" using one [OF r] by blast
    show ?thesis
    proof (cases "earlier_error job q p")
      case True
      then have "\<not> open_error r" using p resolved_row_simps(2) by (simp add: open_error_def)
      then show ?thesis by (simp add: earlier_error_def)
    qed (use p in simp)
  qed
  moreover have "\<exists>p\<in>set (hi_runs s). r = (if earlier_error job q p then resolved_row now p else p)"
    if r: "r \<in> set (hi_runs s')" "ro_id r \<noteq> i" for r
  proof -
    obtain p where p: "p \<in> set (hi_runs s1)" "r = (if earlier_error job q p then resolved_row now p else p)"
      using one [OF r(1)] by blast
    then have "ro_id p \<noteq> i" using r(2) by (cases "earlier_error job q p") simp_all
    with p(1) have "p \<in> set (hi_runs s)"
      using finished_mem [of p i out now "hi_runs s"] by (simp add: s1_def)
    with p(2) show ?thesis by blast
  qed
  ultimately show ?thesis by blast
qed

definition job_run :: "string \<Rightarrow> int \<Rightarrow> run_status \<Rightarrow> run_row" where
  "job_run i created st = (new_run i JobRun None None (Some ''j'') created)\<lparr>ro_status := st\<rparr>"

definition job_history :: history where
  "job_history = \<lparr>hi_runs = [job_run ''a'' 1 Failed, job_run ''b'' 2 Running, job_run ''c'' 3 Failed], hi_usage = []\<rparr>"

definition job_success :: run_outcome where
  "job_success = \<lparr>oc_ok = True, oc_result = None, oc_error = None, oc_logs = None, oc_warnings = [], oc_duration = 4\<rparr>"

theorem later_success_resolves_witness:
  "\<exists>q s'. run_finish default_limits ''b'' job_success 9 job_history = (Inr q, s') \<and>
     (\<forall>r\<in>set (hi_runs s'). \<not> earlier_error ''j'' q r)"
proof -
  obtain q s' where r: "run_finish default_limits ''b'' job_success 9 job_history = (Inr q, s')" "ro_kind q = JobRun" "ro_job q = Some ''j''"
  proof -
    have "fst (run_finish default_limits ''b'' job_success 9 job_history) = Inr (finished_row job_success 9 (job_run ''b'' 2 Running))"
      by (rule finish_answers) (simp_all add: run_by_id_def job_history_def job_run_def new_run_def default_limits_def)
    then show thesis
      using that by (cases "run_finish default_limits ''b'' job_success 9 job_history") (simp add: finished_row_def job_run_def new_run_def)
  qed
  show ?thesis using later_success_resolves [OF r(1) _ _ _ r(2,3)] r(1) by (auto simp: job_history_def job_run_def new_run_def job_success_def)
qed

section \<open>Replayed runs\<close>

text \<open>Starting a run again with the same idempotency key, at any later time and for any kind, answers the run
  that was started first and changes nothing.\<close>

theorem started_run_replayed:
  assumes "run_start Q L i kind package (Some key) job now s = (Inr (r, replayed), s')" "key \<noteq> []" "i \<noteq> []"
    "distinct (map ro_id (hi_runs s))"
  shows "run_start Q' L' i' kind' package' (Some key) job' now' s' = (Inr (r, True), s')"
proof (cases "run_get None (Some key) s")
  case (Some q)
  then have "q = r" "s' = s"
    using assms(1,2) by (simp_all add: run_start_def some_text_def)
  with Some show ?thesis using assms(2) by (simp add: run_start_def some_text_def)
next
  case None
  let ?new = "new_run i kind package (Some key) job now"
  define s1 where "s1 = s\<lparr>hi_runs := hi_runs s @ [?new]\<rparr>"
  have fresh: "\<not> list_ex (\<lambda>q. ro_id q = i \<or> Some key \<noteq> None \<and> ro_key q = Some key) (hi_runs s)"
    and s': "s' = prune_runs L now (count_run (utc_day now) s1)" and get: "run_get (Some i) None s' = Some r"
    using assms(1,2) None by (auto simp: run_start_def some_text_def Let_def s1_def split: sum.splits if_splits option.splits)
  have new: "?new \<in> set (hi_runs s')"
    unfolding s' by (rule running_kept) (simp_all add: s1_def new_run_def)
  have sub: "set (hi_runs s') \<subseteq> set (hi_runs s) \<union> {?new}"
    using pruned_subset unfolding s' by (fastforce simp: s1_def)
  have "r = ?new"
    using run_get_id [OF get assms(3)] sub fresh by (auto simp: list_ex_iff)
  moreover have "select_one (\<lambda>q. ro_key q = Some key) (hi_runs s') = Some ?new"
  proof (cases "select_one (\<lambda>q. ro_key q = Some key) (hi_runs s')")
    case None
    then show ?thesis using new by (auto simp: select_one_None_iff new_run_def)
  next
    case (Some q)
    then have "q \<in> set (hi_runs s')" "ro_key q = Some key" by (auto dest: select_one_SomeD)
    then have "q = ?new" using sub fresh by (auto simp: list_ex_iff)
    with Some show ?thesis by simp
  qed
  ultimately show ?thesis
    using assms(2) by (simp add: run_start_def run_get_def some_text_def)
qed

theorem started_run_replayed_witness:
  "\<exists>r s'. run_start (\<lambda>_. 0) default_limits ''r2'' JobRun None (Some ''k1'') None 99 s' = (Inr (r, True), s')"
proof -
  let ?s = "\<lparr>hi_runs = [], hi_usage = []\<rparr>"
  obtain r s' where r: "run_start (\<lambda>_. 0) default_limits ''r1'' ExecuteRun None (Some ''k1'') None 5 ?s = (Inr (r, False), s')"
  proof -
    have "prune_runs default_limits 5 (count_run (utc_day 5) (?s\<lparr>hi_runs := [new_run ''r1'' ExecuteRun None (Some ''k1'') None 5]\<rparr>)) =
        count_run (utc_day 5) (?s\<lparr>hi_runs := [new_run ''r1'' ExecuteRun None (Some ''k1'') None 5]\<rparr>)"
      by (rule prune_small) (simp_all add: default_limits_def)
    then show thesis
      using that by (simp add: run_start_def run_get_def run_by_id_def some_text_def assert_quota_def within_quota_def bind_res_def Let_def new_run_def)
  qed
  show ?thesis by (intro exI, rule started_run_replayed [OF r]) simp_all
qed

section \<open>Runs that outlive their record\<close>

lemma resolve_earlier_keys:
  assumes "\<And>r. key (r\<lparr>ro_triage := Some Resolved, ro_note := Some auto_resolve_note, ro_triaged_at := Some now,
    ro_triaged_by := Some auto_resolve_by\<rparr>) = key r"
  shows "map key (hi_runs (resolve_earlier i now s)) = map key (hi_runs s)"
  using assms by (auto simp: resolve_earlier_def auto_resolve_job_def Let_def map_update_where split: option.split)

lemma finished_state_keys:
  "map ro_id (hi_runs (finished_state i out now s)) = map ro_id (hi_runs s)"
  "map ro_created (hi_runs (finished_state i out now s)) = map ro_created (hi_runs s)"
  "map ro_key (hi_runs (finished_state i out now s)) = map ro_key (hi_runs s)"
  by (simp_all add: finished_state_def Let_def resolve_earlier_keys map_update_where finished_row_def)

lemma newer_kept_too:
  assumes "r \<in> set (newest k n t)" "distinct t"
  shows "length (filter (\<lambda>q. k r < k q) t) < n"
proof -
  have "set (filter (\<lambda>q. k r < k q) t) \<subseteq> set (newest k n t) - {r}"
    using newest_cut [of _ t k n r] assms(1) by fastforce
  then have "card (set (filter (\<lambda>q. k r < k q) t)) \<le> card (set (newest k n t) - {r})"
    by (rule card_mono [rotated]) simp
  also have "\<dots> < card (set (newest k n t))"
    using assms(1) by (intro psubset_card_mono) auto
  also have "\<dots> \<le> n"
    using card_length [of "newest k n t"] by simp
  finally show ?thesis using assms(2) by (metis distinct_card distinct_filter)
qed

lemma length_filter_by_key: "length (filter (\<lambda>q. P (key q)) t) = length (filter P (map key t))"
  by (simp add: filter_map comp_def)

lemma pruned_away:
  assumes "run_by_id i s = Some r" "distinct (map ro_id (hi_runs s))" "ro_status r \<noteq> Running"
    "nat (lim_runRetentionCount L) \<le> length (filter (\<lambda>q. ro_created r < ro_created q) (hi_runs s))"
  shows "run_by_id i (prune_runs L now s) = None"
proof -
  let ?n = "nat (lim_runRetentionCount L)"
  have r: "r \<in> set (hi_runs s)" "ro_id r = i"
    using assms(1) by (auto simp: run_by_id_def dest: select_one_SomeD)
  have "r \<notin> set (newest ro_created ?n (hi_runs s))"
    using newer_kept_too [of r ro_created ?n "hi_runs s"] assms(2,4) by (auto simp: distinct_map)
  then have "i \<notin> ro_id ` set (newest ro_created ?n (hi_runs s))"
    using set_newest_subset [of ro_created ?n "hi_runs s"] r assms(2) by (auto simp: distinct_map inj_on_def)
  moreover have "q = r" if "q \<in> set (hi_runs s)" "ro_id q = i" for q
    using that r assms(2) by (auto simp: distinct_map inj_on_def)
  ultimately show ?thesis
    using assms(3) by (auto simp: run_by_id_def select_one_None_iff prune_runs_def Let_def)
qed

text \<open>A run during which as many newer runs were started as the retention keeps is deleted by the very call that
  records its outcome: the outcome is lost, and the caller gets an internal error for a run that succeeded.\<close>

theorem long_run_lost:
  assumes "run_by_id i s = Some r" "i \<noteq> []" "distinct (map ro_id (hi_runs s))"
    "nat (lim_runRetentionCount L) \<le> length (filter (\<lambda>q. ro_created r < ro_created q) (hi_runs s))"
  shows "fst (run_finish L i out now s) = internal_error \<and> run_by_id i (snd (run_finish L i out now s)) = None"
proof -
  let ?s = "finished_state i out now s"
  have "length (filter (\<lambda>q. ro_created r < ro_created q) (hi_runs ?s)) =
      length (filter (\<lambda>q. ro_created r < ro_created q) (hi_runs s))"
    unfolding length_filter_by_key [where key = ro_created] finished_state_keys ..
  moreover have "ro_created (finished_row out now r) = ro_created r" "ro_status (finished_row out now r) \<noteq> Running"
    by (simp_all add: finished_row_def)
  ultimately have "nat (lim_runRetentionCount L) \<le> length (filter (\<lambda>q. ro_created (finished_row out now r) < ro_created q) (hi_runs ?s))"
    "ro_status (finished_row out now r) \<noteq> Running"
    using assms(4) by (simp_all only: simp_thms)
  then have gone: "run_by_id i (prune_runs L now ?s) = None"
    using assms(3) by (intro pruned_away [OF finished_state_find [OF assms(1)]]) (simp_all only: finished_state_keys simp_thms)
  then have "run_get (Some i) None (prune_runs L now ?s) = None"
    using assms(2) by (simp add: run_get_def some_text_def)
  with gone show ?thesis by (simp add: run_finish_def finished_state_def Let_def)
qed

theorem long_run_lost_witness:
  "fst (run_finish (default_limits\<lparr>lim_runRetentionCount := 2\<rparr>) ''a'' job_success 9
     \<lparr>hi_runs = [job_run ''a'' 1 Running, job_run ''b'' 2 Success, job_run ''c'' 3 Success], hi_usage = []\<rparr>) = internal_error"
  by (rule conjunct1 [OF long_run_lost [where r = "job_run ''a'' 1 Running"]])
    (simp_all add: run_by_id_def job_run_def new_run_def)

section \<open>The daily quota\<close>

primrec starts :: "quotas \<Rightarrow> limits \<Rightarrow> (string \<times> run_kind \<times> string option \<times> int) list \<Rightarrow> history \<Rightarrow> nat" where
  "starts Q L [] s = 0"
| "starts Q L (a # as) s =
     (let (r, s') = run_start Q L (fst a) (fst (snd a)) None (fst (snd (snd a))) None (snd (snd (snd a))) s
      in (case r of Inr (_, replayed) \<Rightarrow> if replayed then 0 else 1 | Inl _ \<Rightarrow> 0) + starts Q L as s')"

lemma usage_pruned:
  "usage_for (utc_day now) (prune_runs L now s) = usage_for (utc_day now) s"
proof -
  have "select_one (\<lambda>u. ug_day u = utc_day now)
      (delete_where (\<lambda>u. ug_day u < utc_day (now - lim_runRetentionDays L * 86400000)) (hi_usage s)) =
      select_one (\<lambda>u. ug_day u = utc_day now) (hi_usage s)" if "0 < lim_runRetentionDays L"
  proof (rule select_one_delete_where)
    have "utc_day (now - lim_runRetentionDays L * 86400000) \<le> utc_day now"
      using that by (simp add: utc_day_def zdiv_mono1)
    then show "\<not> ug_day u < utc_day (now - lim_runRetentionDays L * 86400000)" if "ug_day u = utc_day now" for u
      using that by simp
  qed
  then show ?thesis by (auto simp: prune_runs_def usage_for_def Let_def)
qed

lemma usage_counted: "ug_runs (usage_for day (count_run day s)) = Suc (ug_runs (usage_for day s))"
  by (simp add: usage_for_def count_run_def select_one_upsert no_usage_def split: option.split)

lemma start_usage:
  assumes "run_start Q L i kind package key job now s = (r, s')"
  shows "case r of
      Inr (q, False) \<Rightarrow> ug_runs (usage_for (utc_day now) s') = Suc (ug_runs (usage_for (utc_day now) s)) \<and>
        within_quota (Q QRunsPerDay) (ug_runs (usage_for (utc_day now) s))
    | _ \<Rightarrow> ug_runs (usage_for (utc_day now) s) \<le> ug_runs (usage_for (utc_day now) s')"
proof (cases "Option.bind (some_text key) (\<lambda>k. run_get None (Some k) s)")
  case (Some q)
  then show ?thesis using assms by (auto simp: run_start_def)
next
  case None
  show ?thesis
  proof (cases "bind_res (assert_quota Q QRunsPerDay (ug_runs (usage_for (utc_day now) s)))
      (\<lambda>_. assert_quota Q QExecuteMsPerDay (ug_execute (usage_for (utc_day now) s)))")
    case (Inl e)
    then show ?thesis using assms None by (auto simp: run_start_def Let_def)
  next
    case (Inr u)
    then have within: "within_quota (Q QRunsPerDay) (ug_runs (usage_for (utc_day now) s))"
      by (auto simp: bind_res_Inr)
    let ?s = "s\<lparr>hi_runs := hi_runs s @ [new_run i kind package key job now]\<rparr>"
    have "usage_for (utc_day now) ?s = usage_for (utc_day now) s" by (simp add: usage_for_def)
    then have "ug_runs (usage_for (utc_day now) (prune_runs L now (count_run (utc_day now) ?s))) = Suc (ug_runs (usage_for (utc_day now) s))"
      by (simp add: usage_pruned usage_counted)
    then show ?thesis
      using assms None Inr within by (auto simp: run_start_def Let_def split: if_splits option.splits)
  qed
qed

text \<open>On one day no more runs are started than the quota leaves, however many are asked for.\<close>

theorem daily_run_quota:
  assumes "0 < Q QRunsPerDay" "\<forall>a\<in>set as. utc_day (snd (snd (snd a))) = day"
  shows "starts Q L as s \<le> Q QRunsPerDay - ug_runs (usage_for day s)"
  using assms(2)
proof (induction as arbitrary: s)
  case (Cons a as)
  obtain r s' where r: "run_start Q L (fst a) (fst (snd a)) None (fst (snd (snd a))) None (snd (snd (snd a))) s = (r, s')"
    by (cases "run_start Q L (fst a) (fst (snd a)) None (fst (snd (snd a))) None (snd (snd (snd a))) s")
  have ih: "starts Q L as s' \<le> Q QRunsPerDay - ug_runs (usage_for day s')"
    using Cons by simp
  have day: "utc_day (snd (snd (snd a))) = day" using Cons.prems by simp
  show ?case
    using start_usage [OF r] ih r assms(1) unfolding day
    by (cases r rule: sum.exhaust) (auto simp: within_quota_def split: if_splits bool.splits)
qed simp

theorem daily_run_quota_witness:
  "starts (\<lambda>_. 3) default_limits (replicate 100 (''r'', ExecuteRun, None, 5)) \<lparr>hi_runs = [], hi_usage = []\<rparr> \<le> 3"
  using daily_run_quota [of "\<lambda>_. 3" "replicate 100 (''r'', ExecuteRun, None, 5)" 0 default_limits "\<lparr>hi_runs = [], hi_usage = []\<rparr>"]
  by (simp add: utc_day_def usage_for_def no_usage_def)

section \<open>Consistent tables\<close>

datatype run_op =
    StartRun string run_kind "string option" "string option" "string option" int
  | FinishRun string run_outcome int
  | GatewayEvent string json
  | UpdateTriage string triage_update "string option" string int
  | BulkTriage bulk_input string int

primrec run_step :: "quotas \<Rightarrow> limits \<Rightarrow> run_op \<Rightarrow> history \<Rightarrow> history" where
  "run_step Q L (StartRun i kind package key job now) s = snd (run_start Q L i kind package key job now s)"
| "run_step Q L (FinishRun i out now) s = snd (run_finish L i out now s)"
| "run_step Q L (GatewayEvent i e) s = run_record_gateway_event i e s"
| "run_step Q L (UpdateTriage i t note editor now) s = snd (run_triage_update i t note editor now s)"
| "run_step Q L (BulkTriage b editor now) s = snd (run_triage_bulk b editor now s)"

definition rows_ok :: "run_row list \<Rightarrow> bool" where
  "rows_ok t =
     (distinct (map ro_id t) \<and>
      (\<forall>r\<in>set t. \<forall>q\<in>set t. ro_key r = ro_key q \<and> ro_key r \<noteq> None \<longrightarrow> ro_id r = ro_id q) \<and>
      (\<forall>r\<in>set t. length (ro_gateway r) \<le> gateway_events_kept))"

definition history_ok :: "history \<Rightarrow> bool" where
  "history_ok s = (rows_ok (hi_runs s) \<and> distinct (map ug_day (hi_usage s)))"

lemma rows_ok_update:
  assumes "rows_ok t" "\<And>r. ro_id (f r) = ro_id r" "\<And>r. ro_key (f r) = ro_key r"
    "\<And>r. length (ro_gateway r) \<le> gateway_events_kept \<Longrightarrow> length (ro_gateway (f r)) \<le> gateway_events_kept"
  shows "rows_ok (update_where P f t)"
proof -
  have row: "\<exists>p\<in>set t. ro_id r = ro_id p \<and> ro_key r = ro_key p \<and> length (ro_gateway r) \<le> gateway_events_kept"
    if r: "r \<in> set (update_where P f t)" for r
  proof -
    obtain p where p: "p \<in> set t" "r = (if P p then f p else p)"
      using update_where_mem [OF r] by blast
    then show ?thesis using assms by (intro bexI [of _ p]) (simp_all add: rows_ok_def)
  qed
  have "distinct (map ro_id (update_where P f t))"
    using assms(1,2) by (simp add: rows_ok_def map_update_where)
  moreover have "ro_id r = ro_id q"
    if "r \<in> set (update_where P f t)" "q \<in> set (update_where P f t)" "ro_key r = ro_key q" "ro_key r \<noteq> None" for r q
    using row [OF that(1)] row [OF that(2)] that(3,4) assms(1) unfolding rows_ok_def by metis
  ultimately show ?thesis
    using row unfolding rows_ok_def by blast
qed

lemma rows_ok_delete: "rows_ok t \<Longrightarrow> rows_ok (delete_where P t)"
  unfolding rows_ok_def set_delete_where by (blast intro: distinct_delete_where)

lemma rows_ok_append:
  assumes "rows_ok t" "\<not> list_ex (\<lambda>r. ro_id r = ro_id q \<or> ro_key q \<noteq> None \<and> ro_key r = ro_key q) t" "ro_gateway q = []"
  shows "rows_ok (t @ [q])"
proof -
  have new: "ro_id r \<noteq> ro_id q \<and> (ro_key q = None \<or> ro_key r \<noteq> ro_key q)" if "r \<in> set t" for r
    using assms(2) that unfolding list_ex_iff by blast
  then have "distinct (map ro_id (t @ [q]))"
    using assms(1) by (fastforce simp: rows_ok_def)
  moreover have "ro_id r = ro_id p"
    if "r \<in> set (t @ [q])" "p \<in> set (t @ [q])" "ro_key r = ro_key p" "ro_key r \<noteq> None" for r p
  proof -
    have "r = q \<and> p = q \<or> r \<in> set t \<and> p \<in> set t"
      using that new by (cases "r \<in> set t"; cases "p \<in> set t") auto
    then show ?thesis using that(3,4) assms(1) unfolding rows_ok_def by blast
  qed
  moreover have "length (ro_gateway r) \<le> gateway_events_kept" if "r \<in> set (t @ [q])" for r
    using that assms(1,3) by (auto simp: rows_ok_def)
  ultimately show ?thesis unfolding rows_ok_def by blast
qed

lemma history_ok_prune: "history_ok s \<Longrightarrow> history_ok (prune_runs L now s)"
  by (simp add: history_ok_def prune_runs_def Let_def rows_ok_delete distinct_delete_where)

lemma history_ok_update:
  assumes "history_ok s" "\<And>r. ro_id (f r) = ro_id r" "\<And>r. ro_key (f r) = ro_key r"
    "\<And>r. length (ro_gateway r) \<le> gateway_events_kept \<Longrightarrow> length (ro_gateway (f r)) \<le> gateway_events_kept"
  shows "history_ok (s\<lparr>hi_runs := update_where P f (hi_runs s)\<rparr>)"
  using assms rows_ok_update [of "hi_runs s" f P] by (simp add: history_ok_def)

lemma history_ok_usage: "history_ok s \<Longrightarrow> distinct (map ug_day u) \<Longrightarrow> history_ok (s\<lparr>hi_usage := u\<rparr>)"
  by (simp add: history_ok_def)

lemma history_ok_finish: "history_ok s \<Longrightarrow> history_ok (finished_state i out now s)"
proof -
  assume ok: "history_ok s"
  let ?s1 = "s\<lparr>hi_runs := update_where (\<lambda>r. ro_id r = i) (finished_row out now) (hi_runs s)\<rparr>"
  have one: "history_ok ?s1"
    using ok by (rule history_ok_update) (simp_all add: finished_row_def)
  have "history_ok (snd (auto_resolve_job i job now ?s1))" for job
  proof (cases "run_by_id i ?s1")
    case (Some q)
    then show ?thesis
      unfolding auto_resolve_job_def Let_def Some option.case snd_conv by (intro history_ok_update [OF one]) simp_all
  qed (use one in \<open>simp add: auto_resolve_job_def\<close>)
  then have two: "history_ok (resolve_earlier i now ?s1)"
    using one by (simp add: resolve_earlier_def split: option.split)
  have "history_ok (count_finish d out t)" if "history_ok t" for t d
    unfolding count_finish_def Let_def
    using that by (intro history_ok_usage distinct_upsert) (auto simp: history_ok_def no_usage_def)
  with one two show ?thesis by (simp add: finished_state_def Let_def)
qed

lemma history_ok_start: "history_ok s \<Longrightarrow> history_ok (snd (run_start Q L i kind package key job now s))"
proof -
  assume ok: "history_ok s"
  let ?s1 = "s\<lparr>hi_runs := hi_runs s @ [new_run i kind package key job now]\<rparr>"
  have "history_ok (prune_runs L now (count_run (utc_day now) ?s1))"
    if "\<not> list_ex (\<lambda>r. ro_id r = i \<or> key \<noteq> None \<and> ro_key r = key) (hi_runs s)"
  proof (rule history_ok_prune)
    have "history_ok ?s1"
      using ok that by (simp add: history_ok_def new_run_def rows_ok_append)
    then show "history_ok (count_run (utc_day now) ?s1)"
      unfolding count_run_def by (intro history_ok_usage distinct_upsert) (auto simp: history_ok_def no_usage_def)
  qed
  then show ?thesis
    using ok by (auto simp: run_start_def Let_def split: option.split sum.split)
qed

lemma triage_row_simps [simp]: "ro_id (triage_row t note editor now r) = ro_id r" "ro_key (triage_row t note editor now r) = ro_key r"
  "ro_gateway (triage_row t note editor now r) = ro_gateway r"
  by (simp_all add: triage_row_def split: triage_update.split option.split)

lemma history_ok_apply: "history_ok s \<Longrightarrow> history_ok (snd (apply_triage ids t note editor now s))"
  unfolding apply_triage_def snd_conv by (rule history_ok_update) simp_all

lemma history_ok_step: "history_ok s \<Longrightarrow> history_ok (run_step Q L op s)"
proof (induction op)
  case (FinishRun i out now)
  then show ?case by (simp add: run_finish_state history_ok_prune history_ok_finish)
next
  case (GatewayEvent i e)
  then show ?case
    unfolding run_step.simps run_record_gateway_event_def by (rule history_ok_update) (simp_all add: last_n_def)
next
  case (BulkTriage b editor now)
  then show ?case
    using history_ok_apply [OF BulkTriage] by (auto simp: run_triage_bulk_def Let_def case_prod_beta)
qed (auto simp: history_ok_start run_triage_update_def Let_def history_ok_apply split: option.split)

interpretation run_tables: invariant_store "run_step Q L" history_ok for Q L
  by unfold_locales (rule history_ok_step)

text \<open>Whatever runs are started, finished and triaged, the history keeps one row per id, at most one run per
  idempotency key, one usage row per day and at most 100 gateway events per run.\<close>

theorem run_history_consistent:
  "history_ok (fold (run_step Q L) ops \<lparr>hi_runs = [], hi_usage = []\<rparr>)"
  by (rule run_tables.run_inv) (simp add: history_ok_def rows_ok_def)

end
