(* ===== verification/BlobKeys.thy ===== *)
theory BlobKeys
  imports Keyring JsValue
begin

text \<open>
  src/src/blobs/keys.ts: blob keys and prefixes, content types, and the signature of a download
  link. HMAC and the text of a number are parameters; assembling the link's URL is not modelled.
\<close>

section \<open>Keys\<close>

definition max_blob_key_length :: nat where "max_blob_key_length = 512"

definition key_char :: "char \<Rightarrow> bool" where
  "key_char c = (is_alnum c \<or> c \<in> set ''!_.*()@=,:+ -'' \<or> unit_of c = 39)"

definition key_pattern :: "string \<Rightarrow> bool" where
  "key_pattern k = (k \<noteq> [] \<and> key_char (hd k) \<and> list_all (\<lambda>c. key_char c \<or> c = CHR ''/'') (tl k))"

definition blob_key_of :: "string \<Rightarrow> string res" where
  "blob_key_of input =
     (let k = trim input in
      if k = [] \<or> max_blob_key_length < length k \<or> \<not> key_pattern k \<or> ends_with k ''/'' \<or>
        list_ex (\<lambda>t. t = [] \<or> t = ''.'' \<or> t = ''..'') (split_on CHR ''/'' k)
      then fails ''invalid_blob_key'' else Inr k)"

text \<open>A value that is not a string is refused.\<close>

definition normalize_blob_key :: "json option \<Rightarrow> string res" where
  "normalize_blob_key input = (case input of Some (JStr t) \<Rightarrow> blob_key_of t | _ \<Rightarrow> fails ''invalid_blob_key'')"

definition strip_slashes :: "string \<Rightarrow> string" where
  "strip_slashes t = rev (dropWhile (\<lambda>c. c = CHR ''/'') (rev t))"

definition normalize_blob_prefix :: "json option \<Rightarrow> string res" where
  "normalize_blob_prefix input =
     (case input of
        None \<Rightarrow> Inr []
      | Some JNull \<Rightarrow> Inr []
      | Some (JStr t) \<Rightarrow>
        (let p = trim t in
         if p = [] then Inr []
         else bind_res (blob_key_of (strip_slashes p)) (\<lambda>k. Inr (if ends_with p ''/'' then k @ ''/'' else k)))
      | _ \<Rightarrow> fails ''invalid_blob_key'')"

definition user_prefix :: "string \<Rightarrow> string" where
  "user_prefix uid = ''users/'' @ uid @ ''/''"

definition object_key_for :: "string \<Rightarrow> string \<Rightarrow> string" where
  "object_key_for uid k = ''users/'' @ uid @ ''/'' @ k"

section \<open>Content types\<close>

definition content_types_by_extension :: "(string \<times> string) list" where
  "content_types_by_extension =
     [(''txt'', ''text/plain; charset=utf-8''), (''md'', ''text/markdown; charset=utf-8''),
      (''csv'', ''text/csv; charset=utf-8''), (''html'', ''text/html; charset=utf-8''),
      (''htm'', ''text/html; charset=utf-8''), (''css'', ''text/css; charset=utf-8''),
      (''js'', ''text/javascript; charset=utf-8''), (''mjs'', ''text/javascript; charset=utf-8''),
      (''json'', ''application/json''), (''xml'', ''application/xml''), (''yaml'', ''application/yaml''),
      (''yml'', ''application/yaml''), (''pdf'', ''application/pdf''), (''zip'', ''application/zip''),
      (''png'', ''image/png''), (''jpg'', ''image/jpeg''), (''jpeg'', ''image/jpeg''), (''gif'', ''image/gif''),
      (''webp'', ''image/webp''), (''svg'', ''image/svg+xml''), (''ico'', ''image/x-icon''), (''mp3'', ''audio/mpeg''),
      (''wav'', ''audio/wav''), (''ogg'', ''audio/ogg''), (''mp4'', ''video/mp4''), (''webm'', ''video/webm''),
      (''woff2'', ''font/woff2'')]"

definition type_char :: "char \<Rightarrow> bool" where
  "type_char c = (is_alnum c \<or> c \<in> set ''!#$&^_.+-'')"

definition content_type_pattern :: "string \<Rightarrow> bool" where
  "content_type_pattern v =
     (let main = takeWhile type_char v; r = dropWhile type_char v;
          sub = takeWhile type_char (tl r); r' = dropWhile type_char (tl r); params = dropWhile is_space r'
      in main \<noteq> [] \<and> r \<noteq> [] \<and> hd r = CHR ''/'' \<and> sub \<noteq> [] \<and>
         (r' = [] \<or> params \<noteq> [] \<and> hd params = CHR '';'' \<and> list_all (\<lambda>c. unit_of c \<noteq> 10 \<and> unit_of c \<noteq> 13) params))"

text \<open>What the table lookup finds: an entry, nothing, or a property that every object inherits.\<close>

datatype content_type_of = TextType string | InheritedProperty string

definition inherited_names :: "string list" where
  "inherited_names = [''constructor'', ''__proto__'']"

definition extension_of :: "string \<Rightarrow> string" where
  "extension_of k = to_lower (last (split_on CHR ''.'' (last (split_on CHR ''/'' k))))"

definition resolve_content_type :: "string \<Rightarrow> string option \<Rightarrow> content_type_of res" where
  "resolve_content_type k explicit =
     (case explicit of
        Some t \<Rightarrow>
          (let v = trim t in
           if \<not> content_type_pattern v \<or> 200 < length v then fails ''invalid_args'' else Inr (TextType v))
      | None \<Rightarrow>
          (let e = extension_of k in
           case map_of content_types_by_extension e of
             Some t \<Rightarrow> Inr (TextType t)
           | None \<Rightarrow>
             if e \<in> set inherited_names then Inr (InheritedProperty e) else Inr (TextType ''application/octet-stream'')))"

definition is_text_content_type :: "string \<Rightarrow> bool" where
  "is_text_content_type t =
     (let v = to_lower (trim (hd (split_on CHR '';'' t))) in
      starts_with v ''text/'' \<or>
      v \<in> set [''application/json'', ''application/xml'', ''application/yaml'', ''application/javascript''] \<or>
      ends_with v ''+json'' \<or> ends_with v ''+xml'')"

section \<open>Signed links\<close>

record link_env =
  ln_crypto :: crypto
  ln_hmac :: "string \<Rightarrow> string \<Rightarrow> string"
  ln_number_text :: "js_num \<Rightarrow> string"

definition signing_key :: "link_env \<Rightarrow> string \<Rightarrow> string \<Rightarrow> string" where
  "signing_key E master uid =
     hkdf (ln_crypto E) (utf8_encode master) (utf8_encode (''kody-celld:'' @ uid)) (utf8_encode ''kody-celld-blob-urls'')"

definition signing_payload :: "link_env \<Rightarrow> string \<Rightarrow> string \<Rightarrow> js_num \<Rightarrow> string" where
  "signing_payload E uid k expires = utf8_encode (uid @ [CHR 0x00] @ k @ [CHR 0x00] @ ln_number_text E expires)"

definition sign_blob_link :: "link_env \<Rightarrow> string \<Rightarrow> string \<Rightarrow> string \<Rightarrow> js_num \<Rightarrow> string" where
  "sign_blob_link E master uid k expires =
     bytes_to_hex (ln_hmac E (signing_key E master uid) (signing_payload E uid k expires))"

definition lower_hex :: "char \<Rightarrow> bool" where
  "lower_hex c = (is_digit c \<or> in_range 97 102 c)"

definition unexpired :: "js_num \<Rightarrow> int \<Rightarrow> bool" where
  "unexpired expires now = (case expires of Num r \<Rightarrow> of_int now \<le> r * 1000 | _ \<Rightarrow> False)"

definition verify_blob_link :: "link_env \<Rightarrow> string \<Rightarrow> string \<Rightarrow> string \<Rightarrow> js_num \<Rightarrow> string \<Rightarrow> int \<Rightarrow> bool" where
  "verify_blob_link E master uid k expires sig now =
     (unexpired expires now \<and> length sig = 64 \<and> list_all lower_hex sig \<and>
      hex_to_bytes sig = ln_hmac E (signing_key E master uid) (signing_payload E uid k expires))"

section \<open>What a key looks like\<close>

lemma slash_no_key_char: "\<not> key_char CHR ''/''"
  by (simp add: key_char_def is_alnum_def is_digit_def is_lower_def is_upper_def in_range_def unit_of_def)

lemma nul_no_key_char: "\<not> key_char CHR 0x00"
  by (simp add: key_char_def is_alnum_def is_digit_def is_lower_def is_upper_def in_range_def unit_of_def)

lemma ends_with_single: "ends_with k [c] \<longleftrightarrow> k \<noteq> [] \<and> last k = c"
  by (cases k rule: rev_cases) (auto simp: ends_with_def)

definition blob_key_ok :: "string \<Rightarrow> bool" where
  "blob_key_ok k =
     (k \<noteq> [] \<and> length k \<le> max_blob_key_length \<and> list_all (\<lambda>c. key_char c \<or> c = CHR ''/'') k \<and>
      hd k \<noteq> CHR ''/'' \<and> last k \<noteq> CHR ''/'' \<and> (\<forall>t\<in>set (split_on CHR ''/'' k). t \<noteq> [] \<and> t \<noteq> ''.'' \<and> t \<noteq> ''..''))"

lemma blob_key_of_ok:
  assumes "blob_key_of t = Inr k"
  shows "blob_key_ok k"
proof -
  have k: "k \<noteq> []" "length k \<le> max_blob_key_length" "key_pattern k" "\<not> ends_with k ''/''"
    "\<not> list_ex (\<lambda>t. t = [] \<or> t = ''.'' \<or> t = ''..'') (split_on CHR ''/'' k)"
    using assms by (simp_all add: blob_key_of_def Let_def split: if_splits)
  have "key_char (hd k)" and chars: "list_all (\<lambda>c. key_char c \<or> c = CHR ''/'') k"
    using k(1,3) by (cases k; simp add: key_pattern_def)+
  then have "hd k \<noteq> CHR ''/''" using slash_no_key_char by metis
  moreover have "last k \<noteq> CHR ''/''" using k(1,4) by (simp only: ends_with_single simp_thms)
  moreover have "\<forall>t\<in>set (split_on CHR ''/'' k). t \<noteq> [] \<and> t \<noteq> ''.'' \<and> t \<noteq> ''..''"
    using k(5) unfolding list_ex_iff by blast
  ultimately show ?thesis
    using k(1,2) chars unfolding blob_key_ok_def by blast
qed

lemma blob_key_no_nul: "blob_key_ok k \<Longrightarrow> CHR 0x00 \<notin> set k"
  using nul_no_key_char by (auto simp: blob_key_ok_def list_all_iff)

lemma object_key_inject:
  "CHR ''/'' \<notin> set u \<Longrightarrow> CHR ''/'' \<notin> set v \<Longrightarrow> object_key_for u k = object_key_for v l \<longleftrightarrow> u = v \<and> k = l"
  by (simp add: object_key_for_def cut_eq)

section \<open>What a link opens\<close>

lemma signing_payload_inject:
  assumes "CHR 0x00 \<notin> set u" "CHR 0x00 \<notin> set v" "blob_key_ok k" "blob_key_ok l"
  shows "signing_payload E u k x = signing_payload E v l y \<longleftrightarrow> u = v \<and> k = l \<and> ln_number_text E x = ln_number_text E y"
  using assms blob_key_no_nul by (simp add: signing_payload_def utf8_encode_inject cut_eq)

lemma hex_digit_lower: "n < 16 \<Longrightarrow> lower_hex (hex_digit n)"
  by (simp add: lower_hex_def hex_digit_def is_digit_def in_range_def unit_of_char_of)

lemma lower_hex_bytes: "list_all lower_hex (bytes_to_hex bs)"
proof -
  have "lower_hex (hex_digit (unit_of b div 16)) \<and> lower_hex (hex_digit (unit_of b mod 16))" for b
    using unit_of_less [of b] by (intro conjI hex_digit_lower) (simp_all add: less_mult_imp_div_less)
  then show ?thesis by (auto simp: bytes_to_hex_def list_all_iff)
qed

text \<open>A signed download link opens the blob it was signed for until its expiry, and, unless the MAC collides,
  nothing else: not another user's blob, not another key, and not with a later expiry.\<close>

theorem signed_link_opens:
  assumes "\<And>k p. length (ln_hmac E k p) = 32" "CHR 0x00 \<notin> set u" "CHR 0x00 \<notin> set v" "blob_key_of t = Inr k" "blob_key_of t' = Inr l"
    "ln_hmac E (signing_key E master v) (signing_payload E v l (Num (of_int y))) =
       ln_hmac E (signing_key E master u) (signing_payload E u k (Num (of_int x))) \<longrightarrow>
     signing_payload E v l (Num (of_int y)) = signing_payload E u k (Num (of_int x))"
    "ln_number_text E (Num (of_int y)) = ln_number_text E (Num (of_int x)) \<longrightarrow> y = x"
  shows "verify_blob_link E master v l (Num (of_int y)) (sign_blob_link E master u k (Num (of_int x))) now \<longleftrightarrow>
    v = u \<and> l = k \<and> y = x \<and> now \<le> x * 1000"
proof -
  let ?p = "\<lambda>u k x. signing_payload E u k (Num (of_int x))"
  have "(of_int now :: rat) \<le> of_int y * 1000 \<longleftrightarrow> now \<le> y * 1000"
    by (metis of_int_le_iff of_int_mult of_int_numeral)
  then have "verify_blob_link E master v l (Num (of_int y)) (sign_blob_link E master u k (Num (of_int x))) now \<longleftrightarrow>
      now \<le> y * 1000 \<and> ln_hmac E (signing_key E master u) (?p u k x) = ln_hmac E (signing_key E master v) (?p v l y)"
    using assms(1) lower_hex_bytes by (simp add: verify_blob_link_def sign_blob_link_def unexpired_def)
  also have "\<dots> \<longleftrightarrow> v = u \<and> l = k \<and> y = x \<and> now \<le> x * 1000"
    using assms(6,7) signing_payload_inject [OF assms(3,2) blob_key_of_ok [OF assms(5)] blob_key_of_ok [OF assms(4)],
        of E "Num (of_int y)" "Num (of_int x)"] by auto
  finally show ?thesis .
qed

definition sample_link_env :: link_env where
  "sample_link_env =
     \<lparr>ln_crypto = sample_crypto, ln_hmac = (\<lambda>k p. take 32 (rev p @ replicate 32 (CHR ''0''))),
      ln_number_text = (\<lambda>x. case x of Num r \<Rightarrow> show_nat (nat \<lfloor>r\<rfloor>) | _ \<Rightarrow> [])\<rparr>"

theorem signed_link_opens_witness:
  "verify_blob_link sample_link_env ''m'' ''u1'' ''a/b.txt'' (Num (of_int 50)) (sign_blob_link sample_link_env ''m'' ''u1'' ''a/b.txt'' (Num (of_int 50))) 50000"
proof -
  have "blob_key_of ''a/b.txt'' = Inr ''a/b.txt''" by code_simp
  from signed_link_opens [OF _ _ _ this this, of sample_link_env "''u1''" "''u1''" "''m''" 50 50 50000]
  show ?thesis by (simp add: sample_link_env_def)
qed

lemma last_split_on: "last (split_on c (a @ c # b)) = last (split_on c b)"
proof (induction a)
  case (Cons x a)
  have "tl (split_on c (a @ c # b)) \<noteq> []" by (induction a) auto
  with Cons show ?case by (simp add: last_tl)
qed simp

text \<open>A blob whose name ends in ".constructor" or ".__proto__" and that is stored without a content type gets,
  instead of the default, what every object inherits under that name.\<close>

theorem inherited_content_type:
  assumes "CHR ''/'' \<notin> set n" "CHR ''.'' \<notin> set e" "CHR ''/'' \<notin> set e" "to_lower e \<in> {''constructor'', ''__proto__''}"
  shows "resolve_content_type (d @ CHR ''/'' # n @ CHR ''.'' # e) None = Inr (InheritedProperty (to_lower e))"
proof -
  have "extension_of (d @ CHR ''/'' # n @ CHR ''.'' # e) = to_lower e"
    using assms(1-3) by (simp add: extension_of_def last_split_on split_on_none)
  then show ?thesis
    using assms(4) by (auto simp: resolve_content_type_def Let_def content_types_by_extension_def inherited_names_def)
qed

theorem inherited_content_type_witness:
  "resolve_content_type ''js/point.constructor'' None = Inr (InheritedProperty ''constructor'')"
proof -
  have "to_lower ''constructor'' = ''constructor''" by code_simp
  then show ?thesis using inherited_content_type [of "''point''" "''constructor''" "''js''"] by simp
qed

end
