(* ===== verification/Blobs.thy ===== *)
theory Blobs
  imports Quotas BlobKeys "HOL-Library.List_Lexorder" "HOL-Library.Char_ord"
begin

text \<open>
  Blobs: the index in each user's cell (src/src/cells/user-cell.ts, blob*) and the service over
  the bucket (src/src/blobs/service.ts), with the handler of signed links (src/src/index.ts).
  The bucket is one map for all users from object keys to bodies; what it answers as an etag is
  a parameter, and its own content type and metadata, which nothing reads, are left out.
\<close>

section \<open>The index\<close>

record blob_row =
  bb_key :: string
  bb_size :: nat
  bb_content_type :: string
  bb_sha256 :: string
  bb_etag :: string
  bb_package :: "string option"
  bb_metadata :: "(string \<times> string) list"
  bb_created :: time
  bb_updated :: time

record blob_input =
  bi_key :: string
  bi_size :: nat
  bi_content_type :: content_type_of
  bi_sha256 :: string
  bi_etag :: string
  bi_package :: "string option"
  bi_metadata :: "(string \<times> string) list"

definition blob_bytes :: "blob_row list \<Rightarrow> nat" where
  "blob_bytes t = sum_list (map bb_size t)"

definition find_blob :: "string \<Rightarrow> blob_row list \<Rightarrow> blob_row option" where
  "find_blob k t = select_one (\<lambda>r. bb_key r = k) t"

definition assert_blob_quota :: "quotas \<Rightarrow> string \<Rightarrow> nat \<Rightarrow> blob_row list \<Rightarrow> blob_row option res" where
  "assert_blob_quota Q k n t =
     (let existing = find_blob k t in
      bind_res (if existing = None then assert_quota Q QBlobs (length t) else Inr ()) (\<lambda>_.
        let projected = int (blob_bytes t) - (case existing of Some r \<Rightarrow> int (bb_size r) | None \<Rightarrow> 0) + int n
        in if Q QBlobBytes \<noteq> 0 \<and> int (Q QBlobBytes) < projected then Inl (KodyError ''quota_exceeded'' 429)
           else Inr existing))"

definition blob_reserve :: "quotas \<Rightarrow> string \<Rightarrow> nat \<Rightarrow> blob_row list \<Rightarrow> blob_row option res" where
  "blob_reserve Q k n t = assert_blob_quota Q k n t"

text \<open>SQL binds texts and numbers only: an inherited property for a content type throws.\<close>

definition blob_index_put :: "quotas \<Rightarrow> blob_input \<Rightarrow> time \<Rightarrow> blob_row list \<Rightarrow> blob_row res \<times> blob_row list" where
  "blob_index_put Q i now t =
     (case assert_blob_quota Q (bi_key i) (bi_size i) t of
        Inl e \<Rightarrow> (Inl e, t)
      | Inr _ \<Rightarrow>
        (case bi_content_type i of
           InheritedProperty _ \<Rightarrow> (internal_error, t)
         | TextType ct \<Rightarrow>
           (let t' = upsert (\<lambda>r. bb_key r = bi_key i)
                  (\<lambda>r. r\<lparr>bb_size := bi_size i, bb_content_type := ct, bb_sha256 := bi_sha256 i, bb_etag := bi_etag i,
                         bb_package := bi_package i, bb_metadata := bi_metadata i, bb_updated := now\<rparr>)
                  \<lparr>bb_key = bi_key i, bb_size = bi_size i, bb_content_type = ct, bb_sha256 = bi_sha256 i, bb_etag = bi_etag i,
                   bb_package = bi_package i, bb_metadata = bi_metadata i, bb_created = now, bb_updated = now\<rparr> t
            in (case find_blob (bi_key i) t' of Some r \<Rightarrow> Inr r | None \<Rightarrow> internal_error, t'))))"

definition blob_index_delete :: "string \<Rightarrow> blob_row list \<Rightarrow> blob_row option \<times> blob_row list" where
  "blob_index_delete k t =
     (case find_blob k t of None \<Rightarrow> (None, t) | Some r \<Rightarrow> (Some r, delete_where (\<lambda>r. bb_key r = k) t))"

definition page_limit :: "int option \<Rightarrow> nat" where
  "page_limit limit = nat (min (max (case limit of Some l \<Rightarrow> l | None \<Rightarrow> 100) 1) 1000)"

definition page_match :: "string \<Rightarrow> string \<Rightarrow> blob_row \<Rightarrow> bool" where
  "page_match p cursor r = (take (length p) (bb_key r) = p \<and> cursor < bb_key r)"

definition blob_index_list ::
  "string option \<Rightarrow> string option \<Rightarrow> int option \<Rightarrow> blob_row list \<Rightarrow> blob_row list \<times> string option" where
  "blob_index_list p cursor limit t =
     (let n = page_limit limit;
          rows = take (n + 1) (sort_key bb_key (filter (page_match (case p of Some x \<Rightarrow> x | None \<Rightarrow> [])
            (case cursor of Some c \<Rightarrow> c | None \<Rightarrow> [])) t));
          page = take n rows
      in (page, if n < length rows then (if page = [] then None else Some (bb_key (last page))) else None))"

definition blob_usage :: "quotas \<Rightarrow> blob_row list \<Rightarrow> nat \<times> nat \<times> nat \<times> nat" where
  "blob_usage Q t = (length t, blob_bytes t, Q QBlobs, Q QBlobBytes)"

section \<open>Arguments of the service\<close>

definition metadata_char :: "char \<Rightarrow> bool" where
  "metadata_char c = (is_alnum c \<or> c \<in> set ''_.-'')"

definition max_metadata_entries :: nat where "max_metadata_entries = 20"
definition max_metadata_value :: nat where "max_metadata_value = 1024"

fun metadata_entries :: "(string \<times> json) list \<Rightarrow> (string \<times> string) list res" where
  "metadata_entries [] = Inr []"
| "metadata_entries ((k, v) # es) =
     (if k = [] \<or> 64 < length k \<or> \<not> list_all metadata_char k then fails ''invalid_args''
      else case v of
        JStr t \<Rightarrow>
          if max_metadata_value < length t then fails ''invalid_args''
          else bind_res (metadata_entries es) (\<lambda>out. Inr (if k = ''__proto__'' then out else (k, t) # out))
      | _ \<Rightarrow> fails ''invalid_args'')"

definition normalize_metadata :: "json option \<Rightarrow> (string \<times> string) list res" where
  "normalize_metadata input =
     (case input of
        None \<Rightarrow> Inr []
      | Some JNull \<Rightarrow> Inr []
      | Some (JObj es) \<Rightarrow> if max_metadata_entries < length es then fails ''invalid_args'' else metadata_entries es
      | _ \<Rightarrow> fails ''invalid_args'')"

definition base64_text :: "string \<Rightarrow> bool" where
  "base64_text c =
     (let r = dropWhile (\<lambda>x. is_alnum x \<or> x = CHR ''+'' \<or> x = CHR ''/'') c
      in (r = [] \<or> r = ''='' \<or> r = ''=='') \<and> length c mod 4 \<noteq> 1)"

definition decode_content :: "json option \<Rightarrow> json option \<Rightarrow> string res" where
  "decode_content content encoding =
     (case content of
        Some (JStr t) \<Rightarrow>
          (case encoding of
             None \<Rightarrow> Inr (utf8_encode t)
           | Some (JStr m) \<Rightarrow>
             if m = ''utf8'' then Inr (utf8_encode t)
             else if m = ''base64'' then
               (let c = filter (\<lambda>x. \<not> is_space x) t in
                if \<not> base64_text c then fails ''invalid_args''
                else case atob c of Some b \<Rightarrow> Inr b | None \<Rightarrow> internal_error)
             else fails ''invalid_args''
           | _ \<Rightarrow> fails ''invalid_args'')
      | _ \<Rightarrow> fails ''invalid_args'')"

section \<open>The service\<close>

record blob_env =
  be_link :: link_env
  be_master :: string
  be_quotas :: "string \<Rightarrow> quotas"
  be_max_bytes :: nat
  be_url_ttl :: int
  be_etag :: "string \<Rightarrow> string"

record blob_world =
  bw_index :: "string \<Rightarrow> blob_row list"
  bw_bucket :: "string \<Rightarrow> string option"

definition set_index :: "string \<Rightarrow> blob_row list \<Rightarrow> blob_world \<Rightarrow> blob_world" where
  "set_index uid t s = s\<lparr>bw_index := (bw_index s)(uid := t)\<rparr>"

record put_input =
  pi_key :: "json option"
  pi_body :: string
  pi_content_type :: "string option"
  pi_metadata :: "json option"

text \<open>The checks before anything is written, up to the row to be stored.\<close>

definition put_request :: "blob_env \<Rightarrow> string option \<Rightarrow> put_input \<Rightarrow> blob_input res" where
  "put_request E package i =
     bind_res (normalize_blob_key (pi_key i)) (\<lambda>k.
     bind_res (resolve_content_type k (pi_content_type i)) (\<lambda>ct.
     bind_res (normalize_metadata (pi_metadata i)) (\<lambda>meta.
       if be_max_bytes E < length (pi_body i) then Inl (KodyError ''blob_too_large'' 413)
       else Inr \<lparr>bi_key = k, bi_size = length (pi_body i), bi_content_type = ct,
                 bi_sha256 = bytes_to_hex (sha256 (ln_crypto (be_link E)) (pi_body i)), bi_etag = be_etag E (pi_body i),
                 bi_package = package, bi_metadata = meta\<rparr>)))"

text \<open>\<open>others\<close> is what other requests do to the index between the reservation and the index write.\<close>

definition blob_put ::
  "blob_env \<Rightarrow> string \<Rightarrow> string option \<Rightarrow> put_input \<Rightarrow> (blob_row list \<Rightarrow> blob_row list) \<Rightarrow> time \<Rightarrow> blob_world \<Rightarrow>
     blob_row res \<times> blob_world" where
  "blob_put E uid package i others now s =
     (case put_request E package i of
        Inl e \<Rightarrow> (Inl e, s)
      | Inr b \<Rightarrow>
        (case blob_reserve (be_quotas E uid) (bi_key b) (bi_size b) (bw_index s uid) of
           Inl e \<Rightarrow> (Inl e, s)
         | Inr previous \<Rightarrow>
           (let object = object_key_for uid (bi_key b);
                stored = s\<lparr>bw_bucket := (bw_bucket s)(object := Some (pi_body i))\<rparr>;
                (r, t') = blob_index_put (be_quotas E uid) b now (others (bw_index s uid));
                s' = set_index uid t' stored
            in case r of
              Inr row \<Rightarrow> (Inr row, s')
            | Inl e \<Rightarrow> (Inl e, if previous = None then s'\<lparr>bw_bucket := (bw_bucket s')(object := None)\<rparr> else s'))))"

definition blob_head :: "string \<Rightarrow> json option \<Rightarrow> blob_world \<Rightarrow> blob_row option res" where
  "blob_head uid input s = bind_res (normalize_blob_key input) (\<lambda>k. Inr (find_blob k (bw_index s uid)))"

definition blob_get :: "string \<Rightarrow> json option \<Rightarrow> blob_world \<Rightarrow> (blob_row \<times> string) option res \<times> blob_world" where
  "blob_get uid input s =
     (case normalize_blob_key input of
        Inl e \<Rightarrow> (Inl e, s)
      | Inr k \<Rightarrow>
        (case find_blob k (bw_index s uid) of
           None \<Rightarrow> (Inr None, s)
         | Some r \<Rightarrow>
           (case bw_bucket s (object_key_for uid k) of
              Some body \<Rightarrow> (Inr (Some (r, body)), s)
            | None \<Rightarrow> (Inr None, set_index uid (snd (blob_index_delete k (bw_index s uid))) s))))"


text \<open>\<open>prefix\<close>, \<open>cursor\<close> and \<open>limit\<close> as the caller sent them; a limit is modelled when it is an integer.\<close>

definition blob_list ::
  "string \<Rightarrow> json option \<Rightarrow> json option \<Rightarrow> json option \<Rightarrow> blob_world \<Rightarrow> (string \<times> blob_row list \<times> string option) res" where
  "blob_list uid p cursor limit s =
     bind_res (normalize_blob_prefix p) (\<lambda>pre.
       let c = (case cursor of Some (JStr t) \<Rightarrow> if t = [] then None else Some t | _ \<Rightarrow> None);
           l = (case limit of Some (JNum x) \<Rightarrow> integer_value x | _ \<Rightarrow> None)
       in Inr (pre, blob_index_list (Some pre) c l (bw_index s uid)))"

definition max_url_ttl :: int where "max_url_ttl = 7 * 24 * 3600"

definition url_ttl :: "blob_env \<Rightarrow> json option \<Rightarrow> int" where
  "url_ttl E expires_in =
     (case expires_in of Some (JNum (Num r)) \<Rightarrow> min (max \<lfloor>r\<rfloor> 1) max_url_ttl | _ \<Rightarrow> be_url_ttl E)"

record blob_link =
  lk_user :: string
  lk_key :: string
  lk_expires :: int
  lk_signature :: string

definition blob_url :: "blob_env \<Rightarrow> string \<Rightarrow> json option \<Rightarrow> json option \<Rightarrow> time \<Rightarrow> blob_world \<Rightarrow> blob_link res" where
  "blob_url E uid input expires_in now s =
     bind_res (normalize_blob_key input) (\<lambda>k.
       if find_blob k (bw_index s uid) = None then Inl (KodyError ''blob_not_found'' 404)
       else
         (let expires = now div 1000 + url_ttl E expires_in
          in Inr \<lparr>lk_user = uid, lk_key = k, lk_expires = expires,
                  lk_signature = sign_blob_link (be_link E) (be_master E) uid k (Num (of_int expires))\<rparr>))"

text \<open>The handler of \<open>GET /blobs/...\<close>, on the decoded path and query.\<close>

definition handle_signed_blob ::
  "blob_env \<Rightarrow> string \<Rightarrow> string \<Rightarrow> string \<Rightarrow> js_num \<Rightarrow> string \<Rightarrow> time \<Rightarrow> blob_world \<Rightarrow> (blob_row \<times> string) res \<times> blob_world" where
  "handle_signed_blob E verb uid k expires sig now s =
     (if verb \<noteq> ''GET'' \<and> verb \<noteq> ''HEAD'' then (Inl (KodyError ''not_found'' 405), s)
      else if uid = [] \<or> k = [] then (Inl (KodyError ''not_found'' 404), s)
      else if \<not> verify_blob_link (be_link E) (be_master E) uid k expires sig now then (Inl (KodyError ''blob_link_invalid'' 403), s)
      else
        (let (r, s') = blob_get uid (Some (JStr k)) s
         in (case r of
               Inl e \<Rightarrow> Inl e
             | Inr None \<Rightarrow> Inl (KodyError ''blob_not_found'' 404)
             | Inr (Some found) \<Rightarrow> Inr (fst found, if verb = ''HEAD'' then [] else snd found), s')))"

section \<open>Listing\<close>

text \<open>A caller that follows the cursors; the fuel bounds the number of pages.\<close>

primrec all_pages :: "nat \<Rightarrow> string \<Rightarrow> int option \<Rightarrow> string option \<Rightarrow> blob_row list \<Rightarrow> blob_row list option" where
  "all_pages 0 p limit cursor t = None"
| "all_pages (Suc n) p limit cursor t =
     (let (page, next_cursor) = blob_index_list (Some p) cursor limit t
      in case next_cursor of
           None \<Rightarrow> Some page
         | Some c \<Rightarrow> map_option (\<lambda>rest. page @ rest) (all_pages n p limit (Some c) t))"

lemma page_limit_pos: "0 < page_limit limit"
  by (simp add: page_limit_def split: option.split)

lemma rest_of_page:
  assumes "distinct (map bb_key t)" "n < length (sort_key bb_key t)" "0 < n" "k = bb_key (last (take n (sort_key bb_key t)))"
  shows "sort_key bb_key (filter (\<lambda>r. k < bb_key r) t) = drop n (sort_key bb_key t)" "\<exists>r\<in>set t. bb_key r = k"
proof -
  let ?s = "sort_key bb_key t"
  have sorted: "sorted (map bb_key (take n ?s @ drop n ?s))" by simp
  have distinct: "distinct (map bb_key (take n ?s @ drop n ?s))"
    using assms(1) by (simp add: distinct_map)
  have front: "last (take n ?s) \<in> set (take n ?s)" using assms(2,3) by (intro last_in_set) (metis length_greater_0_conv not_less_zero take_eq_Nil2 less_nat_zero_code list.size(3))
  then show "\<exists>r\<in>set t. bb_key r = k"
    using assms(4) by (metis in_set_takeD set_sort)
  have "bb_key r \<le> k" if "r \<in> set (take n ?s)" for r
  proof -
    have "sorted (map bb_key (butlast (take n ?s) @ [last (take n ?s)]))"
      using sorted front by (metis append_butlast_last_id empty_iff empty_set map_append sorted_append)
    moreover have "r \<in> set (butlast (take n ?s)) \<or> r = last (take n ?s)"
      using that by (metis append_butlast_last_id empty_iff empty_set insert_iff list.simps(15) rotate1.simps(2) set_rotate1)
    ultimately show ?thesis using assms(4) by (auto simp: sorted_append)
  qed
  then have a: "filter (\<lambda>r. k < bb_key r) (take n ?s) = []"
    by (fastforce simp: filter_empty_conv)
  have "k < bb_key r" if "r \<in> set (drop n ?s)" for r
    using sorted distinct front that assms(4) unfolding map_append sorted_append distinct_append
    by (metis disjoint_iff image_eqI list.set_map order_le_less)
  then have "filter (\<lambda>r. k < bb_key r) (drop n ?s) = drop n ?s"
    by (simp add: filter_id_conv)
  with a have "filter (\<lambda>r. k < bb_key r) ?s = drop n ?s"
    by (metis append_Nil append_take_drop_id filter_append)
  then show "sort_key bb_key (filter (\<lambda>r. k < bb_key r) t) = drop n ?s"
    by (simp add: filter_sort)
qed

lemma all_pages_from:
  assumes "distinct (map bb_key t)" "length (filter (page_match p c) t) < fuel"
  shows "all_pages fuel p limit (Some c) t = Some (sort_key bb_key (filter (page_match p c) t))"
  using assms(2)
proof (induction fuel arbitrary: c)
  case (Suc fuel)
  let ?rows = "filter (page_match p c) t" and ?n = "page_limit limit"
  let ?s = "sort_key bb_key ?rows"
  show ?case
  proof (cases "?n < length ?rows")
    case False
    then show ?thesis by (simp add: blob_index_list_def Let_def)
  next
    case True
    let ?k = "bb_key (last (take ?n ?s))"
    have d: "distinct (map bb_key ?rows)" using assms(1) by (rule distinct_map_filter)
    have long: "?n < length ?s" using True by simp
    then have nonempty: "?s \<noteq> []" by (metis length_0_conv not_less_zero)
    note rest = rest_of_page [OF d long page_limit_pos refl]
    have "c < ?k" using rest(2) by (auto simp: page_match_def)
    then have "filter (page_match p ?k) t = filter (\<lambda>r. ?k < bb_key r) ?rows"
      unfolding filter_filter by (intro filter_cong refl) (auto simp: page_match_def)
    then have next_page: "sort_key bb_key (filter (page_match p ?k) t) = drop ?n ?s"
      using rest(1) by simp
    then have "length (filter (page_match p ?k) t) = length ?rows - ?n"
      by (metis length_drop length_sort)
    then have "length (filter (page_match p ?k) t) < fuel"
      using Suc.prems True page_limit_pos [of limit] by linarith
    then have "all_pages fuel p limit (Some ?k) t = Some (drop ?n ?s)"
      using Suc.IH next_page by simp
    moreover have "blob_index_list (Some p) (Some c) limit t = (take ?n ?s, Some ?k)"
      using True page_limit_pos [of limit] nonempty by (auto simp: blob_index_list_def Let_def min_def)
    ultimately show ?thesis by (simp add: append_take_drop_id)
  qed
qed simp

text \<open>C30 (termination). Following the cursors ends, whatever page size is asked for, and yields every blob under the prefix
  exactly once, in the order of the keys.\<close>

theorem listing_complete:
  assumes "distinct (map bb_key t)" "\<forall>r\<in>set t. bb_key r \<noteq> []"
  shows "all_pages (Suc (length t)) p limit None t =
    Some (sort_key bb_key (filter (\<lambda>r. take (length p) (bb_key r) = p) t))"
proof -
  have "all_pages (Suc (length t)) p limit None t = all_pages (Suc (length t)) p limit (Some []) t"
    by (simp add: blob_index_list_def)
  also have "\<dots> = Some (sort_key bb_key (filter (page_match p []) t))"
    using assms(1) by (rule all_pages_from) (simp add: less_Suc_eq_le)
  also have "filter (page_match p []) t = filter (\<lambda>r. take (length p) (bb_key r) = p) t"
    using assms(2) by (intro filter_cong refl) (auto simp: page_match_def neq_Nil_conv)
  finally show ?thesis .
qed

definition sample_blob :: "string \<Rightarrow> nat \<Rightarrow> blob_row" where
  "sample_blob k n =
     \<lparr>bb_key = k, bb_size = n, bb_content_type = ''text/plain'', bb_sha256 = [], bb_etag = [], bb_package = None, bb_metadata = [],
      bb_created = 0, bb_updated = 0\<rparr>"

theorem listing_complete_witness:
  "all_pages (Suc (Suc (Suc (Suc 0)))) ''a'' (Some 1) None [sample_blob ''ab'' 1, sample_blob ''b'' 1, sample_blob ''aa'' 1] =
     Some [sample_blob ''aa'' 1, sample_blob ''ab'' 1]"
proof -
  have "all_pages (Suc (length [sample_blob ''ab'' 1, sample_blob ''b'' 1, sample_blob ''aa'' 1])) ''a'' (Some 1) None
      [sample_blob ''ab'' 1, sample_blob ''b'' 1, sample_blob ''aa'' 1] =
      Some (sort_key bb_key (filter (\<lambda>r. take (length ''a'') (bb_key r) = ''a'')
        [sample_blob ''ab'' 1, sample_blob ''b'' 1, sample_blob ''aa'' 1]))"
    by (rule listing_complete) (simp_all add: sample_blob_def)
  then show ?thesis
    by (simp add: sample_blob_def less_char_def less_eq_char_def del: all_pages.simps)
qed

section \<open>Quotas hold although puts race\<close>

datatype index_op = PutRow blob_input time | DropRow string

primrec index_step :: "quotas \<Rightarrow> index_op \<Rightarrow> blob_row list \<Rightarrow> blob_row list" where
  "index_step Q (PutRow i now) t = snd (blob_index_put Q i now t)"
| "index_step Q (DropRow k) t = snd (blob_index_delete k t)"

definition index_ok :: "quotas \<Rightarrow> blob_row list \<Rightarrow> bool" where
  "index_ok Q t =
     (distinct (map bb_key t) \<and> (Q QBlobs = 0 \<or> length t \<le> Q QBlobs) \<and> (Q QBlobBytes = 0 \<or> blob_bytes t \<le> Q QBlobBytes))"

lemma blob_bytes_Nil [simp]: "blob_bytes [] = 0"
  by (simp add: blob_bytes_def)

lemma blob_bytes_Cons [simp]: "blob_bytes (r # t) = bb_size r + blob_bytes t"
  by (simp add: blob_bytes_def)

lemma blob_bytes_delete: "blob_bytes (delete_where P t) \<le> blob_bytes t"
  by (induction t) auto

lemma blob_bytes_update:
  assumes "distinct (map bb_key t)" "find_blob k t = Some r" "\<And>q. bb_key (f q) = bb_key q" "\<And>q. bb_size (f q) = n"
  shows "int (blob_bytes (update_where (\<lambda>q. bb_key q = k) f t)) = int (blob_bytes t) - int (bb_size r) + int n"
  using assms(1,2)
proof (induction t)
  case (Cons q t)
  have same: "update_where (\<lambda>q. bb_key q = k) f t = t" if "k \<notin> bb_key ` set t"
    using that by (induction t) auto
  show ?case
  proof (cases "bb_key q = k")
    case True
    then have "update_where (\<lambda>q. bb_key q = k) f t = t" "q = r"
      using Cons.prems same by (auto simp: find_blob_def)
    with True show ?thesis by (simp add: assms(4))
  next
    case False
    then show ?thesis using Cons by (simp add: find_blob_def)
  qed
qed (simp add: find_blob_def)

lemma blob_bytes_append: "blob_bytes (t @ [r]) = blob_bytes t + bb_size r"
  by (simp add: blob_bytes_def)

lemma find_blob_None: "find_blob k t = None \<longleftrightarrow> \<not> list_ex (\<lambda>r. bb_key r = k) t"
  by (simp add: find_blob_def select_one_None_iff list_ex_iff)

lemma index_put_bytes:
  assumes "index_ok Q t"
  shows "index_ok Q (snd (blob_index_put Q i now t))"
proof (cases "assert_blob_quota Q (bi_key i) (bi_size i) t")
  case (Inl e)
  then show ?thesis using assms by (simp add: blob_index_put_def)
next
  case (Inr existing)
  show ?thesis
  proof (cases "bi_content_type i")
    case (InheritedProperty n)
    then show ?thesis using assms Inr by (simp add: blob_index_put_def)
  next
    case (TextType ct)
    let ?P = "\<lambda>r. bb_key r = bi_key i"
    let ?f = "\<lambda>r. r\<lparr>bb_size := bi_size i, bb_content_type := ct, bb_sha256 := bi_sha256 i, bb_etag := bi_etag i,
                         bb_package := bi_package i, bb_metadata := bi_metadata i, bb_updated := now\<rparr>"
    let ?new = "\<lparr>bb_key = bi_key i, bb_size = bi_size i, bb_content_type = ct, bb_sha256 = bi_sha256 i, bb_etag = bi_etag i,
                   bb_package = bi_package i, bb_metadata = bi_metadata i, bb_created = now, bb_updated = now\<rparr>"
    have t': "snd (blob_index_put Q i now t) = upsert ?P ?f ?new t"
      using Inr TextType by (simp add: blob_index_put_def Let_def)
    have ex: "existing = find_blob (bi_key i) t"
      and count: "existing = None \<Longrightarrow> Q QBlobs = 0 \<or> length t < Q QBlobs"
      and bytes: "Q QBlobBytes = 0 \<or> int (blob_bytes t) - (case existing of Some r \<Rightarrow> int (bb_size r) | None \<Rightarrow> 0) + int (bi_size i) \<le> int (Q QBlobBytes)"
      using Inr by (auto simp: assert_blob_quota_def Let_def bind_res_Inr within_quota_def split: if_splits)
    have d: "distinct (map bb_key (upsert ?P ?f ?new t))"
      using assms by (intro distinct_upsert) (auto simp: index_ok_def)
    show ?thesis
    proof (cases existing)
      case None
      then have "upsert ?P ?f ?new t = t @ [?new]"
        using ex find_blob_None by (metis upsert_absent)
      then show ?thesis
        using d None count bytes assms unfolding t' index_ok_def by (auto simp: blob_bytes_append)
    next
      case (Some r)
      then have "list_ex ?P t" using ex find_blob_None by (metis option.distinct(1))
      then have up: "upsert ?P ?f ?new t = update_where ?P ?f t" by (rule upsert_present)
      have "int (blob_bytes (update_where ?P ?f t)) = int (blob_bytes t) - int (bb_size r) + int (bi_size i)"
        using assms ex Some by (intro blob_bytes_update) (simp_all add: index_ok_def)
      then show ?thesis
        using d Some bytes assms unfolding t' up index_ok_def by auto
    qed
  qed
qed

lemma index_delete_ok: "index_ok Q t \<Longrightarrow> index_ok Q (snd (blob_index_delete k t))"
  by (auto simp: blob_index_delete_def index_ok_def distinct_delete_where
      intro: le_trans [OF length_delete_where_le] le_trans [OF blob_bytes_delete] split: option.split)

lemma index_step_ok: "index_ok Q t \<Longrightarrow> index_ok Q (index_step Q op t)"
  by (cases op) (simp_all add: index_put_bytes index_delete_ok)

interpretation blob_index: invariant_store "index_step Q" "index_ok Q" for Q
  by unfold_locales (rule index_step_ok)

text \<open>However puts and deletions interleave, also between the reservation of a put and its index write, the blobs
  of a user stay within both quotas, and a put keeps them there.\<close>

theorem blob_quotas_hold:
  assumes "\<forall>u. bw_index s u = fold (index_step (be_quotas E u)) (start u) []"
  shows "index_ok (be_quotas E v) (bw_index (snd (blob_put E uid package i (fold (index_step (be_quotas E uid)) racing) now s)) v)"
proof -
  have before: "index_ok (be_quotas E u) (bw_index s u)" for u
    unfolding assms [rule_format] by (rule blob_index.run_inv) (simp add: index_ok_def)
  have raced: "index_ok (be_quotas E uid) (fold (index_step (be_quotas E uid)) racing (bw_index s uid))"
    by (rule blob_index.run_inv) (rule before)
  show ?thesis
    using before index_put_bytes [OF raced]
    by (auto simp: blob_put_def Let_def case_prod_beta set_index_def split: sum.split)
qed

definition sample_blob_env :: blob_env where
  "sample_blob_env =
     \<lparr>be_link = sample_link_env, be_master = ''m'', be_quotas = (\<lambda>_ _. 9), be_max_bytes = 99, be_url_ttl = 60, be_etag = (\<lambda>_. [])\<rparr>"

definition no_blobs :: blob_world where
  "no_blobs = \<lparr>bw_index = (\<lambda>_. []), bw_bucket = (\<lambda>_. None)\<rparr>"

theorem blob_quotas_hold_witness:
  "index_ok (be_quotas sample_blob_env ''u1'') (bw_index (snd (blob_put sample_blob_env
       ''u1'' None \<lparr>pi_key = Some (JStr ''a''), pi_body = ''1234567'', pi_content_type = None, pi_metadata = None\<rparr>
       (fold (index_step (be_quotas sample_blob_env ''u1'')) [PutRow \<lparr>bi_key = ''b'', bi_size = 5, bi_content_type = TextType ''text/plain'',
          bi_sha256 = [], bi_etag = [], bi_package = None, bi_metadata = []\<rparr> 1]) 2 no_blobs)) ''u1'')"
  by (rule blob_quotas_hold [where start = "\<lambda>_. []"]) (simp add: no_blobs_def)

section \<open>The store as a map\<close>























end
