(* ===== verification/AppUrl.thy ===== *)
theory AppUrl
  imports JsString
begin

text \<open>
  src/src/apps/app-url.ts: where package apps live. One host for all of them (path mode) or one
  subdomain for each user; reading the configuration, building the address of an app and finding
  the app of a request. The WHATWG URL parser is a parameter; what it answers is \<open>parsed_url\<close>,
  whose \<open>pu_port\<close> is empty for the default port.
\<close>

record parsed_url =
  pu_protocol :: string
  pu_username :: string
  pu_password :: string
  pu_hostname :: string
  pu_port :: string
  pu_path :: string
  pu_search :: string
  pu_hash :: string

definition url_host :: "parsed_url \<Rightarrow> string" where
  "url_host u = pu_hostname u @ (if pu_port u = [] then [] else '':'' @ pu_port u)"

datatype app_mode = PathMode | SubdomainMode

text \<open>\<open>ac_port\<close> is empty or a colon and the port.\<close>

record app_config =
  ac_mode :: app_mode
  ac_protocol :: string
  ac_hostname :: string
  ac_port :: string

section \<open>Configuration\<close>

datatype app_config_error =
    AppUrlInvalid
  | AppUrlNotHttp
  | AppUrlNotOrigin
  | PublicUrlInvalid
  | AppUrlNotHttps
  | AppHostIsPublicHost
  | PublicUnderWildcard

definition line_end :: "char \<Rightarrow> bool" where
  "line_end c = (unit_of c = 10 \<or> unit_of c = 13)"

text \<open>\<open>wildcardPattern\<close>: the scheme as written and the text after the wildcard.\<close>

definition wildcard_match :: "string \<Rightarrow> (string \<times> string) option" where
  "wildcard_match raw =
     (let l = to_lower raw;
          found = (\<lambda>n. let r = drop (n + 5) raw in
            if r \<noteq> [] \<and> list_all (\<lambda>c. \<not> line_end c) r then Some (take n raw, r) else None)
      in if starts_with l ''https://*.'' then found 5
         else if starts_with l ''http://*.'' then found 4 else None)"

text \<open>\<open>readAppConfig\<close>: \<open>None\<close> means that apps are off.\<close>

definition read_app_config ::
  "(string \<Rightarrow> parsed_url option) \<Rightarrow> string option \<Rightarrow> string \<Rightarrow> (app_config_error + app_config \<times> string) option" where
  "read_app_config parse app_base public =
     (case map_option trim app_base of
        None \<Rightarrow> None
      | Some raw \<Rightarrow>
        if raw = [] then None
        else Some
          (let wildcard = wildcard_match raw in
           case parse (case wildcard of Some (scheme, r) \<Rightarrow> scheme @ ''://'' @ r | None \<Rightarrow> raw) of
             None \<Rightarrow> Inl AppUrlInvalid
           | Some u \<Rightarrow>
             if pu_protocol u \<noteq> ''http:'' \<and> pu_protocol u \<noteq> ''https:'' then Inl AppUrlNotHttp
             else if pu_path u \<noteq> ''/'' \<or> pu_search u \<noteq> [] \<or> pu_hash u \<noteq> [] \<or> pu_username u \<noteq> [] \<or> pu_password u \<noteq> []
             then Inl AppUrlNotOrigin
             else
               (let c = \<lparr>ac_mode = (if wildcard = None then PathMode else SubdomainMode), ac_protocol = pu_protocol u,
                         ac_hostname = pu_hostname u, ac_port = (if pu_port u = [] then [] else '':'' @ pu_port u)\<rparr>
                in case parse public of
                     None \<Rightarrow> Inl PublicUrlInvalid
                   | Some p \<Rightarrow>
                     if pu_protocol p = ''https:'' \<and> ac_protocol c \<noteq> ''https:'' then Inl AppUrlNotHttps
                     else if pu_hostname p = ac_hostname c then Inl AppHostIsPublicHost
                     else if ac_mode c = SubdomainMode \<and> ends_with (pu_hostname p) (''.'' @ ac_hostname c)
                     then Inl PublicUnderWildcard
                     else Inr (c, ac_protocol c @ ''//'' @ (if wildcard = None then [] else ''*.'') @ ac_hostname c @ ac_port c))))"

section \<open>Addresses\<close>

definition is_app_origin_host :: "app_config \<Rightarrow> parsed_url \<Rightarrow> bool" where
  "is_app_origin_host c u =
     (let h = to_lower (pu_hostname u) in
      h = ac_hostname c \<or> ac_mode c = SubdomainMode \<and> ends_with h (''.'' @ ac_hostname c))"

definition hex32 :: "string \<Rightarrow> bool" where
  "hex32 t = (length t = 32 \<and> list_all (\<lambda>c. is_digit c \<or> in_range 97 102 c) t)"

text \<open>The group of \<open>userIdPattern\<close> and of \<open>userLabelPattern\<close>.\<close>

definition hex_after :: "string \<Rightarrow> string \<Rightarrow> string option" where
  "hex_after p t = (if starts_with t p \<and> hex32 (drop (length p) t) then Some (drop (length p) t) else None)"

definition path_user_id :: "string \<Rightarrow> bool" where
  "path_user_id t = (t \<noteq> [] \<and> length t \<le> 64 \<and> list_all (\<lambda>c. is_alnum c \<or> c = CHR ''_'' \<or> c = CHR ''-'') t)"

definition app_origin :: "app_config \<Rightarrow> string \<Rightarrow> string option" where
  "app_origin c uid =
     (case ac_mode c of
        PathMode \<Rightarrow> Some (ac_protocol c @ ''//'' @ ac_hostname c @ ac_port c)
      | SubdomainMode \<Rightarrow>
        map_option (\<lambda>h. ac_protocol c @ ''//user-'' @ h @ ''.'' @ ac_hostname c @ ac_port c) (hex_after ''user_'' uid))"

definition app_mount_path :: "app_config \<Rightarrow> string \<Rightarrow> string \<Rightarrow> string" where
  "app_mount_path c uid pkg =
     (case ac_mode c of
        PathMode \<Rightarrow> ''/u/'' @ uid @ ''/packages/'' @ pkg
      | SubdomainMode \<Rightarrow> ''/packages/'' @ pkg)"

definition app_url :: "app_config \<Rightarrow> string \<Rightarrow> string \<Rightarrow> string option" where
  "app_url c uid pkg = map_option (\<lambda>o'. o' @ app_mount_path c uid pkg) (app_origin c uid)"

section \<open>Package names\<close>

definition name_start :: "char \<Rightarrow> bool" where
  "name_start c = (is_lower c \<or> is_digit c)"

definition name_rest :: "char \<Rightarrow> bool" where
  "name_rest c = (name_start c \<or> c = CHR ''.'' \<or> c = CHR ''_'' \<or> c = CHR ''-'')"

definition name_segment :: "string \<Rightarrow> bool" where
  "name_segment t = (t \<noteq> [] \<and> name_start (hd t) \<and> list_all name_rest (tl t))"

text \<open>\<open>packageNamePattern\<close> of src/src/packages/manifest.ts.\<close>

definition package_name_pattern :: "string \<Rightarrow> bool" where
  "package_name_pattern t =
     (if starts_with t ''@'' then
        (let r = tl t; scope = takeWhile (\<lambda>c. c \<noteq> CHR ''/'') r; after = dropWhile (\<lambda>c. c \<noteq> CHR ''/'') r
         in name_segment scope \<and> after \<noteq> [] \<and> name_segment (tl after))
      else name_segment t)"

section \<open>The app of a request\<close>

record app_target =
  tg_user :: string
  tg_package :: string
  tg_origin :: string
  tg_mount :: string
  tg_rest :: string

datatype app_match = MatchApp app_target | MatchRoot | MatchNotFound

definition with_package :: "string \<Rightarrow> string \<Rightarrow> string \<Rightarrow> string \<Rightarrow> app_match" where
  "with_package uid pre r origin =
     (if \<not> starts_with r ''/packages/'' then MatchNotFound
      else
        (let segments = split_on CHR ''/'' (drop 10 r);
             n = (if starts_with (hd segments) ''@'' then 2 else 1)
         in if length segments < n then MatchNotFound
            else
              (let pkg = join_with ''/'' (take n segments) in
               if \<not> package_name_pattern pkg then MatchNotFound
               else
                 (let rest = drop (10 + length pkg) r
                  in MatchApp \<lparr>tg_user = uid, tg_package = pkg, tg_origin = origin, tg_mount = pre @ ''/packages/'' @ pkg,
                       tg_rest = (if rest = [] then ''/'' else rest)\<rparr>))))"

definition path_match :: "string \<Rightarrow> (string \<times> string) option" where
  "path_match p =
     (if starts_with p ''/u/'' then
        (let r = drop 3 p; uid = takeWhile (\<lambda>c. c \<noteq> CHR ''/'') r; after = dropWhile (\<lambda>c. c \<noteq> CHR ''/'') r
         in if uid \<noteq> [] \<and> starts_with after ''/packages/'' \<and> list_all (\<lambda>c. \<not> line_end c) (drop 10 after)
            then Some (uid, after) else None)
      else None)"

definition match_app_request :: "app_config \<Rightarrow> parsed_url \<Rightarrow> app_match option" where
  "match_app_request c u =
     (if \<not> is_app_origin_host c u then None
      else Some
        (let h = to_lower (pu_hostname u); origin = ac_protocol c @ ''//'' @ url_host u in
         if ac_mode c = PathMode then
           if pu_path u = ''/'' then MatchRoot
           else
             (case path_match (pu_path u) of
                None \<Rightarrow> MatchNotFound
              | Some (uid, r) \<Rightarrow>
                if \<not> path_user_id uid then MatchNotFound else with_package uid (''/u/'' @ uid) r origin)
         else if h = ac_hostname c then if pu_path u = ''/'' then MatchRoot else MatchNotFound
         else
           (case hex_after ''user-'' (take (length h - (length (ac_hostname c) + 1)) h) of
              None \<Rightarrow> MatchNotFound
            | Some label \<Rightarrow>
              if pu_path u = ''/'' then MatchRoot else with_package (''user_'' @ label) [] (pu_path u) origin)))"

section \<open>Lemmas\<close>

lemma name_rest_facts: "name_rest c \<Longrightarrow> c \<noteq> CHR ''/'' \<and> c \<noteq> CHR ''@'' \<and> \<not> line_end c"
  by (auto simp: name_rest_def name_start_def is_lower_def is_digit_def in_range_def unit_of_def line_end_def)

lemma name_segment_chars: "name_segment t \<Longrightarrow> list_all name_rest t"
  by (cases t) (auto simp: name_segment_def name_rest_def)

lemma name_segment_no_slash: "name_segment t \<Longrightarrow> CHR ''/'' \<notin> set t"
  using name_segment_chars name_rest_facts by (auto simp: list_all_iff)

lemma name_segment_not_at: "name_segment t \<Longrightarrow> \<not> starts_with t ''@''"
  using name_segment_chars [of t] name_rest_facts by (cases t) (auto simp: starts_with_def)

text \<open>A package name is one segment, or a scope and a segment.\<close>

lemma package_name_cases:
  assumes "package_name_pattern t"
  obtains (plain) "name_segment t" "\<not> starts_with t ''@''"
  | (scoped) s n where "t = ''@'' @ s @ ''/'' @ n" "name_segment s" "name_segment n"
proof (cases "starts_with t ''@''")
  case True
  let ?r = "tl t"
  let ?s = "takeWhile (\<lambda>c. c \<noteq> CHR ''/'') ?r" and ?a = "dropWhile (\<lambda>c. c \<noteq> CHR ''/'') ?r"
  have *: "name_segment ?s" "?a \<noteq> []" "name_segment (tl ?a)"
    using assms True by (simp_all add: package_name_pattern_def Let_def)
  have "hd ?a = CHR ''/''" using *(2) hd_dropWhile [of "\<lambda>c. c \<noteq> CHR ''/''" ?r] by blast
  then have "?a = ''/'' @ tl ?a" using *(2) by (cases ?a) auto
  moreover have "t = ''@'' @ ?r" using True by (cases t) (auto simp: starts_with_def)
  ultimately have "t = ''@'' @ ?s @ ''/'' @ tl ?a" by (metis takeWhile_dropWhile_id)
  then show ?thesis using scoped *(1,3) by blast
next
  case False
  then show ?thesis using plain assms by (simp add: package_name_pattern_def)
qed

lemma package_name_no_line_end: "package_name_pattern t \<Longrightarrow> list_all (\<lambda>c. \<not> line_end c) t"
proof (erule package_name_cases)
  assume "name_segment t"
  then show ?thesis using name_segment_chars name_rest_facts by (auto simp: list_all_iff)
next
  fix s n assume "t = ''@'' @ s @ ''/'' @ n" "name_segment s" "name_segment n"
  then show ?thesis using name_segment_chars [of s] name_segment_chars [of n] name_rest_facts
    by (auto simp: list_all_iff line_end_def unit_of_def)
qed

lemma split_on_before: "d \<notin> set w \<Longrightarrow> r = [] \<or> hd r = d \<Longrightarrow>
    \<exists>ws. split_on d (w @ r) = w # ws \<and> (r \<noteq> [] \<longrightarrow> ws = split_on d (tl r))"
  by (cases r) (simp_all add: split_on_none split_on_append_sep)

lemma drop_mount [simp]: "drop (10 + length p) (''/packages/'' @ p @ r) = r"
  by (simp add: eval_nat_numeral)

text \<open>The rest of the path starts with a slash, or is empty.\<close>

lemma with_package_of_mount:
  assumes "package_name_pattern pkg" "rest = [] \<or> hd rest = CHR ''/''"
  shows "with_package uid pre (''/packages/'' @ pkg @ rest) origin =
    MatchApp \<lparr>tg_user = uid, tg_package = pkg, tg_origin = origin, tg_mount = pre @ ''/packages/'' @ pkg,
      tg_rest = (if rest = [] then ''/'' else rest)\<rparr>"
  using assms(1)
proof (cases rule: package_name_cases)
  case plain
  obtain ws where "split_on CHR ''/'' (pkg @ rest) = pkg # ws"
    using split_on_before [OF name_segment_no_slash [OF plain(1)] assms(2)] by blast
  then show ?thesis using plain(2) assms(1) drop_mount [of pkg rest] by (simp add: with_package_def Let_def)
next
  case (scoped s n)
  have "CHR ''/'' \<notin> set (''@'' @ s)" using name_segment_no_slash [OF scoped(2)] by simp
  moreover obtain ws where "split_on CHR ''/'' (n @ rest) = n # ws"
    using split_on_before [OF name_segment_no_slash [OF scoped(3)] assms(2)] by blast
  ultimately have "split_on CHR ''/'' (pkg @ rest) = (''@'' @ s) # n # ws"
    using split_on_append_sep [of "CHR ''/''" "''@'' @ s" "n @ rest"] scoped(1) by simp
  then show ?thesis using scoped(1) assms(1) drop_mount [of pkg rest] by (simp add: with_package_def Let_def)
qed

lemma with_packageD:
  assumes "with_package uid pre r origin = MatchApp t"
  shows "tg_user t = uid \<and> tg_origin t = origin \<and> package_name_pattern (tg_package t) \<and>
    tg_mount t = pre @ ''/packages/'' @ tg_package t"
  using assms by (auto simp: with_package_def Let_def split: if_splits)

lemma hex_after_append: "hex_after p t = Some h \<longleftrightarrow> t = p @ h \<and> hex32 h"
  by (auto simp: hex_after_def starts_with_iff)

lemma path_user_id_no_slash: "path_user_id t \<Longrightarrow> CHR ''/'' \<notin> set t"
  by (auto simp: path_user_id_def list_all_iff is_alnum_def is_digit_def is_lower_def is_upper_def in_range_def unit_of_def)

lemma path_match_mount:
  assumes "path_user_id uid" "package_name_pattern pkg" "list_all (\<lambda>c. \<not> line_end c) rest"
  shows "path_match (''/u/'' @ uid @ ''/packages/'' @ pkg @ rest) = Some (uid, ''/packages/'' @ pkg @ rest)"
proof -
  have "uid \<noteq> []" "\<forall>c\<in>set uid. c \<noteq> CHR ''/''"
    using assms(1) path_user_id_no_slash by (auto simp: path_user_id_def)
  then show ?thesis
    using assms(3) package_name_no_line_end [OF assms(2)]
    by (simp add: path_match_def Let_def takeWhile_append2 dropWhile_append2 starts_with_def)
qed

section \<open>Addresses and requests\<close>

text \<open>Who may have an address: in path mode the short ids of the URL, in subdomain mode the hexadecimal ones.\<close>

definition addressable :: "app_config \<Rightarrow> string \<Rightarrow> bool" where
  "addressable c uid =
     (case ac_mode c of PathMode \<Rightarrow> path_user_id uid | SubdomainMode \<Rightarrow> hex_after ''user_'' uid \<noteq> None)"

text \<open>The host of a user's apps.\<close>

definition app_host :: "app_config \<Rightarrow> string \<Rightarrow> string" where
  "app_host c uid =
     (case ac_mode c of PathMode \<Rightarrow> ac_hostname c | SubdomainMode \<Rightarrow> ''user-'' @ drop 5 uid @ ''.'' @ ac_hostname c)"

lemma app_url_host:
  "addressable c uid \<Longrightarrow>
   app_url c uid pkg = Some (ac_protocol c @ ''//'' @ app_host c uid @ ac_port c @ app_mount_path c uid pkg)"
  by (auto simp: addressable_def app_url_def app_origin_def app_host_def hex_after_append split: app_mode.splits)

lemma take_before_host: "take (length (a @ ''.'' @ h) - (length h + 1)) (a @ ''.'' @ h) = a"
  by simp

lemma ends_with_append: "ends_with (a @ p) p"
  by (simp add: ends_with_def)

text \<open>The address handed out for a user's app leads to that app: a request to that host and below that path
  is matched to this user and this package, whatever comes after the package name, and the origin and mount point that the
  app is told together are the address it was given.\<close>

theorem app_url_opens:
  assumes "addressable c uid" "package_name_pattern pkg" "to_lower (app_host c uid) = app_host c uid"
    "url_host u = app_host c uid @ ac_port c" "pu_hostname u = app_host c uid"
    "pu_path u = app_mount_path c uid pkg @ rest" "rest = [] \<or> hd rest = CHR ''/''" "list_all (\<lambda>c. \<not> line_end c) rest"
  shows "\<exists>t. match_app_request c u = Some (MatchApp t) \<and> tg_user t = uid \<and> tg_package t = pkg \<and>
    tg_rest t = (if rest = [] then ''/'' else rest) \<and> app_url c uid pkg = Some (tg_origin t @ tg_mount t)"
proof (cases "ac_mode c")
  case PathMode
  have "path_user_id uid" using assms(1) PathMode by (simp add: addressable_def)
  moreover have "is_app_origin_host c u" using assms(3,5) PathMode by (simp add: is_app_origin_host_def app_host_def)
  ultimately have "match_app_request c u = Some (with_package uid (''/u/'' @ uid) (''/packages/'' @ pkg @ rest) (ac_protocol c @ ''//'' @ url_host u))"
    using path_match_mount [OF _ assms(2,8), of uid] assms(6) PathMode
    by (simp add: match_app_request_def Let_def app_mount_path_def)
  then show ?thesis
    using with_package_of_mount [OF assms(2,7)] app_url_host [OF assms(1), of pkg] assms(4) PathMode
    by (simp add: app_mount_path_def)
next
  case SubdomainMode
  obtain h where h: "uid = ''user_'' @ h" "hex32 h"
    using assms(1) SubdomainMode by (auto simp: addressable_def hex_after_append)
  have host: "to_lower (pu_hostname u) = ''user-'' @ h @ ''.'' @ ac_hostname c"
    using assms(3,5) SubdomainMode h(1) by (simp add: app_host_def)
  then have "is_app_origin_host c u" "to_lower (pu_hostname u) \<noteq> ac_hostname c"
    using SubdomainMode ends_with_append [of "''user-'' @ h" "''.'' @ ac_hostname c"]
    by (auto simp: is_app_origin_host_def dest: arg_cong [where f = length])
  moreover have "hex_after ''user-'' (take (length (''user-'' @ h @ ''.'' @ ac_hostname c) - (length (ac_hostname c) + 1)) (''user-'' @ h @ ''.'' @ ac_hostname c)) = Some h"
    using h(2) take_before_host [of "''user-'' @ h" "ac_hostname c"] by (simp only: append_assoc hex_after_append)
  ultimately have "match_app_request c u = Some (with_package (''user_'' @ h) [] (''/packages/'' @ pkg @ rest) (ac_protocol c @ ''//'' @ url_host u))"
    using assms(6) SubdomainMode host unfolding match_app_request_def Let_def by (simp add: app_mount_path_def)
  then show ?thesis
    using with_package_of_mount [OF assms(2,7)] app_url_host [OF assms(1), of pkg] assms(4) SubdomainMode h(1)
    by (simp add: app_mount_path_def)
qed

theorem app_url_opens_witness:
  "\<exists>t. match_app_request \<lparr>ac_mode = PathMode, ac_protocol = ''https:'', ac_hostname = ''apps.example'', ac_port = []\<rparr>
      \<lparr>pu_protocol = ''https:'', pu_username = [], pu_password = [], pu_hostname = ''apps.example'', pu_port = [],
       pu_path = ''/u/u1/packages/@s/notes/list'', pu_search = [], pu_hash = []\<rparr> = Some (MatchApp t) \<and> tg_package t = ''@s/notes''"
proof -
  let ?c = "\<lparr>ac_mode = PathMode, ac_protocol = ''https:'', ac_hostname = ''apps.example'', ac_port = []\<rparr>"
  let ?u = "\<lparr>pu_protocol = ''https:'', pu_username = [], pu_password = [], pu_hostname = ''apps.example'', pu_port = [],
       pu_path = ''/u/u1/packages/@s/notes/list'', pu_search = [], pu_hash = []\<rparr>"
  have "path_user_id ''u1''" "package_name_pattern ''@s/notes''" "to_lower ''apps.example'' = ''apps.example''"
    "list_all (\<lambda>c. \<not> line_end c) ''/list''" by code_simp+
  then show ?thesis
    using app_url_opens [of ?c "''u1''" "''@s/notes''" ?u "''/list''"]
    by (auto simp: addressable_def app_host_def url_host_def app_mount_path_def)
qed

lemma read_app_config_hosts:
  assumes "read_app_config parse b public = Some (Inr (c, base))" "parse public = Some p"
  shows "pu_hostname p \<noteq> ac_hostname c \<and> (ac_mode c = SubdomainMode \<longrightarrow> \<not> ends_with (pu_hostname p) (''.'' @ ac_hostname c)) \<and>
    (pu_protocol p = ''https:'' \<longrightarrow> ac_protocol c = ''https:'')"
  using assms by (auto simp: read_app_config_def Let_def split: option.splits if_splits)

lemma app_match_host:
  assumes "match_app_request c u = Some (MatchApp t)"
  shows "to_lower (pu_hostname u) = app_host c (tg_user t) \<and> addressable c (tg_user t)"
proof (cases "ac_mode c")
  case PathMode
  then show ?thesis using assms
    by (auto simp: match_app_request_def is_app_origin_host_def app_host_def addressable_def Let_def
      split: if_splits option.splits dest: with_packageD)
next
  case SubdomainMode
  let ?h = "to_lower (pu_hostname u)" and ?s = "''.'' @ ac_hostname c"
  have "ends_with ?h ?s" "?h \<noteq> ac_hostname c"
    using assms SubdomainMode by (auto simp: match_app_request_def is_app_origin_host_def Let_def split: if_splits)
  then obtain a where a: "?h = a @ ?s" by (auto simp: ends_with_iff)
  then have "take (length ?h - (length (ac_hostname c) + 1)) ?h = a" by simp
  then obtain l where "hex_after ''user-'' a = Some l" "tg_user t = ''user_'' @ l"
    using assms SubdomainMode \<open>?h \<noteq> ac_hostname c\<close>
    by (auto simp: match_app_request_def Let_def simp del: length_to_lower split: if_splits option.splits dest: with_packageD)
  then show ?thesis using a SubdomainMode by (simp add: hex_after_append app_host_def addressable_def)
qed

lemma app_match_mount:
  assumes "match_app_request c u = Some (MatchApp t)"
  shows "tg_mount t = app_mount_path c (tg_user t) (tg_package t) \<and> package_name_pattern (tg_package t)"
  using assms
  by (auto simp: match_app_request_def Let_def app_mount_path_def split: if_splits option.splits app_mode.splits dest!: with_packageD)

text \<open>Package apps never share a host with Kody, and in subdomain mode not with each other's users: under a
  configuration that the server accepts no request to Kody's own host is an app's, and a request that is an app's came to the
  host of the user whose app it is.\<close>

theorem app_hosts_apart:
  assumes "read_app_config parse b public = Some (Inr (c, base))" "parse public = Some p"
    "to_lower (pu_hostname p) = pu_hostname p"
  shows "match_app_request c (p\<lparr>pu_path := path\<rparr>) = None \<and>
    (match_app_request c u = Some (MatchApp t) \<longrightarrow>
      to_lower (pu_hostname u) = app_host c (tg_user t) \<and> tg_mount t = app_mount_path c (tg_user t) (tg_package t))"
proof
  have "\<not> is_app_origin_host c (p\<lparr>pu_path := path\<rparr>)"
    using read_app_config_hosts [OF assms(1,2)] by (simp add: is_app_origin_host_def assms(3))
  then show "match_app_request c (p\<lparr>pu_path := path\<rparr>) = None" by (simp add: match_app_request_def)
  show "match_app_request c u = Some (MatchApp t) \<longrightarrow>
      to_lower (pu_hostname u) = app_host c (tg_user t) \<and> tg_mount t = app_mount_path c (tg_user t) (tg_package t)"
    using app_match_host app_match_mount by blast
qed

definition sample_parse :: "string \<Rightarrow> parsed_url option" where
  "sample_parse t =
     (if t = ''https://kody.example'' \<or> t = ''https://apps.example'' then
        Some \<lparr>pu_protocol = ''https:'', pu_username = [], pu_password = [], pu_hostname = drop 8 t, pu_port = [],
          pu_path = ''/'', pu_search = [], pu_hash = []\<rparr>
      else None)"

theorem app_hosts_apart_witness:
  "\<exists>c base p. read_app_config sample_parse (Some '' https://*.apps.example '') ''https://kody.example'' = Some (Inr (c, base)) \<and>
     ac_mode c = SubdomainMode \<and> sample_parse ''https://kody.example'' = Some p \<and> match_app_request c (p\<lparr>pu_path := ''/packages/notes''\<rparr>) = None"
proof -
  let ?c = "\<lparr>ac_mode = SubdomainMode, ac_protocol = ''https:'', ac_hostname = ''apps.example'', ac_port = []\<rparr>"
  let ?p = "\<lparr>pu_protocol = ''https:'', pu_username = [], pu_password = [], pu_hostname = ''kody.example'', pu_port = [],
          pu_path = ''/'', pu_search = [], pu_hash = []\<rparr>"
  have *: "read_app_config sample_parse (Some '' https://*.apps.example '') ''https://kody.example'' = Some (Inr (?c, ''https://*.apps.example''))"
    "sample_parse ''https://kody.example'' = Some ?p" "to_lower ''kody.example'' = ''kody.example''"
    by code_simp+
  have "to_lower (pu_hostname ?p) = pu_hostname ?p" by (simp add: *(3))
  from app_hosts_apart [OF *(1,2) this] *(1,2) show ?thesis by (metis app_config.select_convs(1))
qed

end
