(* ===== verification/AppTokens.thy ===== *)
theory AppTokens
  imports OAuthProtocol
begin

text \<open>
  src/src/apps/tokens.ts: the values that carry a sign-in from the Kody origin to the app origin.
  A value is the base64url text of JSON claims and of a MAC over a purpose and that text. The MAC
  and the JSON functions are parameters; random ids and the clock are arguments.
\<close>

record token_env =
  tk_hmac :: "string \<Rightarrow> string \<Rightarrow> string"
  tk_stringify :: "json \<Rightarrow> string"
  tk_parse :: "string \<Rightarrow> json option"

definition handoff_purpose :: string where "handoff_purpose = ''kody-celld:app-handoff:v1''"
definition session_purpose :: string where "session_purpose = ''kody-celld:app-session:v1''"

definition handoff_ttl_ms :: time where "handoff_ttl_ms = 60000"
definition app_session_max_ms :: time where "app_session_max_ms = 12 * 60 * 60 * 1000"

definition app_state_pattern :: "string \<Rightarrow> bool" where
  "app_state_pattern t = (length t = 32 \<and> list_all (\<lambda>c. is_digit c \<or> in_range 97 102 c) t)"

definition new_app_state :: "string \<Rightarrow> string" where
  "new_app_state raw = bytes_to_hex raw"

section \<open>Sealed values\<close>

definition url_char :: "char \<Rightarrow> bool" where
  "url_char c = (is_alnum c \<or> c = CHR ''_'' \<or> c = CHR ''-'')"

definition from_base64url :: "string \<Rightarrow> string option" where
  "from_base64url t =
     (if t = [] \<or> \<not> list_all url_char t then None
      else atob (map (\<lambda>c. if c = CHR ''-'' then CHR ''+'' else if c = CHR ''_'' then CHR ''/'' else c) t
             @ replicate ((4 - length t mod 4) mod 4) CHR ''=''))"

definition seal_message :: "string \<Rightarrow> string \<Rightarrow> string" where
  "seal_message purpose payload = utf8_encode (purpose @ ''.'' @ payload)"

definition seal_payload :: "token_env \<Rightarrow> json \<Rightarrow> string" where
  "seal_payload E claims = base64url (utf8_encode (tk_stringify E claims))"

definition seal :: "token_env \<Rightarrow> string \<Rightarrow> string \<Rightarrow> json \<Rightarrow> string" where
  "seal E master purpose claims =
     (let payload = seal_payload E claims
      in payload @ ''.'' @ base64url (tk_hmac E (utf8_encode master) (seal_message purpose payload)))"

datatype token_failure = Malformed | BadSignature | Expired | Mismatch | Replay

definition unseal :: "token_env \<Rightarrow> string \<Rightarrow> string \<Rightarrow> string \<Rightarrow> token_failure + (string \<times> json) list" where
  "unseal E master purpose v =
     (case split_on CHR ''.'' v of
        [payload, signature] \<Rightarrow>
          if payload = [] \<or> signature = [] then Inl Malformed
          else
            (case from_base64url signature of
               None \<Rightarrow> Inl Malformed
             | Some mac \<Rightarrow>
               if mac \<noteq> tk_hmac E (utf8_encode master) (seal_message purpose payload) then Inl BadSignature
               else
                 (case Option.bind (from_base64url payload) (\<lambda>bytes. tk_parse E (utf8_decode bytes)) of
                    Some (JObj es) \<Rightarrow> Inr es
                  | _ \<Rightarrow> Inl Malformed))
      | _ \<Rightarrow> Inl Malformed)"

definition claim_text :: "string \<Rightarrow> (string \<times> json) list \<Rightarrow> string option" where
  "claim_text k es = (case json_field k es of Some (JStr (c # t)) \<Rightarrow> Some (c # t) | _ \<Rightarrow> None)"

definition claim_time :: "string \<Rightarrow> (string \<times> json) list \<Rightarrow> rat option" where
  "claim_time k es = (case json_field k es of Some (JNum (Num r)) \<Rightarrow> Some r | _ \<Rightarrow> None)"

definition version_one :: "(string \<times> json) list \<Rightarrow> bool" where
  "version_one es = (json_field ''v'' es = Some (JNum (Num 1)))"

section \<open>Handoffs\<close>

record handoff_claims =
  hc_user :: string
  hc_package :: string
  hc_session :: string
  hc_state :: string
  hc_expires :: rat
  hc_jti :: string

definition handoff_json :: "handoff_claims \<Rightarrow> json" where
  "handoff_json c =
     JObj [(''v'', JNum (Num 1)), (''uid'', JStr (hc_user c)), (''pkg'', JStr (hc_package c)), (''sid'', JStr (hc_session c)),
       (''st'', JStr (hc_state c)), (''exp'', JNum (Num (hc_expires c))), (''jti'', JStr (hc_jti c))]"

definition mint_handoff :: "token_env \<Rightarrow> string \<Rightarrow> string \<Rightarrow> string \<Rightarrow> string \<Rightarrow> string \<Rightarrow> string \<Rightarrow> time \<Rightarrow> string" where
  "mint_handoff E master uid pkg sid st jti now =
     seal E master handoff_purpose (handoff_json
       \<lparr>hc_user = uid, hc_package = pkg, hc_session = sid, hc_state = st, hc_expires = of_int (now + handoff_ttl_ms),
        hc_jti = jti\<rparr>)"

definition handoff_shape :: "(string \<times> json) list \<Rightarrow> handoff_claims option" where
  "handoff_shape f =
     (if \<not> version_one f then None
      else case (claim_text ''uid'' f, claim_text ''pkg'' f, claim_text ''sid'' f, claim_text ''st'' f, claim_text ''jti'' f,
          claim_time ''exp'' f) of
        (Some u, Some p, Some s, Some st, Some j, Some e) \<Rightarrow>
          Some \<lparr>hc_user = u, hc_package = p, hc_session = s, hc_state = st, hc_expires = e, hc_jti = j\<rparr>
      | _ \<Rightarrow> None)"

record handoff_expected =
  hx_user :: string
  hx_package :: string
  hx_state :: string

definition bound_to :: "handoff_claims \<Rightarrow> handoff_expected \<Rightarrow> bool" where
  "bound_to c x = (hc_user c = hx_user x \<and> hc_package c = hx_package x \<and> hc_state c = hx_state x)"

text \<open>\<open>consumeHandoff\<close>: signature, shape, expiry, binding, and only then the burn.\<close>

definition consume_handoff ::
  "token_env \<Rightarrow> string \<Rightarrow> string \<Rightarrow> handoff_expected \<Rightarrow> (string \<Rightarrow> rat \<Rightarrow> 's \<Rightarrow> bool \<times> 's) \<Rightarrow> time \<Rightarrow> 's \<Rightarrow>
   (token_failure + handoff_claims) \<times> 's" where
  "consume_handoff E master token x burn now s =
     (case unseal E master handoff_purpose token of
        Inl e \<Rightarrow> (Inl e, s)
      | Inr f \<Rightarrow>
        (case handoff_shape f of
           None \<Rightarrow> (Inl Malformed, s)
         | Some c \<Rightarrow>
           if hc_expires c \<le> of_int now then (Inl Expired, s)
           else if \<not> bound_to c x then (Inl Mismatch, s)
           else
             (let (burnt, s') = burn (hc_jti c) (hc_expires c) s in
              (if burnt then Inr c else Inl Replay, s'))))"

section \<open>App sessions\<close>

record app_session_claims =
  as_user :: string
  as_session :: string
  as_expires :: rat

definition session_json :: "app_session_claims \<Rightarrow> json" where
  "session_json c =
     JObj [(''v'', JNum (Num 1)), (''uid'', JStr (as_user c)), (''sid'', JStr (as_session c)),
       (''exp'', JNum (Num (as_expires c)))]"

definition sign_app_session :: "token_env \<Rightarrow> string \<Rightarrow> string \<Rightarrow> string \<Rightarrow> time \<Rightarrow> string" where
  "sign_app_session E master uid sid expires =
     seal E master session_purpose (session_json \<lparr>as_user = uid, as_session = sid, as_expires = of_int expires\<rparr>)"

definition session_shape :: "(string \<times> json) list \<Rightarrow> app_session_claims option" where
  "session_shape f =
     (if \<not> version_one f then None
      else case (claim_text ''uid'' f, claim_text ''sid'' f, claim_time ''exp'' f) of
        (Some u, Some s, Some e) \<Rightarrow> Some \<lparr>as_user = u, as_session = s, as_expires = e\<rparr>
      | _ \<Rightarrow> None)"

definition verify_app_session :: "token_env \<Rightarrow> string \<Rightarrow> string \<Rightarrow> time \<Rightarrow> app_session_claims option" where
  "verify_app_session E master v now =
     (case unseal E master session_purpose v of
        Inl e \<Rightarrow> None
      | Inr f \<Rightarrow>
        (case session_shape f of
           None \<Rightarrow> None
         | Some c \<Rightarrow> if as_expires c \<le> of_int now then None else Some c))"

section \<open>Base64\<close>

lemma base64_value_char: "n < 64 \<Longrightarrow> base64_value (base64_char n) = Some n"
proof -
  assume n: "n < 64"
  consider "n < 26" | "26 \<le> n" "n < 52" | "52 \<le> n" "n < 62" | "n = 62" | "n = 63" using n by linarith
  then show ?thesis
    by cases (auto simp: base64_char_def base64_value_def in_range_def unit_of_char_of, auto simp: unit_of_def)
qed

lemma base64_value_not_pad: "base64_value CHR ''='' = None"
  by code_simp

lemma base64_char_not_pad: "n < 64 \<Longrightarrow> base64_char n \<noteq> CHR ''=''"
  using base64_value_char base64_value_not_pad by force

definition b64_body :: "string \<Rightarrow> string" where
  "b64_body bs = filter (\<lambda>c. c \<noteq> CHR ''='') (btoa bs)"

lemma sixtets:
  "unit_of a div 4 < 64" "unit_of a mod 4 * 16 < 64" "unit_of a mod 4 * 16 + unit_of b div 16 < 64"
  "unit_of b mod 16 * 4 < 64" "unit_of b mod 16 * 4 + unit_of c div 64 < 64" "unit_of c mod 64 < 64"
proof -
  have "unit_of a div 4 < 64" "unit_of a mod 4 < 4" "unit_of b div 16 < 16" "unit_of b mod 16 < 16" "unit_of c div 64 < 4"
    "unit_of c mod 64 < 64"
    using unit_of_less [of a] unit_of_less [of b] unit_of_less [of c] by (simp_all add: less_mult_imp_div_less)
  then show "unit_of a div 4 < 64" "unit_of a mod 4 * 16 < 64" "unit_of a mod 4 * 16 + unit_of b div 16 < 64"
    "unit_of b mod 16 * 4 < 64" "unit_of b mod 16 * 4 + unit_of c div 64 < 64" "unit_of c mod 64 < 64"
    by linarith+
qed

lemma char_of_unit [simp]: "char_of (unit_of c) = c"
  by (simp add: unit_of_def)

lemma rejoin:
  "unit_of a div 4 * 4 + (unit_of a mod 4 * 16 + unit_of b div 16) div 16 = unit_of a"
  "(unit_of a mod 4 * 16 + unit_of b div 16) mod 16 * 16 + (unit_of b mod 16 * 4 + unit_of c div 64) div 4 = unit_of b"
  "(unit_of b mod 16 * 4 + unit_of c div 64) mod 4 * 64 + unit_of c mod 64 = unit_of c"
proof -
  have "unit_of b div 16 < 16" "unit_of c div 64 < 4"
    using unit_of_less [of b] unit_of_less [of c] by (simp_all add: less_mult_imp_div_less)
  then have "(unit_of a mod 4 * 16 + unit_of b div 16) div 16 = unit_of a mod 4"
    "(unit_of a mod 4 * 16 + unit_of b div 16) mod 16 = unit_of b div 16"
    "(unit_of b mod 16 * 4 + unit_of c div 64) div 4 = unit_of b mod 16"
    "(unit_of b mod 16 * 4 + unit_of c div 64) mod 4 = unit_of c div 64"
    by simp_all
  then show "unit_of a div 4 * 4 + (unit_of a mod 4 * 16 + unit_of b div 16) div 16 = unit_of a"
    "(unit_of a mod 4 * 16 + unit_of b div 16) mod 16 * 16 + (unit_of b mod 16 * 4 + unit_of c div 64) div 4 = unit_of b"
    "(unit_of b mod 16 * 4 + unit_of c div 64) mod 4 * 64 + unit_of c mod 64 = unit_of c"
    by simp_all
qed

lemma body_step:
  "b64_body (a # b # c # s) =
     [base64_char (unit_of a div 4), base64_char (unit_of a mod 4 * 16 + unit_of b div 16),
      base64_char (unit_of b mod 16 * 4 + unit_of c div 64), base64_char (unit_of c mod 64)] @ b64_body s"
  by (simp add: b64_body_def base64_char_not_pad sixtets)

lemma btoa_body:
  "btoa bs = b64_body bs @ replicate ((4 - length (b64_body bs) mod 4) mod 4) CHR ''='' \<and> length (b64_body bs) mod 4 \<noteq> 1"
proof (induction bs rule: btoa.induct)
  case (2 a)
  have "b64_body [a] = [base64_char (unit_of a div 4), base64_char (unit_of a mod 4 * 16)]"
    by (simp add: b64_body_def base64_char_not_pad sixtets)
  then show ?case by (simp add: numeral_2_eq_2)
next
  case (3 a b)
  have "b64_body [a, b] = [base64_char (unit_of a div 4), base64_char (unit_of a mod 4 * 16 + unit_of b div 16),
      base64_char (unit_of b mod 16 * 4)]"
    by (simp add: b64_body_def base64_char_not_pad sixtets)
  then show ?case by simp
next
  case (4 a b c s)
  have "length (b64_body (a # b # c # s)) mod 4 = length (b64_body s) mod 4" by (simp add: body_step)
  then show ?case using 4 by (simp only: body_step btoa.simps append_Cons append_Nil) simp
qed (simp add: b64_body_def)

lemma is_sixtet: "m < 64 \<Longrightarrow> \<exists>n<64. base64_char m = base64_char n"
  by blast

lemma body_values: "\<forall>c\<in>set (b64_body bs). \<exists>n<64. c = base64_char n"
proof (induction bs rule: btoa.induct)
  case (4 a b c s)
  then show ?case by (auto simp: body_step intro!: is_sixtet sixtets)
qed (auto simp: b64_body_def base64_char_not_pad sixtets intro!: is_sixtet)

lemma body_bytes: "base64_bytes (map (\<lambda>c. the (base64_value c)) (b64_body bs)) = bs"
proof (induction bs rule: btoa.induct)
  case (2 a)
  then show ?case using rejoin(1) [of a "CHR 0x00"]
    by (simp add: b64_body_def base64_char_not_pad base64_value_char sixtets)
next
  case (3 a b)
  then show ?case using rejoin(1) [of a b] rejoin(2) [of a b "CHR 0x00"]
    by (simp add: b64_body_def base64_char_not_pad base64_value_char sixtets)
next
  case (4 a b c s)
  then show ?case
    by (simp only: body_step list.map base64_value_char sixtets option.sel base64_bytes.simps rejoin char_of_unit append_Cons append_Nil)
qed (simp add: b64_body_def)

lemma body_chars:
  assumes "c \<in> set (b64_body bs)"
  shows "base64_value c \<noteq> None \<and> \<not> (unit_of c = 32 \<or> unit_of c = 9 \<or> unit_of c = 10 \<or> unit_of c = 12 \<or> unit_of c = 13) \<and>
    c \<noteq> CHR ''='' \<and> (is_alnum c \<or> c = CHR ''+'' \<or> c = CHR ''/'')"
proof -
  have "base64_value c \<noteq> None" using assms body_values [of bs] base64_value_char by fastforce
  then show ?thesis
    by (auto simp: base64_value_def in_range_def is_alnum_def is_upper_def is_lower_def is_digit_def split: if_splits)
       (auto simp: unit_of_def)
qed

lemma atob_btoa [simp]: "atob (btoa bs) = Some bs"
proof -
  let ?b = "b64_body bs" and ?e = "CHR ''=''"
  define k where "k = (4 - length ?b mod 4) mod 4"
  have b: "btoa bs = ?b @ replicate k ?e" "length ?b mod 4 \<noteq> 1" using btoa_body [of bs] by (simp_all add: k_def)
  have "length ?b mod 4 \<in> {0, 2, 3}" using b(2) mod_less_divisor [of 4 "length ?b"] by auto
  then have k: "k = 0 \<or> k = 1 \<or> k = 2" and "(length ?b mod 4 + k) mod 4 = 0" by (auto simp: k_def)
  then have len: "(length ?b + k) mod 4 = 0" by (simp only: mod_add_left_eq)
  have keep: "filter (\<lambda>c. \<not> (unit_of c = 32 \<or> unit_of c = 9 \<or> unit_of c = 10 \<or> unit_of c = 12 \<or> unit_of c = 13)) (btoa bs) = btoa bs"
    unfolding b(1) using body_chars by (auto simp: filter_id_conv unit_of_def)
  have no: "?e \<notin> set ?b" using body_chars by blast
  have "(if ends_with (btoa bs) ''=='' then take (length (btoa bs) - 2) (btoa bs)
         else if ends_with (btoa bs) ''='' then take (length (btoa bs) - 1) (btoa bs) else btoa bs) = ?b"
    using k no unfolding b(1) by (cases ?b rule: rev_cases) (auto simp: ends_with_def numeral_2_eq_2)
  moreover have "length (btoa bs) mod 4 = 0" using len by (simp add: b(1))
  ultimately have cut: "(if length (btoa bs) mod 4 \<noteq> 0 then btoa bs
      else if ends_with (btoa bs) ''=='' then take (length (btoa bs) - 2) (btoa bs)
      else if ends_with (btoa bs) ''='' then take (length (btoa bs) - 1) (btoa bs) else btoa bs) = ?b"
    by simp
  have "\<not> list_ex (\<lambda>c. base64_value c = None) ?b" using body_chars by (auto simp: list_ex_iff)
  then show ?thesis using b(2) unfolding atob_def Let_def keep cut by (simp add: body_bytes)
qed

lemma base64url_body: "base64url bs = map (\<lambda>c. if c = CHR ''+'' then CHR ''-'' else if c = CHR ''/'' then CHR ''_'' else c) (b64_body bs)"
  by (simp add: base64url_def b64_body_def)

lemma from_base64url_roundtrip [simp]:
  assumes "bs \<noteq> []"
  shows "from_base64url (base64url bs) = Some bs"
proof -
  let ?b = "b64_body bs"
  have "?b \<noteq> []" using assms body_bytes [of bs] by auto
  moreover have "list_all url_char (base64url bs)"
    using body_chars by (fastforce simp: base64url_body list_all_iff url_char_def)
  moreover have "map (\<lambda>c. if c = CHR ''-'' then CHR ''+'' else if c = CHR ''_'' then CHR ''/'' else c) (base64url bs) = ?b"
    unfolding base64url_body list.map_comp
  proof (rule map_idI)
    fix c assume "c \<in> set ?b"
    then have "c \<noteq> CHR ''-''" "c \<noteq> CHR ''_''"
      using body_chars by (fastforce simp: is_alnum_def is_upper_def is_lower_def is_digit_def in_range_def unit_of_def)+
    then show "((\<lambda>c. if c = CHR ''-'' then CHR ''+'' else if c = CHR ''_'' then CHR ''/'' else c) \<circ>
      (\<lambda>c. if c = CHR ''+'' then CHR ''-'' else if c = CHR ''/'' then CHR ''_'' else c)) c = c" by simp
  qed
  moreover have "length (base64url bs) = length ?b" by (simp add: base64url_body)
  ultimately show ?thesis using atob_btoa [of bs] btoa_body [of bs] by (auto simp: from_base64url_def)
qed

lemma base64url_no_dot: "CHR ''.'' \<notin> set (base64url bs)"
proof -
  have "\<forall>c\<in>set (b64_body bs). c \<noteq> CHR ''.''"
    using body_chars by (fastforce simp: is_alnum_def is_upper_def is_lower_def is_digit_def in_range_def unit_of_def)
  then show ?thesis by (auto simp: base64url_body split: if_splits)
qed

lemma base64url_empty [simp]: "base64url bs = [] \<longleftrightarrow> bs = []"
  using body_bytes [of bs] by (auto simp: base64url_body b64_body_def)

section \<open>Sealing and opening\<close>

lemma utf8_encode_empty [simp]: "utf8_encode t = [] \<longleftrightarrow> t = []"
  using utf8_encode_inject [of t "[]"] by (simp add: utf8_encode_def)

lemma utf8_encode_append: "utf8_encode (a @ b) = utf8_encode a @ utf8_encode b"
  by (simp add: utf8_encode_def)

lemma split_seal:
  "split_on CHR ''.'' (seal E master p j) =
     [seal_payload E j, base64url (tk_hmac E (utf8_encode master) (seal_message p (seal_payload E j)))]"
  by (simp add: seal_def Let_def split_on_append_sep split_on_none seal_payload_def base64url_no_dot)

text \<open>What is assumed of the MAC and of the JSON functions: a MAC is not empty, and parsing undoes printing.\<close>

definition seals :: "token_env \<Rightarrow> json \<Rightarrow> bool" where
  "seals E j = ((\<forall>k m. tk_hmac E k m \<noteq> []) \<and> tk_stringify E j \<noteq> [] \<and> tk_parse E (tk_stringify E j) = Some j)"

lemma unseal_seal: "seals E (JObj es) \<Longrightarrow> unseal E master p (seal E master p (JObj es)) = Inr es"
  by (simp add: unseal_def split_seal seals_def) (simp add: seal_payload_def)

lemma unseal_other:
  "seals E j \<Longrightarrow> tk_hmac E (utf8_encode master') (seal_message q (seal_payload E j)) \<noteq> tk_hmac E (utf8_encode master) (seal_message p (seal_payload E j)) \<Longrightarrow>
   unseal E master' q (seal E master p j) = Inl BadSignature"
  by (simp add: unseal_def split_seal seals_def) (simp add: seal_payload_def)

lemma purposes_apart: "seal_message handoff_purpose a \<noteq> seal_message session_purpose b"
  by (simp add: seal_message_def utf8_encode_inject handoff_purpose_def session_purpose_def)

lemma claim_text_Some: "claim_text k es = Some t \<longleftrightarrow> json_field k es = Some (JStr t) \<and> t \<noteq> []"
  by (cases t) (auto simp: claim_text_def split: option.splits json.splits list.splits)

text \<open>Claims whose texts are all there.\<close>

definition filled :: "handoff_claims \<Rightarrow> bool" where
  "filled c = (hc_user c \<noteq> [] \<and> hc_package c \<noteq> [] \<and> hc_session c \<noteq> [] \<and> hc_state c \<noteq> [] \<and> hc_jti c \<noteq> [])"

lemma handoff_shape_json: "filled c \<Longrightarrow> handoff_json c = JObj es \<Longrightarrow> handoff_shape es = Some c"
proof -
  assume c: "filled c" "handoff_json c = JObj es"
  have "claim_text ''uid'' es = Some (hc_user c)" "claim_text ''pkg'' es = Some (hc_package c)"
    "claim_text ''sid'' es = Some (hc_session c)" "claim_text ''st'' es = Some (hc_state c)"
    "claim_text ''jti'' es = Some (hc_jti c)" "claim_time ''exp'' es = Some (hc_expires c)" "version_one es"
    using c by (auto simp: claim_text_Some filled_def handoff_json_def json_field_def claim_time_def version_one_def)
  then show ?thesis by (simp add: handoff_shape_def)
qed

text \<open>A handoff opens, during its minute, for the user, the package and the browser state it was minted for,
  if its id can still be burnt; a late one is refused, and so is a wrong user, package or browser, in both cases without
  burning the id: a mistyped address does not cost the owner the token.\<close>

lemma consume_minted:
  assumes "c = \<lparr>hc_user = uid, hc_package = pkg, hc_session = sid, hc_state = st, hc_expires = of_int (t0 + handoff_ttl_ms), hc_jti = jti\<rparr>"
    "filled c" "seals E (handoff_json c)"
  shows "consume_handoff E master (mint_handoff E master uid pkg sid st jti t0) x burn now s =
    (if t0 + 60000 \<le> now then (Inl Expired, s)
     else if \<not> (hx_user x = uid \<and> hx_package x = pkg \<and> hx_state x = st) then (Inl Mismatch, s)
     else if fst (burn jti (hc_expires c) s) then (Inr c, snd (burn jti (hc_expires c) s))
     else (Inl Replay, snd (burn jti (hc_expires c) s)))"
proof -
  obtain es where es: "handoff_json c = JObj es" by (simp add: handoff_json_def)
  have "mint_handoff E master uid pkg sid st jti t0 = seal E master handoff_purpose (JObj es)"
    by (simp add: mint_handoff_def es [symmetric] assms(1))
  then have u: "unseal E master handoff_purpose (mint_handoff E master uid pkg sid st jti t0) = Inr es"
    using unseal_seal assms(3) es by simp
  have "hc_expires c \<le> of_int now \<longleftrightarrow> t0 + 60000 \<le> now"
    by (simp only: assms(1) handoff_claims.simps of_int_le_iff handoff_ttl_ms_def)
  moreover have "bound_to c x \<longleftrightarrow> hx_user x = uid \<and> hx_package x = pkg \<and> hx_state x = st"
    by (auto simp: bound_to_def assms(1))
  moreover have "hc_jti c = jti" by (simp add: assms(1))
  ultimately show ?thesis
    by (simp add: consume_handoff_def u handoff_shape_json [OF assms(2) es] case_prod_beta Let_def)
qed

text \<open>A MAC that keeps the first characters of the message, and a table of two JSON texts.\<close>

definition sample_handoff :: handoff_claims where
  "sample_handoff = \<lparr>hc_user = ''u1'', hc_package = ''notes'', hc_session = ''s1'', hc_state = ''b1'', hc_expires = 60000, hc_jti = ''j1''\<rparr>"

definition sample_session :: app_session_claims where
  "sample_session = \<lparr>as_user = ''u1'', as_session = ''s1'', as_expires = 43200010\<rparr>"

definition sample_token_env :: token_env where
  "sample_token_env =
     \<lparr>tk_hmac = (\<lambda>k m. take 32 (m @ replicate 32 CHR ''0'') @ k),
      tk_stringify = (\<lambda>j. if j = handoff_json sample_handoff then ''h'' else ''s''),
      tk_parse = (\<lambda>t. if t = ''h'' then Some (handoff_json sample_handoff)
        else if t = ''s'' then Some (session_json sample_session) else None)\<rparr>"

lemma sample_handoff_seals: "seals sample_token_env (handoff_json sample_handoff)"
  by (simp add: seals_def sample_token_env_def)

lemma sample_session_seals: "seals sample_token_env (session_json sample_session)"
  by (simp add: seals_def sample_token_env_def session_json_def handoff_json_def)

lemma verify_signed:
  assumes "seals E (session_json \<lparr>as_user = uid, as_session = sid, as_expires = of_int e\<rparr>)" "uid \<noteq> []" "sid \<noteq> []" "now < e"
  shows "verify_app_session E master (sign_app_session E master uid sid e) now = Some \<lparr>as_user = uid, as_session = sid, as_expires = of_int e\<rparr>"
proof -
  let ?c = "\<lparr>as_user = uid, as_session = sid, as_expires = of_int e\<rparr>"
  obtain es where es: "session_json ?c = JObj es" by (simp add: session_json_def)
  have "claim_text ''uid'' es = Some uid" "claim_text ''sid'' es = Some sid" "claim_time ''exp'' es = Some (of_int e)" "version_one es"
    using es assms(2,3) by (auto simp: claim_text_Some session_json_def json_field_def claim_time_def version_one_def)
  then have "session_shape es = Some ?c" by (simp add: session_shape_def)
  then show ?thesis using assms(1,4) es by (simp add: verify_app_session_def sign_app_session_def unseal_seal)
qed

lemma seal_nonempty [simp]: "seal E master p j \<noteq> []"
  by (simp add: seal_def Let_def)

text \<open>The two kinds of values never stand in for each other: unless the MAC collides on the two messages, an app
  session value presented as a handoff is refused for its signature and burns nothing, and a handoff presented as an app
  session is no session, whichever master keys the two were made and read with.\<close>

theorem tokens_keep_their_purpose:
  assumes "seals E j"
    "tk_hmac E (utf8_encode master') (seal_message handoff_purpose (seal_payload E j)) = tk_hmac E (utf8_encode master) (seal_message session_purpose (seal_payload E j)) \<longrightarrow>
      seal_message handoff_purpose (seal_payload E j) = seal_message session_purpose (seal_payload E j)"
    "tk_hmac E (utf8_encode master') (seal_message session_purpose (seal_payload E j)) = tk_hmac E (utf8_encode master) (seal_message handoff_purpose (seal_payload E j)) \<longrightarrow>
      seal_message session_purpose (seal_payload E j) = seal_message handoff_purpose (seal_payload E j)"
  shows "consume_handoff E master' (seal E master session_purpose j) x burn now s = (Inl BadSignature, s) \<and>
    verify_app_session E master' (seal E master handoff_purpose j) now = None"
proof
  have "unseal E master' handoff_purpose (seal E master session_purpose j) = Inl BadSignature"
    using assms(2) purposes_apart by (intro unseal_other assms(1)) metis
  then show "consume_handoff E master' (seal E master session_purpose j) x burn now s = (Inl BadSignature, s)"
    by (simp add: consume_handoff_def)
  have "unseal E master' session_purpose (seal E master handoff_purpose j) = Inl BadSignature"
    using assms(3) purposes_apart by (intro unseal_other assms(1)) metis
  then show "verify_app_session E master' (seal E master handoff_purpose j) now = None"
    by (simp add: verify_app_session_def)
qed

theorem tokens_keep_their_purpose_witness:
  "consume_handoff sample_token_env ''m'' (seal sample_token_env ''m'' session_purpose (handoff_json sample_handoff))
     \<lparr>hx_user = ''u1'', hx_package = ''notes'', hx_state = ''b1''\<rparr> (\<lambda>j e s. (j \<notin> s, insert j s)) 0 {} = (Inl BadSignature, {}) \<and>
   verify_app_session sample_token_env ''m'' (seal sample_token_env ''m'' handoff_purpose (handoff_json sample_handoff)) 0 = None"
proof -
  have "utf8_encode handoff_purpose = handoff_purpose" "utf8_encode session_purpose = session_purpose" by code_simp+
  moreover have "length handoff_purpose = 25" "length session_purpose = 25" by code_simp+
  ultimately have "take 24 (take 32 (seal_message handoff_purpose a @ r)) = take 24 handoff_purpose"
    "take 24 (take 32 (seal_message session_purpose a @ r)) = take 24 session_purpose" for a r
    by (simp_all add: seal_message_def utf8_encode_append)
  moreover have "take 24 handoff_purpose \<noteq> take 24 session_purpose" by code_simp
  ultimately have "take 32 (seal_message handoff_purpose a @ replicate 32 CHR ''0'') \<noteq>
      take 32 (seal_message session_purpose b @ replicate 32 CHR ''0'')" for a b
    by metis
  then have apart: "tk_hmac sample_token_env k (seal_message handoff_purpose a) \<noteq> tk_hmac sample_token_env k (seal_message session_purpose b)" for k a b
    by (simp add: sample_token_env_def)
  show ?thesis
    by (rule tokens_keep_their_purpose [OF sample_handoff_seals])
       (rule impI, erule notE [OF apart], rule impI, drule sym, erule notE [OF apart])
qed

end
