(* ===== verification/AppOrigin.thy ===== *)
theory AppOrigin
  imports AppUrl AppTokens Accounts
begin

text \<open>
  The two ends of the sign-in to a package app: src/src/apps/open.ts on the Kody origin, which mints
  the handoff, and src/src/apps/origin.ts on the app origin, which swaps it for a cookie and serves
  the owner. Cookie parsing, query strings and JSON are parameters; the registry is Accounts.
\<close>

section \<open>Requests and answers\<close>

record origin_env =
  og_tokens :: token_env
  og_params :: "string \<Rightarrow> (string \<times> string) list"
  og_query :: "(string \<times> string) list \<Rightarrow> string"
  og_cookie :: "string option \<Rightarrow> string \<Rightarrow> string option"

record app_request =
  aq_method :: string
  aq_url :: parsed_url
  aq_headers :: "(string \<times> string) list"

record set_cookie =
  ck_name :: string
  ck_value :: string
  ck_max_age :: int
  ck_secure :: bool
  ck_path :: string

text \<open>The pages, the redirects with the cookies they set, and the request that the app gets.\<close>

datatype app_answer =
    AppNotFound
  | RedirectTo string "set_cookie list"
  | CrossOriginRefused
  | OpenFromKody string
  | ServeApp app_target user_row

definition handoff_param :: string where "handoff_param = ''__kody_handoff''"
definition app_session_cookie_name :: string where "app_session_cookie_name = ''kody_app_session''"
definition app_state_cookie_name :: string where "app_state_cookie_name = ''kody_app_state''"
definition app_state_max_age_seconds :: int where "app_state_max_age_seconds = 300"

definition search_without_handoff :: "origin_env \<Rightarrow> parsed_url \<Rightarrow> string" where
  "search_without_handoff E u =
     (let ps = og_params E (pu_search u) in
      if map_of ps handoff_param = None then pu_search u
      else
        (let t = og_query E (filter (\<lambda>p. fst p \<noteq> handoff_param) ps) in
         if t = [] then [] else ''?'' @ t))"

definition safe_method :: "app_request \<Rightarrow> bool" where
  "safe_method rq = (aq_method rq = ''GET'' \<or> aq_method rq = ''HEAD'')"

definition cross_origin :: "app_config \<Rightarrow> app_request \<Rightarrow> bool" where
  "cross_origin c rq =
     ((case map_of (aq_headers rq) ''origin'' of None \<Rightarrow> False | Some o' \<Rightarrow> o' \<noteq> ac_protocol c @ ''//'' @ url_host (aq_url rq)) \<or>
      (case map_of (aq_headers rq) ''sec-fetch-site'' of None \<Rightarrow> False | Some t \<Rightarrow> t \<noteq> ''same-origin''))"

definition app_cookie :: "app_config \<Rightarrow> string \<Rightarrow> string \<Rightarrow> string \<Rightarrow> int \<Rightarrow> set_cookie" where
  "app_cookie c uid name v age =
     \<lparr>ck_name = name, ck_value = v, ck_max_age = age, ck_secure = (ac_protocol c = ''https:''),
      ck_path = (if ac_mode c = PathMode then ''/u/'' @ uid @ ''/'' else ''/'')\<rparr>"

definition request_cookie :: "origin_env \<Rightarrow> app_request \<Rightarrow> string \<Rightarrow> string option" where
  "request_cookie E rq name = og_cookie E (map_of (aq_headers rq) ''cookie'') name"

definition request_handoff :: "origin_env \<Rightarrow> app_request \<Rightarrow> string option" where
  "request_handoff E rq = some_text (map_of (og_params E (pu_search (aq_url rq))) handoff_param)"

text \<open>The registry's expiry column is compared with whole milliseconds only, so a fraction rounds up.\<close>

definition burn_handoff :: "time \<Rightarrow> string \<Rightarrow> rat \<Rightarrow> registry \<Rightarrow> bool \<times> registry" where
  "burn_handoff clock jti expires s = app_handoff_burn jti \<lceil>expires\<rceil> clock s"

section \<open>The app origin\<close>

text \<open>The part of \<open>handleAppOriginRequest\<close> after the handoff: a session is served, anything else
  starts the sign-in anew, or is told to.\<close>

definition live_session ::
  "origin_env \<Rightarrow> string \<Rightarrow> time \<Rightarrow> time \<Rightarrow> app_target \<Rightarrow> app_request \<Rightarrow> registry \<Rightarrow> app_session_claims option" where
  "live_session E master now clock t rq s =
     (case Option.bind (some_text (request_cookie E rq app_session_cookie_name)) (\<lambda>v. verify_app_session (og_tokens E) master v now) of
        None \<Rightarrow> None
      | Some claims \<Rightarrow>
        if as_user claims \<noteq> tg_user t \<or> \<not> session_alive (as_user claims) (as_session claims) clock s then None else Some claims)"

definition serve_session ::
  "origin_env \<Rightarrow> app_config \<Rightarrow> string \<Rightarrow> string \<Rightarrow> string \<Rightarrow> time \<Rightarrow> time \<Rightarrow> app_target \<Rightarrow> app_request \<Rightarrow> registry \<Rightarrow> app_answer" where
  "serve_session E c master public raw now clock t rq s =
     (case live_session E master now clock t rq s of
        None \<Rightarrow>
          if \<not> safe_method rq \<or> request_handoff E rq \<noteq> None then OpenFromKody (tg_package t)
          else
            (let st = new_app_state raw in
             RedirectTo (public @ ''/apps/open?package='' @ encode_uri_component (tg_package t) @ ''&state='' @ st)
               [app_cookie c (tg_user t) app_state_cookie_name st app_state_max_age_seconds])
      | Some claims \<Rightarrow>
          (case get_user (as_user claims) s of
             None \<Rightarrow> OpenFromKody (tg_package t)
           | Some u \<Rightarrow> ServeApp t u))"

text \<open>\<open>now\<close> is the handler's reading of the clock, \<open>clock\<close> the registry's later ones.\<close>

definition swap_handoff ::
  "origin_env \<Rightarrow> string \<Rightarrow> time \<Rightarrow> time \<Rightarrow> app_target \<Rightarrow> app_request \<Rightarrow> registry \<Rightarrow> (token_failure + handoff_claims) option \<times> registry" where
  "swap_handoff E master now clock t rq s =
     (case request_handoff E rq of
        None \<Rightarrow> (None, s)
      | Some token \<Rightarrow>
        (let st = (case request_cookie E rq app_state_cookie_name of Some v \<Rightarrow> v | None \<Rightarrow> []);
             (r, s') = consume_handoff (og_tokens E) master token
               \<lparr>hx_user = tg_user t, hx_package = tg_package t, hx_state = st\<rparr> (burn_handoff clock) now s
         in (Some r, s')))"

definition handle_app_origin_request ::
  "origin_env \<Rightarrow> app_config \<Rightarrow> string \<Rightarrow> string \<Rightarrow> string \<Rightarrow> time \<Rightarrow> time \<Rightarrow> app_request \<Rightarrow> registry \<Rightarrow> app_answer \<times> registry" where
  "handle_app_origin_request E c master public raw now clock rq s =
     (case match_app_request c (aq_url rq) of
        None \<Rightarrow> (AppNotFound, s)
      | Some MatchNotFound \<Rightarrow> (AppNotFound, s)
      | Some MatchRoot \<Rightarrow> (RedirectTo (public @ ''/'') [], s)
      | Some (MatchApp t) \<Rightarrow>
        if \<not> safe_method rq \<and> cross_origin c rq then (CrossOriginRefused, s)
        else
          (case swap_handoff E master now clock t rq s of
             (Some (Inr claims), s') \<Rightarrow>
               (RedirectTo (ac_protocol c @ ''//'' @ url_host (aq_url rq) @ pu_path (aq_url rq) @ search_without_handoff E (aq_url rq))
                 [app_cookie c (tg_user t) app_session_cookie_name
                    (sign_app_session (og_tokens E) master (hc_user claims) (hc_session claims) (now + app_session_max_ms))
                    (app_session_max_ms div 1000),
                  app_cookie c (tg_user t) app_state_cookie_name [] 0],
                s')
           | (_, s') \<Rightarrow> (serve_session E c master public raw now clock t rq s', s')))"

section \<open>Opening an app from Kody\<close>

text \<open>\<open>handleAppsOpen\<close> after \<open>readAppConfig\<close>, the web session and the package were looked up:
  \<open>session\<close> is the signed-in user's id and session id, \<open>is_app\<close> says whether the saved package is an app.\<close>

datatype open_answer =
    SignInFirst
  | BounceTo string
  | HandTo string string

definition handle_apps_open ::
  "token_env \<Rightarrow> (app_config_error + app_config \<times> string) option \<Rightarrow> string \<Rightarrow> string \<Rightarrow> (string \<times> string) option \<Rightarrow>
   (string \<Rightarrow> bool) \<Rightarrow> (string \<times> string) list \<Rightarrow> string \<Rightarrow> time \<Rightarrow> open_answer res" where
  "handle_apps_open E apps master meth session is_app params jti now =
     (case apps of
        None \<Rightarrow> Inl (KodyError ''apps_disabled'' 404)
      | Some (Inl e) \<Rightarrow> Inl (KodyError ''app_origin_misconfigured'' 500)
      | Some (Inr (c, base)) \<Rightarrow>
        if meth \<noteq> ''GET'' then Inl (KodyError ''method_not_allowed'' 405)
        else
          (case session of
             None \<Rightarrow> Inr SignInFirst
           | Some (uid, sid) \<Rightarrow>
             (let name = (case map_of params ''package'' of Some t \<Rightarrow> t | None \<Rightarrow> []);
                  st = (case map_of params ''state'' of Some t \<Rightarrow> t | None \<Rightarrow> [])
              in if \<not> package_name_pattern name \<or> \<not> is_app name then Inl (KodyError ''not_an_app'' 404)
                 else
                   (case app_url c uid name of
                      None \<Rightarrow> Inl (KodyError ''app_origin_unmappable'' 500)
                    | Some b \<Rightarrow>
                      if \<not> app_state_pattern st then Inr (BounceTo (b @ ''/''))
                      else Inr (HandTo (b @ ''/'') (mint_handoff E master uid name sid st jti now))))))"

text \<open>The address of a hand-off.\<close>

definition handoff_location :: "string \<Rightarrow> string \<Rightarrow> string" where
  "handoff_location b token = b @ ''?'' @ handoff_param @ ''='' @ encode_uri_component token"

section \<open>Who is served\<close>

lemma burn_handoff_rest: "snd (burn_handoff clock j e s) = s\<lparr>rc_handoffs := rc_handoffs (snd (burn_handoff clock j e s))\<rparr>"
  by (simp add: burn_handoff_def app_handoff_burn_def Let_def)

lemma consume_handoff_state:
  "snd (consume_handoff E master token x burn now s) = s \<or> (\<exists>j e. snd (consume_handoff E master token x burn now s) = snd (burn j e s))"
  by (auto simp: consume_handoff_def Let_def split: sum.splits option.splits prod.splits) (metis snd_conv)

lemma swap_handoff_rest: "\<exists>h. snd (swap_handoff E master now clock t rq s) = s\<lparr>rc_handoffs := h\<rparr>"
proof (cases "request_handoff E rq")
  case None
  then show ?thesis by (auto simp: swap_handoff_def intro!: exI [of _ "rc_handoffs s"])
next
  case (Some token)
  have "s = s\<lparr>rc_handoffs := rc_handoffs s\<rparr>" by simp
  then have "\<exists>h. snd (consume_handoff (og_tokens E) master token x (burn_handoff clock) now s) = s\<lparr>rc_handoffs := h\<rparr>" for x
    using consume_handoff_state [of "og_tokens E" master token x "burn_handoff clock" now s] burn_handoff_rest by metis
  then show ?thesis by (simp add: swap_handoff_def Some Let_def case_prod_beta)
qed

lemma session_alive_row:
  "session_alive uid sid clock s \<Longrightarrow> \<exists>r\<in>set (rc_sessions s). se_user r = uid \<and> se_id r = sid \<and> clock < se_expires r"
  by (auto simp: session_alive_def split: option.splits dest: select_one_SomeD)

lemma live_sessionD:
  assumes "live_session E master now clock t rq s = Some claims"
  shows "as_user claims = tg_user t \<and> session_alive (tg_user t) (as_session claims) clock s \<and>
    (\<exists>v. request_cookie E rq app_session_cookie_name = Some v \<and> verify_app_session (og_tokens E) master v now = Some claims)"
  using assms by (auto simp: live_session_def some_text_def bind_eq_Some_conv split: option.splits if_splits list.splits)

text \<open>C12 (safety). A package app is served only to its owner: the request came to the address of that user's package, it carries a
  cookie that Kody signed for this user, the Kody session named in the cookie is still in the registry and unexpired, so that
  signing out of Kody closes every app at once, and a request that changes something did not come from another origin.\<close>

theorem app_served_to_owner:
  assumes "handle_app_origin_request E c master public raw now clock rq s = (ServeApp t u, s')"
  shows "match_app_request c (aq_url rq) = Some (MatchApp t) \<and> get_user (tg_user t) s = Some u \<and>
    (\<exists>v claims. request_cookie E rq app_session_cookie_name = Some v \<and> verify_app_session (og_tokens E) master v now = Some claims \<and>
       as_user claims = tg_user t \<and>
       (\<exists>r\<in>set (rc_sessions s). se_user r = tg_user t \<and> se_id r = as_session claims \<and> clock < se_expires r)) \<and>
    (safe_method rq \<or> \<not> cross_origin c rq)"
proof -
  obtain t' where t': "match_app_request c (aq_url rq) = Some (MatchApp t')" "safe_method rq \<or> \<not> cross_origin c rq"
    using assms by (auto simp: handle_app_origin_request_def split: option.splits app_match.splits if_splits)
  obtain h where h: "snd (swap_handoff E master now clock t' rq s) = s\<lparr>rc_handoffs := h\<rparr>" using swap_handoff_rest by blast
  have serve: "serve_session E c master public raw now clock t' rq (s\<lparr>rc_handoffs := h\<rparr>) = ServeApp t u"
    using assms t' h by (auto simp: handle_app_origin_request_def split: if_splits prod.splits option.splits sum.splits)
  then obtain claims where "live_session E master now clock t' rq (s\<lparr>rc_handoffs := h\<rparr>) = Some claims"
      "get_user (as_user claims) s = Some u" "t' = t"
    by (auto simp: serve_session_def Let_def get_user_def split: option.splits if_splits)
  then show ?thesis using live_sessionD [of E master now clock t' rq "s\<lparr>rc_handoffs := h\<rparr>" claims] session_alive_row t' by fastforce
qed

section \<open>Handoffs are spent\<close>

definition opened_handoff :: "token_env \<Rightarrow> string \<Rightarrow> string \<Rightarrow> handoff_claims option" where
  "opened_handoff E master token = (case unseal E master handoff_purpose token of Inl e \<Rightarrow> None | Inr f \<Rightarrow> handoff_shape f)"

lemma consume_opened:
  "consume_handoff E master token x burn now s =
     (case opened_handoff E master token of
        None \<Rightarrow> (fst (consume_handoff E master token x burn now s), s)
      | Some c \<Rightarrow>
        if hc_expires c \<le> of_int now then (Inl Expired, s)
        else if \<not> bound_to c x then (Inl Mismatch, s)
        else (if fst (burn (hc_jti c) (hc_expires c) s) then Inr c else Inl Replay, snd (burn (hc_jti c) (hc_expires c) s)))"
  by (auto simp: consume_handoff_def opened_handoff_def Let_def split: sum.splits option.splits prod.splits)

definition swapped :: "(token_failure + handoff_claims) \<Rightarrow> bool" where
  "swapped r = (case r of Inl e \<Rightarrow> False | Inr c \<Rightarrow> True)"

lemma swapped_simps [simp]: "\<not> swapped (Inl e)" "swapped (Inr c)"
  by (simp_all add: swapped_def)

lemma unopened_refused: "opened_handoff E master token = None \<Longrightarrow> \<not> swapped (fst (consume_handoff E master token x burn now s))"
  by (auto simp: consume_handoff_def opened_handoff_def split: sum.splits option.splits)

text \<open>Handoffs are presented one after the other, each with what the address and the cookie demand, the handler's reading of the
  clock and the registry's; \<open>swaps\<close> counts how often one token is swapped.\<close>

record presentation =
  pr_token :: string
  pr_expected :: handoff_expected
  pr_now :: time
  pr_clock :: time

definition present :: "token_env \<Rightarrow> string \<Rightarrow> presentation \<Rightarrow> registry \<Rightarrow> (token_failure + handoff_claims) \<times> registry" where
  "present E master p s = consume_handoff E master (pr_token p) (pr_expected p) (burn_handoff (pr_clock p)) (pr_now p) s"

primrec swaps :: "token_env \<Rightarrow> string \<Rightarrow> string \<Rightarrow> presentation list \<Rightarrow> registry \<Rightarrow> nat" where
  "swaps E master token [] s = 0"
| "swaps E master token (p # ps) s =
     (if pr_token p = token \<and> swapped (fst (present E master p s)) then 1 else 0) + swaps E master token ps (snd (present E master p s))"

text \<open>The readings of the clock do not go back.\<close>

fun ordered_from :: "time \<Rightarrow> presentation list \<Rightarrow> bool" where
  "ordered_from n [] = True"
| "ordered_from n (p # ps) = (n \<le> pr_now p \<and> pr_now p \<le> pr_clock p \<and> ordered_from (pr_clock p) ps)"

definition burnt_row :: "handoff_claims \<Rightarrow> handoff_row" where
  "burnt_row c = \<lparr>ho_jti = hc_jti c, ho_expires = \<lceil>hc_expires c\<rceil>\<rparr>"

text \<open>A swapped token stays spent: its id is in the table, or it is too late anyway.\<close>

definition handoff_spent :: "handoff_claims \<Rightarrow> time \<Rightarrow> registry \<Rightarrow> bool" where
  "handoff_spent c n s = (burnt_row c \<in> set (rc_handoffs s) \<or> hc_expires c \<le> of_int n)"

lemma burn_keeps: "burnt_row c \<in> set (rc_handoffs s) \<Longrightarrow> of_int clock < hc_expires c \<Longrightarrow> burnt_row c \<in> set (rc_handoffs (snd (burn_handoff clock j e s)))"
  unfolding burn_handoff_def by (rule handoff_kept) (simp_all add: burnt_row_def less_ceiling_iff)

lemma burn_refused: "burnt_row c \<in> set (rc_handoffs s) \<Longrightarrow> of_int clock < hc_expires c \<Longrightarrow> \<not> fst (burn_handoff clock (hc_jti c) e s)"
  by (auto simp: burn_handoff_def app_handoff_burn_def Let_def list_ex_iff burnt_row_def less_ceiling_iff not_le
      intro!: exI [of _ "\<lparr>ho_jti = hc_jti c, ho_expires = \<lceil>hc_expires c\<rceil>\<rparr>"])

lemma burn_adds: "fst (burn_handoff clock (hc_jti c) (hc_expires c) s) \<Longrightarrow> burnt_row c \<in> set (rc_handoffs (snd (burn_handoff clock (hc_jti c) (hc_expires c) s)))"
  by (auto simp: burn_handoff_def app_handoff_burn_def Let_def burnt_row_def split: if_splits)

lemma present_keeps_spent:
  assumes "handoff_spent c n s" "n \<le> pr_now p" "pr_now p \<le> pr_clock p"
  shows "handoff_spent c (pr_clock p) (snd (present E master p s))"
proof (cases "hc_expires c \<le> of_int (pr_clock p)")
  case True
  then show ?thesis by (simp add: handoff_spent_def)
next
  case False
  have "of_int n \<le> (of_int (pr_clock p) :: rat)" using assms(2,3) by simp
  then have "burnt_row c \<in> set (rc_handoffs s)" using assms(1) False by (simp add: handoff_spent_def)
  then have "burnt_row c \<in> set (rc_handoffs (snd (present E master p s)))"
    using consume_handoff_state [of E master "pr_token p" "pr_expected p" "burn_handoff (pr_clock p)" "pr_now p" s] burn_keeps False
    by (auto simp: present_def)
  then show ?thesis by (simp add: handoff_spent_def)
qed

lemma present_spent:
  assumes "handoff_spent c n s" "n \<le> pr_now p" "opened_handoff E master (pr_token p) = Some c"
    "hc_expires c \<le> of_int (pr_now p) \<or> of_int (pr_clock p) < hc_expires c"
  shows "\<not> swapped (fst (present E master p s))"
proof (cases "hc_expires c \<le> of_int (pr_now p)")
  case True
  then show ?thesis unfolding present_def by (subst consume_opened) (simp add: assms(3))
next
  case False
  have "of_int n \<le> (of_int (pr_now p) :: rat)" using assms(2) by simp
  then have "burnt_row c \<in> set (rc_handoffs s)" using assms(1) False by (simp add: handoff_spent_def)
  then have "\<not> fst (burn_handoff (pr_clock p) (hc_jti c) (hc_expires c) s)" using burn_refused assms(4) False by blast
  then show ?thesis unfolding present_def by (subst consume_opened) (simp add: assms(3))
qed

lemma present_spends:
  assumes "swapped (fst (present E master p s))" "opened_handoff E master (pr_token p) = Some c"
  shows "handoff_spent c (pr_clock p) (snd (present E master p s))"
proof -
  have "fst (burn_handoff (pr_clock p) (hc_jti c) (hc_expires c) s)" "snd (present E master p s) = snd (burn_handoff (pr_clock p) (hc_jti c) (hc_expires c) s)"
    using assms unfolding present_def by (auto simp: consume_opened [of E master "pr_token p"] split: if_splits)
  then show ?thesis using burn_adds by (simp add: handoff_spent_def)
qed

lemma spent_no_swaps:
  assumes "opened_handoff E master token = Some c" "ordered_from n ps" "handoff_spent c n s"
    "\<forall>p\<in>set ps. pr_token p = token \<longrightarrow> hc_expires c \<le> of_int (pr_now p) \<or> of_int (pr_clock p) < hc_expires c"
  shows "swaps E master token ps s = 0"
  using assms(2-4)
proof (induction ps arbitrary: n s)
  case (Cons p ps)
  have "\<not> (pr_token p = token \<and> swapped (fst (present E master p s)))"
    using present_spent [of c n s p E master] Cons.prems assms(1) by auto
  moreover have "swaps E master token ps (snd (present E master p s)) = 0"
    using Cons.prems present_keeps_spent [of c n s p E master] by (intro Cons.IH [of "pr_clock p"]) auto
  ultimately show ?case by simp
qed simp

text \<open>C16 (safety). A handoff is swapped for a session at most once, however often it is presented, for whatever address and with
  whatever cookies, provided its expiry does not fall between the handler's check and the registry's own reading of the clock.\<close>

theorem handoff_swapped_once:
  assumes "ordered_from n ps"
    "\<forall>p\<in>set ps. \<forall>c. pr_token p = token \<and> opened_handoff E master token = Some c \<longrightarrow>
       hc_expires c \<le> of_int (pr_now p) \<or> of_int (pr_clock p) < hc_expires c"
  shows "swaps E master token ps s \<le> 1"
proof (cases "opened_handoff E master token")
  case None
  have "swaps E master token ps s = 0"
    by (induction ps arbitrary: s) (auto simp: present_def unopened_refused [OF None])
  then show ?thesis by simp
next
  case (Some c)
  show ?thesis using assms
  proof (induction ps arbitrary: n s)
    case (Cons p ps)
    show ?case
    proof (cases "pr_token p = token \<and> swapped (fst (present E master p s))")
      case True
      then have "handoff_spent c (pr_clock p) (snd (present E master p s))" using present_spends Some by blast
      then have "swaps E master token ps (snd (present E master p s)) = 0"
        using Cons.prems Some by (intro spent_no_swaps [of E master token c "pr_clock p"]) auto
      then show ?thesis by simp
    next
      case False
      then have "swaps E master token (p # ps) s = swaps E master token ps (snd (present E master p s))"
        by (simp only: swaps.simps if_False add_0)
      moreover have "swaps E master token ps (snd (present E master p s)) \<le> 1"
        using Cons.prems by (intro Cons.IH [of "pr_clock p"]) auto
      ultimately show ?thesis by simp
    qed
  qed simp
qed

lemma opened_minted:
  assumes "filled c" "seals E (handoff_json c)"
  shows "opened_handoff E master (seal E master handoff_purpose (handoff_json c)) = Some c"
proof -
  obtain es where es: "handoff_json c = JObj es" by (simp add: handoff_json_def)
  then show ?thesis using assms handoff_shape_json [OF assms(1) es] by (simp add: opened_handoff_def unseal_seal)
qed

definition sample_presentation :: "string \<Rightarrow> time \<Rightarrow> presentation" where
  "sample_presentation token n =
     \<lparr>pr_token = token, pr_expected = \<lparr>hx_user = ''u1'', hx_package = ''notes'', hx_state = ''b1''\<rparr>, pr_now = n, pr_clock = n + 5\<rparr>"

theorem handoff_swapped_once_witness:
  "let token = seal sample_token_env ''m'' handoff_purpose (handoff_json sample_handoff)
   in swaps sample_token_env ''m'' token [sample_presentation token 10, sample_presentation token 30, sample_presentation token 70000]
        empty_registry \<le> 1"
proof -
  let ?t = "seal sample_token_env ''m'' handoff_purpose (handoff_json sample_handoff)"
  have "opened_handoff sample_token_env ''m'' ?t = Some sample_handoff"
    using opened_minted sample_handoff_seals by (simp add: filled_def sample_handoff_def)
  then have "\<forall>p\<in>set [sample_presentation ?t 10, sample_presentation ?t 30, sample_presentation ?t 70000].
     \<forall>c. pr_token p = ?t \<and> opened_handoff sample_token_env ''m'' ?t = Some c \<longrightarrow>
       hc_expires c \<le> of_int (pr_now p) \<or> of_int (pr_clock p) < hc_expires c"
    by (auto simp: sample_presentation_def sample_handoff_def)
  then show ?thesis unfolding Let_def by (intro handoff_swapped_once [of 0]) (auto simp: sample_presentation_def)
qed

text \<open>Without the proviso a token can be swapped twice: a request that checked the expiry in time reaches a registry that has
  just forgotten the id.\<close>

lemma forgotten_at_expiry:
  assumes "\<forall>r\<in>set (rc_handoffs s). ho_jti r \<noteq> hc_jti c" "hc_expires c \<le> of_int clock"
  shows "fst (burn_handoff clock (hc_jti c) (hc_expires c) (snd (burn_handoff clock' (hc_jti c) (hc_expires c) s)))"
proof -
  have "\<lceil>hc_expires c\<rceil> \<le> clock" using assms(2) by (simp add: ceiling_le_iff)
  then show ?thesis
    using assms(1) by (auto simp: burn_handoff_def app_handoff_burn_def Let_def list_ex_iff)
qed

section \<open>The whole sign-in\<close>

lemma handoff_fresh_burnt:
  "\<forall>r\<in>set (rc_handoffs s). ho_jti r \<noteq> j \<Longrightarrow> fst (burn_handoff clock j e s)"
  by (auto simp: burn_handoff_def app_handoff_burn_def Let_def list_ex_iff)

lemma session_of_rest [simp]:
  "session_alive uid sid clock (s\<lparr>rc_handoffs := h\<rparr>) = session_alive uid sid clock s"
  "get_user uid (s\<lparr>rc_handoffs := h\<rparr>) = get_user uid s"
  by (simp_all add: session_alive_def get_user_def)

text \<open>A signed-in owner gets in: the handoff that Kody minted, presented within its minute by the browser that
  holds the matching state, is answered by a redirect that sets the session cookie and clears the state, and the next request with
  that cookie, until twelve hours later and while the Kody session lives, is served.\<close>

theorem owner_gets_in:
  assumes rq1: "match_app_request c (aq_url rq1) = Some (MatchApp t)" "safe_method rq1"
      "request_handoff E rq1 = Some (mint_handoff (og_tokens E) master (tg_user t) (tg_package t) sid st jti t0)"
      "request_cookie E rq1 app_state_cookie_name = Some st" "now1 < t0 + 60000"
    and fresh: "\<forall>r\<in>set (rc_handoffs s). ho_jti r \<noteq> jti"
    and claims: "h = \<lparr>hc_user = tg_user t, hc_package = tg_package t, hc_session = sid, hc_state = st,
        hc_expires = of_int (t0 + handoff_ttl_ms), hc_jti = jti\<rparr>" "filled h" "seals (og_tokens E) (handoff_json h)"
      "seals (og_tokens E) (session_json \<lparr>as_user = tg_user t, as_session = sid, as_expires = of_int (now1 + app_session_max_ms)\<rparr>)"
    and rq2: "match_app_request c (aq_url rq2) = Some (MatchApp t2)" "tg_user t2 = tg_user t" "safe_method rq2"
      "request_handoff E rq2 = None"
      "request_cookie E rq2 app_session_cookie_name =
         Some (sign_app_session (og_tokens E) master (tg_user t) sid (now1 + app_session_max_ms))"
      "now2 < now1 + app_session_max_ms"
    and alive: "session_alive (tg_user t) sid clock2 s" "get_user (tg_user t) s = Some u"
  shows "\<exists>loc s1. handle_app_origin_request E c master public raw1 now1 clock1 rq1 s =
      (RedirectTo loc [app_cookie c (tg_user t) app_session_cookie_name
          (sign_app_session (og_tokens E) master (tg_user t) sid (now1 + app_session_max_ms)) (12 * 60 * 60),
        app_cookie c (tg_user t) app_state_cookie_name [] 0], s1) \<and>
    fst (handle_app_origin_request E c master public raw2 now2 clock2 rq2 s1) = ServeApp t2 u"
proof -
  have swap: "fst (swap_handoff E master now1 clock1 t rq1 s) = Some (Inr h)"
    using consume_minted [OF claims(1-3), of master "\<lparr>hx_user = tg_user t, hx_package = tg_package t, hx_state = st\<rparr>"
        "burn_handoff clock1" now1 s] handoff_fresh_burnt [OF fresh] rq1(3-5)
    by (simp add: swap_handoff_def Let_def case_prod_beta)
  obtain rows where rows: "snd (swap_handoff E master now1 clock1 t rq1 s) = s\<lparr>rc_handoffs := rows\<rparr>"
    using swap_handoff_rest by blast
  have "swap_handoff E master now1 clock1 t rq1 s = (Some (Inr h), s\<lparr>rc_handoffs := rows\<rparr>)"
    using swap rows by (metis prod.collapse)
  moreover have "app_session_max_ms div 1000 = 12 * 60 * 60" by (simp add: app_session_max_ms_def)
  ultimately have one: "\<exists>loc. handle_app_origin_request E c master public raw1 now1 clock1 rq1 s =
      (RedirectTo loc [app_cookie c (tg_user t) app_session_cookie_name
          (sign_app_session (og_tokens E) master (tg_user t) sid (now1 + app_session_max_ms)) (12 * 60 * 60),
        app_cookie c (tg_user t) app_state_cookie_name [] 0], s\<lparr>rc_handoffs := rows\<rparr>)"
    using rq1(1,2) by (simp add: handle_app_origin_request_def claims(1))
  let ?v = "sign_app_session (og_tokens E) master (tg_user t) sid (now1 + app_session_max_ms)"
  have "verify_app_session (og_tokens E) master ?v now2 =
      Some \<lparr>as_user = tg_user t, as_session = sid, as_expires = of_int (now1 + app_session_max_ms)\<rparr>"
    using claims(1,2,4) rq2(6) by (intro verify_signed) (simp_all add: filled_def)
  moreover have "some_text (Some ?v) = Some ?v" by (simp add: some_text_def sign_app_session_def split: list.splits)
  ultimately have "live_session E master now2 clock2 t2 rq2 (s\<lparr>rc_handoffs := rows\<rparr>) =
      Some \<lparr>as_user = tg_user t, as_session = sid, as_expires = of_int (now1 + app_session_max_ms)\<rparr>"
    using rq2(2,5) alive(1) by (simp add: live_session_def)
  then have "fst (handle_app_origin_request E c master public raw2 now2 clock2 rq2 (s\<lparr>rc_handoffs := rows\<rparr>)) = ServeApp t2 u"
    using rq2 alive(2) by (simp add: handle_app_origin_request_def swap_handoff_def serve_session_def)
  with one show ?thesis by blast
qed

section \<open>A small deployment\<close>

definition sample_app_config :: app_config where
  "sample_app_config = \<lparr>ac_mode = PathMode, ac_protocol = ''https:'', ac_hostname = ''apps.example'', ac_port = []\<rparr>"

definition sample_app_url :: "string \<Rightarrow> parsed_url" where
  "sample_app_url q =
     \<lparr>pu_protocol = ''https:'', pu_username = [], pu_password = [], pu_hostname = ''apps.example'', pu_port = [],
      pu_path = ''/u/u1/packages/notes/list'', pu_search = q, pu_hash = []\<rparr>"

definition sample_target :: app_target where
  "sample_target = \<lparr>tg_user = ''u1'', tg_package = ''notes'', tg_origin = ''https://apps.example'',
     tg_mount = ''/u/u1/packages/notes'', tg_rest = ''/list''\<rparr>"

definition sample_app_request :: "string \<Rightarrow> app_request" where
  "sample_app_request q = \<lparr>aq_method = ''GET'', aq_url = sample_app_url q, aq_headers = []\<rparr>"

definition sample_token :: string where
  "sample_token = mint_handoff sample_token_env ''m'' ''u1'' ''notes'' ''s1'' ''b1'' ''j1'' 0"

definition sample_cookie :: string where
  "sample_cookie = sign_app_session sample_token_env ''m'' ''u1'' ''s1'' 43200010"

definition sample_origin_env :: origin_env where
  "sample_origin_env =
     \<lparr>og_tokens = sample_token_env, og_params = (\<lambda>q. if q = [] then [] else [(handoff_param, sample_token)]),
      og_query = (\<lambda>ps. []), og_cookie = (\<lambda>header name. if name = app_state_cookie_name then Some ''b1'' else Some sample_cookie)\<rparr>"

definition sample_registry :: registry where
  "sample_registry = empty_registry
     \<lparr>rc_users := [\<lparr>us_id = ''u1'', us_email = ''a@b'', us_created = 0\<rparr>],
      rc_sessions := [\<lparr>se_hash = ''h'', se_id = ''s1'', se_user = ''u1'', se_created = 0, se_expires = 5000, se_last_seen = 0, se_agent = None\<rparr>]\<rparr>"

lemma sample_match: "match_app_request sample_app_config (sample_app_url q) = Some (MatchApp sample_target)"
  by code_simp

lemma sample_request:
  "aq_url (sample_app_request q) = sample_app_url q" "safe_method (sample_app_request q)"
  "request_cookie sample_origin_env (sample_app_request q) app_state_cookie_name = Some ''b1''"
  "request_cookie sample_origin_env (sample_app_request q) app_session_cookie_name = Some sample_cookie"
  "og_tokens sample_origin_env = sample_token_env" "tg_user sample_target = ''u1''" "tg_package sample_target = ''notes''"
  by (simp_all add: sample_app_request_def safe_method_def request_cookie_def sample_origin_env_def app_session_cookie_name_def
      app_state_cookie_name_def sample_target_def)

lemma sample_texts: "some_text (Some sample_cookie) = Some sample_cookie" "some_text (Some sample_token) = Some sample_token"
  by (simp_all add: some_text_def sample_cookie_def sign_app_session_def sample_token_def mint_handoff_def split: list.splits)

lemma sample_request_handoff:
  "request_handoff sample_origin_env (sample_app_request []) = None"
  "request_handoff sample_origin_env (sample_app_request ''?h'') = Some sample_token"
  by (simp_all add: request_handoff_def sample_origin_env_def sample_app_request_def sample_app_url_def sample_texts)
     (simp add: some_text_def)

lemma sample_account:
  "\<forall>r\<in>set (rc_handoffs sample_registry). ho_jti r \<noteq> ''j1''" "now < 5000 \<Longrightarrow> session_alive ''u1'' ''s1'' now sample_registry"
  "get_user ''u1'' sample_registry = Some \<lparr>us_id = ''u1'', us_email = ''a@b'', us_created = 0\<rparr>"
  by (simp_all add: sample_registry_def empty_registry_def session_alive_def get_user_def)

lemma sample_cookie_verified:
  "now < 43200010 \<Longrightarrow> verify_app_session sample_token_env ''m'' sample_cookie now = Some \<lparr>as_user = ''u1'', as_session = ''s1'', as_expires = of_int 43200010\<rparr>"
  using sample_session_seals unfolding sample_cookie_def by (intro verify_signed) (simp_all add: sample_session_def)

lemma sample_served:
  "handle_app_origin_request sample_origin_env sample_app_config ''m'' ''https://kody.example'' [] 20 20 (sample_app_request []) sample_registry =
     (ServeApp sample_target \<lparr>us_id = ''u1'', us_email = ''a@b'', us_created = 0\<rparr>, sample_registry)"
proof -
  have "live_session sample_origin_env ''m'' 20 20 sample_target (sample_app_request []) sample_registry =
      Some \<lparr>as_user = ''u1'', as_session = ''s1'', as_expires = of_int 43200010\<rparr>"
    by (simp add: live_session_def sample_request sample_texts sample_cookie_verified sample_account)
  then show ?thesis
    by (simp add: handle_app_origin_request_def sample_match swap_handoff_def serve_session_def sample_request sample_request_handoff
        sample_account)
qed

theorem app_served_to_owner_witness:
  "\<exists>r\<in>set (rc_sessions sample_registry). se_user r = ''u1'' \<and> 20 < se_expires r"
  using app_served_to_owner [OF sample_served] by (auto simp: sample_target_def)

theorem owner_gets_in_witness:
  "\<exists>loc s1. handle_app_origin_request sample_origin_env sample_app_config ''m'' [] [] 10 10 (sample_app_request ''?h'') sample_registry =
      (RedirectTo loc [app_cookie sample_app_config ''u1'' app_session_cookie_name sample_cookie (12 * 60 * 60),
        app_cookie sample_app_config ''u1'' app_state_cookie_name [] 0], s1) \<and>
    fst (handle_app_origin_request sample_origin_env sample_app_config ''m'' [] [] 4000 4000 (sample_app_request []) s1) =
      ServeApp sample_target \<lparr>us_id = ''u1'', us_email = ''a@b'', us_created = 0\<rparr>"
proof -
  have *: "10 + app_session_max_ms = 43200010" by (simp add: app_session_max_ms_def)
  have h: "sample_handoff = \<lparr>hc_user = ''u1'', hc_package = ''notes'', hc_session = ''s1'', hc_state = ''b1'',
      hc_expires = of_int (0 + handoff_ttl_ms), hc_jti = ''j1''\<rparr>" "filled sample_handoff"
    by (simp_all add: sample_handoff_def handoff_ttl_ms_def filled_def)
  have seals: "seals sample_token_env (session_json \<lparr>as_user = ''u1'', as_session = ''s1'', as_expires = of_int 43200010\<rparr>)"
    using sample_session_seals by (simp add: sample_session_def)
  show ?thesis
    using owner_gets_in [where c = sample_app_config and ?rq1.0 = "sample_app_request ''?h''" and t = sample_target and E = sample_origin_env
        and master = "''m''" and sid = "''s1''" and st = "''b1''" and jti = "''j1''" and ?t0.0 = 0 and ?now1.0 = 10 and s = sample_registry
        and h = sample_handoff and ?rq2.0 = "sample_app_request []" and ?t2.0 = sample_target and ?now2.0 = 4000 and ?clock2.0 = 4000
        and u = "\<lparr>us_id = ''u1'', us_email = ''a@b'', us_created = 0\<rparr>" and public = "[]" and ?raw1.0 = "[]" and ?raw2.0 = "[]" and ?clock1.0 = 10]
      sample_handoff_seals seals h
    unfolding sample_request sample_request_handoff sample_match * sample_token_def [symmetric] sample_cookie_def [symmetric]
    by (simp add: sample_account sample_request(2))
qed

end
