(* ===== verification/AppServe.thy ===== *)
theory AppServe
  imports AppOrigin Runs BlobKeys
begin

text \<open>
  Serving a package app: what crosses between the app origin and package code
  (src/src/apps/forward.ts), static files (assets.ts), the cache of module graphs and the serving
  itself (serve.ts, serve-name.ts, run-report.ts). Building a module graph, running the app in an
  isolate, \<open>decodeURIComponent\<close> and JSON are parameters.
\<close>

section \<open>Requests and responses of the sandbox\<close>

definition kody_cookie_names :: "string list" where
  "kody_cookie_names =
     [app_session_cookie_name, app_state_cookie_name, ''kody_session'', ''__Host-kody_session'', ''kody_console'', ''__Host-kody_console'']"

definition cookie_name :: "string \<Rightarrow> string" where
  "cookie_name pair = trim (takeWhile (\<lambda>c. c \<noteq> CHR ''='') pair)"

definition kept_cookie :: "string \<Rightarrow> bool" where
  "kept_cookie pair = (pair \<noteq> [] \<and> cookie_name pair \<notin> set kody_cookie_names)"

definition cookie_header_without_kody :: "string option \<Rightarrow> string option" where
  "cookie_header_without_kody header =
     (case some_text header of
        None \<Rightarrow> None
      | Some h \<Rightarrow>
        (let kept = filter kept_cookie (map trim (split_on CHR '';'' h))
         in if kept = [] then None else Some (join_with ''; '' kept)))"

definition kody_header :: "string \<times> string \<Rightarrow> bool" where
  "kody_header h = starts_with (fst h) ''x-kody-''"

definition app_context_header :: string where "app_context_header = ''x-kody-app-context''"

text \<open>\<open>headers.set(name, value)\<close> and \<open>headers.delete(name)\<close>.\<close>

definition set_header :: "string \<Rightarrow> string \<Rightarrow> (string \<times> string) list \<Rightarrow> (string \<times> string) list" where
  "set_header k v hs = filter (\<lambda>h. fst h \<noteq> k) hs @ [(k, v)]"

definition delete_header :: "string \<Rightarrow> (string \<times> string) list \<Rightarrow> (string \<times> string) list" where
  "delete_header k hs = filter (\<lambda>h. fst h \<noteq> k) hs"

record sandbox_request =
  sr_target :: string
  sr_method :: string
  sr_headers :: "(string \<times> string) list"
  sr_has_body :: bool

definition build_app_request :: "origin_env \<Rightarrow> app_request \<Rightarrow> string \<Rightarrow> string \<Rightarrow> string \<Rightarrow> sandbox_request" where
  "build_app_request E rq origin rest context =
     (let hs = filter (\<lambda>h. \<not> kody_header h) (aq_headers rq);
          hs' = (case cookie_header_without_kody (map_of (aq_headers rq) ''cookie'') of
                   Some v \<Rightarrow> set_header ''cookie'' v hs | None \<Rightarrow> delete_header ''cookie'' hs)
      in \<lparr>sr_target = origin @ rest @ search_without_handoff E (aq_url rq), sr_method = aq_method rq,
          sr_headers = set_header app_context_header context hs', sr_has_body = \<not> safe_method rq\<rparr>)"

text \<open>Each \<open>set-cookie\<close> of a response is an entry of its own.\<close>

record app_response =
  ap_status :: nat
  ap_headers :: "(string \<times> string) list"
  ap_body :: string

definition sanitize_app_response :: "app_response \<Rightarrow> app_response" where
  "sanitize_app_response r =
     r\<lparr>ap_headers := set_header ''x-content-type-options'' ''nosniff''
        (filter (\<lambda>h. \<not> (fst h = ''set-cookie'' \<or> kody_header h)) (ap_headers r) @
         filter (\<lambda>h. fst h = ''set-cookie'' \<and> cookie_name (hd (split_on CHR '';'' (snd h))) \<notin> set kody_cookie_names) (ap_headers r))\<rparr>"

section \<open>Static files\<close>

definition is_asset_path :: "string \<Rightarrow> bool" where
  "is_asset_path p = (p = ''/_assets'' \<or> starts_with p ''/_assets/'')"

definition relative_asset_path :: "(string \<Rightarrow> string option) \<Rightarrow> string \<Rightarrow> string option" where
  "relative_asset_path decode rest =
     (case decode (drop 9 rest) of
        None \<Rightarrow> None
      | Some d \<Rightarrow>
        if d = [] \<or> CHR 0x5C \<in> set d \<or> CHR 0x00 \<in> set d then None
        else if list_ex (\<lambda>t. t = [] \<or> t = ''.'' \<or> t = ''..'') (split_on CHR ''/'' d) then None
        else Some (join_with ''/'' (split_on CHR ''/'' d)))"

definition matches_etag :: "string option \<Rightarrow> string \<Rightarrow> bool" where
  "matches_etag header etag =
     (case some_text header of
        None \<Rightarrow> False
      | Some h \<Rightarrow>
        list_ex (\<lambda>e. let v = trim e in v = ''*'' \<or> (if starts_with v ''W/'' then drop 2 v else v) = etag) (split_on CHR '','' h))"

definition asset_content_types :: "(string \<times> string) list" where
  "asset_content_types =
     [(''css'', ''text/css; charset=utf-8''), (''js'', ''text/javascript; charset=utf-8''),
      (''mjs'', ''text/javascript; charset=utf-8''), (''json'', ''application/json; charset=utf-8''),
      (''map'', ''application/json; charset=utf-8''), (''webmanifest'', ''application/manifest+json; charset=utf-8''),
      (''svg'', ''image/svg+xml''), (''html'', ''text/html; charset=utf-8''), (''txt'', ''text/plain; charset=utf-8''),
      (''xml'', ''application/xml; charset=utf-8'')]"

definition asset_content_type :: "string \<Rightarrow> content_type_of" where
  "asset_content_type relative =
     (let e = to_lower (last (split_on CHR ''.'' relative)) in
      case map_of asset_content_types e of
        Some t \<Rightarrow> TextType t
      | None \<Rightarrow> if e \<in> set inherited_names then InheritedProperty e else TextType ''text/plain; charset=utf-8'')"

datatype asset_answer =
    AssetMethodNotAllowed
  | AssetNotFound
  | AssetNotModified content_type_of string
  | AssetHead content_type_of string
  | AssetBody content_type_of string string

definition serve_app_asset ::
  "crypto \<Rightarrow> (string \<Rightarrow> string option) \<Rightarrow> app_request \<Rightarrow> string \<Rightarrow> (string \<times> string) list \<Rightarrow> string option \<Rightarrow> asset_answer" where
  "serve_app_asset C decode rq rest files assets_dir =
     (if \<not> safe_method rq then AssetMethodNotAllowed
      else
        (case some_text assets_dir of
           None \<Rightarrow> AssetNotFound
         | Some d \<Rightarrow>
           (case relative_asset_path decode rest of
              None \<Rightarrow> AssetNotFound
            | Some p \<Rightarrow>
              if p = ''__version.json'' then AssetNotFound
              else
                (case map_of files (d @ ''/'' @ p) of
                   None \<Rightarrow> AssetNotFound
                 | Some content \<Rightarrow>
                   (let etag = [CHR 34] @ sha256_hex C content @ [CHR 34]; ct = asset_content_type p in
                    if matches_etag (map_of (aq_headers rq) ''if-none-match'') etag then AssetNotModified ct etag
                    else if aq_method rq = ''HEAD'' then AssetHead ct etag
                    else AssetBody ct etag content)))))"

section \<open>The cache of module graphs\<close>

definition app_isolate_name :: "crypto \<Rightarrow> string \<Rightarrow> string \<Rightarrow> string \<Rightarrow> string \<Rightarrow> string" where
  "app_isolate_name C uid pkg updated hosted = ''kody-app-'' @ sha256_hex C (join_with [CHR 0x00] [uid, pkg, updated, hosted])"

text \<open>\<open>Object.keys\<close> and the lookups of two records of time stamps.\<close>

definition stamps_match :: "(string \<times> string) list \<Rightarrow> (string \<times> string) list \<Rightarrow> bool" where
  "stamps_match a b =
     (length a = length b \<and> list_all (\<lambda>k. map_of b k \<noteq> None \<and> map_of a k = map_of b k) (map fst a))"

definition graph_cache_limit :: nat where "graph_cache_limit = 32"

record 'g graph_entry =
  ge_name :: string
  ge_graph :: 'g
  ge_stamps :: "(string \<times> string) list"

definition evict :: "'e list \<Rightarrow> 'e list" where
  "evict t = drop (length t - graph_cache_limit) t"

text \<open>One request's use of the cache, the entries in the order of their last use. \<open>build\<close> is the outcome of a fresh build and
  \<open>built\<close> the stamps recorded for it, read when the build is done; a build that fails leaves no entry behind, but may evict one.\<close>

definition cached_graph ::
  "string \<Rightarrow> (string list \<Rightarrow> (string \<times> string) list) \<Rightarrow> 'g option \<Rightarrow> ('g \<Rightarrow> (string \<times> string) list) \<Rightarrow>
   'g graph_entry list \<Rightarrow> 'g option \<times> 'g graph_entry list" where
  "cached_graph name current build built cache =
     (let rest = filter (\<lambda>e. ge_name e \<noteq> name) cache in
      case select_one (\<lambda>e. ge_name e = name) cache of
        Some hit \<Rightarrow>
          if stamps_match (ge_stamps hit) (current (map fst (ge_stamps hit))) then (Some (ge_graph hit), rest @ [hit])
          else
            (case build of
               None \<Rightarrow> (None, rest)
             | Some g \<Rightarrow> (Some g, evict (rest @ [\<lparr>ge_name = name, ge_graph = g, ge_stamps = built g\<rparr>])))
      | None \<Rightarrow>
          (case build of
             None \<Rightarrow> (None, if length rest < graph_cache_limit then rest else tl rest)
           | Some g \<Rightarrow> (Some g, evict (rest @ [\<lparr>ge_name = name, ge_graph = g, ge_stamps = built g\<rparr>]))))"

text \<open>Requests one after the other: the cache key, the state of the saved packages when the request looks at them, and the state
  when the stamps of a new entry are read.\<close>

primrec graph_answers ::
  "(string \<Rightarrow> 'w \<Rightarrow> 'g option) \<Rightarrow> ('w \<Rightarrow> string list \<Rightarrow> (string \<times> string) list) \<Rightarrow> ('g \<Rightarrow> string list) \<Rightarrow>
   (string \<times> 'w \<times> 'w) list \<Rightarrow> 'g graph_entry list \<Rightarrow> 'g option list \<times> 'g graph_entry list" where
  "graph_answers build stamps packages [] cache = ([], cache)"
| "graph_answers build stamps packages (r # rs) cache =
     (let (n, w, w') = r;
          (g, cache1) = cached_graph n (stamps w) (build n w) (\<lambda>g. stamps w' (packages g)) cache;
          (gs, cache2) = graph_answers build stamps packages rs cache1
      in (g # gs, cache2))"

definition entry_built ::
  "(string \<Rightarrow> 'w \<Rightarrow> 'g option) \<Rightarrow> ('w \<Rightarrow> string list \<Rightarrow> (string \<times> string) list) \<Rightarrow> ('g \<Rightarrow> string list) \<Rightarrow> 'g graph_entry \<Rightarrow> bool" where
  "entry_built build stamps packages e =
     (\<exists>w. build (ge_name e) w = Some (ge_graph e) \<and> ge_stamps e = stamps w (packages (ge_graph e)))"

lemma set_evict: "set (evict t) \<subseteq> set t"
  by (simp add: evict_def set_drop_subset)

lemma set_tl_subset: "set (tl t) \<subseteq> set t"
  by (cases t) auto

lemma length_evict: "length (evict t) \<le> graph_cache_limit"
  by (simp add: evict_def)

text \<open>The law of the build: it depends on nothing but the packages it pulled in, at the versions their stamps name.\<close>

definition build_law ::
  "(string \<Rightarrow> 'w \<Rightarrow> 'g option) \<Rightarrow> ('w \<Rightarrow> string list \<Rightarrow> (string \<times> string) list) \<Rightarrow> ('g \<Rightarrow> string list) \<Rightarrow> bool" where
  "build_law build stamps packages =
     (\<forall>n w w0 g. build n w0 = Some g \<and> stamps_match (stamps w0 (packages g)) (stamps w (map fst (stamps w0 (packages g)))) \<longrightarrow>
        build n w = Some g)"

lemma cached_graph_step:
  assumes "build_law build stamps packages" "\<forall>e\<in>set cache. entry_built build stamps packages e" "length cache \<le> graph_cache_limit"
    "cached_graph n (stamps w) (build n w) (\<lambda>g. stamps w (packages g)) cache = (g, cache')"
  shows "g = build n w \<and> (\<forall>e\<in>set cache'. entry_built build stamps packages e) \<and> length cache' \<le> graph_cache_limit"
proof -
  let ?rest = "filter (\<lambda>e. ge_name e \<noteq> n) cache"
  have new: "entry_built build stamps packages \<lparr>ge_name = n, ge_graph = h, ge_stamps = stamps w (packages h)\<rparr>" if "build n w = Some h" for h
    using that by (auto simp: entry_built_def)
  have old: "\<forall>e\<in>set (?rest @ [\<lparr>ge_name = n, ge_graph = h, ge_stamps = stamps w (packages h)\<rparr>]). entry_built build stamps packages e"
    if "build n w = Some h" for h
    using assms(2) new [OF that] by simp
  have tl_rest: "\<forall>e\<in>set (tl ?rest). entry_built build stamps packages e"
    using assms(2) set_tl_subset [of ?rest] filter_is_subset [of _ cache] by blast
  have rest: "length ?rest \<le> graph_cache_limit" using assms(3) length_filter_le le_trans by blast
  show ?thesis
  proof (cases "select_one (\<lambda>e. ge_name e = n) cache")
    case None
    then show ?thesis
    proof (cases "build n w")
      case None
      then show ?thesis using \<open>select_one _ cache = None\<close> assms(2,4) rest tl_rest
        by (auto simp: cached_graph_def Let_def split: if_splits)
    next
      case (Some h)
      then have "cache' = evict (?rest @ [\<lparr>ge_name = n, ge_graph = h, ge_stamps = stamps w (packages h)\<rparr>])" "g = Some h"
        using \<open>select_one _ cache = None\<close> assms(4) by (simp_all add: cached_graph_def Let_def)
      then show ?thesis using old [OF Some] Some by (auto simp: length_evict dest!: subsetD [OF set_evict])
    qed
  next
    case (Some hit)
    then have hit: "hit \<in> set cache" "ge_name hit = n" by (auto dest: select_one_SomeD)
    then have fewer: "length ?rest < length cache" using length_filter_less by fastforce
    show ?thesis
    proof (cases "stamps_match (ge_stamps hit) (stamps w (map fst (ge_stamps hit)))")
      case True
      obtain w0 where "build n w0 = Some (ge_graph hit)" "ge_stamps hit = stamps w0 (packages (ge_graph hit))"
        using assms(2) hit by (auto simp: entry_built_def)
      then have "build n w = Some (ge_graph hit)" using assms(1) True unfolding build_law_def by metis
      moreover have "g = Some (ge_graph hit)" "cache' = ?rest @ [hit]"
        using assms(4) Some True by (simp_all add: cached_graph_def Let_def)
      ultimately show ?thesis using assms(2,3) hit fewer by auto
    next
      case False
      show ?thesis
      proof (cases "build n w")
        case None
        then show ?thesis using Some False assms(2,4) rest by (auto simp: cached_graph_def Let_def)
      next
        case b: (Some h)
        then have "cache' = evict (?rest @ [\<lparr>ge_name = n, ge_graph = h, ge_stamps = stamps w (packages h)\<rparr>])" "g = Some h"
          using Some False assms(4) by (simp_all add: cached_graph_def Let_def)
        then show ?thesis using old [OF b] b by (auto simp: length_evict dest!: subsetD [OF set_evict])
      qed
    qed
  qed
qed

text \<open>Serving from the cache of module graphs is the same as building the graph anew for every request, whatever
  packages were saved in between, and the cache never grows beyond its limit. It needs that no package is saved between a
  build and the reading of its stamps.\<close>

theorem warm_graph_is_fresh:
  assumes "build_law build stamps packages" "\<forall>(n, w, w')\<in>set rs. w' = w"
  shows "fst (graph_answers build stamps packages rs []) = map (\<lambda>(n, w, w'). build n w) rs \<and>
    length (snd (graph_answers build stamps packages rs [])) \<le> graph_cache_limit"
proof -
  have "\<forall>e\<in>set cache. entry_built build stamps packages e \<Longrightarrow> length cache \<le> graph_cache_limit \<Longrightarrow>
      fst (graph_answers build stamps packages rs cache) = map (\<lambda>(n, w, w'). build n w) rs \<and>
      length (snd (graph_answers build stamps packages rs cache)) \<le> graph_cache_limit" for cache
    using assms(2)
  proof (induction rs arbitrary: cache)
    case (Cons r rs)
    obtain n w where r: "r = (n, w, w)" using Cons.prems(3) by (cases r) auto
    obtain g cache1 where g: "cached_graph n (stamps w) (build n w) (\<lambda>g. stamps w (packages g)) cache = (g, cache1)"
      by (cases "cached_graph n (stamps w) (build n w) (\<lambda>g. stamps w (packages g)) cache") auto
    from cached_graph_step [OF assms(1) Cons.prems(1,2) g] Cons.IH [of cache1] Cons.prems(3)
    show ?case by (simp add: r g case_prod_beta Let_def)
  qed simp
  then show ?thesis by simp
qed

text \<open>A world of one package: its stamp and its code.\<close>

theorem warm_graph_is_fresh_witness:
  "fst (graph_answers (\<lambda>n w. if n = ''a'' then Some w else None) (\<lambda>w ns. map (\<lambda>n. (n, w)) ns) (\<lambda>g. [''p''])
     [(''a'', ''v1'', ''v1''), (''a'', ''v1'', ''v1''), (''b'', ''v1'', ''v1''), (''a'', ''v2'', ''v2'')] []) =
   [Some ''v1'', Some ''v1'', None, Some ''v2'']"
proof -
  have "build_law (\<lambda>n w. if n = ''a'' then Some w else None) (\<lambda>w ns. map (\<lambda>n. (n, w)) ns) (\<lambda>g :: string. [''p''])"
    by (simp add: build_law_def stamps_match_def)
  from warm_graph_is_fresh [OF this, of "[(''a'', ''v1'', ''v1''), (''a'', ''v1'', ''v1''), (''b'', ''v1'', ''v1''), (''a'', ''v2'', ''v2'')]"]
  show ?thesis by simp
qed

text \<open>When a dependency is saved while a graph is built from its old version, the stamps read after the build name the new
  version: from then on the old code is served.\<close>

lemma saved_during_build:
  assumes "build n w = Some g" "stamps_match (stamps w' (packages g)) (stamps w' (map fst (stamps w' (packages g))))"
  shows "fst (graph_answers build stamps packages [(n, w, w'), (n, w', w')] []) = [Some g, Some g]"
  using assms by (simp add: cached_graph_def evict_def graph_cache_limit_def)

section \<open>Cookies stay apart\<close>

lemma trim_no_sep: "CHR '';'' \<notin> set p \<Longrightarrow> CHR '';'' \<notin> set (trim p)"
  by (auto simp: trim_def trim_start_def dest!: set_dropWhileD)

lemma split_join:
  "ps \<noteq> [] \<Longrightarrow> \<forall>p\<in>set ps. CHR '';'' \<notin> set p \<and> trim p = p \<Longrightarrow> map trim (split_on CHR '';'' (join_with ''; '' ps)) = ps"
proof (induction ps rule: induct_list012)
  case (3 a b ps)
  have "trim (CHR '' '' # t) = trim t" for t by (simp add: trim_def trim_start_def is_space_def unit_of_def)
  moreover have "map trim (split_on CHR '';'' (CHR '' '' # t)) = (trim (CHR '' '' # hd (split_on CHR '';'' t))) # map trim (tl (split_on CHR '';'' t))" for t
    by simp
  ultimately have "map trim (split_on CHR '';'' (CHR '' '' # t)) = map trim (split_on CHR '';'' t)" for t
    by (metis list.exhaust_sel list.simps(9) split_on_nonempty)
  then show ?case using 3 by (simp add: split_on_append_sep)
qed (simp_all add: split_on_none)

text \<open>C18 (safety). No Kody credential reaches the code of a package app, and the app cannot forge what Kody tells it or plant a
  Kody cookie: the request's cookies are exactly those of the browser whose names are not Kody's, in the same order; its only
  host header is the context that Kody wrote; and of the response no host header and no cookie with a Kody name goes out.\<close>

theorem kody_cookies_stay_out:
  assumes "map_of (aq_headers rq) ''cookie'' = Some h" "rq' = build_app_request E rq origin rest context"
  shows "(case map_of (sr_headers rq') ''cookie'' of Some v \<Rightarrow> map trim (split_on CHR '';'' v) | None \<Rightarrow> []) =
      filter kept_cookie (map trim (split_on CHR '';'' h)) \<and>
    filter kody_header (sr_headers rq') = [(app_context_header, context)] \<and>
    (\<forall>k v. (k, v) \<in> set (ap_headers (sanitize_app_response r)) \<longrightarrow> \<not> kody_header (k, v) \<and>
       (k = ''set-cookie'' \<longrightarrow> cookie_name (hd (split_on CHR '';'' v)) \<notin> set kody_cookie_names))"
proof (intro conjI)
  let ?kept = "filter kept_cookie (map trim (split_on CHR '';'' h))"
  have kept: "\<forall>p\<in>set ?kept. CHR '';'' \<notin> set p \<and> trim p = p"
    using trim_no_sep split_on_no_sep by fastforce
  have names: "\<not> kody_header (''cookie'', v)" "kody_header (app_context_header, v)" "app_context_header \<noteq> ''cookie''" for v
    by (simp_all add: kody_header_def app_context_header_def starts_with_def)
  have out: "cookie_header_without_kody (Some h) = (if ?kept = [] then None else Some (join_with ''; '' ?kept))"
  proof (cases "h = []")
    case True
    then show ?thesis by (simp add: cookie_header_without_kody_def some_text_def trim_def trim_start_def kept_cookie_def)
  qed (simp add: cookie_header_without_kody_def some_text_def Let_def split: list.splits)
  show "(case map_of (sr_headers rq') ''cookie'' of Some v \<Rightarrow> map trim (split_on CHR '';'' v) | None \<Rightarrow> []) = ?kept"
  proof (cases "?kept = []")
    case True
    then have "map_of (sr_headers rq') ''cookie'' = None"
      using names(3) by (auto simp: assms(2) build_app_request_def Let_def assms(1) out delete_header_def set_header_def map_of_eq_None_iff)
    then show ?thesis using True by simp
  next
    case False
    have "map_of (sr_headers rq') ''cookie'' = Some (join_with ''; '' ?kept)"
      using False names(3)
      by (auto simp: assms(2) build_app_request_def Let_def assms(1) out set_header_def map_add_def dest!: map_of_SomeD split: option.splits)
    then show ?thesis using split_join [OF False kept] by simp
  qed
  show "filter kody_header (sr_headers rq') = [(app_context_header, context)]"
    using names by (auto simp: assms(2) build_app_request_def Let_def set_header_def delete_header_def filter_empty_conv split: option.splits)
  show "\<forall>k v. (k, v) \<in> set (ap_headers (sanitize_app_response r)) \<longrightarrow> \<not> kody_header (k, v) \<and>
       (k = ''set-cookie'' \<longrightarrow> cookie_name (hd (split_on CHR '';'' v)) \<notin> set kody_cookie_names)"
    by (auto simp: sanitize_app_response_def set_header_def kody_header_def starts_with_def)
qed

theorem kody_cookies_stay_out_witness:
  "(case map_of (sr_headers (build_app_request sample_origin_env
        \<lparr>aq_method = ''GET'', aq_url = sample_app_url [], aq_headers = [(''cookie'', ''a=1;kody_app_session=x; b=2''), (''x-kody-app-context'', ''fake'')]\<rparr>
        ''https://apps.example'' ''/list'' ''context'')) ''cookie'' of Some v \<Rightarrow> map trim (split_on CHR '';'' v) | None \<Rightarrow> []) = [''a=1'', ''b=2'']"
proof -
  let ?rq = "\<lparr>aq_method = ''GET'', aq_url = sample_app_url [], aq_headers = [(''cookie'', ''a=1;kody_app_session=x; b=2''), (''x-kody-app-context'', ''fake'')]\<rparr>"
  have "split_on CHR '';'' ''a=1;kody_app_session=x; b=2'' = [''a=1'', ''kody_app_session=x'', '' b=2'']"
    using split_on_append_sep [of "CHR '';''" "''a=1''" "''kody_app_session=x; b=2''"] split_on_append_sep [of "CHR '';''" "''kody_app_session=x''" "'' b=2''"]
      split_on_none [of "CHR '';''" "'' b=2''"] by (simp del: split_on.simps)
  moreover have "filter kept_cookie (map trim [''a=1'', ''kody_app_session=x'', '' b=2'']) = [''a=1'', ''b=2'']" by code_simp
  ultimately have "filter kept_cookie (map trim (split_on CHR '';'' ''a=1;kody_app_session=x; b=2'')) = [''a=1'', ''b=2'']" by (simp only:)
  moreover have h: "map_of (aq_headers ?rq) ''cookie'' = Some ''a=1;kody_app_session=x; b=2''" by simp
  ultimately show ?thesis using kody_cookies_stay_out [OF h refl, THEN conjunct1] by (simp only:)
qed

section \<open>Serving\<close>

record app_package =
  pk_name :: string
  pk_updated :: string
  pk_files :: "(string \<times> string) list"
  pk_assets :: "string option"

datatype 'g built = BuildFailed "string \<times> string" | Built 'g
datatype app_run = Responded app_response | TimedOut | Crashed "string \<times> string"

datatype served =
    PageNotFound
  | Asset asset_answer
  | ErrorPage nat
  | Page app_response

text \<open>\<open>recordAppFailure\<close>: whatever it throws is dropped. \<open>run_id\<close> is the new run's id.\<close>

definition record_app_failure ::
  "quotas \<Rightarrow> limits \<Rightarrow> string \<Rightarrow> string \<Rightarrow> string \<times> string \<Rightarrow> string \<Rightarrow> int \<Rightarrow> history \<Rightarrow> history" where
  "record_app_failure Q L run_id pkg err logs now s =
     (case run_start Q L run_id AppRun (Some pkg) None None now s of
        (Inl e, s') \<Rightarrow> s'
      | (Inr (r, replayed), s') \<Rightarrow>
        snd (run_finish L (ro_id r)
          \<lparr>oc_ok = False, oc_result = None, oc_error = Some err, oc_logs = Some logs, oc_warnings = [], oc_duration = 0\<rparr> now s'))"

record serve_env =
  sv_crypto :: crypto
  sv_decode :: "string \<Rightarrow> string option"
  sv_origin :: origin_env
  sv_quotas :: quotas
  sv_limits :: limits

text \<open>\<open>serveApp\<close>. \<open>package\<close> is the saved package if it is an app, \<open>graph\<close> the outcome of the cached graph, \<open>run\<close> what the isolate does
  with the request it is given within the time limit.\<close>

definition serve_app ::
  "serve_env \<Rightarrow> app_request \<Rightarrow> app_target \<Rightarrow> app_package option \<Rightarrow> 'g built \<Rightarrow> ('g \<Rightarrow> sandbox_request \<Rightarrow> app_run) \<Rightarrow> string \<Rightarrow>
   string \<Rightarrow> int \<Rightarrow> history \<Rightarrow> served \<times> history" where
  "serve_app V rq t package graph run context run_id now s =
     (case package of
        None \<Rightarrow> (PageNotFound, s)
      | Some p \<Rightarrow>
        if is_asset_path (tg_rest t)
        then (Asset (serve_app_asset (sv_crypto V) (sv_decode V) rq (tg_rest t) (pk_files p) (pk_assets p)), s)
        else
          (let failed = (\<lambda>err. record_app_failure (sv_quotas V) (sv_limits V) run_id (pk_name p) err ''[]'' now s) in
           case graph of
             BuildFailed err \<Rightarrow> (ErrorPage 500, failed err)
           | Built g \<Rightarrow>
             (case run g (build_app_request (sv_origin V) rq (tg_origin t) (tg_rest t) context) of
                TimedOut \<Rightarrow> (ErrorPage 504, failed (''app_timeout'', ''The app did not respond.''))
              | Crashed err \<Rightarrow> (ErrorPage 500, failed err)
              | Responded r \<Rightarrow> (Page (sanitize_app_response r), s))))"

lemma relative_asset_inside:
  "relative_asset_path decode rest = Some p \<Longrightarrow> \<forall>t\<in>set (split_on CHR ''/'' p). t \<noteq> [] \<and> t \<noteq> ''.'' \<and> t \<noteq> ''..''"
  by (auto simp: relative_asset_path_def list_ex_iff join_split_on split: option.splits if_splits)

text \<open>Whatever the encoding of its path, a request for a static file gets a file of the package below the assets directory.\<close>

lemma assets_confined:
  assumes "serve_app_asset C decode rq rest files dir = AssetBody ct etag content"
  shows "\<exists>d p. dir = Some d \<and> map_of files (d @ ''/'' @ p) = Some content \<and>
    (\<forall>t\<in>set (split_on CHR ''/'' p). t \<noteq> [] \<and> t \<noteq> ''.'' \<and> t \<noteq> ''..'')"
proof -
  obtain d p where "some_text dir = Some d" "relative_asset_path decode rest = Some p" "map_of files (d @ ''/'' @ p) = Some content"
    using assms by (auto simp: serve_app_asset_def Let_def split: if_splits option.splits)
  moreover from this(1) have "dir = Some d" by (auto simp: some_text_def split: option.splits if_splits)
  ultimately show ?thesis using relative_asset_inside by blast
qed

end
