(* ===== verification/PackagePaths.thy ===== *)
theory PackagePaths
  imports JsString
begin

text \<open>
  What the readers of package sources share: the names of git objects and the normal form of a
  directory in a repository or an archive (src/src/packages/git-smart-http.ts, install.ts).
\<close>

definition sha_pattern :: "string \<Rightarrow> bool" where
  "sha_pattern t = (length t = 40 \<and> list_all (\<lambda>c. is_digit c \<or> in_range 97 102 c) t)"

definition normalize_subdir :: "string option \<Rightarrow> string option res" where
  "normalize_subdir raw =
     (case raw of
        None \<Rightarrow> Inr None
      | Some t \<Rightarrow>
        (let parts = filter (\<lambda>p. p \<noteq> [] \<and> p \<noteq> ''.'') (map trim (split_on CHR ''/'' t)) in
         if parts = [] then Inr None
         else if ''..'' \<in> set parts then fails ''invalid_args''
         else Inr (Some (join_with ''/'' parts))))"

text \<open>A leading \<open>./\<close> taken away.\<close>

definition without_dot :: "string \<Rightarrow> string" where
  "without_dot p = (if starts_with p ''./'' then drop 2 p else p)"

lemma set_trim: "set (trim s) \<subseteq> set s"
  by (auto simp: trim_def trim_start_def dest!: set_dropWhileD)

lemma split_joined_parts: "ws \<noteq> [] \<Longrightarrow> \<forall>w\<in>set ws. d \<notin> set w \<Longrightarrow> split_on d (join_with [d] ws) = ws"
proof (induction ws)
  case (Cons w ws)
  then show ?case by (cases ws) (simp_all add: split_on_none split_on_append_sep)
qed simp

lemma set_join_with: "set (join_with d ws) \<subseteq> set d \<union> (\<Union>w\<in>set ws. set w)"
  by (induction d ws rule: join_with.induct) auto

lemma set_split_on: "w \<in> set (split_on d s) \<Longrightarrow> set w \<subseteq> set s"
proof (induction s arbitrary: w)
  case (Cons c s)
  obtain v vs where v: "split_on d s = v # vs" by (cases "split_on d s") auto
  have "set v \<subseteq> set s" "\<And>u. u \<in> set vs \<Longrightarrow> set u \<subseteq> set s" using Cons.IH v by auto
  then show ?case using Cons.prems v by (auto split: if_splits)
qed simp

text \<open>The parts of a normal directory.\<close>

definition normal_part :: "string \<Rightarrow> bool" where
  "normal_part p = (p \<noteq> [] \<and> p \<noteq> ''.'' \<and> p \<noteq> ''..'' \<and> trim p = p \<and> CHR ''/'' \<notin> set p)"

lemma normalize_subdir_cases:
  assumes "normalize_subdir raw = Inr r"
  obtains "r = None" | t parts where "raw = Some t" "parts \<noteq> []" "list_all normal_part parts" "r = Some (join_with ''/'' parts)"
    "(\<Union>p\<in>set parts. set p) \<subseteq> set t"
proof (cases raw)
  case (Some t)
  let ?parts = "filter (\<lambda>p. p \<noteq> [] \<and> p \<noteq> ''.'') (map trim (split_on CHR ''/'' t))"
  show ?thesis
  proof (cases "?parts = []")
    case True
    then show ?thesis using assms Some that(1) by (simp add: normalize_subdir_def)
  next
    case False
    then have r: "''..'' \<notin> set ?parts" "r = Some (join_with ''/'' ?parts)"
      using assms Some by (auto simp: normalize_subdir_def Let_def split: if_splits)
    have "CHR ''/'' \<notin> set (trim w)" if "w \<in> set (split_on CHR ''/'' t)" for w
      using split_on_no_sep [OF that] set_trim by blast
    moreover have "p \<noteq> ''..''" if "p \<in> set ?parts" for p using r(1) that by metis
    ultimately have "list_all normal_part ?parts" unfolding list_all_iff normal_part_def by auto
    moreover have "(\<Union>p\<in>set ?parts. set p) \<subseteq> set t" using set_trim set_split_on by fastforce
    ultimately show ?thesis using that(2) Some False r(2) by blast
  qed
qed (use assms that(1) in \<open>simp add: normalize_subdir_def\<close>)

lemma normalize_parts:
  assumes "parts \<noteq> []" "list_all normal_part parts"
  shows "normalize_subdir (Some (join_with ''/'' parts)) = Inr (Some (join_with ''/'' parts))"
proof -
  have s: "split_on CHR ''/'' (join_with ''/'' parts) = parts"
    using split_joined_parts [of parts "CHR ''/''"] assms by (auto simp: list_all_iff normal_part_def)
  have m: "map trim parts = parts" using assms(2) by (simp add: list_all_iff normal_part_def map_idI)
  have f: "filter (\<lambda>p. p \<noteq> [] \<and> p \<noteq> ''.'') parts = parts" using assms(2) by (auto simp: list_all_iff normal_part_def intro!: filter_True)
  have "''..'' \<notin> set parts" using assms(2) by (auto simp: list_all_iff normal_part_def)
  then show ?thesis using assms(1) by (simp add: normalize_subdir_def s m f)
qed

lemma join_parts_nonempty: "parts \<noteq> [] \<Longrightarrow> list_all normal_part parts \<Longrightarrow> join_with ''/'' parts \<noteq> []"
  by (cases parts rule: remdups_adj.cases) (auto simp: normal_part_def)

end
