(* ===== verification/PackageSource.thy ===== *)
theory PackageSource
  imports PackagePaths HostPolicy
begin

text \<open>
  Where a package is installed from, the first half of src/src/packages/install.ts: the syntax of
  sources, their description, pinning to a commit, and the rule for the hosts. The WHATWG URL
  parser and what its setters print are parameters.
\<close>

section \<open>Sources\<close>

record source_env =
  se_parse :: "string \<Rightarrow> url option"
  se_origin :: "url \<Rightarrow> string"
  se_without_hash :: "url \<Rightarrow> string"
  se_with_path :: "url \<Rightarrow> string \<Rightarrow> string"

datatype package_source =
    Github (ps_owner: string) (ps_name: string) (ps_ref: "string option") (ps_subdir: "string option")
  | Kody (ps_origin: string) (ps_owner: string) (ps_name: string) (ps_ref: "string option") (ps_subdir: "string option") (ps_git_url: string)
  | UrlSource (ps_url: string) (ps_subdir: "string option")

definition github_name :: "string \<Rightarrow> bool" where
  "github_name t = (t \<noteq> [] \<and> is_alnum (hd t) \<and> is_alnum (last t) \<and> list_all (\<lambda>c. is_alnum c \<or> c = CHR ''-'') t)"

definition repo_char :: "char \<Rightarrow> bool" where
  "repo_char c = (is_alnum c \<or> c \<in> {CHR ''.'', CHR ''_'', CHR ''-''})"

definition github_repo :: "string \<Rightarrow> bool" where
  "github_repo t = (t \<noteq> [] \<and> list_all repo_char t)"

definition kody_owner :: "string \<Rightarrow> bool" where
  "kody_owner t = (t \<noteq> [] \<and> length t \<le> 39 \<and> is_alnum (hd t) \<and> list_all repo_char t)"

definition kody_leaf :: "string \<Rightarrow> bool" where
  "kody_leaf t = (t \<noteq> [] \<and> length t \<le> 64 \<and> is_alnum (hd t) \<and> list_all repo_char t)"

definition bad_ref_char :: "char \<Rightarrow> bool" where
  "bad_ref_char c = (is_space c \<or> c \<in> {CHR 0x5C, CHR '':'', CHR ''?'', CHR ''*'', CHR ''['', CHR '']'', CHR ''~'', CHR ''^''})"

definition bad_ref :: "string \<Rightarrow> bool" where
  "bad_ref r =
     (r = [] \<or> list_ex bad_ref_char r \<or> contains r ''..'' \<or> starts_with r ''-'' \<or> ends_with r ''/'' \<or> starts_with r ''/'')"

definition assert_git_ref :: "string option \<Rightarrow> unit res" where
  "assert_git_ref ref = (case ref of Some r \<Rightarrow> if bad_ref r then fails ''invalid_args'' else Inr () | None \<Rightarrow> Inr ())"

definition without_suffix :: "(string \<Rightarrow> string) \<Rightarrow> string \<Rightarrow> string" where
  "without_suffix fold_case t = (if ends_with (fold_case t) ''.git'' then take (length t - 4) t else t)"

definition github_source :: "string \<Rightarrow> string \<Rightarrow> string option \<Rightarrow> string option \<Rightarrow> package_source res" where
  "github_source owner repo ref subdir =
     (let clean = without_suffix id repo in
      if \<not> github_name owner then fails ''invalid_args''
      else if \<not> github_repo clean \<or> clean = ''.'' \<or> clean = ''..'' then fails ''invalid_args''
      else bind_res (assert_git_ref ref) (\<lambda>_. bind_res (normalize_subdir subdir) (\<lambda>d. Inr (Github owner clean ref d))))"

definition strip_slashes :: "string \<Rightarrow> string" where
  "strip_slashes t = rev (dropWhile (\<lambda>c. c = CHR ''/'') (rev t))"

text \<open>\<open>normalizeGitUrl\<close>; a text that is no URL throws.\<close>

definition normalize_git_url :: "source_env \<Rightarrow> string \<Rightarrow> string res" where
  "normalize_git_url E t =
     (case se_parse E t of
        None \<Rightarrow> internal_error
      | Some u \<Rightarrow>
        (let path = strip_slashes (pathname u);
             path' = (if ends_with path ''.git'' then path else path @ ''.git'')
         in Inr (strip_slashes (se_with_path E u path'))))"

definition kody_source :: "source_env \<Rightarrow> string \<Rightarrow> string \<Rightarrow> string \<Rightarrow> string option \<Rightarrow> string option \<Rightarrow> package_source res" where
  "kody_source E origin owner name ref subdir =
     (let leaf = without_suffix to_lower name; base = strip_slashes origin in
      if \<not> kody_owner owner then fails ''invalid_args''
      else if \<not> kody_leaf leaf then fails ''invalid_args''
      else bind_res (assert_git_ref ref) (\<lambda>_. bind_res (normalize_subdir subdir)
        (\<lambda>d. bind_res (normalize_git_url E (base @ ''/@'' @ owner @ ''/'' @ leaf @ ''.git''))
          (\<lambda>g. Inr (Kody base owner leaf ref d g)))))"

definition path_segments :: "string \<Rightarrow> string list" where
  "path_segments p = filter (\<lambda>s. s \<noteq> []) (split_on CHR ''/'' p)"

definition is_kody_package_path :: "string \<Rightarrow> bool" where
  "is_kody_package_path p =
     (case path_segments p of
        owner # leaf # _ \<Rightarrow> starts_with owner ''@'' \<and> kody_owner (tl owner) \<and> kody_leaf (without_suffix to_lower leaf)
      | _ \<Rightarrow> False)"

definition joined_rest :: "string list \<Rightarrow> string option" where
  "joined_rest rest = (if rest = [] then None else Some (join_with ''/'' rest))"

definition or_else :: "'a option \<Rightarrow> 'a option \<Rightarrow> 'a option" where
  "or_else a b = (case a of Some x \<Rightarrow> Some x | None \<Rightarrow> b)"

text \<open>\<open>parseKodyPath\<close>: \<open>None\<close> for a URL that is none of a package.\<close>

definition parse_kody_path :: "source_env \<Rightarrow> url \<Rightarrow> string option \<Rightarrow> package_source res option" where
  "parse_kody_path E u subdir =
     (case path_segments (pathname u) of
        owner # leaf # tail \<Rightarrow>
          (let name = without_suffix to_lower leaf;
               hash_ref = (if hash u = [] then None else Some (if starts_with (hash u) ''#'' then tl (hash u) else hash u))
           in if \<not> starts_with owner ''@'' \<or> \<not> kody_owner (tl owner) \<or> \<not> kody_leaf name then None
              else
                (case tail of
                   [] \<Rightarrow> Some (kody_source E (se_origin E u) (tl owner) name hash_ref subdir)
                 | mode # rest \<Rightarrow>
                   if mode = ''tree'' then
                     Some (kody_source E (se_origin E u) (tl owner) name (if rest = [] then None else Some (hd rest))
                       (or_else subdir (joined_rest (tl rest))))
                   else if mode = ''blob'' then Some (kody_source E (se_origin E u) (tl owner) name hash_ref subdir)
                   else None))
      | _ \<Rightarrow> None)"

text \<open>The part before the first \<open>#\<close>, and what follows it.\<close>

definition split_ref :: "string \<Rightarrow> string \<times> string option" where
  "split_ref t = (let ws = split_on CHR ''#'' t in (hd ws, if tl ws = [] then None else Some (join_with ''#'' (tl ws))))"

definition parse_github_text :: "string \<Rightarrow> string option \<Rightarrow> package_source res" where
  "parse_github_text t subdir =
     (let (path, ref) = split_ref t in
      case split_on CHR ''/'' path of
        owner # repo # rest \<Rightarrow>
          if owner = [] \<or> repo = [] then fails ''invalid_args''
          else github_source owner repo ref (or_else subdir (joined_rest rest))
      | _ \<Rightarrow> fails ''invalid_args'')"

definition parse_kody_text :: "source_env \<Rightarrow> string \<Rightarrow> string option \<Rightarrow> package_source res" where
  "parse_kody_text E t subdir =
     (let (path, ref) = split_ref t in
      case split_on CHR ''/'' (dropWhile (\<lambda>c. c = CHR ''/'') path) of
        raw # name # rest \<Rightarrow>
          (let owner = (if starts_with raw ''@'' then tl raw else raw) in
           if owner = [] \<or> name = [] then fails ''invalid_args''
           else kody_source E ''https://kody.codes'' owner name ref (or_else subdir (joined_rest rest)))
      | _ \<Rightarrow> fails ''invalid_args'')"

text \<open>A page of github.com that shows a repository or a directory of it.\<close>

definition parse_github_url :: "url \<Rightarrow> string option \<Rightarrow> package_source res option" where
  "parse_github_url u subdir =
     (if to_lower (hostname u) \<noteq> ''github.com'' \<and> to_lower (hostname u) \<noteq> ''www.github.com'' then None
      else
        (case path_segments (pathname u) of
           [owner, repo] \<Rightarrow> Some (github_source owner repo None (or_else subdir None))
         | owner # repo # mode # ref # rest \<Rightarrow>
           if mode = ''tree'' then Some (github_source owner repo (Some ref) (or_else subdir (joined_rest rest))) else None
         | _ \<Rightarrow> None))"

definition parse_url_source :: "source_env \<Rightarrow> url \<Rightarrow> string option \<Rightarrow> package_source res" where
  "parse_url_source E u subdir =
     (if protocol u \<noteq> ''http:'' \<and> protocol u \<noteq> ''https:'' then fails ''invalid_args''
      else if username u \<noteq> [] \<or> password u \<noteq> [] then fails ''invalid_args''
      else
        (case parse_github_url u subdir of
           Some r \<Rightarrow> r
         | None \<Rightarrow>
           (case parse_kody_path E u subdir of
              Some r \<Rightarrow> r
            | None \<Rightarrow> bind_res (normalize_subdir subdir) (\<lambda>d. Inr (UrlSource (se_without_hash E u) d)))))"

definition parse_package_source :: "source_env \<Rightarrow> string \<Rightarrow> string option \<Rightarrow> package_source res" where
  "parse_package_source E spec subdir =
     (let text = trim spec in
      if text = [] then fails ''invalid_args''
      else if starts_with text ''github:'' then parse_github_text (drop 7 text) subdir
      else if starts_with text ''kody:'' then parse_kody_text E (drop 5 text) subdir
      else
        (case se_parse E text of
           None \<Rightarrow> fails ''invalid_args''
         | Some u \<Rightarrow> parse_url_source E u subdir))"

section \<open>Descriptions and pins\<close>

definition hash_part :: "string option \<Rightarrow> string" where
  "hash_part r = (case some_text r of Some t \<Rightarrow> ''#'' @ t | None \<Rightarrow> [])"

definition describe_package_source :: "package_source \<Rightarrow> string" where
  "describe_package_source s =
     (case s of
        Github owner repo ref subdir \<Rightarrow>
          ''github:'' @ owner @ ''/'' @ repo @ (case some_text subdir of Some d \<Rightarrow> ''/'' @ d | None \<Rightarrow> []) @ hash_part ref
      | Kody origin owner name ref subdir git_url \<Rightarrow>
          (case some_text subdir of
             Some d \<Rightarrow> origin @ ''/@'' @ owner @ ''/'' @ name @ ''/tree/'' @ (case ref of Some r \<Rightarrow> r | None \<Rightarrow> ''HEAD'') @ ''/'' @ d
           | None \<Rightarrow> git_url @ hash_part ref)
      | UrlSource u subdir \<Rightarrow> u @ hash_part subdir)"

definition full_commit_sha :: "string \<Rightarrow> bool" where
  "full_commit_sha t = sha_pattern (to_lower t)"

definition with_ref :: "string \<Rightarrow> package_source \<Rightarrow> package_source" where
  "with_ref sha s =
     (case s of
        Github owner repo ref subdir \<Rightarrow> Github owner repo (Some sha) subdir
      | Kody origin owner name ref subdir g \<Rightarrow> Kody origin owner name (Some sha) subdir g
      | UrlSource u subdir \<Rightarrow> UrlSource u subdir)"

definition pin_package_source_to_commit :: "source_env \<Rightarrow> string \<Rightarrow> string option \<Rightarrow> string" where
  "pin_package_source_to_commit E text commit =
     (case commit of
        None \<Rightarrow> text
      | Some c \<Rightarrow>
        if \<not> full_commit_sha c then text
        else
          (let sha = to_lower c in
           case parse_package_source E text None of
             Inl _ \<Rightarrow> text
           | Inr (UrlSource _ _) \<Rightarrow> text
           | Inr s \<Rightarrow>
             if map_option to_lower (ps_ref s) = Some sha then describe_package_source s
             else describe_package_source (with_ref sha s)))"

section \<open>The hosts of sources\<close>

definition default_package_source_hosts :: "string list" where
  "default_package_source_hosts =
     [''github.com'', ''api.github.com'', ''codeload.github.com'', ''raw.githubusercontent.com'', ''gist.githubusercontent.com'',
      ''objects.githubusercontent.com'', ''kody.codes'']"

definition source_refused :: "'a res" where "source_refused = Inl (KodyError ''package_source_refused'' 403)"

definition assert_allowed_source_url :: "(string \<Rightarrow> url option) \<Rightarrow> string list \<Rightarrow> string list \<Rightarrow> string \<Rightarrow> url res" where
  "assert_allowed_source_url parse allowed private raw =
     (case parse raw of
        None \<Rightarrow> internal_error
      | Some u \<Rightarrow>
        (let host = to_lower (hostname u) in
         if protocol u \<noteq> ''http:'' \<and> protocol u \<noteq> ''https:'' then source_refused
         else if username u \<noteq> [] \<or> password u \<noteq> [] then source_refused
         else if host_matches_allowlist host private then Inr u
         else if is_private_hostname host then source_refused
         else if list_ex (\<lambda>e. e = ''*'' \<or> host_matches_approval host e) allowed then Inr u
         else source_refused))"

section \<open>A pinned source is read back\<close>

text \<open>What parsing gives for a repository: the directory is normal and, with no \<open>#\<close> in what it was read from, has none.\<close>

definition normal_subdir :: "string option \<Rightarrow> bool" where
  "normal_subdir d = (case d of None \<Rightarrow> True | Some t \<Rightarrow> CHR ''#'' \<notin> set t \<and>
     (\<exists>parts. parts \<noteq> [] \<and> list_all normal_part parts \<and> t = join_with ''/'' parts))"

lemma github_source_facts:
  assumes "github_source owner repo ref subdir = Inr s" "\<forall>t. subdir = Some t \<longrightarrow> CHR ''#'' \<notin> set t"
  obtains r d where "s = Github owner r ref d" "github_name owner" "github_repo r" "r \<noteq> ''.''" "r \<noteq> ''..''" "normal_subdir d"
proof -
  obtain d where d: "normalize_subdir subdir = Inr d" "s = Github owner (without_suffix id repo) ref d" "github_name owner"
      "github_repo (without_suffix id repo)" "without_suffix id repo \<noteq> ''.''" "without_suffix id repo \<noteq> ''..''"
    using assms(1) by (auto simp: github_source_def Let_def bind_res_Inr split: if_splits)
  have "normal_subdir d"
    using normalize_subdir_cases [OF d(1)]
  proof cases
    case (2 t parts)
    have "CHR ''#'' \<notin> (\<Union>p\<in>set parts. set p)" using assms(2) 2 by blast
    then have "CHR ''#'' \<notin> set (join_with ''/'' parts)" using set_join_with [of "''/''" parts] by auto
    then show ?thesis using 2 by (auto simp: normal_subdir_def)
  qed (simp add: normal_subdir_def)
  then show ?thesis using that d by blast
qed

lemma split_ref_hash: "CHR ''#'' \<notin> set p \<Longrightarrow> CHR ''#'' \<notin> set r \<Longrightarrow> split_ref (p @ ''#'' @ r) = (p, Some r)"
  by (simp add: split_ref_def split_on_append_sep split_on_none)

lemma sha_facts:
  assumes "full_commit_sha c"
  shows "c \<noteq> []" "\<not> bad_ref c" "CHR ''#'' \<notin> set c" "\<not> is_space (last c)"
proof -
  let ?s = c
  have s: "length ?s = 40" "\<forall>x\<in>set ?s. is_digit (lower_char x) \<or> in_range 97 102 (lower_char x)"
    using assms by (auto simp: full_commit_sha_def sha_pattern_def list_all_iff to_lower_def)
  have ch: "\<not> bad_ref_char x \<and> \<not> is_space x \<and> x \<notin> {CHR ''#'', CHR ''.'', CHR ''-'', CHR ''/''}" if "x \<in> set ?s" for x
  proof (cases "in_range 65 90 x \<or> in_range 192 222 x")
    case False
    then have "is_digit x \<or> in_range 97 102 x" using bspec [OF s(2) that] by (simp add: lower_char_def is_upper_def split: if_splits)
    then show ?thesis by (auto simp: bad_ref_char_def is_space_def is_digit_def in_range_def unit_of_def)
  qed (auto simp: bad_ref_char_def is_space_def in_range_def unit_of_def)
  show ne: "?s \<noteq> []" using s(1) by (metis length_0_conv zero_neq_numeral)
  show "CHR ''#'' \<notin> set ?s" "\<not> is_space (last ?s)" using ch ne by auto
  have "\<not> contains ?s ''..''"
  proof
    have "index_of ''..'' w \<noteq> None \<Longrightarrow> CHR ''.'' \<in> set w" for w
      by (induction w) (auto split: if_splits)
    moreover assume "contains ?s ''..''"
    ultimately show False using ch by (auto simp: contains_def)
  qed
  moreover have "\<not> starts_with ?s ''-''" "\<not> starts_with ?s ''/''" using ch [of "hd ?s"] ne by (cases ?s; auto)+
  moreover have "\<not> ends_with ?s ''/''" using ch by (metis append_is_Nil_conv ends_with_iff in_set_conv_decomp insertCI)
  ultimately show "\<not> bad_ref ?s" using ch ne by (auto simp: bad_ref_def list_ex_iff)
qed

lemma repo_char_facts: "repo_char c \<Longrightarrow> c \<noteq> CHR ''/'' \<and> c \<noteq> CHR ''#''"
  by (auto simp: repo_char_def is_alnum_def is_digit_def is_lower_def is_upper_def in_range_def unit_of_def)

lemma github_described:
  assumes "github_name owner" "github_repo repo" "repo \<noteq> ''.''" "repo \<noteq> ''..''" "\<not> ends_with repo ''.git''" "normal_subdir d" "full_commit_sha c"
  shows "parse_package_source E (describe_package_source (Github owner repo (Some (c)) d)) None = Inr (Github owner repo (Some (c)) d)"
proof -
  let ?c = c
  define path where "path = owner @ ''/'' @ repo @ (case some_text d of Some t \<Rightarrow> ''/'' @ t | None \<Rightarrow> [])"
  have descr: "describe_package_source (Github owner repo (Some ?c) d) = ''github:'' @ path @ ''#'' @ ?c"
    using sha_facts(1) [OF assms(7)] by (simp add: describe_package_source_def path_def hash_part_def some_text_def)
  have owner: "owner \<noteq> []" "CHR ''/'' \<notin> set owner" "CHR ''#'' \<notin> set owner"
    using assms(1) repo_char_facts by (auto simp: github_name_def list_all_iff repo_char_def)
  have repo: "repo \<noteq> []" "CHR ''/'' \<notin> set repo" "CHR ''#'' \<notin> set repo"
    using assms(2) repo_char_facts by (auto simp: github_repo_def list_all_iff)
  have "trim (''github:'' @ path @ ''#'' @ ?c) = ''github:'' @ path @ ''#'' @ ?c"
    by (rule trim_id) (use sha_facts(1,4) [OF assms(7)] in \<open>simp add: is_space_def in_range_def unit_of_def\<close>)
  then have 1: "parse_package_source E (''github:'' @ path @ ''#'' @ ?c) None = parse_github_text (path @ ''#'' @ ?c) None"
    by (simp add: parse_package_source_def)
  have "CHR ''#'' \<notin> set path"
    using owner repo assms(6) by (auto simp: path_def some_text_def normal_subdir_def split: option.splits)
  then have 2: "split_ref (path @ CHR ''#'' # ?c) = (path, Some ?c)" using split_ref_hash [of path ?c] sha_facts(3) [OF assms(7)] by simp
  have 3: "github_source owner repo (Some ?c) d' = Inr (Github owner repo (Some ?c) d)"
    if "normalize_subdir d' = Inr d" for d'
    using that assms(1-5) sha_facts(2) [OF assms(7)]
    by (simp add: github_source_def without_suffix_def assert_git_ref_def bind_res_def)
  show ?thesis
  proof (cases d)
    case None
    then have "split_on CHR ''/'' path = [owner, repo]"
      using owner repo by (simp add: path_def some_text_def split_on_append_sep split_on_none)
    moreover have "normalize_subdir None = Inr d" by (simp add: normalize_subdir_def None)
    ultimately show ?thesis
      using 3 owner(1) repo(1) unfolding descr 1 by (simp add: parse_github_text_def 2 joined_rest_def or_else_def)
  next
    case (Some t)
    obtain parts where p: "parts \<noteq> []" "list_all normal_part parts" "t = join_with ''/'' parts"
      using assms(6) Some by (auto simp: normal_subdir_def)
    have t: "t \<noteq> []" using join_parts_nonempty [OF p(1,2)] p(3) by simp
    then have "path = owner @ CHR ''/'' # repo @ CHR ''/'' # t" by (simp add: path_def Some some_text_def)
    moreover have "split_on CHR ''/'' t = parts"
      using split_joined_parts [OF p(1), of "CHR ''/''"] p(2,3) by (auto simp: list_all_iff normal_part_def)
    ultimately have "split_on CHR ''/'' path = owner # repo # parts"
      using owner repo by (simp add: split_on_append_sep)
    moreover have "normalize_subdir (Some (join_with ''/'' parts)) = Inr d" using normalize_parts [OF p(1,2)] Some p(3) by simp
    ultimately show ?thesis
      using 3 owner(1) repo(1) p(1) unfolding descr 1 by (simp add: parse_github_text_def 2 joined_rest_def or_else_def)
  qed
qed

lemma hd_split_none: "d \<notin> set (hd (split_on d t))"
  by (metis hd_in_set split_on_no_sep split_on_nonempty)

lemma joined_rest_chars: "joined_rest rest = Some t \<Longrightarrow> \<forall>w\<in>set rest. c \<notin> set w \<Longrightarrow> c \<noteq> CHR ''/'' \<Longrightarrow> c \<notin> set t"
  using set_join_with [of "''/''" rest] by (auto simp: joined_rest_def split: if_splits)

lemma github_url_rest:
  assumes "parse_github_url u None = Some r"
  shows "\<exists>owner repo ref rest. github_source owner repo ref (joined_rest rest) = r \<and> set rest \<subseteq> set (path_segments (pathname u))"
proof -
  consider owner repo where "path_segments (pathname u) = [owner, repo]" "r = github_source owner repo None (joined_rest [])"
    | owner repo ref rest where "path_segments (pathname u) = owner # repo # ''tree'' # ref # rest" "r = github_source owner repo (Some ref) (joined_rest rest)"
    using assms by (auto simp: parse_github_url_def or_else_def joined_rest_def split: list.splits if_splits)
  then show ?thesis
  proof cases
    case 1
    then show ?thesis by (metis empty_subsetI list.set(1))
  next
    case (2 owner repo ref rest)
    then have "set rest \<subseteq> set (path_segments (pathname u))" by auto
    then show ?thesis using 2(2) by metis
  qed
qed

lemma parsed_github_facts:
  assumes "parse_package_source E spec None = Inr (Github owner repo ref d)" "\<forall>t u. se_parse E t = Some u \<longrightarrow> CHR ''#'' \<notin> set (pathname u)"
  shows "github_name owner \<and> github_repo repo \<and> repo \<noteq> ''.'' \<and> repo \<noteq> ''..'' \<and> normal_subdir d"
proof -
  have "\<exists>o' r' ref' sd. github_source o' r' ref' sd = Inr (Github owner repo ref d) \<and> (\<forall>t. sd = Some t \<longrightarrow> CHR ''#'' \<notin> set t)"
  proof (cases "starts_with (trim spec) ''github:''")
    case True
    let ?ws = "split_on CHR ''#'' (drop 7 (trim spec))"
    have "parse_github_text (drop 7 (trim spec)) None = Inr (Github owner repo ref d)"
      using assms(1) True by (auto simp: parse_package_source_def Let_def split: if_splits)
    then obtain o' r' rest where p: "split_on CHR ''/'' (hd ?ws) = o' # r' # rest"
        "\<exists>rf. github_source o' r' rf (joined_rest rest) = Inr (Github owner repo ref d)"
      by (auto simp: parse_github_text_def split_ref_def or_else_def Let_def split: list.splits if_splits)
    have "CHR ''#'' \<notin> set w" if "w \<in> set rest" for w
      using set_split_on [of w "CHR ''/''" "hd ?ws"] hd_split_none [of "CHR ''#''"] p(1) that by auto
    then show ?thesis using p(2) joined_rest_chars by blast
  next
    case False
    have kody: "kody_source E' a b c e f \<noteq> Inr (Github owner repo ref d)" for E' a b c e f
      by (auto simp: kody_source_def Let_def bind_res_Inr split: if_splits)
    have "parse_kody_text E t None \<noteq> Inr (Github owner repo ref d)" for t
      using kody by (auto simp: parse_kody_text_def Let_def split: list.splits prod.splits)
    then obtain u where u: "se_parse E (trim spec) = Some u" "parse_url_source E u None = Inr (Github owner repo ref d)"
      using assms(1) False by (auto simp: parse_package_source_def Let_def split: if_splits option.splits)
    have no: "CHR ''#'' \<notin> set (pathname u)" using assms(2) u(1) by blast
    have "parse_kody_path E u None = Some r \<Longrightarrow> r \<noteq> Inr (Github owner repo ref d)" for r
      using kody by (auto simp: parse_kody_path_def Let_def split: list.splits if_splits)
    then have "parse_github_url u None = Some (Inr (Github owner repo ref d))"
      using u(2) by (auto simp: parse_url_source_def bind_res_Inr split: if_splits option.splits)
    then obtain o' r' rf rest where 2: "github_source o' r' rf (joined_rest rest) = Inr (Github owner repo ref d)"
        "set rest \<subseteq> set (path_segments (pathname u))"
      using github_url_rest by metis
    have "CHR ''#'' \<notin> set w" if "w \<in> set rest" for w
      using 2(2) that set_split_on [of w "CHR ''/''" "pathname u"] no by (auto simp: path_segments_def)
    then show ?thesis using 2(1) joined_rest_chars by blast
  qed
  then show ?thesis using github_source_facts by blast
qed

text \<open>A pin names one commit of the same source: when a text names a repository of GitHub, in any of the ways it can, its
  pin to a full commit id is read back as the same repository and directory at that commit, so that what an installation fetches is
  what its preview showed. (A repository whose name still ends in ".git" would lose that ending a second time.)\<close>

theorem pin_names_commit:
  assumes "parse_package_source E spec None = Inr (Github owner repo ref d)" "full_commit_sha c" "\<not> ends_with repo ''.git''"
    "\<forall>t u. se_parse E t = Some u \<longrightarrow> CHR ''#'' \<notin> set (pathname u)"
  shows "\<exists>r. to_lower r = to_lower c \<and>
    parse_package_source E (pin_package_source_to_commit E spec (Some c)) None = Inr (Github owner repo (Some r) d)"
proof -
  note facts = parsed_github_facts [OF assms(1,4)]
  have low: "full_commit_sha (to_lower c)" using assms(2) by (simp add: full_commit_sha_def)
  have again: "full_commit_sha r \<Longrightarrow>
      parse_package_source E (describe_package_source (Github owner repo (Some r) d)) None = Inr (Github owner repo (Some r) d)" for r
    using github_described facts assms(3) by blast
  show ?thesis
  proof (cases "map_option to_lower ref = Some (to_lower c)")
    case True
    then obtain r where r: "ref = Some r" "to_lower r = to_lower c" by auto
    then have "full_commit_sha r" using assms(2) by (simp add: full_commit_sha_def)
    then show ?thesis using again r assms(1,2) by (auto simp: pin_package_source_to_commit_def)
  next
    case False
    then have "pin_package_source_to_commit E spec (Some c) = describe_package_source (Github owner repo (Some (to_lower c)) d)"
      using assms(1,2) by (auto simp: pin_package_source_to_commit_def with_ref_def Let_def)
    then show ?thesis using again [OF low] by auto
  qed
qed

definition no_url_env :: source_env where
  "no_url_env = \<lparr>se_parse = \<lambda>t. None, se_origin = \<lambda>u. [], se_without_hash = \<lambda>u. [], se_with_path = \<lambda>u p. []\<rparr>"

theorem pin_names_commit_witness:
  "\<exists>r. to_lower r = to_lower (replicate 40 CHR ''A'') \<and>
     parse_package_source no_url_env (pin_package_source_to_commit no_url_env ''github:a/b/c#v1'' (Some (replicate 40 CHR ''A''))) None =
       Inr (Github ''a'' ''b'' (Some r) (Some ''c''))"
proof (rule pin_names_commit)
  show "parse_package_source no_url_env ''github:a/b/c#v1'' None = Inr (Github ''a'' ''b'' (Some ''v1'') (Some ''c''))" by code_simp
  show "full_commit_sha (replicate 40 CHR ''A'')" "\<not> ends_with ''b'' ''.git''" by code_simp+
qed (simp add: no_url_env_def)

section \<open>Descriptions that are not read back\<close>

text \<open>A directory in the description of a URL source is its fragment, which the parser drops: read back, it is the root of the archive.\<close>

lemma url_source_loses_directory: "parse_package_source E spec None = Inr (UrlSource u d) \<Longrightarrow> d = None"
  by (auto simp: parse_package_source_def Let_def parse_github_text_def parse_kody_text_def parse_url_source_def parse_github_url_def
    parse_kody_path_def github_source_def kody_source_def bind_res_Inr normalize_subdir_def split: if_splits list.splits option.splits prod.splits)

text \<open>Two sources of a kody package, with different references and directories, have one description.\<close>

lemma kody_description_ambiguous:
  "describe_package_source (Kody origin owner name (Some (a @ ''/'' @ b)) (Some d) g) =
   describe_package_source (Kody origin owner name (Some a) (Some (b @ ''/'' @ d)) g)" if "d \<noteq> []"
  using that by (simp add: describe_package_source_def some_text_def)

end
