(* ===== verification/GitPack.thy ===== *)
theory GitPack
  imports Keyring JsValue PackagePaths "HOL-Library.Word"
begin

unbundle bit_operations_syntax

text \<open>
  The wire formats of src/src/packages/git-smart-http.ts: packet lines, the side band, variable-length
  integers, deltas, pack files and tree objects. Bytes are characters. JavaScript's bitwise
  operators work on 32-bit integers, here \<open>32 word\<close>, and shift by the amount modulo 32. Inflating a
  zlib stream and SHA-1 are parameters.
\<close>

section \<open>Packet lines\<close>

definition pack_error :: "'a res" where "pack_error = Inl (KodyError ''invalid_package'' 502)"
definition source_failed :: "'a res" where "source_failed = Inl (KodyError ''package_source_failed'' 502)"

lemma refusals [simp]: "pack_error \<noteq> Inr x" "Inr x \<noteq> pack_error" "source_failed \<noteq> Inr x" "Inr x \<noteq> source_failed"
  by (simp_all add: pack_error_def source_failed_def)

text \<open>\<open>n.toString(16)\<close>.\<close>

fun show_hex :: "nat \<Rightarrow> string" where
  "show_hex n = (if n < 16 then [hex_digit n] else show_hex (n div 16) @ [hex_digit (n mod 16)])"

declare show_hex.simps [simp del]

definition pad_start :: "nat \<Rightarrow> char \<Rightarrow> string \<Rightarrow> string" where
  "pad_start n c t = replicate (n - length t) c @ t"

definition pkt_line :: "string \<Rightarrow> string" where
  "pkt_line payload = (let body = utf8_encode payload in pad_start 4 CHR ''0'' (show_hex (length body + 4)) @ body)"

text \<open>\<open>Number.parseInt(text, 16)\<close>: white space, a sign and a prefix are skipped, and the digits after them count.\<close>

definition parse_hex :: "string \<Rightarrow> int option" where
  "parse_hex text =
     (let t = trim_start text;
          neg = starts_with t ''-'';
          u = (if neg \<or> starts_with t ''+'' then tl t else t);
          v = (if starts_with u ''0x'' \<or> starts_with u ''0X'' then drop 2 u else u);
          ds = takeWhile (digit_below 16) v
      in if ds = [] then None else Some (if neg then - digits_value 16 ds else digits_value 16 ds))"

text \<open>The next packet: a flush, the payload and the rest, or \<open>None\<close> for a malformed length. At least four bytes are there.\<close>

datatype packet = Flush string | Payload string string

definition next_packet :: "string \<Rightarrow> packet option" where
  "next_packet bytes =
     (let head = utf8_decode (take 4 bytes) in
      if head = ''0000'' then Some (Flush (drop 4 bytes))
      else
        (case parse_hex head of
           None \<Rightarrow> None
         | Some n \<Rightarrow>
           if n < 4 \<or> int (length bytes) < n then None
           else Some (Payload (take (nat n - 4) (drop 4 bytes)) (drop (nat n) bytes))))"

lemma next_packet_shorter:
  "next_packet bytes = Some (Flush r) \<Longrightarrow> 4 \<le> length bytes \<Longrightarrow> length r < length bytes"
  "next_packet bytes = Some (Payload p r) \<Longrightarrow> 4 \<le> length bytes \<Longrightarrow> length r < length bytes"
  by (auto simp: next_packet_def Let_def split: if_splits option.splits)

text \<open>\<open>readPktLines\<close>: a flush is an empty line.\<close>

function read_pkt_lines :: "string \<Rightarrow> string list res" where
  "read_pkt_lines bytes =
     (if length bytes < 4 then Inr []
      else
        (case next_packet bytes of
           None \<Rightarrow> source_failed
         | Some (Flush r) \<Rightarrow> bind_res (read_pkt_lines r) (\<lambda>ls. Inr ([] # ls))
         | Some (Payload p r) \<Rightarrow> bind_res (read_pkt_lines r) (\<lambda>ls. Inr (p # ls))))"
  by pat_completeness auto
termination
  by (relation "measure length") (auto simp: next_packet_shorter)

declare read_pkt_lines.simps [simp del]

definition line_text :: "string \<Rightarrow> string" where
  "line_text line = utf8_decode (if line \<noteq> [] \<and> unit_of (last line) = 10 then butlast line else line)"

section \<open>The reference advertisement\<close>

record discovered =
  dg_head :: "string option"
  dg_refs :: "(string \<times> string) list"
  dg_symref :: "string option"

definition symref_of :: "string \<Rightarrow> string option \<Rightarrow> string option" where
  "symref_of caps old =
     foldl (\<lambda>s cap. if starts_with cap ''symref=HEAD:'' then Some (drop 12 cap) else s) old (split_on CHR '' '' caps)"

text \<open>One line of the advertisement; the flag says that the service line was seen.\<close>

definition ref_line :: "string \<Rightarrow> bool \<times> discovered \<Rightarrow> bool \<times> discovered" where
  "ref_line line st =
     (let text = line_text line in
      if line = [] then st
      else if starts_with text ''# service='' then (True, snd st)
      else
        (let main = takeWhile (\<lambda>c. c \<noteq> CHR 0x00) text;
             caps = drop 1 (dropWhile (\<lambda>c. c \<noteq> CHR 0x00) text)
         in if CHR '' '' \<notin> set main then st
            else
              (let sha = to_lower (takeWhile (\<lambda>c. c \<noteq> CHR '' '') main);
                   name = tl (dropWhile (\<lambda>c. c \<noteq> CHR '' '') main);
                   d = snd st
               in if \<not> sha_pattern sha then st
                  else (fst st,
                    d\<lparr>dg_refs := map_set name sha (dg_refs d),
                      dg_head := (if name = ''HEAD'' then Some sha else dg_head d),
                      dg_symref := symref_of caps (dg_symref d)\<rparr>))))"

definition discover_refs :: "string \<Rightarrow> discovered res" where
  "discover_refs bytes =
     bind_res (read_pkt_lines bytes)
       (\<lambda>lines. let (saw, d) = fold ref_line lines (False, \<lparr>dg_head = None, dg_refs = [], dg_symref = None\<rparr>) in
          if \<not> saw \<and> dg_refs d = [] then source_failed else Inr d)"

definition resolve_git_ref :: "discovered \<Rightarrow> string option \<Rightarrow> string res" where
  "resolve_git_ref d ref =
     (if ref = None \<or> ref = Some [] \<or> ref = Some ''HEAD'' then
        (case dg_head d of
           Some h \<Rightarrow> Inr h
         | None \<Rightarrow>
           (case Option.bind (some_text (dg_symref d)) (map_of (dg_refs d)) of
              Some sha \<Rightarrow> Inr sha
            | None \<Rightarrow>
              (case map_of (dg_refs d) ''refs/heads/master'' of
                 Some sha \<Rightarrow> Inr sha
               | None \<Rightarrow> (case map_of (dg_refs d) ''refs/heads/main'' of Some sha \<Rightarrow> Inr sha | None \<Rightarrow> source_failed))))
      else
        (let r = the ref in
         if sha_pattern (to_lower r) then Inr (to_lower r)
         else
           (case List.map_filter (map_of (dg_refs d)) [r, ''refs/heads/'' @ r, ''refs/tags/'' @ r, ''refs/tags/'' @ r @ ''^{}''] of
              sha # _ \<Rightarrow> Inr sha
            | [] \<Rightarrow> Inl (KodyError ''package_source_failed'' 404))))"

section \<open>The side band\<close>

text \<open>\<open>demuxUploadPack\<close>: the chunks of band 1, until a flush after the first band packet or a malformed length.\<close>

function demux_chunks :: "bool \<Rightarrow> string \<Rightarrow> string list res" where
  "demux_chunks saw bytes =
     (if length bytes < 4 then Inr []
      else
        (case next_packet bytes of
           None \<Rightarrow> Inr []
         | Some (Flush r) \<Rightarrow> if saw then Inr [] else demux_chunks saw r
         | Some (Payload p r) \<Rightarrow>
           if p = [] then demux_chunks saw r
           else if unit_of (hd p) = 1 then bind_res (demux_chunks True r) (\<lambda>cs. Inr (tl p # cs))
           else if unit_of (hd p) = 2 then demux_chunks True r
           else if unit_of (hd p) = 3 then source_failed
           else if starts_with (line_text p) ''ERR '' then source_failed
           else demux_chunks saw r))"
  by pat_completeness auto
termination
  by (relation "measure (length \<circ> snd)") (auto simp: next_packet_shorter)

declare demux_chunks.simps [simp del]

fun find_pack :: "string \<Rightarrow> string option" where
  "find_pack [] = None"
| "find_pack (c # s) = (if starts_with (c # s) ''PACK'' then Some (c # s) else find_pack s)"

definition demux_upload_pack :: "string \<Rightarrow> string res" where
  "demux_upload_pack bytes =
     bind_res (demux_chunks False bytes)
       (\<lambda>chunks. if chunks \<noteq> [] then Inr (concat chunks)
          else (case find_pack bytes of Some p \<Rightarrow> Inr p | None \<Rightarrow> source_failed))"

section \<open>Integers of variable length\<close>

text \<open>A byte of an array; reading past its end is undefined, which the bitwise operators take for 0.\<close>

definition byte_at :: "string \<Rightarrow> nat \<Rightarrow> nat" where
  "byte_at bs i = (if i < length bs then unit_of (bs ! i) else 0)"

type_synonym int32 = "32 word"

definition shift_left :: "int32 \<Rightarrow> nat \<Rightarrow> int32" where
  "shift_left x n = push_bit (n mod 32) x"

definition low7 :: "nat \<Rightarrow> int32" where
  "low7 b = of_nat b AND 127"

function read_varint_go :: "string \<Rightarrow> nat \<Rightarrow> nat \<Rightarrow> int32 \<Rightarrow> (int32 \<times> nat) res" where
  "read_varint_go bytes i shift v =
     (if length bytes \<le> i then pack_error
      else
        (let c = byte_at bytes i; v' = v OR shift_left (low7 c) shift in
         if c < 128 then Inr (v', i + 1) else read_varint_go bytes (i + 1) (shift + 7) v'))"
  by pat_completeness auto
termination
  by (relation "measure (\<lambda>(bytes, i, shift, v). length bytes - i)") auto

declare read_varint_go.simps [simp del]

definition read_varint :: "string \<Rightarrow> nat \<Rightarrow> (int32 \<times> nat) res" where
  "read_varint bytes i = read_varint_go bytes i 0 0"

section \<open>Deltas\<close>

text \<open>\<open>bytes.subarray(b, e)\<close>: a negative index counts from the end.\<close>

definition clamp_index :: "nat \<Rightarrow> int \<Rightarrow> nat" where
  "clamp_index n x = nat (if x < 0 then max (int n + x) 0 else min x (int n))"

definition subarray :: "string \<Rightarrow> int \<Rightarrow> int \<Rightarrow> string" where
  "subarray bs b e = (let i = clamp_index (length bs) b in take (clamp_index (length bs) e - i) (drop i bs))"

text \<open>One optional byte of a copy instruction: the place of the next byte and the value so far.\<close>

definition flagged_byte :: "nat \<Rightarrow> string \<Rightarrow> nat \<times> nat \<Rightarrow> nat \<times> int32 \<Rightarrow> nat \<times> int32" where
  "flagged_byte cmd delta f st =
     (if cmd div 2 ^ fst f mod 2 = 1 then (fst st + 1, snd st OR shift_left (of_nat (byte_at delta (fst st))) (snd f)) else st)"

definition copy_offset :: "nat \<Rightarrow> string \<Rightarrow> nat \<Rightarrow> nat \<times> int32" where
  "copy_offset cmd delta i = fold (flagged_byte cmd delta) [(0, 0), (1, 8), (2, 16), (3, 24)] (i, 0)"

definition copy_size :: "nat \<Rightarrow> string \<Rightarrow> nat \<Rightarrow> nat \<times> int" where
  "copy_size cmd delta i =
     (let (j, n) = fold (flagged_byte cmd delta) [(4, 0), (5, 8), (6, 16)] (i, 0)
      in (j, if n = 0 then 65536 else sint n))"

lemma flagged_byte_mono: "fst st \<le> fst (flagged_byte cmd delta f st)"
  by (simp add: flagged_byte_def)

lemma flagged_fold_mono: "fst st \<le> fst (fold (flagged_byte cmd delta) fs st)"
proof (induction fs arbitrary: st)
  case (Cons f fs)
  show ?case using flagged_byte_mono [of st cmd delta f] Cons [of "flagged_byte cmd delta f st"] by simp
qed simp

lemma copy_offset_mono: "i \<le> fst (copy_offset cmd delta i)"
  using flagged_fold_mono [of "(i, 0)" cmd delta "[(0, 0), (1, 8), (2, 16), (3, 24)]"] by (simp only: copy_offset_def fst_conv)

lemma copy_size_mono: "i \<le> fst (copy_size cmd delta i)"
  using flagged_fold_mono [of "(i, 0 :: int32)" cmd delta "[(4, 0), (5, 8), (6, 16)]"]
  by (simp only: copy_size_def Let_def case_prod_beta fst_conv)

text \<open>The instructions; \<open>out\<close> is what was written so far of an array of \<open>n\<close> zeros.\<close>

function apply_ops :: "string \<Rightarrow> string \<Rightarrow> int \<Rightarrow> nat \<Rightarrow> string \<Rightarrow> string res" where
  "apply_ops base delta n i out =
     (if length delta \<le> i then (if int (length out) = n then Inr out else pack_error)
      else
        (let cmd = byte_at delta i in
         if cmd = 0 then pack_error
         else if 128 \<le> cmd then
           (let (j, off) = copy_offset cmd delta (i + 1); (k, len) = copy_size cmd delta j
            in if int (length base) < sint off + len \<or> n < int (length out) + len then pack_error
               else
                 (let chunk = subarray base (sint off) (sint off + len)
                  in apply_ops base delta n k (out @ chunk @ replicate (nat len - length chunk) CHR 0x00)))
         else if length delta < i + 1 + cmd \<or> n < int (length out + cmd) then pack_error
         else apply_ops base delta n (i + 1 + cmd) (out @ take cmd (drop (i + 1) delta))))"
  by pat_completeness auto
termination
proof (relation "measure (\<lambda>(base, delta, n, i, out). length delta - i)", goal_cases)
  case (2 base delta n i out cmd p j off q k len)
  then have "i + 1 \<le> j" "j \<le> k" using copy_offset_mono [of "i + 1" cmd delta] copy_size_mono [of j cmd delta] by (metis fst_conv)+
  then show ?case using 2(1) by simp
qed auto

declare apply_ops.simps [simp del]

definition apply_delta :: "string \<Rightarrow> string \<Rightarrow> string res" where
  "apply_delta base delta =
     bind_res (read_varint delta 0) (\<lambda>(source, i).
       if sint source \<noteq> int (length base) then pack_error
       else bind_res (read_varint delta i) (\<lambda>(target, j).
         if sint target < 0 then internal_error else apply_ops base delta (sint target) j []))"

section \<open>Pack files\<close>

record git_object =
  go_type :: nat
  go_content :: string

record pack_env =
  pe_inflate :: "string \<Rightarrow> (string \<times> nat) option"
  pe_sha1 :: "string \<Rightarrow> string"

definition type_name :: "nat \<Rightarrow> string option" where
  "type_name t = map_of [(1, ''commit''), (2, ''tree''), (3, ''blob''), (4, ''tag'')] t"

definition object_sha :: "pack_env \<Rightarrow> git_object \<Rightarrow> string res" where
  "object_sha E x =
     (case type_name (go_type x) of
        None \<Rightarrow> pack_error
      | Some n \<Rightarrow> Inr (bytes_to_hex (pe_sha1 E (n @ '' '' @ show_nat (length (go_content x)) @ [CHR 0x00] @ go_content x))))"

text \<open>The size of an object: four bits, then seven for each byte whose predecessor has the high bit.\<close>

function size_go :: "string \<Rightarrow> nat \<Rightarrow> nat \<Rightarrow> nat \<Rightarrow> int32 \<Rightarrow> int32 \<times> nat" where
  "size_go pack i c shift v =
     (if c < 128 then (v, i)
      else (let c' = byte_at pack i in size_go pack (i + 1) c' (shift + 7) (v OR shift_left (low7 c') shift)))"
  by pat_completeness auto
termination
  by (relation "measure (\<lambda>(pack, i, c, shift, v). (length pack - i) + (if c < 128 then 0 else 1))") (auto simp: byte_at_def)

declare size_go.simps [simp del]

function base_offset_go :: "string \<Rightarrow> nat \<Rightarrow> nat \<Rightarrow> int32 \<Rightarrow> int32 \<times> nat" where
  "base_offset_go pack i c v =
     (if c < 128 then (v, i)
      else (let c' = byte_at pack i in base_offset_go pack (i + 1) c' (shift_left (v + 1) 7 OR low7 c')))"
  by pat_completeness auto
termination
  by (relation "measure (\<lambda>(pack, i, c, v). (length pack - i) + (if c < 128 then 0 else 1))") (auto simp: byte_at_def)

declare base_offset_go.simps [simp del]

definition base_offset :: "string \<Rightarrow> nat \<Rightarrow> int32 \<times> nat" where
  "base_offset pack i = (let c = byte_at pack i in base_offset_go pack (i + 1) c (low7 c))"

text \<open>What was unpacked so far: the objects with their places, and by their names.\<close>

record unpacked =
  up_order :: "(nat \<times> git_object) list"
  up_shas :: "(string \<times> git_object) list"

text \<open>The base of a delta and where the compressed data starts; \<open>None\<close> for a whole object.\<close>

definition delta_base :: "string \<Rightarrow> nat \<Rightarrow> nat \<Rightarrow> nat \<Rightarrow> unpacked \<Rightarrow> (git_object option \<times> nat) res" where
  "delta_base pack start t i u =
     (if t = 6 then
        (let (off, j) = base_offset pack i in
         case select_one (\<lambda>p. int (fst p) = int start - sint off) (up_order u) of
           None \<Rightarrow> pack_error
         | Some p \<Rightarrow> Inr (Some (snd p), j))
      else if t = 7 then
        (case map_of (up_shas u) (bytes_to_hex (take 20 (drop i pack))) of
           None \<Rightarrow> pack_error
         | Some x \<Rightarrow> Inr (Some x, i + 20))
      else Inr (None, i))"

definition store_object :: "pack_env \<Rightarrow> nat \<Rightarrow> nat \<Rightarrow> unpacked \<Rightarrow> git_object \<Rightarrow> (nat \<times> unpacked) res" where
  "store_object E start next u x =
     bind_res (object_sha E x)
       (\<lambda>sha. Inr (next, \<lparr>up_order = up_order u @ [(start, x)], up_shas = map_set sha x (up_shas u)\<rparr>))"

definition unpack_object :: "pack_env \<Rightarrow> string \<Rightarrow> nat \<times> unpacked \<Rightarrow> (nat \<times> unpacked) res" where
  "unpack_object E pack st =
     (let start = fst st; u = snd st;
          c = byte_at pack start; t = c div 16 mod 8;
          (len, i) = size_go pack (start + 1) c 4 (of_nat (c mod 16))
      in bind_res (delta_base pack start t i u) (\<lambda>(base, j).
           case pe_inflate E (drop j pack) of
             None \<Rightarrow> pack_error
           | Some (data, n) \<Rightarrow>
             bind_res
               (case base of
                  Some b \<Rightarrow> bind_res (apply_delta (go_content b) data) (\<lambda>d. Inr \<lparr>go_type = go_type b, go_content = d\<rparr>)
                | None \<Rightarrow> if int (length data) \<noteq> sint len then pack_error else Inr \<lparr>go_type = t, go_content = data\<rparr>)
               (store_object E start (j + n) u)))"

primrec unpack_objects :: "pack_env \<Rightarrow> string \<Rightarrow> nat \<Rightarrow> nat \<times> unpacked \<Rightarrow> unpacked res" where
  "unpack_objects E pack 0 st = Inr (snd st)"
| "unpack_objects E pack (Suc n) st = bind_res (unpack_object E pack st) (unpack_objects E pack n)"

definition uint32_at :: "string \<Rightarrow> nat \<Rightarrow> nat" where
  "uint32_at bs i = ((byte_at bs i * 256 + byte_at bs (i + 1)) * 256 + byte_at bs (i + 2)) * 256 + byte_at bs (i + 3)"

definition unpack_git_pack :: "pack_env \<Rightarrow> string \<Rightarrow> (string \<times> git_object) list res" where
  "unpack_git_pack E pack =
     (if length pack < 12 \<or> utf8_decode (take 4 pack) \<noteq> ''PACK'' then pack_error
      else if uint32_at pack 4 \<notin> {2, 3} then pack_error
      else bind_res (unpack_objects E pack (uint32_at pack 8) (12, \<lparr>up_order = [], up_shas = []\<rparr>)) (\<lambda>u. Inr (up_shas u)))"

section \<open>Reading what git writes\<close>

lemma bit_below: assumes "a < 2 ^ s" "s \<le> n" shows "\<not> bit (a :: nat) n"
proof -
  have "a < 2 ^ n" using assms by (meson less_le_trans one_le_numeral power_increasing)
  then show ?thesis by (simp add: bit_iff_odd)
qed

lemma or_shift_nat: assumes "a < 2 ^ s" shows "a OR push_bit s b = a + push_bit s (b :: nat)"
proof -
  have "\<not> bit a n \<or> \<not> bit (push_bit s b) n" for n
    using bit_below [OF assms, of n] by (auto simp: bit_push_bit_iff)
  then show ?thesis using disjunctive_add [of a "push_bit s b"] by simp
qed

lemma or_shift: assumes "a < 2 ^ s" "s < 32" shows "(of_nat a :: int32) OR shift_left (of_nat b) s = of_nat (a + b * 2 ^ s)"
proof -
  have "shift_left (of_nat b) s = of_nat (push_bit s b)" using assms(2) by (simp add: shift_left_def push_bit_of_nat)
  then have "(of_nat a :: int32) OR shift_left (of_nat b) s = of_nat (a OR push_bit s b)" by (simp only: of_nat_or_eq)
  also have "\<dots> = of_nat (a + b * 2 ^ s)" using or_shift_nat [OF assms(1), of b] by (simp only: push_bit_eq_mult)
  finally show ?thesis .
qed

lemma sint_small: "n < 2 ^ 31 \<Longrightarrow> sint (of_nat n :: int32) = int n"
  by (simp add: sint_uint unsigned_of_nat take_bit_nat_eq_self signed_take_bit_int_eq_self)

lemma low7_mod: "low7 b = of_nat (b mod 128)"
proof -
  have "(127 :: int32) = mask 7" by (simp add: mask_eq_exp_minus_1)
  then have "low7 b = take_bit 7 (of_nat b)" by (simp only: low7_def take_bit_eq_mask)
  then show ?thesis by (simp add: take_bit_of_nat) (simp add: take_bit_eq_mod)
qed

fun encode_varint :: "nat \<Rightarrow> string" where
  "encode_varint n = (if n < 128 then [char_of n] else char_of (128 + n mod 128) # encode_varint (n div 128))"

declare encode_varint.simps [simp del]

lemma byte_at_middle: "byte_at (pre @ c # post) (length pre) = unit_of c"
  by (simp add: byte_at_def)

lemma read_varint_go_encode:
  "v < 2 ^ sh \<Longrightarrow> sh < 32 \<Longrightarrow> n * 2 ^ sh < 2 ^ 32 \<Longrightarrow>
   read_varint_go (pre @ encode_varint n @ post) (length pre) sh (of_nat v) =
     Inr (of_nat (v + n * 2 ^ sh), length pre + length (encode_varint n))"
proof (induction n arbitrary: pre v sh rule: encode_varint.induct)
  case (1 n)
  show ?case
  proof (cases "n < 128")
    case True
    have "byte_at (pre @ encode_varint n @ post) (length pre) = n" "length (encode_varint n) = 1"
      using True by (simp_all add: encode_varint.simps byte_at_middle unit_of_char_of)
    then show ?thesis
      using True or_shift [OF "1.prems"(1,2), of n] by (subst read_varint_go.simps) (simp add: low7_mod)
  next
    case False
    let ?rest = "encode_varint (n div 128)"
    let ?c = "128 + n mod 128"
    have enc: "encode_varint n = char_of ?c # ?rest" using False by (simp add: encode_varint.simps [of n])
    have "128 * 2 ^ sh \<le> n * 2 ^ sh" using False by (intro mult_right_mono) simp_all
    then have "(128::nat) * 2 ^ sh < 2 ^ 32" using "1.prems"(3) by (rule le_less_trans)
    moreover have "(2::nat) ^ (sh + 7) = 128 * 2 ^ sh" by (simp add: power_add)
    ultimately have "(2::nat) ^ (sh + 7) < 2 ^ 32" by (simp only:)
    then have sh: "sh + 7 < 32" by (rule power_less_imp_less_exp [rotated]) simp
    have v: "v + (n mod 128) * 2 ^ sh < 2 ^ (sh + 7)"
    proof -
      have "(n mod 128) * 2 ^ sh \<le> 127 * 2 ^ sh" by (intro mult_right_mono) simp_all
      moreover have "(2::nat) ^ (sh + 7) = 2 ^ sh + 127 * 2 ^ sh" by (simp add: power_add)
      ultimately show ?thesis using "1.prems"(1) by linarith
    qed
    have n: "n div 128 * 2 ^ (sh + 7) \<le> n * 2 ^ sh"
    proof -
      have "n div 128 * 128 * 2 ^ sh \<le> n * 2 ^ sh" by (intro mult_right_mono) simp_all
      then show ?thesis by (simp only: power_add) (simp add: mult_ac)
    qed
    have step: "read_varint_go (pre @ encode_varint n @ post) (length pre) sh (of_nat v) =
        read_varint_go ((pre @ [char_of ?c]) @ ?rest @ post) (length (pre @ [char_of ?c])) (sh + 7) (of_nat (v + (n mod 128) * 2 ^ sh))"
      using or_shift [OF "1.prems"(1,2), of "n mod 128"]
      by (subst read_varint_go.simps) (simp add: enc byte_at_middle unit_of_char_of low7_mod)
    have "(n div 128) * 2 ^ (sh + 7) < 2 ^ 32" using n "1.prems"(3) by linarith
    from "1.IH" [OF False v sh this, of "pre @ [char_of ?c]"]
    have "read_varint_go (pre @ encode_varint n @ post) (length pre) sh (of_nat v) =
        Inr (of_nat (v + (n mod 128) * 2 ^ sh + n div 128 * 2 ^ (sh + 7)), length pre + length (encode_varint n))"
      unfolding step by (simp add: enc)
    moreover have "v + (n mod 128) * 2 ^ sh + n div 128 * 2 ^ (sh + 7) = v + n * 2 ^ sh"
    proof -
      have a: "n div 128 * 2 ^ (sh + 7) = n div 128 * 128 * 2 ^ sh" by (simp add: power_add)
      have "n div 128 * 128 * 2 ^ sh + n mod 128 * 2 ^ sh = n * 2 ^ sh"
        by (simp only: distrib_right [symmetric] div_mult_mod_eq)
      then show ?thesis unfolding a by linarith
    qed
    ultimately show ?thesis by simp
  qed
qed

lemma read_varint_encode:
  "n < 2 ^ 31 \<Longrightarrow> read_varint (pre @ encode_varint n @ post) (length pre) = Inr (of_nat n, length pre + length (encode_varint n))"
  using read_varint_go_encode [of 0 0 n pre post] by (simp add: read_varint_def)
text \<open>The fields of an instruction: the flag of each byte, its shift and the byte; a zero byte is left out.\<close>

definition field_bytes :: "(nat \<times> nat \<times> nat) list \<Rightarrow> string" where
  "field_bytes fs = concat (map (\<lambda>(k, s, b). if b = 0 then [] else [char_of b]) fs)"

definition field_flags :: "(nat \<times> nat \<times> nat) list \<Rightarrow> nat" where
  "field_flags fs = sum_list (map (\<lambda>(k, s, b). if b = 0 then 0 else 2 ^ k) fs)"

definition field_value :: "(nat \<times> nat \<times> nat) list \<Rightarrow> int32 \<Rightarrow> int32" where
  "field_value fs = fold (\<lambda>(k, s, b) w. w OR shift_left (of_nat b) s) fs"

lemma shift_zero [simp]: "shift_left 0 s = 0"
  by (simp add: shift_left_def)

lemma fields_read:
  "\<forall>(k, s, b)\<in>set fs. b < 256 \<and> (cmd div 2 ^ k mod 2 = 1 \<longleftrightarrow> b \<noteq> 0) \<Longrightarrow>
   fold (flagged_byte cmd (pre @ field_bytes fs @ post)) (map (\<lambda>(k, s, b). (k, s)) fs) (length pre, v) =
     (length pre + length (field_bytes fs), field_value fs v)"
proof (induction fs arbitrary: pre v)
  case (Cons f fs)
  obtain k s b where f: "f = (k, s, b)" by (cases f)
  have b: "b < 256" "cmd div 2 ^ k mod 2 = 1 \<longleftrightarrow> b \<noteq> 0" using Cons.prems f by auto
  have rest: "\<forall>(k, s, b)\<in>set fs. b < 256 \<and> (cmd div 2 ^ k mod 2 = 1 \<longleftrightarrow> b \<noteq> 0)" using Cons.prems by auto
  show ?case
  proof (cases "b = 0")
    case True
    then show ?thesis using Cons.IH [OF rest, of pre v] b(2) by (simp add: f field_bytes_def field_value_def flagged_byte_def)
  next
    case False
    then have "field_bytes (f # fs) = char_of b # field_bytes fs" by (simp add: f field_bytes_def)
    then show ?thesis
      using Cons.IH [OF rest, of "pre @ [char_of b]" "v OR shift_left (of_nat b) s"] b False
      by (simp add: f field_value_def flagged_byte_def byte_at_middle unit_of_char_of)
  qed
qed (simp add: field_bytes_def field_value_def)

datatype delta_instr = CopyFrom nat nat | InsertBytes string

definition offset_fields :: "nat \<Rightarrow> (nat \<times> nat \<times> nat) list" where
  "offset_fields v = [(0, 0, v mod 256), (1, 8, v div 256 mod 256), (2, 16, v div 256 div 256 mod 256), (3, 24, v div 256 div 256 div 256 mod 256)]"

definition size_fields :: "nat \<Rightarrow> (nat \<times> nat \<times> nat) list" where
  "size_fields v = [(4, 0, v mod 256), (5, 8, v div 256 mod 256), (6, 16, v div 256 div 256 mod 256)]"

text \<open>The size 65536 is written as no size at all.\<close>

definition written_size :: "nat \<Rightarrow> nat" where
  "written_size n = (if n = 65536 then 0 else n)"

primrec encode_instr :: "delta_instr \<Rightarrow> string" where
  "encode_instr (CopyFrom off n) =
     char_of (128 + field_flags (offset_fields off @ size_fields (written_size n))) #
       field_bytes (offset_fields off) @ field_bytes (size_fields (written_size n))"
| "encode_instr (InsertBytes bs) = char_of (length bs) # bs"

primrec run_instr :: "string \<Rightarrow> delta_instr \<Rightarrow> string" where
  "run_instr base (CopyFrom off n) = take n (drop off base)"
| "run_instr base (InsertBytes bs) = bs"

primrec valid_instr :: "string \<Rightarrow> delta_instr \<Rightarrow> bool" where
  "valid_instr base (CopyFrom off n) = (0 < n \<and> n < 2 ^ 24 \<and> off + n \<le> length base)"
| "valid_instr base (InsertBytes bs) = (bs \<noteq> [] \<and> length bs < 128)"

definition run_delta :: "string \<Rightarrow> delta_instr list \<Rightarrow> string" where
  "run_delta base is = concat (map (run_instr base) is)"

definition encode_delta :: "string \<Rightarrow> delta_instr list \<Rightarrow> string" where
  "encode_delta base is =
     encode_varint (length base) @ encode_varint (length (run_delta base is)) @ concat (map encode_instr is)"

definition flag :: "nat \<Rightarrow> nat \<Rightarrow> nat" where
  "flag b k = (if b = 0 then 0 else 2 ^ k)"

lemma seven_flags:
  "(128 + (flag a 0 + flag b 1 + flag c 2 + flag d 3 + flag e 4 + flag f 5 + flag g 6)) div 2 ^ 0 mod 2 = 1 \<longleftrightarrow> a \<noteq> 0"
  "(128 + (flag a 0 + flag b 1 + flag c 2 + flag d 3 + flag e 4 + flag f 5 + flag g 6)) div 2 ^ 1 mod 2 = 1 \<longleftrightarrow> b \<noteq> 0"
  "(128 + (flag a 0 + flag b 1 + flag c 2 + flag d 3 + flag e 4 + flag f 5 + flag g 6)) div 2 ^ 2 mod 2 = 1 \<longleftrightarrow> c \<noteq> 0"
  "(128 + (flag a 0 + flag b 1 + flag c 2 + flag d 3 + flag e 4 + flag f 5 + flag g 6)) div 2 ^ 3 mod 2 = 1 \<longleftrightarrow> d \<noteq> 0"
  "(128 + (flag a 0 + flag b 1 + flag c 2 + flag d 3 + flag e 4 + flag f 5 + flag g 6)) div 2 ^ 4 mod 2 = 1 \<longleftrightarrow> e \<noteq> 0"
  "(128 + (flag a 0 + flag b 1 + flag c 2 + flag d 3 + flag e 4 + flag f 5 + flag g 6)) div 2 ^ 5 mod 2 = 1 \<longleftrightarrow> f \<noteq> 0"
  "(128 + (flag a 0 + flag b 1 + flag c 2 + flag d 3 + flag e 4 + flag f 5 + flag g 6)) div 2 ^ 6 mod 2 = 1 \<longleftrightarrow> g \<noteq> 0"
  "flag a 0 + flag b 1 + flag c 2 + flag d 3 + flag e 4 + flag f 5 + flag g 6 < 128"
  by (cases "a = 0"; cases "b = 0"; cases "c = 0"; cases "d = 0"; cases "e = 0"; cases "f = 0"; cases "g = 0"; simp add: flag_def)+

lemma four_bytes:
  fixes v :: nat
  assumes "v < 2 ^ 32"
  shows "v mod 256 + v div 256 mod 256 * 2 ^ 8 + v div 256 div 256 mod 256 * 2 ^ 16 + v div 256 div 256 div 256 mod 256 * 2 ^ 24 = v"
proof -
  define x y z where "x = v div 256" and "y = x div 256" and "z = y div 256"
  have "v = x * 256 + v mod 256" "x = y * 256 + x mod 256" "y = z * 256 + y mod 256"
    unfolding x_def y_def z_def by simp_all
  moreover have "z < 256" using assms unfolding x_def y_def z_def by (simp add: div_mult2_eq [symmetric] less_mult_imp_div_less)
  ultimately have "v mod 256 + x mod 256 * 2 ^ 8 + y mod 256 * 2 ^ 16 + z * 2 ^ 24 = v" "z mod 256 = z" by simp_all
  then show ?thesis unfolding x_def y_def z_def by simp
qed

lemma field_value_bytes:
  assumes "a < 256" "b < 256" "c < 256"
  shows "field_value [(k, 0, a), (l, 8, b), (m, 16, c)] 0 = of_nat (a + b * 2 ^ 8 + c * 2 ^ 16)"
    "field_value [(k, 0, a), (l, 8, b), (m, 16, c), (n, 24, d)] 0 = of_nat (a + b * 2 ^ 8 + c * 2 ^ 16 + d * 2 ^ 24)"
proof -
  have 1: "(0 :: int32) OR shift_left (of_nat a) 0 = of_nat a" using or_shift [of 0 0 a] by simp
  have 2: "(of_nat a :: int32) OR shift_left (of_nat b) 8 = of_nat (a + b * 2 ^ 8)" using assms by (intro or_shift) simp_all
  have 3: "(of_nat (a + b * 2 ^ 8) :: int32) OR shift_left (of_nat c) 16 = of_nat (a + b * 2 ^ 8 + c * 2 ^ 16)"
    using assms by (intro or_shift) simp_all
  have 4: "(of_nat (a + b * 2 ^ 8 + c * 2 ^ 16) :: int32) OR shift_left (of_nat d) 24 = of_nat (a + b * 2 ^ 8 + c * 2 ^ 16 + d * 2 ^ 24)"
    using assms by (intro or_shift) simp_all
  show "field_value [(k, 0, a), (l, 8, b), (m, 16, c)] 0 = of_nat (a + b * 2 ^ 8 + c * 2 ^ 16)"
    unfolding field_value_def fold.simps comp_apply id_apply prod.case 1 2 3 ..
  show "field_value [(k, 0, a), (l, 8, b), (m, 16, c), (n, 24, d)] 0 = of_nat (a + b * 2 ^ 8 + c * 2 ^ 16 + d * 2 ^ 24)"
    unfolding field_value_def fold.simps comp_apply id_apply prod.case 1 2 3 4 ..
qed

lemma offset_value: "v < 2 ^ 32 \<Longrightarrow> field_value (offset_fields v) 0 = of_nat v"
  unfolding offset_fields_def using four_bytes [of v] by (subst field_value_bytes(2)) simp_all

lemma size_value:
  assumes "v < 2 ^ 24"
  shows "field_value (size_fields v) 0 = of_nat v"
proof -
  have "v div 256 div 256 div 256 = 0" using assms by (simp add: div_mult2_eq [symmetric])
  then have "v mod 256 + v div 256 mod 256 * 2 ^ 8 + v div 256 div 256 mod 256 * 2 ^ 16 = v"
    using four_bytes [of v] assms by simp
  moreover have "field_value (size_fields v) 0 = of_nat (v mod 256 + v div 256 mod 256 * 2 ^ 8 + v div 256 div 256 mod 256 * 2 ^ 16)"
    unfolding size_fields_def by (rule field_value_bytes(1)) simp_all
  ultimately show ?thesis by (simp only:)
qed

lemma instr_flags:
  "field_flags (offset_fields v @ size_fields w) =
     flag (v mod 256) 0 + flag (v div 256 mod 256) 1 + flag (v div 256 div 256 mod 256) 2 + flag (v div 256 div 256 div 256 mod 256) 3 +
     flag (w mod 256) 4 + flag (w div 256 mod 256) 5 + flag (w div 256 div 256 mod 256) 6"
  by (simp add: field_flags_def offset_fields_def size_fields_def flag_def)

lemma flags_match:
  "\<forall>(k, s, b)\<in>set (offset_fields v). b < 256 \<and> ((128 + field_flags (offset_fields v @ size_fields w)) div 2 ^ k mod 2 = 1 \<longleftrightarrow> b \<noteq> 0)"
  "\<forall>(k, s, b)\<in>set (size_fields w). b < 256 \<and> ((128 + field_flags (offset_fields v @ size_fields w)) div 2 ^ k mod 2 = 1 \<longleftrightarrow> b \<noteq> 0)"
  unfolding instr_flags
  unfolding offset_fields_def size_fields_def by (simp_all only: list.set ball_simps prod.case seven_flags) auto

lemma copy_read:
  assumes "cmd = 128 + field_flags (offset_fields off @ size_fields w)" "off < 2 ^ 32" "w < 2 ^ 24"
    "delta = pre @ field_bytes (offset_fields off) @ field_bytes (size_fields w) @ post"
  shows "copy_offset cmd delta (length pre) = (length (pre @ field_bytes (offset_fields off)), of_nat off)"
    "copy_size cmd delta (length (pre @ field_bytes (offset_fields off))) =
       (length (pre @ field_bytes (offset_fields off) @ field_bytes (size_fields w)), if w = 0 then 65536 else int w)"
proof -
  have "map (\<lambda>(k, s, b). (k, s)) (offset_fields off) = [(0, 0), (1, 8), (2, 16), (3, 24)]"
    "map (\<lambda>(k, s, b). (k, s)) (size_fields w) = [(4, 0), (5, 8), (6, 16)]"
    by (simp_all add: offset_fields_def size_fields_def)
  note maps = this
  have "copy_offset cmd delta (length pre) = (length pre + length (field_bytes (offset_fields off)), field_value (offset_fields off) 0)"
    unfolding copy_offset_def maps(1) [symmetric] assms(4) using flags_match(1) [of off w] assms(1) by (intro fields_read) simp
  then show "copy_offset cmd delta (length pre) = (length (pre @ field_bytes (offset_fields off)), of_nat off)"
    using offset_value [OF assms(2)] by simp
  let ?p = "pre @ field_bytes (offset_fields off)"
  have "fold (flagged_byte cmd (?p @ field_bytes (size_fields w) @ post)) [(4, 0), (5, 8), (6, 16)] (length ?p, 0) =
      (length ?p + length (field_bytes (size_fields w)), field_value (size_fields w) 0)"
    unfolding maps(2) [symmetric] using flags_match(2) [of w off] assms(1) by (intro fields_read) simp
  then have *: "fold (flagged_byte cmd delta) [(4, 0), (5, 8), (6, 16)] (length ?p, 0) =
      (length ?p + length (field_bytes (size_fields w)), of_nat w)"
    using size_value [OF assms(3)] by (simp only: assms(4) append_assoc)
  have small: "sint (of_nat w :: int32) = int w" using assms(3) by (intro sint_small) simp
  moreover have "(of_nat w :: int32) = 0 \<longleftrightarrow> w = 0"
  proof
    assume "(of_nat w :: int32) = 0"
    then show "w = 0" using small by simp
  qed simp
  ultimately show "copy_size cmd delta (length ?p) =
       (length (pre @ field_bytes (offset_fields off) @ field_bytes (size_fields w)), if w = 0 then 65536 else int w)"
    by (simp only: copy_size_def * Let_def prod.case) simp
qed

lemma subarray_inside: "i + n \<le> length bs \<Longrightarrow> subarray bs (int i) (int i + int n) = take n (drop i bs)"
  by (simp add: subarray_def clamp_index_def Let_def nat_add_distrib min_def)

lemma apply_copy:
  assumes "i < length delta" "byte_at delta i = cmd" "128 \<le> cmd" "copy_offset cmd delta (i + 1) = (j, off)" "copy_size cmd delta j = (k, len)"
    "sint off + len \<le> int (length base)" "int (length out) + len \<le> n"
  shows "apply_ops base delta n i out =
    apply_ops base delta n k (out @ subarray base (sint off) (sint off + len) @
      replicate (nat len - length (subarray base (sint off) (sint off + len))) CHR 0x00)"
  using assms by (subst apply_ops.simps) (simp add: Let_def)

lemma apply_encoded:
  assumes "length base < 2 ^ 31"
  shows "\<forall>x\<in>set is. valid_instr base x \<Longrightarrow> n = int (length (out @ run_delta base is)) \<Longrightarrow>
    apply_ops base (pre @ concat (map encode_instr is)) n (length pre) out = Inr (out @ run_delta base is)"
proof (induction "is" arbitrary: pre out)
  case Nil
  then show ?case by (simp add: apply_ops.simps run_delta_def)
next
  case (Cons x xs)
  let ?rest = "concat (map encode_instr xs)"
  have run: "run_delta base (x # xs) = run_instr base x @ run_delta base xs" by (simp add: run_delta_def)
  show ?case
  proof (cases x)
    case (InsertBytes bs)
    then have bs: "bs \<noteq> []" "length bs < 128" using Cons.prems(1) by auto
    have "apply_ops base ((pre @ encode_instr x) @ ?rest) n (length (pre @ encode_instr x)) (out @ bs) = Inr ((out @ bs) @ run_delta base xs)"
      using Cons.prems InsertBytes run by (intro Cons.IH) simp_all
    moreover have "apply_ops base (pre @ encode_instr x @ ?rest) n (length pre) out =
        apply_ops base (pre @ encode_instr x @ ?rest) n (length pre + 1 + length bs) (out @ bs)"
      using bs Cons.prems(2) InsertBytes run by (subst apply_ops.simps) (simp add: Let_def byte_at_middle unit_of_char_of)
    ultimately show ?thesis using InsertBytes run by simp
  next
    case (CopyFrom off len)
    then have v: "0 < len" "len < 2 ^ 24" "off + len \<le> length base" using Cons.prems(1) by auto
    define w where "w = written_size len"
    define cmd where "cmd = 128 + field_flags (offset_fields off @ size_fields w)"
    let ?a = "field_bytes (offset_fields off)" and ?b = "field_bytes (size_fields w)"
    have w: "w < 2 ^ 24" "(if w = 0 then 65536 else int w) = int len" using v by (auto simp: w_def written_size_def)
    have off: "off < 2 ^ 31" using v assms by linarith
    have cmd: "128 \<le> cmd" "cmd < 256" using seven_flags(8) unfolding cmd_def instr_flags by (simp_all add: add.assoc)
    have enc: "encode_instr x = char_of cmd # ?a @ ?b" by (simp add: CopyFrom cmd_def w_def)
    have read: "copy_offset cmd (pre @ encode_instr x @ ?rest) (length pre + 1) = (length pre + 1 + length ?a, of_nat off)"
      "copy_size cmd (pre @ encode_instr x @ ?rest) (length pre + 1 + length ?a) = (length pre + 1 + length ?a + length ?b, int len)"
      using copy_read [OF cmd_def _ w(1), of "pre @ encode_instr x @ ?rest" "pre @ [char_of cmd]" ?rest] off w(2) enc by simp_all
    have chunk: "subarray base (int off) (int off + int len) = take len (drop off base)" using v by (intro subarray_inside) simp
    have "apply_ops base ((pre @ encode_instr x) @ ?rest) n (length (pre @ encode_instr x)) (out @ take len (drop off base)) =
        Inr ((out @ take len (drop off base)) @ run_delta base xs)"
      using Cons.prems CopyFrom run by (intro Cons.IH) simp_all
    moreover have "apply_ops base (pre @ encode_instr x @ ?rest) n (length pre) out =
        apply_ops base (pre @ encode_instr x @ ?rest) n (length pre + 1 + length ?a + length ?b) (out @ take len (drop off base))"
    proof -
      have "byte_at (pre @ encode_instr x @ ?rest) (length pre) = cmd" "length pre < length (pre @ encode_instr x @ ?rest)"
        using cmd by (simp_all add: enc byte_at_middle unit_of_char_of)
      moreover have "int off + int len \<le> int (length base)" "int (length out) + int len \<le> n" "length (take len (drop off base)) = len"
        using v Cons.prems(2) run CopyFrom by simp_all
      ultimately show ?thesis
        using apply_copy [OF _ _ cmd(1) read] sint_small [OF off] chunk by simp
    qed
    moreover have "length (pre @ encode_instr x) = length pre + 1 + length ?a + length ?b" by (simp add: enc)
    moreover have "run_delta base (x # xs) = take len (drop off base) @ run_delta base xs" using run by (simp add: CopyFrom)
    ultimately show ?thesis by (simp only: list.map concat.simps append_assoc)
  qed
qed


text \<open>A delta that git writes is applied to what it describes: for any sequence of copies from the base and
  insertions, encoded as git does (sizes of variable length, zero bytes of an offset or size left out, 64 KiB as no size at all),
  the code rebuilds exactly the text the instructions stand for.\<close>

theorem git_delta_rebuilds:
  assumes "length base < 2 ^ 31" "length (run_delta base is) < 2 ^ 31" "\<forall>x\<in>set is. valid_instr base x"
  shows "apply_delta base (encode_delta base is) = Inr (run_delta base is)"
proof -
  let ?n = "length (run_delta base is)" and ?ops = "concat (map encode_instr is)"
  have "read_varint (encode_delta base is) 0 = Inr (of_nat (length base), length (encode_varint (length base)))"
    using read_varint_encode [OF assms(1), of "[]"] by (simp add: encode_delta_def)
  moreover have "read_varint (encode_delta base is) (length (encode_varint (length base))) =
      Inr (of_nat ?n, length (encode_varint (length base)) + length (encode_varint ?n))"
    using read_varint_encode [OF assms(2), of "encode_varint (length base)" ?ops] by (simp add: encode_delta_def)
  moreover have "apply_ops base (encode_delta base is) (int ?n) (length (encode_varint (length base)) + length (encode_varint ?n)) [] =
      Inr (run_delta base is)"
    using apply_encoded [OF assms(1,3), of "int ?n" "[]" "encode_varint (length base) @ encode_varint ?n"] by (simp add: encode_delta_def)
  ultimately show ?thesis
    by (simp add: apply_delta_def bind_res_def sint_small [OF assms(1)] sint_small [OF assms(2)])
qed

theorem git_delta_rebuilds_witness:
  "apply_delta ''hello world'' (encode_delta ''hello world'' [CopyFrom 6 5, InsertBytes '', '', CopyFrom 0 5]) = Inr ''world, hello''"
  using git_delta_rebuilds [of "''hello world''" "[CopyFrom 6 5, InsertBytes '', '', CopyFrom 0 5]"] by (simp add: run_delta_def)

text \<open>An offset with the highest bit set becomes negative: it passes the check against the size of the base and is then counted
  from its end, so a delta that git refuses is applied.\<close>

lemma negative_copy_accepted:
  "apply_delta ''abcdefgh'' [CHR 0x08, CHR 0x02, CHR 0x9F, CHR 0xFC, CHR 0xFF, CHR 0xFF, CHR 0xFF, CHR 0x02] = Inr ''ef''"
  by code_simp

section \<open>Objects are named by their content\<close>

definition named :: "pack_env \<Rightarrow> (string \<times> git_object) list \<Rightarrow> bool" where
  "named E m = (\<forall>sha x. map_of m sha = Some x \<longrightarrow> object_sha E x = Inr sha)"

lemma store_object_named:
  "named E (up_shas u) \<Longrightarrow> store_object E start k u x = Inr st' \<Longrightarrow> named E (up_shas (snd st'))"
  by (auto simp: store_object_def bind_res_Inr named_def map_of_map_set split: if_splits)

lemma unpack_object_named:
  assumes "named E (up_shas (snd st))" "unpack_object E pack st = Inr st'"
  shows "named E (up_shas (snd st'))"
proof -
  obtain start k x where "store_object E start k (snd st) x = Inr st'"
    using assms(2) unfolding unpack_object_def Let_def case_prod_beta
    by (elim bind_InrE) (auto split: option.splits elim!: bind_InrE)
  then show ?thesis using store_object_named [OF assms(1)] by blast
qed

lemma unpack_objects_named: "named E (up_shas (snd st)) \<Longrightarrow> unpack_objects E pack n st = Inr u \<Longrightarrow> named E (up_shas u)"
  by (induction n arbitrary: st) (auto simp: bind_res_Inr dest: unpack_object_named)

lemma unpack_git_pack_named: "unpack_git_pack E pack = Inr m \<Longrightarrow> named E m"
proof -
  assume "unpack_git_pack E pack = Inr m"
  then obtain u where u: "unpack_objects E pack (uint32_at pack 8) (12, \<lparr>up_order = [], up_shas = []\<rparr>) = Inr u" "m = up_shas u"
    by (auto simp: unpack_git_pack_def bind_res_Inr split: if_splits)
  moreover have "named E (up_shas (snd (12, \<lparr>up_order = [], up_shas = []\<rparr>)))" by (simp add: named_def)
  ultimately show ?thesis using unpack_objects_named by blast
qed

end
