(* ===== verification/Tar.thy ===== *)
theory Tar
  imports GitPack "HOL-Library.Log_Nat"
begin

text \<open>
  The reader of tar archives, src/src/packages/tar.ts. An archive is a list of bytes; the offset of the
  code is the part not read yet. The reader of extended headers adds the lengths it reads in
  the archive as floating-point numbers, so it is modelled with their rounding.
\<close>

section \<open>Floating-point sums\<close>

text \<open>The exponent \<open>e\<close> of a positive number: it is at least \<open>2\<^sup>e\<close> and below \<open>2\<^sup>e\<^sup>+\<^sup>1\<close>.\<close>

definition exponent_of :: "rat \<Rightarrow> int" where
  "exponent_of r =
     (if 1 \<le> r then int (floorlog 2 (nat \<lfloor>r\<rfloor>)) - 1
      else - int (floorlog 2 (nat (\<lceil>1 / r\<rceil> - 1))))"

definition unit_last_place :: "rat \<Rightarrow> rat" where
  "unit_last_place r = (let e = max (exponent_of r - 52) (- 1074) in if 0 \<le> e then 2 ^ nat e else 1 / 2 ^ nat (- e))"

definition round_half_even :: "rat \<Rightarrow> int" where
  "round_half_even x =
     (let n = \<lfloor>x\<rfloor>; f = x - of_int n in
      if f < 1 / 2 then n else if 1 / 2 < f then n + 1 else if even n then n else n + 1)"

text \<open>The double nearest to a number that is not negative.\<close>

definition to_double :: "rat \<Rightarrow> rat" where
  "to_double r = (if r \<le> 0 then r else (let u = unit_last_place r in of_int (round_half_even (r / u)) * u))"

definition double_add :: "rat \<Rightarrow> rat \<Rightarrow> rat" where
  "double_add x y = to_double (x + y)"

definition double_pred :: "rat \<Rightarrow> rat" where
  "double_pred x = (if 1 \<le> x then to_double (x - 1) else - to_double (1 - x))"

section \<open>Fields of a header\<close>

definition block_size :: nat where "block_size = 512"

text \<open>\<open>cString\<close> of a part of the archive.\<close>

definition c_string :: "string \<Rightarrow> string" where
  "c_string bytes = utf8_decode (takeWhile (\<lambda>c. c \<noteq> CHR 0x00) bytes)"

text \<open>\<open>parseInt(text, 8)\<close>.\<close>

definition parse_octal :: "string \<Rightarrow> int option" where
  "parse_octal text =
     (let t = trim_start text;
          neg = starts_with t ''-'';
          u = (if neg \<or> starts_with t ''+'' then tl t else t);
          ds = takeWhile (digit_below 8) u
      in if ds = [] then None else Some (if neg then - digits_value 8 ds else digits_value 8 ds))"

definition octal :: "string \<Rightarrow> nat res" where
  "octal bytes =
     (let text = trim (c_string bytes) in
      if text = [] then Inr 0
      else
        (case parse_octal text of
           None \<Rightarrow> fails ''invalid_package''
         | Some n \<Rightarrow> if n < 0 then fails ''invalid_package'' else Inr (nat n)))"

definition is_zero_block :: "string \<Rightarrow> bool" where
  "is_zero_block b = list_all (\<lambda>c. c = CHR 0x00) b"

definition field :: "nat \<Rightarrow> nat \<Rightarrow> string \<Rightarrow> string" where
  "field start n header = take n (drop start header)"

section \<open>Extended headers\<close>

text \<open>\<open>bytes[x]\<close> and \<open>bytes.subarray(x, y)\<close> for numbers that need not be whole.\<close>

definition element :: "string \<Rightarrow> rat \<Rightarrow> char option" where
  "element bytes x =
     (if x = of_int \<lfloor>x\<rfloor> \<and> 0 \<le> x \<and> nat \<lfloor>x\<rfloor> < length bytes then Some (bytes ! nat \<lfloor>x\<rfloor>) else None)"

definition relative_index :: "nat \<Rightarrow> rat \<Rightarrow> nat" where
  "relative_index n x = (if x \<le> - 1 then n - nat \<lfloor>- x\<rfloor> else nat \<lfloor>x\<rfloor>)"

definition slice :: "string \<Rightarrow> rat \<Rightarrow> rat \<Rightarrow> string" where
  "slice bytes x y =
     (let i = relative_index (length bytes) x in take (relative_index (length bytes) y - i) (drop i bytes))"

text \<open>The place of the next space; one step more than there are bytes is enough.\<close>

primrec find_space :: "nat \<Rightarrow> string \<Rightarrow> rat \<Rightarrow> rat" where
  "find_space 0 bytes x = x"
| "find_space (Suc n) bytes x =
     (if of_nat (length bytes) \<le> x \<or> element bytes x = Some CHR '' '' then x else find_space n bytes (double_add x 1))"

text \<open>The length of a record, when it is a finite positive number.\<close>

definition record_length :: "string \<Rightarrow> rat option" where
  "record_length text =
     (case js_number text of
        Num r \<Rightarrow> (let d = to_double r in if d \<le> 0 \<or> 2 ^ 1024 \<le> d then None else Some d)
      | _ \<Rightarrow> None)"

definition put_record :: "string \<Rightarrow> (string \<times> string) list \<Rightarrow> (string \<times> string) list" where
  "put_record t rs =
     (case index_of ''='' t of
        Some (Suc n) \<Rightarrow> put_key (take (Suc n) t) (drop (Suc (Suc n)) t) rs
      | _ \<Rightarrow> rs)"

text \<open>\<open>paxRecords\<close> has fuel: \<open>None\<close> is not being done within so many records.\<close>

primrec pax_records :: "nat \<Rightarrow> string \<Rightarrow> rat \<Rightarrow> (string \<times> string) list \<Rightarrow> (string \<times> string) list option" where
  "pax_records 0 bytes offset rs = None"
| "pax_records (Suc n) bytes offset rs =
     (if of_nat (length bytes) \<le> offset then Some rs
      else
        (let space = find_space (length bytes + 1) bytes offset in
         case record_length (utf8_decode (slice bytes offset space)) of
           None \<Rightarrow> Some rs
         | Some len \<Rightarrow>
           pax_records n bytes (double_add offset len)
             (put_record (utf8_decode (slice bytes (double_add space 1) (double_pred (double_add offset len)))) rs)))"

section \<open>The archive\<close>

record tar_limits =
  tl_max_files :: nat
  tl_max_total :: nat

record tar_state =
  ts_entries :: "(string \<times> string) list"
  ts_total :: nat
  ts_long_name :: "string option"
  ts_pax_path :: "string option"

definition tar_start :: tar_state where
  "tar_start = \<lparr>ts_entries = [], ts_total = 0, ts_long_name = None, ts_pax_path = None\<rparr>"

definition entry_path :: "string \<Rightarrow> tar_state \<Rightarrow> string" where
  "entry_path header st =
     (case (ts_long_name st, ts_pax_path st) of
        (Some p, _) \<Rightarrow> p
      | (None, Some p) \<Rightarrow> p
      | (None, None) \<Rightarrow>
        (let name = c_string (field 0 100 header);
             dir = (if starts_with (c_string (field 257 6 header)) ''ustar'' then c_string (field 345 155 header) else [])
         in if dir = [] then name else dir @ ''/'' @ name))"

text \<open>A file header: the entry is added unless the archive has too many or too much.\<close>

definition add_entry :: "tar_limits \<Rightarrow> string \<Rightarrow> string \<Rightarrow> tar_state \<Rightarrow> tar_state res" where
  "add_entry L header data st =
     (let st1 = st\<lparr>ts_long_name := None, ts_pax_path := None\<rparr> in
      if header ! 156 \<notin> {CHR ''0'', CHR 0x00, CHR ''7''} then Inr st1
      else if tl_max_files L \<le> length (ts_entries st) then fails ''invalid_package''
      else if tl_max_total L < ts_total st + length data then fails ''invalid_package''
      else Inr (st1\<lparr>ts_entries := ts_entries st @ [(entry_path header st, data)], ts_total := ts_total st + length data\<rparr>))"

text \<open>One header with its data; \<open>None\<close> when the fuel for an extended header is used up.\<close>

definition tar_step :: "nat \<Rightarrow> tar_limits \<Rightarrow> string \<Rightarrow> string \<Rightarrow> tar_state \<Rightarrow> tar_state res option" where
  "tar_step fuel L header data st =
     (let flag = header ! 156 in
      if flag = CHR ''L'' then Some (Inr (st\<lparr>ts_long_name := Some (c_string data)\<rparr>))
      else if flag = CHR ''x'' then
        map_option (\<lambda>rs. Inr (st\<lparr>ts_pax_path := map_of rs ''path''\<rparr>)) (pax_records fuel data 0 [])
      else if flag = CHR ''g'' then Some (Inr st)
      else Some (add_entry L header data st))"

definition padded :: "nat \<Rightarrow> nat" where
  "padded n = (n + 511) div 512 * 512"

function read_tar_go :: "nat \<Rightarrow> tar_limits \<Rightarrow> string \<Rightarrow> tar_state \<Rightarrow> (string \<times> string) list res option" where
  "read_tar_go fuel L archive st =
     (if length archive < block_size \<or> is_zero_block (take block_size archive) then Some (Inr (ts_entries st))
      else
        (let header = take block_size archive in
         case octal (field 124 12 header) of
           Inl e \<Rightarrow> Some (Inl e)
         | Inr n \<Rightarrow>
           if length archive < block_size + n then Some (fails ''invalid_package'')
           else
             (case tar_step fuel L header (take n (drop block_size archive)) st of
                None \<Rightarrow> None
              | Some (Inl e) \<Rightarrow> Some (Inl e)
              | Some (Inr st') \<Rightarrow> read_tar_go fuel L (drop (block_size + padded n) archive) st')))"
  by pat_completeness auto
termination
  by (relation "measure (\<lambda>(fuel, L, archive, st). length archive)") (auto simp: block_size_def)

declare read_tar_go.simps [simp del]

definition read_tar :: "nat \<Rightarrow> tar_limits \<Rightarrow> string \<Rightarrow> (string \<times> string) list res option" where
  "read_tar fuel L archive = read_tar_go fuel L archive tar_start"

definition is_gzip :: "string \<Rightarrow> bool" where
  "is_gzip bytes = (2 < length bytes \<and> unit_of (bytes ! 0) = 31 \<and> unit_of (bytes ! 1) = 139)"

text \<open>\<open>gunzip\<close>: the chunks of the decompression are read until they are too much.\<close>

fun read_chunks :: "nat \<Rightarrow> nat \<Rightarrow> string list \<Rightarrow> string res" where
  "read_chunks limit sofar [] = Inr []"
| "read_chunks limit sofar (c # cs) =
     (if limit < sofar + length c then fails ''invalid_package''
      else bind_res (read_chunks limit (sofar + length c) cs) (\<lambda>r. Inr (c @ r)))"

lemma read_chunks_limit:
  "sofar \<le> limit \<Longrightarrow> read_chunks limit sofar cs =
     (if sofar + length (concat cs) \<le> limit then Inr (concat cs) else fails ''invalid_package'')"
  by (induction cs arbitrary: sofar) (auto simp: bind_res_def)


section \<open>Whole numbers are added exactly\<close>

lemma to_double_of_nat:
  assumes "n < 2 ^ 53"
  shows "to_double (of_nat n) = of_nat n"
proof (cases "n = 0")
  case False
  define e where "e = floorlog 2 n - 1"
  have pos: "floorlog 2 n \<noteq> 0" using False by (simp add: floorlog_eq_zero_iff)
  then have "e + 1 = floorlog 2 n" by (simp add: e_def)
  then have fl: "2 ^ e \<le> n \<and> n < 2 ^ (e + 1)" using floorlog_bounds [of n 2] False by (simp add: e_def)
  have "e \<le> 52"
  proof (rule ccontr)
    assume "\<not> e \<le> 52"
    then have "(2 :: nat) ^ 53 \<le> 2 ^ e" by (intro power_increasing) auto
    then show False using fl assms by linarith
  qed
  have one: "1 \<le> (of_nat n :: rat)" using False by simp
  have ex: "exponent_of (of_nat n) = int e" using one pos by (simp add: exponent_of_def e_def)
  have u: "unit_last_place (of_nat n) = 1 / 2 ^ (52 - e)"
    using \<open>e \<le> 52\<close> by (auto simp: unit_last_place_def ex Let_def nat_diff_distrib max_def)
  have "of_nat n / unit_last_place (of_nat n) = (of_int (int n * 2 ^ (52 - e)) :: rat)" by (simp add: u)
  then have "round_half_even (of_nat n / unit_last_place (of_nat n)) = int n * 2 ^ (52 - e)"
    by (simp only: round_half_even_def Let_def floor_of_int) simp
  then show ?thesis using False by (simp add: to_double_def Let_def u)
qed (simp add: to_double_def)

lemma double_add_of_nat: "a + b < 2 ^ 53 \<Longrightarrow> double_add (of_nat a) (of_nat b) = of_nat (a + b)"
  using to_double_of_nat [of "a + b"] by (simp add: double_add_def)

lemma double_add_one: "a + 1 < 2 ^ 53 \<Longrightarrow> double_add (of_nat a) 1 = of_nat (Suc a)"
  using double_add_of_nat [of a 1] by simp

lemma double_pred_of_nat: "0 < a \<Longrightarrow> a < 2 ^ 53 \<Longrightarrow> double_pred (of_nat a) = of_nat (a - 1)"
  using to_double_of_nat [of "a - 1"] by (simp add: double_pred_def of_nat_diff)

lemma element_of_nat: "element bytes (of_nat i) = (if i < length bytes then Some (bytes ! i) else None)"
  by (simp add: element_def)

lemma slice_of_nat: "slice bytes (of_nat i) (of_nat j) = take (j - i) (drop i bytes)"
  by (simp add: slice_def relative_index_def Let_def)

lemma find_space_of_nat:
  "length bytes - i < k \<Longrightarrow> length bytes + 1 < 2 ^ 53 \<Longrightarrow> i \<le> length bytes \<Longrightarrow>
     find_space k bytes (of_nat i) = of_nat (i + length (takeWhile (\<lambda>c. c \<noteq> CHR '' '') (drop i bytes)))"
proof (induction k arbitrary: i)
  case (Suc k)
  show ?case
  proof (cases "i < length bytes \<and> bytes ! i \<noteq> CHR '' ''")
    case True
    have "find_space (Suc k) bytes (of_nat i) = find_space k bytes (of_nat (Suc i))"
      using True Suc.prems by (simp add: element_of_nat double_add_one del: of_nat_Suc)
    also have "\<dots> = of_nat (Suc i + length (takeWhile (\<lambda>c. c \<noteq> CHR '' '') (drop (Suc i) bytes)))"
      using Suc.IH [of "Suc i"] Suc.prems True by auto
    also have "drop i bytes = bytes ! i # drop (Suc i) bytes" using True by (simp add: Cons_nth_drop_Suc)
    then have "Suc i + length (takeWhile (\<lambda>c. c \<noteq> CHR '' '') (drop (Suc i) bytes)) = i + length (takeWhile (\<lambda>c. c \<noteq> CHR '' '') (drop i bytes))"
      using True by simp
    finally show ?thesis .
  next
    case False
    then have "takeWhile (\<lambda>c. c \<noteq> CHR '' '') (drop i bytes) = []"
      by (cases "i < length bytes") (auto simp: Cons_nth_drop_Suc [symmetric])
    then show ?thesis using False by (auto simp: element_of_nat)
  qed
qed simp

lemma record_length_show_nat: "0 < n \<Longrightarrow> n < 2 ^ 53 \<Longrightarrow> record_length (show_nat n) = Some (of_nat n)"
proof -
  assume n: "0 < n" "n < 2 ^ 53"
  have "(of_nat n :: rat) < of_nat (2 ^ 53)" using n(2) by (simp only: of_nat_less_iff)
  also have "\<dots> \<le> 2 ^ 1024" by simp
  finally have "(of_nat n :: rat) < 2 ^ 1024" .
  then show ?thesis using n by (simp add: record_length_def js_number_show_nat to_double_of_nat Let_def)
qed


section \<open>The records of an extended header are read back\<close>

lemma utf8_decode_ascii: "list_all (\<lambda>c. unit_of c < 128) s \<Longrightarrow> utf8_decode s = s"
  by (induction s) auto

lemma digits_ascii: "list_all (digit_below 8) s \<Longrightarrow> list_all (\<lambda>c. unit_of c < 128) s" "list_all is_digit s \<Longrightarrow> list_all (\<lambda>c. unit_of c < 128) s"
  by (auto elim!: list.pred_mono_strong simp: digit_below_def hex_value_def is_digit_def in_range_def split: option.splits if_splits)

text \<open>A record holds its own length, a key and a text.\<close>

definition pax_line :: "nat \<times> string \<times> string \<Rightarrow> string" where
  "pax_line r = (case r of (n, k, v) \<Rightarrow> show_nat n @ '' '' @ utf8_encode (k @ ''='' @ v) @ [CHR 0x0A])"

definition pax_line_ok :: "nat \<times> string \<times> string \<Rightarrow> bool" where
  "pax_line_ok r = (case r of (n, k, v) \<Rightarrow> length (pax_line r) = n \<and> k \<noteq> [] \<and> CHR ''='' \<notin> set k \<and> k \<noteq> ''__proto__'')"

lemma index_of_char: "c \<notin> set k \<Longrightarrow> index_of [c] (k @ c # v) = Some (length k)"
  by (induction k) auto

lemma put_record_line: "k \<noteq> [] \<Longrightarrow> CHR ''='' \<notin> set k \<Longrightarrow> put_record (k @ ''='' @ v) rs = put_key k v rs"
  by (cases k) (simp_all add: put_record_def index_of_char [of "CHR ''=''" "_ # _", simplified])

lemma pax_records_step:
  assumes "pax_line_ok (m, k, v)" "length (pre @ pax_line (m, k, v) @ post) + 1 < 2 ^ 53"
  shows "pax_records (Suc n) (pre @ pax_line (m, k, v) @ post) (of_nat (length pre)) rs =
    pax_records n (pre @ pax_line (m, k, v) @ post) (of_nat (length pre + m)) (put_key k v rs)"
proof -
  let ?i = "length pre" and ?ds = "show_nat m" and ?body = "utf8_encode (k @ ''='' @ v)"
  let ?bytes = "pre @ pax_line (m, k, v) @ post"
  have ok: "length ?ds + 2 + length ?body = m" "k \<noteq> []" "CHR ''='' \<notin> set k"
    using assms(1) by (simp_all add: pax_line_ok_def pax_line_def)
  have len: "?i + m + 1 < 2 ^ 53" "?i + m \<le> length ?bytes" using assms ok by (simp_all add: pax_line_def)
  have drop: "drop ?i ?bytes = ?ds @ CHR '' '' # ?body @ CHR 0x0A # post" by (simp add: pax_line_def)
  have ds: "list_all (\<lambda>c. unit_of c < 128) ?ds" using digits_ascii(2) show_nat_digits by blast
  have no_space: "\<forall>c\<in>set ?ds. c \<noteq> CHR '' ''"
    using show_nat_digits [of m] by (auto simp: list_all_iff is_digit_def in_range_def unit_of_def)
  have tw: "takeWhile (\<lambda>c. c \<noteq> CHR '' '') (drop ?i ?bytes) = ?ds"
    unfolding drop by (subst takeWhile_append2) (use no_space in auto)
  have space: "find_space (length ?bytes + 1) ?bytes (of_nat ?i) = of_nat (?i + length ?ds)"
    using find_space_of_nat [of ?bytes ?i "length ?bytes + 1"] assms(2) by (simp only: tw) simp
  have num: "slice ?bytes (of_nat ?i) (of_nat (?i + length ?ds)) = ?ds"
    by (simp only: slice_of_nat drop) simp
  have after: "double_add (of_nat (?i + length ?ds)) 1 = of_nat (?i + length ?ds + 1)"
    using double_add_one [of "?i + length ?ds"] len(1) ok(1) by simp
  have sum: "double_add (of_nat ?i) (of_nat m) = of_nat (?i + m)" using double_add_of_nat len(1) by simp
  have pred: "double_pred (of_nat (?i + m)) = of_nat (?i + m - 1)" using double_pred_of_nat [of "?i + m"] len(1) ok(1) by simp
  have "drop (?i + length ?ds + 1) ?bytes = ?body @ CHR 0x0A # post" by (simp add: pax_line_def)
  then have body: "slice ?bytes (of_nat (?i + length ?ds + 1)) (of_nat (?i + m - 1)) = ?body"
    using ok(1) by (simp only: slice_of_nat) simp
  have below: "\<not> of_nat (length ?bytes) \<le> (of_nat ?i :: rat)" using len(2) ok(1) by simp
  have "record_length (utf8_decode (slice ?bytes (of_nat ?i) (find_space (length ?bytes + 1) ?bytes (of_nat ?i)))) = Some (of_nat m)"
    unfolding space num utf8_decode_ascii [OF ds] using record_length_show_nat len(1) ok(1) by simp
  then show ?thesis
    unfolding pax_records.simps Let_def using below
    by (simp only: if_False option.case space after sum pred body utf8_roundtrip put_record_line [OF ok(2,3)])
qed

definition put_line :: "nat \<times> string \<times> string \<Rightarrow> (string \<times> string) list \<Rightarrow> (string \<times> string) list" where
  "put_line r = put_key (fst (snd r)) (snd (snd r))"

lemma pax_records_read:
  "list_all pax_line_ok rs \<Longrightarrow> length (pre @ concat (map pax_line rs)) + 1 < 2 ^ 53 \<Longrightarrow> length rs < n \<Longrightarrow>
     pax_records n (pre @ concat (map pax_line rs)) (of_nat (length pre)) acc = Some (fold put_line rs acc)"
proof (induction rs arbitrary: pre n acc)
  case Nil
  then show ?case by (cases n) simp_all
next
  case (Cons r rs)
  obtain m k v where r: "r = (m, k, v)" by (cases r) auto
  obtain n' where n: "n = Suc n'" using Cons.prems(3) by (cases n) auto
  have m: "length (pax_line r) = m" using Cons.prems(1) by (simp add: r pax_line_ok_def)
  have "pax_records n (pre @ concat (map pax_line (r # rs))) (of_nat (length pre)) acc =
      pax_records n' (pre @ pax_line r @ concat (map pax_line rs)) (of_nat (length pre + m)) (put_line r acc)"
    using pax_records_step [of m k v pre "concat (map pax_line rs)" n' acc] Cons.prems by (simp add: r n put_line_def)
  also have "\<dots> = Some (fold put_line rs (put_line r acc))"
    using Cons.IH [of "pre @ pax_line r" n' "put_line r acc"] Cons.prems m n by simp
  finally show ?case by simp
qed

lemma map_of_put_lines:
  "list_all pax_line_ok rs \<Longrightarrow> map_of (fold put_line rs acc) p = map_of (rev (map snd rs) @ acc) p"
proof (induction rs arbitrary: acc)
  case (Cons r rs)
  have "fst (snd r) \<noteq> ''__proto__''" using Cons.prems by (cases r) (simp add: pax_line_ok_def)
  then have "map_of (put_line r acc) = map_of (snd r # acc)" by (cases r) (simp add: put_line_def map_of_put_key)
  then show ?case using Cons by (simp add: map_add_def split: option.splits)
qed simp


section \<open>The archives a tar writer makes\<close>

fun show_octal :: "nat \<Rightarrow> string" where
  "show_octal n = (if n < 8 then [char_of (48 + n)] else show_octal (n div 8) @ [char_of (48 + n mod 8)])"

declare show_octal.simps [simp del]

definition zero_pad :: "nat \<Rightarrow> string \<Rightarrow> string" where
  "zero_pad k t = t @ replicate (k - length t) CHR 0x00"

text \<open>A ustar header of a file with this name in this directory, of \<open>n\<close> bytes; the other fields are free.\<close>

definition header_for :: "string \<Rightarrow> string \<Rightarrow> string \<Rightarrow> nat \<Rightarrow> char \<Rightarrow> bool" where
  "header_for h name dir n ty =
     (length h = 512 \<and> h ! 156 = ty \<and> length (show_octal n) \<le> 11 \<and>
      field 0 100 h = zero_pad 100 (utf8_encode name) \<and> CHR 0x00 \<notin> set name \<and>
      field 124 12 h = pad_start 11 CHR ''0'' (show_octal n) @ [CHR 0x00] \<and>
      field 257 6 h = ''ustar'' @ [CHR 0x00] \<and>
      field 345 155 h = zero_pad 155 (utf8_encode dir) \<and> CHR 0x00 \<notin> set dir)"

definition joined :: "string \<Rightarrow> string \<Rightarrow> string" where
  "joined dir name = (if dir = [] then name else dir @ ''/'' @ name)"

definition with_padding :: "string \<Rightarrow> string" where
  "with_padding d = zero_pad (padded (length d)) d"

definition file_flags :: "char set" where
  "file_flags = {CHR ''0'', CHR 0x00, CHR ''7''}"

inductive tar_of :: "string \<Rightarrow> (string \<times> string) list \<Rightarrow> bool" where
  tar_end: "tar_of (replicate 512 CHR 0x00 @ junk) []"
| tar_file: "header_for h name dir (length d) ty \<Longrightarrow> ty \<in> file_flags \<Longrightarrow> tar_of rest fs \<Longrightarrow>
    tar_of (h @ with_padding d @ rest) ((joined dir name, d) # fs)"
| tar_other: "header_for h name dir (length d) ty \<Longrightarrow> ty \<notin> file_flags \<union> {CHR ''L'', CHR ''x''} \<Longrightarrow> tar_of rest fs \<Longrightarrow>
    tar_of (h @ with_padding d @ rest) fs"
| tar_long: "header_for h name dir (length l) CHR ''L'' \<Longrightarrow> l = utf8_encode path @ [CHR 0x00] \<Longrightarrow> CHR 0x00 \<notin> set path \<Longrightarrow>
    header_for h' name' dir' (length d) ty \<Longrightarrow> ty \<in> file_flags \<Longrightarrow> tar_of rest fs \<Longrightarrow>
    tar_of (h @ with_padding l @ h' @ with_padding d @ rest) ((path, d) # fs)"
| tar_pax: "header_for h name dir (length x) CHR ''x'' \<Longrightarrow> x = concat (map pax_line rs) \<Longrightarrow> list_all pax_line_ok rs \<Longrightarrow>
    map_of (rev (map snd rs)) ''path'' = Some path \<Longrightarrow>
    header_for h' name' dir' (length d) ty \<Longrightarrow> ty \<in> file_flags \<Longrightarrow> tar_of rest fs \<Longrightarrow>
    tar_of (h @ with_padding x @ h' @ with_padding d @ rest) ((path, d) # fs)"

lemma takeWhile_zero: "CHR 0x00 \<notin> set t \<Longrightarrow> takeWhile (\<lambda>c. c \<noteq> CHR 0x00) (t @ replicate k CHR 0x00) = t"
  by (induction t) (auto simp: takeWhile_replicate)

lemma zero_not_encoded: "CHR 0x00 \<notin> set t \<Longrightarrow> CHR 0x00 \<notin> set (utf8_encode t)"
proof (induction t)
  case (Cons c t)
  have "unit_of c div 64 < 64" "unit_of c mod 64 < 64" using unit_of_less [of c] by linarith+
  then have "unit_of (char_of (192 + unit_of c div 64)) \<noteq> 0" "unit_of (char_of (128 + unit_of c mod 64)) \<noteq> 0"
    by (simp_all only: unit_of_char_of)
  moreover have "unit_of CHR 0x00 = 0" by code_simp
  ultimately have "char_of (192 + unit_of c div 64) \<noteq> (CHR 0x00 :: char)" "char_of (128 + unit_of c mod 64) \<noteq> (CHR 0x00 :: char)"
    by metis+
  then show ?case using Cons by (auto simp: utf8_encode_def)
qed (simp add: utf8_encode_def)

lemma c_string_encoded: "CHR 0x00 \<notin> set t \<Longrightarrow> c_string (utf8_encode t @ replicate k CHR 0x00) = t"
  by (simp add: c_string_def takeWhile_zero zero_not_encoded)

lemma octal_digit: "(n :: nat) < 8 \<Longrightarrow> digit_below 8 (char_of (48 + n)) \<and> hex_value (char_of (48 + n)) = Some n"
  by (simp add: digit_below_def hex_value_def is_digit_def in_range_def unit_of_char_of)

lemma show_octal_digits: "list_all (digit_below 8) (show_octal n)"
proof (induction n rule: show_octal.induct)
  case (1 n)
  then show ?case by (subst show_octal.simps) (simp add: octal_digit)
qed

lemma digits_value_show_octal: "digits_value 8 (replicate k CHR ''0'' @ show_octal n) = int n"
proof (induction n rule: show_octal.induct)
  case (1 n)
  have zeros: "digits_value 8 (replicate k CHR ''0'') = 0" for k
    by (induction k) (simp_all add: digits_value_def hex_value_def is_digit_def in_range_def unit_of_def)
  show ?case
  proof (cases "n < 8")
    case True
    then show ?thesis using zeros [of k] octal_digit [of n] by (subst show_octal.simps) (simp add: digits_value_def)
  next
    case False
    then have "digits_value 8 (replicate k CHR ''0'' @ show_octal (n div 8)) = int (n div 8)" using 1 by simp
    moreover have "int (n div 8) * 8 + int (n mod 8) = int n" by (metis div_mult_mod_eq of_nat_add of_nat_mult of_nat_numeral)
    ultimately show ?thesis using False octal_digit [of "n mod 8"] by (subst show_octal.simps) (simp add: digits_value_def)
  qed
qed

lemma show_octal_nonempty: "show_octal n \<noteq> []"
  by (subst show_octal.simps) simp

lemma octal_reads: "octal (pad_start 11 CHR ''0'' (show_octal n) @ [CHR 0x00]) = Inr n"
proof -
  define ds where "ds = replicate (11 - length (show_octal n)) CHR ''0'' @ show_octal n"
  have zero: "digit_below 8 CHR ''0''" by code_simp
  have all: "list_all (digit_below 8) ds"
    using show_octal_digits [of n] zero by (auto simp: ds_def list_all_iff)
  have ne: "ds \<noteq> []" using show_octal_nonempty by (simp add: ds_def)
  have cl: "c \<noteq> CHR 0x00 \<and> \<not> is_space c \<and> c \<noteq> CHR ''-'' \<and> c \<noteq> CHR ''+''" if "c \<in> set ds" for c
  proof -
    have "digit_below 8 c" using all that by (auto simp: list_all_iff)
    then show ?thesis by (auto simp: digit_below_def hex_value_def is_digit_def in_range_def is_space_def unit_of_def split: if_splits)
  qed
  have cs: "c_string (ds @ [CHR 0x00]) = ds"
    using takeWhile_zero [of ds 1] cl utf8_decode_ascii [OF digits_ascii(1) [OF all]] by (auto simp: c_string_def)
  have tr: "trim_start ds = ds" "trim ds = ds" using cl ne trim_start_id [of ds] trim_id [of ds] by auto
  have sign: "\<not> starts_with ds ''-''" "\<not> starts_with ds ''+''" using cl [of "hd ds"] ne by (cases ds; simp)+
  have run: "takeWhile (digit_below 8) ds = ds" using all by (simp add: list_all_iff takeWhile_eq_all_conv)
  have "digits_value 8 ds = int n" using digits_value_show_octal by (simp add: ds_def)
  then have "parse_octal ds = Some (int n)" using ne by (simp add: parse_octal_def Let_def tr run sign)
  then show ?thesis using cs tr ne by (simp add: octal_def pad_start_def ds_def [symmetric])
qed

text \<open>The next header of an archive.\<close>

lemma joined_path:
  assumes "header_for h name dir n ty" "ts_long_name st = None" "ts_pax_path st = None"
  shows "entry_path h st = joined dir name"
proof -
  have "c_string (''ustar'' @ [CHR 0x00]) = ''ustar''" by code_simp
  then show ?thesis
    using assms by (simp add: entry_path_def header_for_def zero_pad_def c_string_encoded joined_def Let_def)
qed

lemma padded_ge: "n \<le> padded n"
  by (simp add: padded_def)

lemma read_next:
  assumes "header_for h name dir (length d) ty"
  shows "read_tar_go fuel L (h @ with_padding d @ rest) st =
    (case tar_step fuel L h d st of
       None \<Rightarrow> None | Some (Inl e) \<Rightarrow> Some (Inl e) | Some (Inr st') \<Rightarrow> read_tar_go fuel L rest st')"
proof -
  have h: "length h = 512" "octal (field 124 12 h) = Inr (length d)" using assms octal_reads by (simp_all add: header_for_def)
  have "take 6 (drop 257 h) = ''ustar'' @ [CHR 0x00]" using assms by (simp add: header_for_def field_def)
  then have "CHR ''u'' \<in> set (take 6 (drop 257 h))" by simp
  then have "CHR ''u'' \<in> set h" by (meson in_set_dropD in_set_takeD)
  then have nz: "\<not> is_zero_block h" by (auto simp: is_zero_block_def list_all_iff)
  let ?a = "h @ with_padding d @ rest"
  have wp: "length (with_padding d) = padded (length d)" "take (length d) (with_padding d @ rest) = d"
    using padded_ge [of "length d"] by (simp_all add: with_padding_def zero_pad_def)
  have a: "take block_size ?a = h" "drop block_size ?a = with_padding d @ rest" "drop (block_size + padded (length d)) ?a = rest"
    "\<not> length ?a < block_size" "\<not> length ?a < block_size + length d"
    using h wp padded_ge [of "length d"] by (simp_all add: block_size_def)
  show ?thesis
    by (subst read_tar_go.simps) (simp only: a nz h wp Let_def if_False sum.case simp_thms)
qed

lemma file_step:
  assumes "header_for h name dir (length d) ty" "ty \<in> file_flags" "length (ts_entries st) < tl_max_files L"
    "ts_total st + length d \<le> tl_max_total L"
  shows "tar_step fuel L h d st = Some (Inr (st\<lparr>ts_long_name := None, ts_pax_path := None,
    ts_entries := ts_entries st @ [(entry_path h st, d)], ts_total := ts_total st + length d\<rparr>))"
  using assms by (auto simp: tar_step_def add_entry_def header_for_def file_flags_def Let_def)

definition fits :: "tar_limits \<Rightarrow> (string \<times> string) list \<Rightarrow> tar_state \<Rightarrow> bool" where
  "fits L fs st =
     (length (ts_entries st) + length fs \<le> tl_max_files L \<and> ts_total st + sum_list (map (length \<circ> snd) fs) \<le> tl_max_total L)"

lemma read_tar_go_reads:
  "tar_of a fs \<Longrightarrow> length a \<le> fuel \<Longrightarrow> length a + 1 < 2 ^ 53 \<Longrightarrow> fits L fs st \<Longrightarrow> ts_long_name st = None \<Longrightarrow> ts_pax_path st = None \<Longrightarrow>
     read_tar_go fuel L a st = Some (Inr (ts_entries st @ fs))"
proof (induction arbitrary: st rule: tar_of.induct)
  case (tar_end junk)
  then show ?case by (subst read_tar_go.simps) (simp add: block_size_def is_zero_block_def list_all_iff)
next
  case (tar_file h name dir d ty rest fs)
  have "tar_step fuel L h d st = Some (Inr (st\<lparr>ts_long_name := None, ts_pax_path := None,
      ts_entries := ts_entries st @ [(joined dir name, d)], ts_total := ts_total st + length d\<rparr>))"
    using file_step [OF tar_file.hyps(1,2)] joined_path [OF tar_file.hyps(1)] tar_file.prems by (simp add: fits_def)
  then show ?case using tar_file by (simp add: read_next [OF tar_file.hyps(1)] fits_def)
next
  case (tar_other h name dir d ty rest fs)
  have "h ! 156 = ty" using tar_other.hyps(1) by (simp add: header_for_def)
  then have "tar_step fuel L h d st = Some (Inr st)"
    using tar_other.hyps(2) tar_other.prems by (auto simp: tar_step_def add_entry_def file_flags_def Let_def)
  then show ?case using tar_other by (simp add: read_next [OF tar_other.hyps(1)])
next
  case (tar_long h name dir l path h' name' dir' d ty rest fs)
  have "h ! 156 = CHR ''L''" using tar_long.hyps(1) by (simp add: header_for_def)
  moreover have "c_string l = path" using c_string_encoded [of path 1] tar_long.hyps(2,3) by simp
  ultimately have 1: "tar_step fuel L h l st = Some (Inr (st\<lparr>ts_long_name := Some path\<rparr>))" by (simp add: tar_step_def)
  let ?st = "st\<lparr>ts_long_name := Some path\<rparr>"
  have 2: "tar_step fuel L h' d ?st = Some (Inr (st\<lparr>ts_long_name := None, ts_pax_path := None,
      ts_entries := ts_entries st @ [(path, d)], ts_total := ts_total st + length d\<rparr>))"
    using file_step [OF tar_long.hyps(4,5), of ?st] tar_long.prems by (simp add: fits_def entry_path_def)
  have "read_tar_go fuel L (h @ with_padding l @ h' @ with_padding d @ rest) st =
      read_tar_go fuel L rest (st\<lparr>ts_long_name := None, ts_pax_path := None,
        ts_entries := ts_entries st @ [(path, d)], ts_total := ts_total st + length d\<rparr>)"
    by (simp only: read_next [OF tar_long.hyps(1)] read_next [OF tar_long.hyps(4)] 1 2 option.case sum.case)
  then show ?case using tar_long by (simp add: fits_def)
next
  case (tar_pax h name dir x rs path h' name' dir' d ty rest fs)
  have ty: "h ! 156 = CHR ''x''" using tar_pax.hyps(1) by (simp add: header_for_def)
  have len: "length x + 1 < 2 ^ 53" "length x < fuel"
    using tar_pax.prems padded_ge [of "length x"] tar_pax.hyps(1) by (simp_all add: with_padding_def zero_pad_def header_for_def)
  have "length rs \<le> length x" unfolding tar_pax.hyps(2)
    by (induction rs) (auto simp: pax_line_def split: prod.splits)
  then have "pax_records fuel x 0 [] = Some (fold put_line rs [])"
    using pax_records_read [OF tar_pax.hyps(3), of "[]" fuel "[]"] len tar_pax.hyps(2) by simp
  moreover have "map_of (fold put_line rs []) ''path'' = Some path"
    using map_of_put_lines [OF tar_pax.hyps(3)] tar_pax.hyps(4) by simp
  ultimately have 1: "tar_step fuel L h x st = Some (Inr (st\<lparr>ts_pax_path := Some path\<rparr>))" by (simp add: tar_step_def ty)
  let ?st = "st\<lparr>ts_pax_path := Some path\<rparr>"
  have 2: "tar_step fuel L h' d ?st = Some (Inr (st\<lparr>ts_long_name := None, ts_pax_path := None,
      ts_entries := ts_entries st @ [(path, d)], ts_total := ts_total st + length d\<rparr>))"
    using file_step [OF tar_pax.hyps(5,6), of ?st] tar_pax.prems by (simp add: fits_def entry_path_def)
  have "read_tar_go fuel L (h @ with_padding x @ h' @ with_padding d @ rest) st =
      read_tar_go fuel L rest (st\<lparr>ts_long_name := None, ts_pax_path := None,
        ts_entries := ts_entries st @ [(path, d)], ts_total := ts_total st + length d\<rparr>)"
    by (simp only: read_next [OF tar_pax.hyps(1)] read_next [OF tar_pax.hyps(5)] 1 2 option.case sum.case)
  then show ?case using tar_pax by (simp add: fits_def)
qed

text \<open>C33 (roundtrip). What a tar writer puts in, the reader takes out: an archive of ustar headers, GNU long names and pax records, with
  directories, links and global headers among them, gives back the paths and the bytes of its files in their order.\<close>

theorem tar_reads_back:
  assumes "tar_of archive fs" "length archive + 1 < 2 ^ 53" "length fs \<le> tl_max_files L" "sum_list (map (length \<circ> snd) fs) \<le> tl_max_total L"
  shows "read_tar (length archive) L archive = Some (Inr fs)"
  using read_tar_go_reads [OF assms(1) order_refl assms(2), of L tar_start] assms(3,4) by (simp add: read_tar_def fits_def tar_start_def)

text \<open>An archive of one file and a directory.\<close>

definition sample_header :: "string \<Rightarrow> string \<Rightarrow> char \<Rightarrow> string" where
  "sample_header name octal_size ty =
     zero_pad 100 name @ replicate 24 CHR ''0'' @ replicate (11 - length octal_size) CHR ''0'' @ octal_size @ [CHR 0x00] @
     replicate 20 CHR ''0'' @ [ty] @ replicate 100 CHR 0x00 @ ''ustar'' @ [CHR 0x00] @ replicate 82 CHR 0x00 @ replicate 155 CHR 0x00 @
     replicate 12 CHR 0x00"

definition sample_archive :: string where
  "sample_archive =
     sample_header ''src/'' ''0'' CHR ''5'' @ with_padding [] @ sample_header ''package.json'' ''2'' CHR ''0'' @ with_padding ''{}'' @
     replicate 512 CHR 0x00 @ replicate 512 CHR 0x00"

lemma sample_headers:
  "header_for (sample_header ''src/'' ''0'' CHR ''5'') ''src/'' [] 0 CHR ''5''"
  "header_for (sample_header ''package.json'' ''2'' CHR ''0'') ''package.json'' [] 2 CHR ''0''"
proof -
  have c: "char_of (48 + 0 :: nat) = CHR ''0''" "char_of (48 + 2 :: nat) = CHR ''2''" by code_simp+
  have o: "show_octal 0 = ''0''" "show_octal 2 = ''2''"
    using c by (simp_all add: show_octal.simps [of 0] show_octal.simps [of 2])
  show "header_for (sample_header ''src/'' ''0'' CHR ''5'') ''src/'' [] 0 CHR ''5''"
    unfolding header_for_def o by code_simp
  show "header_for (sample_header ''package.json'' ''2'' CHR ''0'') ''package.json'' [] 2 CHR ''0''"
    unfolding header_for_def o by code_simp
qed

lemma sample_tar: "tar_of sample_archive [(''package.json'', ''{}'')]"
proof -
  have "tar_of (replicate 512 CHR 0x00 @ replicate 512 CHR 0x00) []" by (rule tar_end)
  then have 1: "tar_of (sample_header ''package.json'' ''2'' CHR ''0'' @ with_padding ''{}'' @ replicate 512 CHR 0x00 @ replicate 512 CHR 0x00) [(''package.json'', ''{}'')]"
    using tar_file [of "sample_header ''package.json'' ''2'' CHR ''0''" "''package.json''" "[]" "''{}''" "CHR ''0''"] sample_headers(2)
    by (simp add: file_flags_def joined_def numeral_2_eq_2)
  show ?thesis unfolding sample_archive_def
    by (rule tar_other [of _ "''src/''" "[]" _ "CHR ''5''", OF _ _ 1]) (simp_all add: file_flags_def sample_headers(1))
qed

theorem tar_reads_back_witness:
  "read_tar (length sample_archive) \<lparr>tl_max_files = 1, tl_max_total = 2\<rparr> sample_archive = Some (Inr [(''package.json'', ''{}'')])"
proof -
  have "length sample_archive = 2560"
    by (simp add: sample_archive_def sample_header_def with_padding_def zero_pad_def padded_def)
  then show ?thesis using tar_reads_back [OF sample_tar, of "\<lparr>tl_max_files = 1, tl_max_total = 2\<rparr>"] by simp
qed

section \<open>Limits\<close>

lemma tar_step_within:
  assumes "length (ts_entries st) \<le> tl_max_files L" "ts_total st = sum_list (map (length \<circ> snd) (ts_entries st))"
    "ts_total st \<le> tl_max_total L" "tar_step fuel L h d st = Some (Inr st')"
  shows "length (ts_entries st') \<le> tl_max_files L \<and> ts_total st' = sum_list (map (length \<circ> snd) (ts_entries st')) \<and> ts_total st' \<le> tl_max_total L"
  using assms by (auto simp: tar_step_def add_entry_def Let_def split: if_splits)

lemma read_tar_go_within:
  "length (ts_entries st) \<le> tl_max_files L \<Longrightarrow> ts_total st = sum_list (map (length \<circ> snd) (ts_entries st)) \<Longrightarrow> ts_total st \<le> tl_max_total L \<Longrightarrow>
     read_tar_go fuel L a st = Some (Inr fs) \<Longrightarrow> length fs \<le> tl_max_files L \<and> sum_list (map (length \<circ> snd) fs) \<le> tl_max_total L"
proof (induction fuel L a st rule: read_tar_go.induct)
  case (1 fuel L a st)
  show ?case
  proof (cases "length a < block_size \<or> is_zero_block (take block_size a)")
    case True
    then show ?thesis using "1.prems" by (simp add: read_tar_go.simps [of fuel L a st])
  next
    case False
    let ?h = "take block_size a"
    obtain n st' where n: "octal (field 124 12 ?h) = Inr n" "\<not> length a < block_size + n"
        "tar_step fuel L ?h (take n (drop block_size a)) st = Some (Inr st')" "read_tar_go fuel L (drop (block_size + padded n) a) st' = Some (Inr fs)"
      using "1.prems"(4) False unfolding read_tar_go.simps [of fuel L a st]
      by (auto simp: Let_def split: sum.splits option.splits if_splits)
    show ?thesis
      using "1.IH" [OF False refl n(1) n(2) n(3) refl] tar_step_within [OF "1.prems"(1-3) n(3)] n(4) by blast
  qed
qed

text \<open>What the reader accepts is within its limits, whatever the bytes of the archive are: at most so many files, and
  together at most so many bytes.\<close>

theorem tar_within_limits:
  assumes "read_tar fuel L archive = Some (Inr fs)"
  shows "length fs \<le> tl_max_files L \<and> sum_list (map (length \<circ> snd) fs) \<le> tl_max_total L"
  using assms read_tar_go_within [of tar_start L fuel archive fs] by (simp add: read_tar_def tar_start_def)

theorem tar_within_limits_witness: "\<exists>fs. read_tar 0 \<lparr>tl_max_files = 3, tl_max_total = 9\<rparr> (replicate 512 CHR 0x00) = Some (Inr fs) \<and> length fs \<le> 3"
proof -
  have *: "read_tar 0 \<lparr>tl_max_files = 3, tl_max_total = 9\<rparr> (replicate 512 CHR 0x00) = Some (Inr [])"
    unfolding read_tar_def by (subst read_tar_go.simps) (simp add: block_size_def is_zero_block_def list_all_iff tar_start_def)
  from tar_within_limits [OF this] show ?thesis using * by auto
qed

section \<open>A header that is never read to its end\<close>

text \<open>The second length is 2 to the power of -60: it is finite and positive, but adding it to 16 gives 16.\<close>

definition tiny_length :: string where
  "tiny_length = ''867361737988403547205962240695953369140625e-60''"

definition endless_pax :: string where
  "endless_pax = ''16 path=abcdefg'' @ [CHR 0x0A] @ tiny_length @ '' ''"

definition tiny :: rat where "tiny = 1 / 2 ^ 60"

lemma tiny_number: "js_number tiny_length = Num tiny"
proof -
  have 1: "trim tiny_length = tiny_length" "tiny_length \<noteq> []" "\<not> starts_with tiny_length ''0x''" "\<not> starts_with tiny_length ''0X''"
    "\<not> starts_with tiny_length ''0o''" "\<not> starts_with tiny_length ''0O''" "\<not> starts_with tiny_length ''0b''" "\<not> starts_with tiny_length ''0B''"
    "\<not> starts_with tiny_length ''-''" "\<not> starts_with tiny_length ''+''" "tiny_length \<noteq> ''Infinity''"
    by code_simp+
  have 2: "takeWhile is_digit tiny_length = ''867361737988403547205962240695953369140625''" "dropWhile is_digit tiny_length = ''e-60''"
    "\<not> starts_with ''e-60'' ''.''" "exponent_part ''e-60'' = Some (- 60)"
    "digits_value 10 ''867361737988403547205962240695953369140625'' = 867361737988403547205962240695953369140625"
    by code_simp+
  have "decimal_literal tiny_length = Num (867361737988403547205962240695953369140625 * power10 (- 60))"
    unfolding decimal_literal_def Let_def 2 by (simp add: 2)
  also have "\<dots> = Num (1 / 2 ^ 60)" by (simp add: power10_def)
  finally have "decimal_literal tiny_length = Num tiny" by (simp only: tiny_def)
  then show ?thesis using 1 by (simp add: js_number_def unsigned_literal_def)
qed

lemma tiny_rounding: "to_double tiny = tiny" "double_add 16 tiny = 16"
  unfolding tiny_def
proof -
  have f: "floorlog 2 1152921504606846975 = 60" "floorlog 2 16 = 5"
    by (rule antisym; (rule floorlog_leI | rule floorlog_geI); simp)+
  have e: "exponent_of (1 / 2 ^ 60) = - 60" by (simp add: exponent_of_def f)
  show "to_double (1 / 2 ^ 60) = 1 / 2 ^ 60"
    unfolding to_double_def unit_last_place_def e by (simp add: Let_def round_half_even_def)
  have fl: "\<lfloor>16 + 1 / 2 ^ 60 :: rat\<rfloor> = 16" by (rule floor_unique) simp_all
  then have e': "exponent_of (16 + 1 / 2 ^ 60) = 4" by (simp add: exponent_of_def f)
  have "\<lfloor>(16 + 1 / 2 ^ 60 :: rat) * 2 ^ 48\<rfloor> = 16 * 2 ^ 48" by (rule floor_unique) simp_all
  then show "double_add 16 (1 / 2 ^ 60) = 16"
    unfolding double_add_def to_double_def unit_last_place_def e' by (simp add: Let_def round_half_even_def)
qed

lemma tiny_bounds: "0 < tiny" "tiny < 2 ^ 1024"
proof -
  have "tiny \<le> 1" "(1 :: rat) < 2 ^ 1024" by (simp_all add: tiny_def)
  then show "tiny < 2 ^ 1024" by linarith
qed (simp add: tiny_def)

lemma endless_again: "pax_records n endless_pax 16 rs = None"
proof (induction n)
  case (Suc n)
  let ?b = endless_pax
  have len: "length ?b = 63" "length tiny_length = 46" by code_simp+
  have drop: "drop 16 ?b = tiny_length @ '' ''" by code_simp
  have "takeWhile (\<lambda>c. c \<noteq> CHR '' '') (drop 16 ?b) = tiny_length" by code_simp
  then have space: "find_space (length ?b + 1) ?b 16 = of_nat 62"
    using find_space_of_nat [of ?b 16 "length ?b + 1"] len by simp
  have num: "slice ?b 16 (of_nat 62) = tiny_length"
    using slice_of_nat [of ?b 16 62] by (simp add: drop len)
  have "utf8_decode tiny_length = tiny_length" by code_simp
  then have rec: "record_length (utf8_decode (slice ?b 16 (of_nat 62))) = Some tiny"
    unfolding num record_length_def using tiny_rounding(1) tiny_bounds by (simp add: tiny_number Let_def)
  have "double_pred (double_add 16 (tiny)) = of_nat 15" "double_add (of_nat 62) 1 = of_nat 63"
    using double_pred_of_nat [of 16] double_add_one [of 62] by (simp_all add: tiny_rounding)
  then have "slice ?b (double_add (of_nat 62) 1) (double_pred (double_add 16 (tiny))) = []"
    using slice_of_nat [of ?b 63 15] by simp
  moreover have "put_record (utf8_decode []) rs = rs" by (simp add: put_record_def)
  ultimately have "pax_records (Suc n) ?b 16 rs = (if of_nat (length ?b) \<le> (16 :: rat) then Some rs else pax_records n ?b 16 rs)"
    by (simp only: pax_records.simps Let_def space rec option.case tiny_rounding)
  then show ?case using Suc len by simp
qed simp

lemma endless_from_start: "pax_records n endless_pax 0 [] = None"
proof (cases n)
  case (Suc k)
  have line: "endless_pax = [] @ pax_line (16, ''path'', ''abcdefg'') @ tiny_length @ '' ''"
  proof -
    have "char_of (48 + 1 :: nat) = CHR ''1''" "char_of (48 + 6 :: nat) = CHR ''6''" by code_simp+
    then have "show_nat 16 = ''16''" by (simp add: show_nat.simps [of 16] show_nat.simps [of "Suc 0"])
    moreover have "utf8_encode (''path'' @ ''='' @ ''abcdefg'') = ''path=abcdefg''" by code_simp
    ultimately show ?thesis by (simp add: pax_line_def endless_pax_def)
  qed
  have "length (pax_line (16, ''path'', ''abcdefg'')) = 16"
    using arg_cong [OF line, of length] arg_cong [OF endless_pax_def, of length] by simp
  then have ok: "pax_line_ok (16, ''path'', ''abcdefg'')" by (simp add: pax_line_ok_def)
  have "length endless_pax = 63" by code_simp
  then have "length endless_pax + 1 < 2 ^ 53" by simp
  then have "pax_records (Suc k) endless_pax (of_nat (length ([] :: string))) [] = pax_records k endless_pax (of_nat (length ([] :: string) + 16)) (put_key ''path'' ''abcdefg'' [])"
    using pax_records_step [OF ok, of "[]" "tiny_length @ '' ''" k "[]"] by (simp only: line [symmetric])
  then show ?thesis using endless_again [of k] by (simp only: Suc list.size) simp
qed simp

text \<open>C34 (termination). Reading an archive need not end: an extended header whose second length is positive but too small to change
  the place in the header is read again and again, so an installation from such an archive never returns.\<close>

theorem tar_may_not_end:
  "read_tar fuel L (sample_header ''x'' ''77'' CHR ''x'' @ with_padding endless_pax @ rest) = None"
proof -
  have c: "char_of (48 + 7 :: nat) = CHR ''7''" by code_simp
  then have "show_octal 63 = ''77''" by (simp add: show_octal.simps [of 63] show_octal.simps [of 7])
  then have "header_for (sample_header ''x'' ''77'' CHR ''x'') ''x'' [] 63 CHR ''x''"
    unfolding header_for_def by (simp only:) code_simp
  moreover have "length endless_pax = 63" by code_simp
  ultimately have "header_for (sample_header ''x'' ''77'' CHR ''x'') ''x'' [] (length endless_pax) CHR ''x''" by simp
  from read_next [OF this] show ?thesis
    by (simp add: read_tar_def tar_step_def endless_from_start sample_header_def zero_pad_def nth_append)
qed

end
