(* ===== verification/GitTree.thy ===== *)
theory GitTree
  imports GitPack
begin

text \<open>
  Trees and files of a clone: the second half of src/src/packages/git-smart-http.ts. The objects of
  a pack are a map from names to objects; the strict UTF-8 decoder is a parameter.
\<close>

section \<open>Trees\<close>

record tree_entry =
  te_mode :: string
  te_name :: string
  te_sha :: string

function parse_tree :: "string \<Rightarrow> tree_entry list res" where
  "parse_tree c =
     (if c = [] then Inr []
      else
        (let mode = takeWhile (\<lambda>x. x \<noteq> CHR '' '') c; r = drop 1 (dropWhile (\<lambda>x. x \<noteq> CHR '' '') c);
             name = takeWhile (\<lambda>x. x \<noteq> CHR 0x00) r; q = dropWhile (\<lambda>x. x \<noteq> CHR 0x00) r;
             sha = take 20 (drop 1 q)
         in if length sha \<noteq> 20 then pack_error
            else bind_res (parse_tree (drop 21 q))
              (\<lambda>es. Inr (\<lparr>te_mode = utf8_decode mode, te_name = utf8_decode name, te_sha = bytes_to_hex sha\<rparr> # es))))"
  by pat_completeness auto
termination
proof (relation "measure length", goal_cases)
  case (2 c mode r name q sha)
  have "length q \<le> length c" using 2(3,5) by (metis diff_le_self length_drop length_dropWhile_le le_trans)
  then show ?case using 2(6,7) by auto
qed simp

declare parse_tree.simps [simp del]

definition header_sha :: "string \<Rightarrow> string \<Rightarrow> string res" where
  "header_sha key content =
     (let t = utf8_decode content; n = length key in
      if starts_with t key \<and> sha_pattern (take 40 (drop n t)) \<and> starts_with (drop (n + 40) t) [CHR 0x0A]
      then Inr (take 40 (drop n t)) else pack_error)"

definition parse_commit_tree :: "string \<Rightarrow> string res" where
  "parse_commit_tree = header_sha ''tree ''"

definition parse_tag_object :: "string \<Rightarrow> string res" where
  "parse_tag_object = header_sha ''object ''"

record clone_limits =
  cl_max_files :: nat
  cl_max_total :: nat

definition default_clone_limits :: clone_limits where
  "default_clone_limits = \<lparr>cl_max_files = 400, cl_max_total = 24 * 1024 * 1024\<rparr>"

record walk_state =
  ws_files :: "(string \<times> string) list"
  ws_skipped :: "string list"
  ws_manifest_dirs :: "string list"
  ws_count :: nat
  ws_total :: nat

text \<open>A file of a tree; \<open>decode\<close> is the strict UTF-8 decoder.\<close>

definition add_blob ::
  "(string \<Rightarrow> string option) \<Rightarrow> clone_limits \<Rightarrow> string \<Rightarrow> string \<Rightarrow> string \<Rightarrow> git_object option \<Rightarrow> walk_state \<Rightarrow> walk_state res" where
  "add_blob decode L dir name path blob st =
     (case blob of
        None \<Rightarrow> pack_error
      | Some b \<Rightarrow>
        if go_type b \<noteq> 3 then pack_error
        else
          (let st1 = st\<lparr>ws_manifest_dirs := (if name = ''package.json'' then ws_manifest_dirs st @ [dir] else ws_manifest_dirs st),
                 ws_count := ws_count st + 1, ws_total := ws_total st + length (go_content b)\<rparr>
           in if cl_max_files L < ws_count st1 then fails ''invalid_package''
              else if cl_max_total L < ws_total st1 then fails ''invalid_package''
              else
                (case decode (go_content b) of
                   Some t \<Rightarrow> Inr (st1\<lparr>ws_files := put_key path t (ws_files st1)\<rparr>)
                 | None \<Rightarrow> Inr (st1\<lparr>ws_skipped := ws_skipped st1 @ [path]\<rparr>))))"

text \<open>The walk. Its recursion follows the trees of the pack, so it has fuel: \<open>None\<close> is running out of it.\<close>

definition walk_entry ::
  "(string \<Rightarrow> git_object option) \<Rightarrow> (string \<Rightarrow> string option) \<Rightarrow> clone_limits \<Rightarrow>
   (string \<Rightarrow> string \<Rightarrow> walk_state \<Rightarrow> walk_state res option) \<Rightarrow> string \<Rightarrow> tree_entry \<Rightarrow> walk_state \<Rightarrow> walk_state res option" where
  "walk_entry objects decode L sub dir e st =
     (if te_name e = ''.git'' \<or> te_name e = ''node_modules'' then Some (Inr st)
      else
        (let path = (if dir = [] then te_name e else dir @ ''/'' @ te_name e) in
         if starts_with (te_mode e) ''4'' then sub (te_sha e) path st
         else if te_mode e \<notin> {''100644'', ''100755'', ''120000''} then Some (Inr st)
         else Some (add_blob decode L dir (te_name e) path (objects (te_sha e)) st)))"

primrec walk_all :: "(tree_entry \<Rightarrow> walk_state \<Rightarrow> walk_state res option) \<Rightarrow> tree_entry list \<Rightarrow> walk_state \<Rightarrow> walk_state res option" where
  "walk_all f [] st = Some (Inr st)"
| "walk_all f (e # es) st =
     (case f e st of
        None \<Rightarrow> None
      | Some (Inl x) \<Rightarrow> Some (Inl x)
      | Some (Inr st') \<Rightarrow> walk_all f es st')"

primrec walk ::
  "(string \<Rightarrow> git_object option) \<Rightarrow> (string \<Rightarrow> string option) \<Rightarrow> clone_limits \<Rightarrow> nat \<Rightarrow> string \<Rightarrow> string \<Rightarrow> walk_state \<Rightarrow>
   walk_state res option" where
  "walk objects decode L 0 sha dir st = None"
| "walk objects decode L (Suc n) sha dir st =
     (case objects sha of
        None \<Rightarrow> Some pack_error
      | Some tree \<Rightarrow>
        if go_type tree \<noteq> 2 then Some pack_error
        else
          (case parse_tree (go_content tree) of
             Inl x \<Rightarrow> Some (Inl x)
           | Inr es \<Rightarrow> walk_all (walk_entry objects decode L (walk objects decode L n) dir) es st))"

primrec subdir_tree :: "(string \<Rightarrow> git_object option) \<Rightarrow> string \<Rightarrow> string list \<Rightarrow> string res" where
  "subdir_tree objects sha [] = Inr sha"
| "subdir_tree objects sha (seg # segs) =
     (case objects sha of
        None \<Rightarrow> fails ''invalid_package''
      | Some tree \<Rightarrow>
        if go_type tree \<noteq> 2 then fails ''invalid_package''
        else bind_res (parse_tree (go_content tree))
          (\<lambda>es. case select_one (\<lambda>e. te_name e = seg \<and> starts_with (te_mode e) ''4'') es of
             None \<Rightarrow> fails ''invalid_package''
           | Some e \<Rightarrow> subdir_tree objects (te_sha e) segs))"

text \<open>The tree of the commit, or of the commit a tag points to.\<close>

definition commit_tree :: "(string \<Rightarrow> git_object option) \<Rightarrow> string \<Rightarrow> string res" where
  "commit_tree objects sha =
     (case objects sha of
        None \<Rightarrow> pack_error
      | Some tip \<Rightarrow>
        bind_res (if go_type tip = 4
            then bind_res (parse_tag_object (go_content tip))
              (\<lambda>target. case objects target of None \<Rightarrow> pack_error | Some x \<Rightarrow> Inr x)
            else Inr tip)
          (\<lambda>x. if go_type x \<noteq> 1 then pack_error else parse_commit_tree (go_content x)))"

text \<open>The tree the files are read from.\<close>

definition clone_root :: "(string \<Rightarrow> git_object option) \<Rightarrow> string \<Rightarrow> string option \<Rightarrow> string res" where
  "clone_root objects commit subdir =
     bind_res (commit_tree objects commit)
       (\<lambda>root. bind_res (normalize_subdir subdir)
          (\<lambda>pre. case pre of None \<Rightarrow> Inr root | Some p \<Rightarrow> subdir_tree objects root (split_on CHR ''/'' p)))"

definition no_files :: walk_state where
  "no_files = \<lparr>ws_files = [], ws_skipped = [], ws_manifest_dirs = [], ws_count = 0, ws_total = 0\<rparr>"

definition files_from_git_objects ::
  "(string \<Rightarrow> git_object option) \<Rightarrow> (string \<Rightarrow> string option) \<Rightarrow> clone_limits \<Rightarrow> nat \<Rightarrow> string \<Rightarrow> string option \<Rightarrow>
   walk_state res option" where
  "files_from_git_objects objects decode L fuel commit subdir =
     (case clone_root objects commit subdir of
        Inl x \<Rightarrow> Some (Inl x)
      | Inr sha \<Rightarrow>
        (case walk objects decode L fuel sha [] no_files of
           None \<Rightarrow> None
         | Some (Inl x) \<Rightarrow> Some (Inl x)
         | Some (Inr st) \<Rightarrow> Some (if map_of (ws_files st) ''package.json'' = None then fails ''invalid_package'' else Inr st)))"

section \<open>Two clones of one commit\<close>

text \<open>Two packs agree where both have an object of the name.\<close>

definition agree :: "(string \<Rightarrow> git_object option) \<Rightarrow> (string \<Rightarrow> git_object option) \<Rightarrow> bool" where
  "agree m m' = (\<forall>sha x y. m sha = Some x \<and> m' sha = Some y \<longrightarrow> x = y)"

lemma agreeD: "agree m m' \<Longrightarrow> m sha = Some x \<Longrightarrow> m' sha = Some y \<Longrightarrow> x = y"
  by (auto simp: agree_def)

lemma walk_all_agree:
  assumes "\<And>e st a b. f e st = Some (Inr a) \<Longrightarrow> g e st = Some (Inr b) \<Longrightarrow> a = b"
    "walk_all f es st = Some (Inr a)" "walk_all g es st = Some (Inr b)"
  shows "a = b"
  using assms(2,3)
proof (induction es arbitrary: st)
  case (Cons e es)
  obtain st1 where 1: "f e st = Some (Inr st1)" "walk_all f es st1 = Some (Inr a)"
    using Cons.prems(1) by (auto split: option.splits sum.splits)
  obtain st2 where 2: "g e st = Some (Inr st2)" "walk_all g es st2 = Some (Inr b)"
    using Cons.prems(2) by (auto split: option.splits sum.splits)
  then show ?case using Cons.IH 1 assms(1) by metis
qed simp

lemma walk_agree:
  assumes "agree m m'"
  shows "walk m decode L n sha dir st = Some (Inr a) \<Longrightarrow> walk m' decode L n' sha dir st = Some (Inr b) \<Longrightarrow> a = b"
proof (induction n arbitrary: n' sha dir st a b)
  case (Suc n)
  obtain k where n': "n' = Suc k" using Suc.prems(2) by (cases n') auto
  obtain x es where x: "m sha = Some x" "parse_tree (go_content x) = Inr es"
      "walk_all (walk_entry m decode L (walk m decode L n) dir) es st = Some (Inr a)"
    using Suc.prems(1) by (auto simp: split: option.splits sum.splits if_splits)
  obtain y fs where y: "m' sha = Some y" "parse_tree (go_content y) = Inr fs"
      "walk_all (walk_entry m' decode L (walk m' decode L k) dir) fs st = Some (Inr b)"
    using Suc.prems(2) by (auto simp: n' split: option.splits sum.splits if_splits)
  have "x = y" using agreeD [OF assms x(1) y(1)] .
  then have "fs = es" using x(2) y(2) by simp
  moreover have "p = q" if pq: "walk_entry m decode L (walk m decode L n) dir e t = Some (Inr p)"
      "walk_entry m' decode L (walk m' decode L k) dir e t = Some (Inr q)" for e t p q
  proof (cases "m (te_sha e) = m' (te_sha e)")
    case True
    then show ?thesis using pq Suc.IH by (auto simp: walk_entry_def Let_def split: if_splits)
  next
    case False
    then have "m (te_sha e) = None \<or> m' (te_sha e) = None" using agreeD [OF assms] by (cases "m (te_sha e)"; cases "m' (te_sha e)") auto
    then show ?thesis using pq Suc.IH by (auto simp: walk_entry_def Let_def add_blob_def split: if_splits)
  qed
  ultimately show ?case using walk_all_agree x(3) y(3) by blast
qed simp

lemma subdir_agree: "agree m m' \<Longrightarrow> subdir_tree m sha segs = Inr a \<Longrightarrow> subdir_tree m' sha segs = Inr b \<Longrightarrow> a = b"
proof (induction segs arbitrary: sha)
  case (Cons seg segs)
  obtain x es e where x: "m sha = Some x" "parse_tree (go_content x) = Inr es"
      "select_one (\<lambda>e. te_name e = seg \<and> starts_with (te_mode e) ''4'') es = Some e" "subdir_tree m (te_sha e) segs = Inr a"
    using Cons.prems(2) by (auto simp: bind_res_Inr split: option.splits if_splits)
  obtain y fs f where y: "m' sha = Some y" "parse_tree (go_content y) = Inr fs"
      "select_one (\<lambda>e. te_name e = seg \<and> starts_with (te_mode e) ''4'') fs = Some f" "subdir_tree m' (te_sha f) segs = Inr b"
    using Cons.prems(3) by (auto simp: bind_res_Inr split: option.splits if_splits)
  have "x = y" using agreeD [OF Cons.prems(1) x(1) y(1)] .
  then have "e = f" using x(2,3) y(2,3) by simp
  then show ?case using Cons.IH Cons.prems(1) x(4) y(4) by blast
qed simp

lemma commit_agree:
  assumes "agree m m'" "commit_tree m sha = Inr a" "commit_tree m' sha = Inr b"
  shows "a = b"
proof -
  obtain x where x: "m sha = Some x" using assms(2) by (auto simp: commit_tree_def split: option.splits)
  obtain y where y: "m' sha = Some y" using assms(3) by (auto simp: commit_tree_def split: option.splits)
  have xy: "y = x" using agreeD [OF assms(1) x y] by simp
  show ?thesis
  proof (cases "go_type x = 4")
    case True
    obtain t u where u: "parse_tag_object (go_content x) = Inr t" "m t = Some u" "parse_commit_tree (go_content u) = Inr a"
      using assms(2) x True by (auto simp: commit_tree_def bind_res_Inr split: option.splits if_splits)
    obtain v where v: "m' t = Some v" "parse_commit_tree (go_content v) = Inr b"
      using assms(3) y xy True u(1) by (auto simp: commit_tree_def bind_res_Inr split: option.splits if_splits)
    show ?thesis using agreeD [OF assms(1) u(2) v(1)] u(3) v(2) by simp
  next
    case False
    then show ?thesis using assms(2,3) x y xy by (auto simp: commit_tree_def bind_res_Inr split: if_splits)
  qed
qed

lemma root_agree:
  assumes "agree m m'" "clone_root m commit subdir = Inr a" "clone_root m' commit subdir = Inr b"
  shows "a = b"
proof -
  obtain r pre where 1: "commit_tree m commit = Inr r" "normalize_subdir subdir = Inr pre"
      "(case pre of None \<Rightarrow> Inr r | Some p \<Rightarrow> subdir_tree m r (split_on CHR ''/'' p)) = Inr a"
    using assms(2) unfolding clone_root_def by (elim bind_InrE)
  obtain r' where 2: "commit_tree m' commit = Inr r'"
      "(case pre of None \<Rightarrow> Inr r' | Some p \<Rightarrow> subdir_tree m' r' (split_on CHR ''/'' p)) = Inr b"
    using assms(3) 1(2) unfolding clone_root_def by (elim bind_InrE) simp
  have "r' = r" using commit_agree [OF assms(1) 1(1) 2(1)] by simp
  then show ?thesis using 1(3) 2(2) subdir_agree [OF assms(1)] by (cases pre) auto
qed

text \<open>A commit id pins the files of a package: whatever packs two servers send, in whatever order and however compressed
  or as whatever deltas, if cloning the same commit (or tag) and the same directory works from both, it gives the same files,
  unless two objects of the packs collide under SHA-1.\<close>

theorem pinned_clone_reproducible:
  assumes "unpack_git_pack E pack = Inr m" "unpack_git_pack E pack' = Inr m'"
    "\<forall>sha x y. map_of m sha = Some x \<and> map_of m' sha = Some y \<and> object_sha E x = object_sha E y \<longrightarrow> x = y"
    "files_from_git_objects (map_of m) decode L n commit subdir = Some (Inr a)"
    "files_from_git_objects (map_of m') decode L n' commit subdir = Some (Inr b)"
  shows "a = b"
proof -
  have ag: "agree (map_of m) (map_of m')"
    using unpack_git_pack_named [OF assms(1)] unpack_git_pack_named [OF assms(2)] assms(3) unfolding agree_def named_def by metis
  obtain sha where 1: "clone_root (map_of m) commit subdir = Inr sha" "walk (map_of m) decode L n sha [] no_files = Some (Inr a)"
    using assms(4) by (auto simp: files_from_git_objects_def split: option.splits sum.splits if_splits)
  obtain sha' where 2: "clone_root (map_of m') commit subdir = Inr sha'" "walk (map_of m') decode L n' sha' [] no_files = Some (Inr b)"
    using assms(5) by (auto simp: files_from_git_objects_def split: option.splits sum.splits if_splits)
  have "sha' = sha" using root_agree [OF ag 1(1) 2(1)] by simp
  then show ?thesis using walk_agree [OF ag 1(2)] 2(2) by blast
qed

section \<open>Limits and termination\<close>

definition within_limits :: "clone_limits \<Rightarrow> walk_state \<Rightarrow> bool" where
  "within_limits L st = (ws_count st \<le> cl_max_files L \<and> ws_total st \<le> cl_max_total L \<and> length (ws_files st) \<le> ws_count st)"

lemma length_put_key: "length (put_key k v fs) \<le> Suc (length fs)"
  by (simp add: put_key_def map_set_def)

lemma add_blob_within:
  assumes "within_limits L st" "add_blob decode L dir name path blob st = Inr st'"
  shows "within_limits L st'"
proof -
  obtain b where b: "blob = Some b" using assms(2) by (auto simp: add_blob_def split: option.splits)
  show ?thesis
  proof (cases "decode (go_content b)")
    case None
    then show ?thesis using assms b by (auto simp: add_blob_def within_limits_def Let_def split: if_splits)
  next
    case (Some t)
    then show ?thesis using assms b le_trans [OF length_put_key [of path t "ws_files st"]]
      by (auto simp: add_blob_def within_limits_def Let_def split: if_splits)
  qed
qed

lemma walk_all_inv:
  assumes "\<And>e st st'. P st \<Longrightarrow> f e st = Some (Inr st') \<Longrightarrow> P st'"
  shows "P st \<Longrightarrow> walk_all f es st = Some (Inr st') \<Longrightarrow> P st'"
proof (induction es arbitrary: st)
  case (Cons e es)
  obtain st1 where "f e st = Some (Inr st1)" "walk_all f es st1 = Some (Inr st')"
    using Cons.prems(2) by (auto split: option.splits sum.splits)
  then show ?case using assms Cons.IH Cons.prems(1) by blast
qed simp

lemma walk_within: "within_limits L st \<Longrightarrow> walk m decode L n sha dir st = Some (Inr st') \<Longrightarrow> within_limits L st'"
proof (induction n arbitrary: sha dir st st')
  case (Suc n)
  have step: "within_limits L t'" if "within_limits L t" "walk_entry m decode L (walk m decode L n) dir e t = Some (Inr t')" for e t t'
    using that unfolding walk_entry_def Let_def by (auto split: if_splits dest: Suc.IH add_blob_within)
  obtain es where "walk_all (walk_entry m decode L (walk m decode L n) dir) es st = Some (Inr st')"
    using Suc.prems(2) by (auto split: option.splits sum.splits if_splits)
  from walk_all_inv [where P = "within_limits L", OF _ Suc.prems(1) this] step show ?case by blast
qed simp

text \<open>The trees of a pack are acyclic: a rank falls from a tree to its subtrees (a cycle would be a fixed point of SHA-1).\<close>

definition ranked :: "(string \<Rightarrow> git_object option) \<Rightarrow> (string \<Rightarrow> nat) \<Rightarrow> bool" where
  "ranked m rank =
     (\<forall>sha x es e. m sha = Some x \<and> parse_tree (go_content x) = Inr es \<and> e \<in> set es \<and> starts_with (te_mode e) ''4'' \<longrightarrow>
        rank (te_sha e) < rank sha)"

lemma walk_all_some: "(\<And>e st. e \<in> set es \<Longrightarrow> f e st \<noteq> None) \<Longrightarrow> walk_all f es st \<noteq> None"
  by (induction es arbitrary: st) (auto split: option.splits sum.splits)

lemma walk_ends: "ranked m rank \<Longrightarrow> rank sha < n \<Longrightarrow> walk m decode L n sha dir st \<noteq> None"
proof (induction n arbitrary: sha dir st)
  case (Suc n)
  have "walk_entry m decode L (walk m decode L n) dir e t \<noteq> None"
    if e: "m sha = Some x" "parse_tree (go_content x) = Inr es" "e \<in> set es" for x es e t
  proof -
    have "starts_with (te_mode e) ''4'' \<Longrightarrow> rank (te_sha e) < n" using Suc.prems e unfolding ranked_def by fastforce
    then show ?thesis using Suc.IH Suc.prems(1) by (auto simp: walk_entry_def Let_def)
  qed
  then show ?case using walk_all_some by (auto split: option.splits sum.splits)
qed simp

text \<open>C35 (termination). Reading the files of a clone ends, with fuel for the depth of the trees, and what it accepts is within the
  limits: no more files than allowed, no more bytes, and a manifest at its root.\<close>

theorem clone_within_limits:
  assumes "ranked objects rank" "\<forall>sha. rank sha < n"
  shows "\<exists>r. files_from_git_objects objects decode L n commit subdir = Some r \<and>
    (\<forall>st. r = Inr st \<longrightarrow> length (ws_files st) \<le> cl_max_files L \<and> ws_total st \<le> cl_max_total L \<and>
       map_of (ws_files st) ''package.json'' \<noteq> None)"
proof -
  show ?thesis
  proof (cases "clone_root objects commit subdir")
    case (Inl e)
    then show ?thesis by (simp add: files_from_git_objects_def)
  next
    case (Inr sha)
    obtain r where r: "walk objects decode L n sha [] no_files = Some r" using walk_ends [OF assms(1)] assms(2) by blast
    have "within_limits L no_files" by (simp add: within_limits_def no_files_def)
    then have "r = Inr st \<Longrightarrow> within_limits L st" for st using walk_within r by blast
    then show ?thesis using Inr r by (cases r) (auto simp: files_from_git_objects_def within_limits_def)
  qed
qed

section \<open>A small repository\<close>

definition sample_blob :: string where "sample_blob = [CHR 0x32, CHR 0x02] @ ''{}''"

definition sample_tree :: string where
  "sample_tree = [CHR 0xA8, CHR 0x02, CHR 0x28] @ ''100644 package.json'' @ [CHR 0x00] @ replicate 20 CHR ''b''"

definition sample_commit :: string where
  "sample_commit = [CHR 0x9E, CHR 0x02, CHR 0x2E] @ ''tree '' @ bytes_to_hex (replicate 20 CHR ''t'') @ [CHR 0x0A]"

definition sample_pack :: string where
  "sample_pack = ''PACK'' @ [CHR 0x00, CHR 0x00, CHR 0x00, CHR 0x02, CHR 0x00, CHR 0x00, CHR 0x00, CHR 0x03] @
     sample_blob @ sample_tree @ sample_commit"

text \<open>A hash without collisions: the three objects have short names, everything else is its own name, made longer.\<close>

definition sample_hash :: "string \<Rightarrow> string" where
  "sample_hash b =
     (if b = ''blob 2'' @ [CHR 0x00] @ ''{}'' then replicate 20 CHR ''b''
      else if b = ''tree 40'' @ [CHR 0x00] @ drop 3 sample_tree then replicate 20 CHR ''t''
      else if b = ''commit 46'' @ [CHR 0x00] @ drop 3 sample_commit then replicate 20 CHR ''c''
      else replicate 21 CHR 0x00 @ b)"

definition sample_pack_env :: pack_env where
  "sample_pack_env =
     \<lparr>pe_inflate = (\<lambda>t. case t of [] \<Rightarrow> None | c # r \<Rightarrow> if unit_of c \<le> length r then Some (take (unit_of c) r, unit_of c + 1) else None),
      pe_sha1 = sample_hash\<rparr>"

definition sample_objects :: "(string \<times> git_object) list" where
  "sample_objects =
     [(bytes_to_hex (replicate 20 CHR ''b''), \<lparr>go_type = 3, go_content = ''{}''\<rparr>),
      (bytes_to_hex (replicate 20 CHR ''t''), \<lparr>go_type = 2, go_content = drop 3 sample_tree\<rparr>),
      (bytes_to_hex (replicate 20 CHR ''c''), \<lparr>go_type = 1, go_content = drop 3 sample_commit\<rparr>)]"

lemma sample_unpack: "unpack_git_pack sample_pack_env sample_pack = Inr sample_objects"
  by code_simp

definition sample_state :: walk_state where
  "sample_state = no_files\<lparr>ws_files := [(''package.json'', ''{}'')], ws_manifest_dirs := [[]], ws_count := 1, ws_total := 2\<rparr>"

lemma sample_trees:
  "parse_tree (drop 3 sample_tree) = Inr [\<lparr>te_mode = ''100644'', te_name = ''package.json'', te_sha = bytes_to_hex (replicate 20 CHR ''b'')\<rparr>]"
  "parse_tree ''{}'' = pack_error" "parse_tree (drop 3 sample_commit) = pack_error"
  by code_simp+

lemma sample_root: "clone_root (map_of sample_objects) (bytes_to_hex (replicate 20 CHR ''c'')) None = Inr (bytes_to_hex (replicate 20 CHR ''t''))"
  by code_simp

lemma sample_lookup:
  "map_of sample_objects (bytes_to_hex (replicate 20 CHR ''t'')) = Some \<lparr>go_type = 2, go_content = drop 3 sample_tree\<rparr>"
  "map_of sample_objects (bytes_to_hex (replicate 20 CHR ''b'')) = Some \<lparr>go_type = 3, go_content = ''{}''\<rparr>"
  by code_simp+

lemma sample_files:
  assumes "1 \<le> cl_max_files L" "2 \<le> cl_max_total L" "0 < n"
  shows "files_from_git_objects (map_of sample_objects) Some L n (bytes_to_hex (replicate 20 CHR ''c'')) None = Some (Inr sample_state)"
proof (cases n)
  case (Suc k)
  have "walk (map_of sample_objects) Some L n (bytes_to_hex (replicate 20 CHR ''t'')) [] no_files = Some (Inr sample_state)"
    using assms
    by (simp add: Suc sample_lookup sample_trees walk_entry_def add_blob_def starts_with_def no_files_def sample_state_def put_key_def map_set_def)
  then show ?thesis by (simp add: files_from_git_objects_def sample_root sample_state_def)
qed (use assms in simp)

text \<open>The rank of the trees of the sample: only the root is a tree.\<close>

theorem clone_within_limits_witness:
  "\<exists>r. files_from_git_objects (map_of sample_objects) Some default_clone_limits 1 (bytes_to_hex (replicate 20 CHR ''c'')) None = Some r"
proof -
  have "ranked (map_of sample_objects) (\<lambda>sha. 0)"
    by (auto simp: ranked_def sample_objects_def sample_trees starts_with_def split: if_splits)
  from clone_within_limits [OF this, of 1] show ?thesis by blast
qed

end
