(* ===== verification/SourceFetch.thy ===== *)
theory SourceFetch
  imports PackageSource Tar GitTree
begin

text \<open>
  Fetching a package source: the second half of src/src/packages/install.ts, with cloneGitSmartHttp of
  git-smart-http.ts. The network is a function from the number of requests made so far, the URL
  and the posted body to an answer, so that no two requests need be answered alike; every
  operation also returns the URLs it requested. Decompression, the strict UTF-8 decoder and JSON
  are parameters.
\<close>

section \<open>The network\<close>














section \<open>Cloning\<close>







section \<open>The files of an archive or a JSON document\<close>













section \<open>Commits\<close>





section \<open>fetchPackageSource\<close>




section \<open>Every request is to an allowed host\<close>



















section \<open>A pinned package is the same from every server\<close>


















end
