(* ===== verification/ModulePaths.thy ===== *)
theory ModulePaths
  imports JsValue PackagePaths "HOL-Library.Multiset"
begin

text \<open>
  The paths of a package's modules and the specifiers that reach them: \<open>normalizeModulePath\<close>
  (src/src/packages/manifest.ts), the relative specifiers of src/src/execute/module-graph.ts, and the
  import specifiers of a source (src/src/execute/import-specifiers.ts). The lexer, es-module-lexer, is
  an argument: it answers the imports of a source or fails.
\<close>

section \<open>Objects used as maps\<close>

text \<open>\<open>key in object\<close> and \<open>object[key]\<close> also find what every object inherits.\<close>

definition object_members :: "string list" where
  "object_members =
     [''constructor'', ''__proto__'', ''hasOwnProperty'', ''isPrototypeOf'', ''propertyIsEnumerable'',
      ''toLocaleString'', ''toString'', ''valueOf'', ''__defineGetter__'', ''__defineSetter__'',
      ''__lookupGetter__'', ''__lookupSetter__'']"

definition in_object :: "string \<Rightarrow> (string \<times> 'v) list \<Rightarrow> bool" where
  "in_object k m = (k \<in> set (map fst m) \<or> k \<in> set object_members)"

text \<open>The text of an inherited member in a template literal.\<close>

definition member_text :: "string \<Rightarrow> string" where
  "member_text k =
     (if k = ''__proto__'' then ''[object Object]''
      else ''function '' @ (if k = ''constructor'' then ''Object'' else k) @ ''() { [native code] }'')"

section \<open>Module paths\<close>

text \<open>\<open>parts\<close> is the stack of segments, the last one first.\<close>

fun module_segments :: "string list \<Rightarrow> string list \<Rightarrow> string list option" where
  "module_segments parts [] = Some (rev parts)"
| "module_segments parts (s # ss) =
     (if s = [] \<or> s = ''.'' then module_segments parts ss
      else if s = ''..'' then (case parts of [] \<Rightarrow> None | _ # ps \<Rightarrow> module_segments ps ss)
      else module_segments (s # parts) ss)"

definition slashes :: "string \<Rightarrow> string" where
  "slashes = map (\<lambda>c. if c = CHR 0x5C then CHR ''/'' else c)"

definition normalize_module_path :: "string \<Rightarrow> string res" where
  "normalize_module_path path =
     (let a = slashes (trim path);
          b = (if starts_with a ''./'' then drop 2 a else a);
          c = (if starts_with b ''/'' then tl b else b)
      in case module_segments [] (split_on CHR ''/'' c) of
           None \<Rightarrow> fails ''invalid_path''
         | Some [] \<Rightarrow> fails ''invalid_path''
         | Some parts \<Rightarrow> Inr (join_with ''/'' parts))"

definition dirname :: "string \<Rightarrow> string" where
  "dirname path = (if CHR ''/'' \<in> set path then join_with ''/'' (butlast (split_on CHR ''/'' path)) else [])"

fun shared_prefix :: "string list \<Rightarrow> string list \<Rightarrow> nat" where
  "shared_prefix (a # as) (b # bs) = (if a = b then Suc (shared_prefix as bs) else 0)"
| "shared_prefix _ _ = 0"

definition path_parts :: "string \<Rightarrow> string list" where
  "path_parts p = filter (\<lambda>s. s \<noteq> []) (split_on CHR ''/'' p)"

definition relative_specifier :: "string \<Rightarrow> string \<Rightarrow> string" where
  "relative_specifier from_path to_path =
     (let from_parts = path_parts (dirname from_path);
          to_parts = path_parts to_path;
          shared = shared_prefix from_parts to_parts;
          spec = join_with ''/'' (replicate (length from_parts - shared) ''..'' @ drop shared to_parts)
      in if starts_with spec ''.'' then spec else ''./'' @ spec)"

definition resolve_relative :: "string \<Rightarrow> string \<Rightarrow> string res" where
  "resolve_relative from_path specifier =
     (let base = dirname from_path
      in normalize_module_path (if base = [] then specifier else base @ ''/'' @ specifier))"

definition is_relative :: "string \<Rightarrow> bool" where
  "is_relative s = (starts_with s ''./'' \<or> starts_with s ''../'' \<or> starts_with s ''/'')"

definition is_builtin :: "string \<Rightarrow> bool" where
  "is_builtin s = (starts_with s ''node:'' \<or> starts_with s ''cloudflare:'')"

definition package_module_path :: "string \<Rightarrow> string \<Rightarrow> string" where
  "package_module_path name file = ''packages/'' @ name @ ''/'' @ file"

text \<open>The distinct elements of a list, in the order of a \<open>Set\<close>.\<close>

definition in_set_order :: "'a list \<Rightarrow> 'a list" where
  "in_set_order xs = rev (remdups (rev xs))"

definition relative_import_candidates :: "string \<Rightarrow> string list" where
  "relative_import_candidates target =
     in_set_order [target, target @ ''.js'',
       (if ends_with target ''.ts'' then take (length target - 3) target @ ''.js'' else target),
       target @ ''/index.js'']"

lemma target_is_candidate: "target \<in> set (relative_import_candidates target)"
  by (simp only: relative_import_candidates_def in_set_order_def set_rev set_remdups list.set insertI1)

section \<open>Import specifiers\<close>

text \<open>What the lexer answers of an import: the decoded name, the positions of the specifier and of the
  statement, and the kind: -1 for a static import, -2 for \<open>import.meta\<close>, else a dynamic import.\<close>

record lexed_import =
  lx_name :: "string option"
  lx_start :: nat
  lx_end :: nat
  lx_statement :: nat
  lx_kind :: int

type_synonym lexer = "string \<Rightarrow> lexed_import list option"

datatype import_kind = StaticImport | DynamicImport

record import_range =
  ir_specifier :: string
  ir_start :: nat
  ir_end :: nat
  ir_kind :: import_kind
  ir_type_only :: bool

definition word_char :: "char \<Rightarrow> bool" where
  "word_char c = (is_alnum c \<or> c = CHR ''_'')"

text \<open>\<open>\b\<close> after a word, and \<open>\s+\<close>.\<close>

definition word_ends :: "string \<Rightarrow> bool" where
  "word_ends s = (s = [] \<or> \<not> word_char (hd s))"

definition skip_spaces :: "string \<Rightarrow> string option" where
  "skip_spaces s = (if s \<noteq> [] \<and> is_space (hd s) then Some (trim_start s) else None)"

text \<open>\<open>keyword\s+type\b\<close> at the start: what follows it.\<close>

definition after_type :: "string \<Rightarrow> string \<Rightarrow> string option" where
  "after_type keyword s =
     (if \<not> starts_with s keyword then None
      else case skip_spaces (drop (length keyword) s) of
        None \<Rightarrow> None
      | Some r \<Rightarrow> if starts_with r ''type'' \<and> word_ends (drop 4 r) then Some (drop 4 r) else None)"

definition identifier_char :: "char \<Rightarrow> bool" where
  "identifier_char c = (word_char c \<or> c = CHR ''$'')"

definition is_type_only_import_statement :: "string \<Rightarrow> nat \<Rightarrow> bool" where
  "is_type_only_import_statement source statement_start =
     (let stmt = drop statement_start source in
      if after_type ''export'' stmt \<noteq> None then True
      else case after_type ''import'' stmt of
        None \<Rightarrow> False
      | Some after \<Rightarrow>
        (let r = trim_start after in
         if r \<noteq> [] \<and> (hd r = CHR ''{'' \<or> hd r = CHR ''*'') then True
         else if r = [] \<or> is_digit (hd r) \<or> \<not> identifier_char (hd r) then False
         else case skip_spaces (dropWhile identifier_char r) of
           None \<Rightarrow> False
         | Some t \<Rightarrow> starts_with t ''from'' \<and> word_ends (drop 4 t)))"

definition quote_char :: "char \<Rightarrow> bool" where
  "quote_char c = (c = CHR 0x27 \<or> c = CHR 0x22 \<or> c = CHR 0x60)"

definition range_of :: "string \<Rightarrow> lexed_import \<Rightarrow> import_range option" where
  "range_of source i =
     (case lx_name i of
        None \<Rightarrow> None
      | Some n \<Rightarrow>
        if lx_kind i = -2 then None
        else if lx_kind i = -1 then
          Some \<lparr>ir_specifier = n, ir_start = lx_start i, ir_end = lx_end i, ir_kind = StaticImport,
            ir_type_only = is_type_only_import_statement source (lx_statement i)\<rparr>
        else if lx_start i < length source \<and> quote_char (source ! lx_start i) \<and>
          0 < lx_end i \<and> lx_end i - 1 < length source \<and> source ! (lx_end i - 1) = source ! lx_start i then
          Some \<lparr>ir_specifier = n, ir_start = lx_start i + 1, ir_end = lx_end i - 1, ir_kind = DynamicImport,
            ir_type_only = False\<rparr>
        else None)"

definition lex_import_specifiers :: "lexer \<Rightarrow> string \<Rightarrow> import_range list res" where
  "lex_import_specifiers L source =
     (case L source of
        None \<Rightarrow> fails ''invalid_module''
      | Some imports \<Rightarrow> Inr (List.map_filter (range_of source) imports))"

text \<open>\<open>source.slice(a, b)\<close> for positions.\<close>

definition slice_at :: "string \<Rightarrow> nat \<Rightarrow> nat \<Rightarrow> string" where
  "slice_at s a b = take (b - a) (drop a s)"

fun replace_ranges :: "string \<Rightarrow> (string \<Rightarrow> string option) \<Rightarrow> import_range list \<Rightarrow> string \<Rightarrow> nat \<Rightarrow> string" where
  "replace_ranges source repl [] out cursor = (if cursor = 0 then source else out @ drop cursor source)"
| "replace_ranges source repl (r # rs) out cursor =
     (case repl (ir_specifier r) of
        None \<Rightarrow> replace_ranges source repl rs out cursor
      | Some t \<Rightarrow>
        if t = ir_specifier r then replace_ranges source repl rs out cursor
        else replace_ranges source repl rs (out @ slice_at source cursor (ir_start r) @ t) (ir_end r))"

definition replace_import_specifiers :: "string \<Rightarrow> (string \<Rightarrow> string option) \<Rightarrow> import_range list \<Rightarrow> string" where
  "replace_import_specifiers source repl ranges = replace_ranges source repl (sort_key ir_start ranges) [] 0"

section \<open>Normal paths\<close>

definition plain_segment :: "string \<Rightarrow> bool" where
  "plain_segment s = (s \<noteq> [] \<and> s \<noteq> ''.'' \<and> s \<noteq> ''..'' \<and> CHR ''/'' \<notin> set s \<and> CHR 0x5C \<notin> set s)"

lemma module_segments_skip:
  "module_segments ps (filter (\<lambda>s. s \<noteq> [] \<and> s \<noteq> ''.'') ss) = module_segments ps ss"
  by (induction ps ss rule: module_segments.induct) (auto split: list.splits)

lemma module_segments_plain:
  "list_all plain_segment xs \<Longrightarrow> module_segments ps (xs @ ys) = module_segments (rev xs @ ps) ys"
  by (induction xs arbitrary: ps) (auto simp: plain_segment_def)

lemma module_segments_up:
  "n \<le> length ps \<Longrightarrow> module_segments ps (replicate n ''..'' @ ys) = module_segments (drop n ps) ys"
proof (induction n arbitrary: ps)
  case (Suc n)
  then show ?case by (cases ps) auto
qed simp

lemma module_segments_result:
  "module_segments ps ss = Some out \<Longrightarrow> list_all plain_segment ps \<Longrightarrow>
   (\<And>s. s \<in> set ss \<Longrightarrow> CHR ''/'' \<notin> set s \<and> CHR 0x5C \<notin> set s) \<Longrightarrow> list_all plain_segment out"
  by (induction ps ss rule: module_segments.induct) (auto simp: plain_segment_def split: if_splits list.splits)

text \<open>Taking a leading \<open>./\<close> or \<open>/\<close> away first makes no difference.\<close>

lemma normalize_module_path_segments:
  "normalize_module_path path =
     (case module_segments [] (split_on CHR ''/'' (slashes (trim path))) of
        None \<Rightarrow> fails ''invalid_path''
      | Some [] \<Rightarrow> fails ''invalid_path''
      | Some parts \<Rightarrow> Inr (join_with ''/'' parts))"
proof -
  have slash: "module_segments [] (split_on CHR ''/'' (if starts_with b ''/'' then tl b else b)) = module_segments [] (split_on CHR ''/'' b)"
    for b :: string by (auto simp: starts_with_iff)
  have dot: "module_segments [] (split_on CHR ''/'' (if starts_with a ''./'' then drop 2 a else a)) = module_segments [] (split_on CHR ''/'' a)"
    for a :: string by (auto simp: starts_with_iff)
  show ?thesis unfolding normalize_module_path_def Let_def slash dot ..
qed

lemma set_slashes: "CHR 0x5C \<notin> set (slashes s)"
  by (auto simp: slashes_def)

lemma slashes_id: "CHR 0x5C \<notin> set s \<Longrightarrow> slashes s = s"
  by (auto simp: slashes_def intro!: map_idI)

lemma normalized_parts:
  assumes "normalize_module_path path = Inr q"
  obtains parts where "parts \<noteq> []" "list_all plain_segment parts" "q = join_with ''/'' parts"
proof -
  obtain parts where p: "module_segments [] (split_on CHR ''/'' (slashes (trim path))) = Some parts" "parts \<noteq> []" "q = join_with ''/'' parts"
    using assms unfolding normalize_module_path_segments by (auto split: option.splits list.splits)
  have "CHR ''/'' \<notin> set s \<and> CHR 0x5C \<notin> set s" if "s \<in> set (split_on CHR ''/'' (slashes (trim path)))" for s
    using split_on_no_sep [OF that] set_split_on [OF that] set_slashes by blast
  then have "list_all plain_segment parts" using module_segments_result [OF p(1)] by simp
  then show ?thesis using that p(2,3) by blast
qed

text \<open>A normal path: the text of its parts, which no trimming changes.\<close>

definition module_path :: "string list \<Rightarrow> bool" where
  "module_path parts = (parts \<noteq> [] \<and> list_all plain_segment parts \<and>
     \<not> is_space (hd (hd parts)) \<and> \<not> is_space (last (last parts)))"

lemma plain_split: "parts \<noteq> [] \<Longrightarrow> list_all plain_segment parts \<Longrightarrow> split_on CHR ''/'' (join_with ''/'' parts) = parts"
  using split_joined_parts [of parts "CHR ''/''"] by (auto simp: list_all_iff plain_segment_def)

lemma plain_filter: "list_all plain_segment parts \<Longrightarrow> filter (\<lambda>s. s \<noteq> []) parts = parts"
  by (auto simp: list_all_iff plain_segment_def intro!: filter_True)

lemma path_parts_join: "list_all plain_segment parts \<Longrightarrow> path_parts (join_with ''/'' parts) = parts"
  by (cases "parts = []") (simp_all add: path_parts_def plain_split plain_filter)

lemma join_plain_nonempty: "parts \<noteq> [] \<Longrightarrow> list_all plain_segment parts \<Longrightarrow> join_with ''/'' parts \<noteq> []"
  by (cases parts rule: remdups_adj.cases) (auto simp: plain_segment_def)

lemma dirname_join:
  assumes "parts \<noteq> []" "list_all plain_segment parts"
  shows "dirname (join_with ''/'' parts) = join_with ''/'' (butlast parts)"
proof (cases "length parts = 1")
  case True
  then obtain p where "parts = [p]" by (cases parts) auto
  then show ?thesis using assms by (simp add: dirname_def plain_segment_def)
next
  case False
  then obtain p q rest where "parts = p # q # rest" using assms(1) by (cases parts rule: remdups_adj.cases) auto
  then have "CHR ''/'' \<in> set (join_with ''/'' parts)" by simp
  then show ?thesis unfolding dirname_def by (simp only: plain_split [OF assms] if_True)
qed

section \<open>Relative specifiers\<close>

lemma join_with_append:
  "xs \<noteq> [] \<Longrightarrow> ys \<noteq> [] \<Longrightarrow> join_with d (xs @ ys) = join_with d xs @ d @ join_with d ys"
proof (induction xs)
  case (Cons x xs)
  then show ?case by (cases xs; cases ys) auto
qed simp

lemma hd_join: "xs \<noteq> [] \<Longrightarrow> hd xs \<noteq> [] \<Longrightarrow> hd (join_with d xs) = hd (hd xs)"
  by (cases xs rule: remdups_adj.cases) auto

lemma last_join: "xs \<noteq> [] \<Longrightarrow> last xs \<noteq> [] \<Longrightarrow> join_with d xs \<noteq> [] \<and> last (join_with d xs) = last (last xs)"
proof (induction xs)
  case (Cons x xs)
  then show ?case by (cases xs) auto
qed simp

lemma split_joined_then:
  assumes "xs \<noteq> []" "\<forall>x\<in>set xs. d \<notin> set x"
  shows "split_on d (join_with [d] xs @ d # s) = xs @ split_on d s"
  using assms
proof (induction xs)
  case (Cons x xs)
  then show ?case by (cases xs) (simp_all add: split_on_append_sep)
qed simp

lemma shared_prefix_take:
  "shared_prefix as bs \<le> length as \<and> shared_prefix as bs \<le> length bs \<and>
   take (shared_prefix as bs) as = take (shared_prefix as bs) bs"
  by (induction as bs rule: shared_prefix.induct) auto

definition steps_between :: "string list \<Rightarrow> string list \<Rightarrow> string list" where
  "steps_between ds ts =
     (let n = shared_prefix ds ts in replicate (length ds - n) ''..'' @ drop n ts)"

lemma steps_between_walk:
  assumes "list_all plain_segment ds" "list_all plain_segment ts"
  shows "module_segments [] (ds @ steps_between ds ts) = Some ts"
proof -
  let ?n = "shared_prefix ds ts"
  have n: "?n \<le> length ds" "take ?n ds = take ?n ts" using shared_prefix_take by blast+
  have "list_all plain_segment (drop ?n ts)" using assms(2) by (auto simp: list_all_iff dest: in_set_dropD)
  note rest = module_segments_plain [OF this, of _ "[]", simplified]
  have up: "drop (length ds - ?n) (rev ds) = rev (take ?n ds)" using n(1) by (simp add: drop_rev)
  show ?thesis
    unfolding steps_between_def Let_def module_segments_plain [OF assms(1)]
    using n by (simp add: module_segments_up up rest)
qed

lemma steps_no_slash:
  assumes "list_all plain_segment ts" "x \<in> set (steps_between ds ts)"
  shows "x \<noteq> [] \<and> CHR ''/'' \<notin> set x \<and> CHR 0x5C \<notin> set x"
proof -
  have "x = ''..'' \<or> x \<in> set ts"
    using assms(2) by (auto simp: steps_between_def Let_def dest: in_set_dropD)
  moreover have "y \<noteq> [] \<and> CHR ''/'' \<notin> set y \<and> CHR 0x5C \<notin> set y" if "y \<in> set ts" for y
    using assms(1) that unfolding list_all_iff plain_segment_def by simp
  ultimately show ?thesis by (elim disjE) simp_all
qed

text \<open>The specifier is the steps, with a \<open>./\<close> unless they start with a dot.\<close>

lemma relative_specifier_steps:
  assumes "fs \<noteq> []" "list_all plain_segment fs" "list_all plain_segment ts"
  shows "relative_specifier (join_with ''/'' fs) (join_with ''/'' ts) =
    (let spec = join_with ''/'' (steps_between (butlast fs) ts) in if starts_with spec ''.'' then spec else ''./'' @ spec)"
proof -
  have "list_all plain_segment (butlast fs)" using assms(2) by (auto simp: list_all_iff dest: in_set_butlastD)
  then show ?thesis
    using assms by (simp add: relative_specifier_def dirname_join path_parts_join steps_between_def Let_def)
qed

lemma spec_segments:
  assumes "\<forall>x\<in>set xs. CHR ''/'' \<notin> set x"
  defines "spec \<equiv> (if starts_with (join_with ''/'' xs) ''.'' then join_with ''/'' xs else ''./'' @ join_with ''/'' xs)"
  shows "filter (\<lambda>s. s \<noteq> [] \<and> s \<noteq> ''.'') (split_on CHR ''/'' spec) = filter (\<lambda>s. s \<noteq> [] \<and> s \<noteq> ''.'') xs"
proof (cases "xs = []")
  case False
  then show ?thesis using split_joined_parts [of xs "CHR ''/''"] assms by simp
qed (simp add: spec_def)

lemma resolve_relative_steps:
  assumes "module_path fs" "module_path ts"
  shows "resolve_relative (join_with ''/'' fs) (relative_specifier (join_with ''/'' fs) (join_with ''/'' ts)) = Inr (join_with ''/'' ts)"
proof -
  let ?D = "butlast fs" and ?R = "steps_between (butlast fs) ts"
  define spec where "spec = (if starts_with (join_with ''/'' ?R) ''.'' then join_with ''/'' ?R else ''./'' @ join_with ''/'' ?R)"
  have fs: "fs \<noteq> []" "list_all plain_segment fs" and ts: "ts \<noteq> []" "list_all plain_segment ts"
    using assms by (simp_all add: module_path_def)
  have D: "list_all plain_segment ?D" using fs(2) by (auto simp: list_all_iff dest: in_set_butlastD)
  have R: "\<forall>x\<in>set ?R. x \<noteq> [] \<and> CHR ''/'' \<notin> set x \<and> CHR 0x5C \<notin> set x" using steps_no_slash [OF ts(2)] by blast
  have s: "relative_specifier (join_with ''/'' fs) (join_with ''/'' ts) = spec"
    using relative_specifier_steps [OF fs ts(2)] by (simp add: spec_def Let_def)
  define whole where "whole = (if ?D = [] then spec else join_with ''/'' ?D @ ''/'' @ spec)"
  have w: "resolve_relative (join_with ''/'' fs) spec = normalize_module_path whole"
    using fs by (auto simp: resolve_relative_def dirname_join whole_def Let_def join_plain_nonempty [OF _ D])
  have spec_nonempty: "spec \<noteq> []" by (auto simp: spec_def)
  have "\<not> is_space (hd whole)"
  proof (cases "?D = []")
    case True
    then have "hd whole = CHR ''.''" by (auto simp: whole_def spec_def starts_with_iff)
    then show ?thesis by (simp add: is_space_def in_range_def unit_of_def)
  next
    case False
    then have "hd whole = hd (hd fs)"
      using fs D by (cases fs) (simp_all add: whole_def join_plain_nonempty hd_join plain_segment_def split: if_splits)
    then show ?thesis using assms(1) by (simp add: module_path_def)
  qed
  moreover have "\<not> is_space (last whole)"
  proof -
    have l: "last whole = last spec" using spec_nonempty by (simp add: whole_def)
    show ?thesis
    proof (cases "?R = []")
      case True
      then show ?thesis unfolding l by (simp add: spec_def is_space_def in_range_def unit_of_def)
    next
      case False
      then have "last ?R \<noteq> []" using R last_in_set by blast
      then have "last spec = last (last ?R)"
        using last_join [OF False, of "''/''"] by (simp add: spec_def)
      moreover have "last ?R = ''..'' \<or> last ?R = last ts"
        using False by (auto simp: steps_between_def Let_def last_append split: if_splits)
      ultimately show ?thesis
        unfolding l using assms(2) by (auto simp: module_path_def is_space_def in_range_def unit_of_def)
    qed
  qed
  ultimately have t: "trim whole = whole" by (intro trim_id) simp
  have "CHR 0x5C \<notin> set spec" using R set_join_with [of "''/''" ?R] by (auto simp: spec_def split: if_splits)
  moreover have "CHR 0x5C \<notin> set (join_with ''/'' ?D)" using D set_join_with [of "''/''" ?D] by (fastforce simp: list_all_iff plain_segment_def)
  ultimately have b: "slashes whole = whole" by (intro slashes_id) (auto simp: whole_def)
  have sp: "filter (\<lambda>s. s \<noteq> [] \<and> s \<noteq> ''.'') (split_on CHR ''/'' spec) = filter (\<lambda>s. s \<noteq> [] \<and> s \<noteq> ''.'') ?R"
    unfolding spec_def by (rule spec_segments) (use R in blast)
  have "filter (\<lambda>s. s \<noteq> [] \<and> s \<noteq> ''.'') (split_on CHR ''/'' whole) = filter (\<lambda>s. s \<noteq> [] \<and> s \<noteq> ''.'') (?D @ ?R)"
  proof (cases "?D = []")
    case False
    have "\<forall>x\<in>set ?D. CHR ''/'' \<notin> set x" using D unfolding list_all_iff plain_segment_def by blast
    from split_joined_then [OF False this, of spec] have "split_on CHR ''/'' whole = ?D @ split_on CHR ''/'' spec"
      unfolding whole_def using False by simp
    then show ?thesis using sp by simp
  qed (use sp in \<open>simp add: whole_def\<close>)
  then have "module_segments [] (split_on CHR ''/'' whole) = module_segments [] (?D @ ?R)"
    using module_segments_skip [of "[]" "split_on CHR ''/'' whole"] module_segments_skip [of "[]" "?D @ ?R"] by simp
  also have "\<dots> = Some ts" by (rule steps_between_walk [OF D ts(2)])
  finally have "module_segments [] (split_on CHR ''/'' whole) = Some ts" .
  then show ?thesis
    unfolding s w normalize_module_path_segments t b using ts(1) by (cases ts) simp_all
qed

text \<open>The loader takes a specifier as relative only when it starts with \<open>./\<close> or \<open>../\<close>, which one that only
  goes up (\<open>..\<close>) and one for a hidden file or directory does not.\<close>

definition reaches_hidden :: "string list \<Rightarrow> string list \<Rightarrow> bool" where
  "reaches_hidden fs ts =
     (let steps = steps_between (butlast fs) ts in
      steps \<noteq> [] \<and> starts_with (hd steps) ''.'' \<and> \<not> (hd steps = ''..'' \<and> tl steps \<noteq> []))"

lemma is_relative_steps:
  assumes "module_path fs" "module_path ts"
  shows "is_relative (relative_specifier (join_with ''/'' fs) (join_with ''/'' ts)) \<longleftrightarrow> \<not> reaches_hidden fs ts"
proof -
  have fs: "fs \<noteq> []" "list_all plain_segment fs" and ts: "ts \<noteq> []" "list_all plain_segment ts"
    using assms by (simp_all add: module_path_def)
  define R where "R = steps_between (butlast fs) ts"
  have R: "\<forall>x\<in>set R. x \<noteq> [] \<and> CHR ''/'' \<notin> set x" using steps_no_slash [OF ts(2)] unfolding R_def by blast
  have s: "relative_specifier (join_with ''/'' fs) (join_with ''/'' ts) =
      (if starts_with (join_with ''/'' R) ''.'' then join_with ''/'' R else ''./'' @ join_with ''/'' R)"
    unfolding R_def relative_specifier_steps [OF fs ts(2)] Let_def ..
  have no_dot: "hd R \<noteq> ''.''" if "R \<noteq> []"
  proof -
    have "hd R = ''..'' \<or> hd R \<in> set ts" using that by (auto simp: R_def steps_between_def Let_def hd_append hd_drop_conv_nth split: if_splits)
    moreover have "''.'' \<notin> set ts" using ts(2) unfolding list_all_iff plain_segment_def by blast
    ultimately show ?thesis by (elim disjE) (simp, metis)
  qed
  have up: "is_relative j \<longleftrightarrow> hd R = ''..'' \<and> tl R \<noteq> []" if "R \<noteq> []" "starts_with (hd R) ''.''" "j = join_with ''/'' R" for j
  proof -
    note prems = that
    obtain a r where ar: "R = (CHR ''.'' # a) # r" using prems(1,2) by (cases R) (auto simp: starts_with_iff)
    have a: "CHR ''/'' \<notin> set a" "a \<noteq> []" using R no_dot ar by auto
    show ?thesis using a prems(3) ar by (cases a; cases "tl a"; cases r) (auto simp: is_relative_def)
  qed
  show ?thesis
  proof (cases "R \<noteq> [] \<and> starts_with (hd R) ''.''")
    case True
    then have "starts_with (join_with ''/'' R) ''.''" by (cases R rule: remdups_adj.cases) (auto simp: starts_with_iff)
    then show ?thesis using s up True by (simp add: reaches_hidden_def R_def [symmetric] Let_def)
  next
    case False
    have "\<not> starts_with (join_with ''/'' R) ''.''"
    proof (cases R rule: remdups_adj.cases)
      case (3 a b r)
      then show ?thesis using False R by (cases a) (auto simp: starts_with_iff)
    qed (use False in \<open>auto simp: starts_with_iff\<close>)
    then show ?thesis using s False by (auto simp: is_relative_def reaches_hidden_def R_def [symmetric] Let_def)
  qed
qed

text \<open>The specifier that is written for a module resolves, from the importing module, to that module; and the
  loader reads it as a relative one exactly when the first name on the way down is not hidden (and there is a way).\<close>

theorem relative_specifier_resolves:
  assumes "module_path fs" "module_path ts"
  shows "resolve_relative (join_with ''/'' fs) (relative_specifier (join_with ''/'' fs) (join_with ''/'' ts)) = Inr (join_with ''/'' ts)
    \<and> (is_relative (relative_specifier (join_with ''/'' fs) (join_with ''/'' ts)) \<longleftrightarrow> \<not> reaches_hidden fs ts)"
  using resolve_relative_steps [OF assms] is_relative_steps [OF assms] by blast

theorem relative_specifier_resolves_witness:
  "relative_specifier ''packages/a/lib/x.js'' ''packages/a/.env.js'' = ''../.env.js'' \<and>
   relative_specifier ''packages/a/x.js'' ''packages/a/.env.js'' = ''.env.js'' \<and>
   resolve_relative ''packages/a/x.js'' ''.env.js'' = Inr ''packages/a/.env.js'' \<and> \<not> is_relative ''.env.js''"
proof -
  have m: "module_path [''packages'', ''a'', ''x.js'']" "module_path [''packages'', ''a'', ''.env.js'']"
    by (simp_all add: module_path_def plain_segment_def is_space_def in_range_def unit_of_def)
  have p: "list_all plain_segment [''packages'', ''a'', ''lib'', ''x.js'']" "list_all plain_segment [''packages'', ''a'', ''.env.js'']"
    "list_all plain_segment [''packages'', ''a'', ''x.js'']"
    by (simp_all add: plain_segment_def)
  have s: "relative_specifier ''packages/a/lib/x.js'' ''packages/a/.env.js'' = ''../.env.js''"
    "relative_specifier ''packages/a/x.js'' ''packages/a/.env.js'' = ''.env.js''"
    using relative_specifier_steps [OF _ p(1,2)] relative_specifier_steps [OF _ p(3,2)] by (simp_all add: steps_between_def starts_with_def)
  have "reaches_hidden [''packages'', ''a'', ''x.js''] [''packages'', ''a'', ''.env.js'']"
    by (simp add: reaches_hidden_def steps_between_def)
  then show ?thesis using relative_specifier_resolves [OF m] s by simp
qed

section \<open>Replacing specifiers\<close>

text \<open>A source cut at its specifiers: before each range the text that leads to it, and its own text.\<close>

type_synonym piece = "string \<times> string \<times> import_range"

definition piece_range :: "piece \<Rightarrow> import_range" where
  "piece_range = (\<lambda>(t, raw, r). r)"

lemma piece_range_simps [simp]: "piece_range (t, raw, r) = r"
  by (simp add: piece_range_def)

fun placed :: "nat \<Rightarrow> piece list \<Rightarrow> bool" where
  "placed k [] = True"
| "placed k ((t, raw, r) # ps) =
     (raw \<noteq> [] \<and> ir_start r = k + length t \<and> ir_end r = ir_start r + length raw \<and> placed (ir_end r) ps)"

definition source_of :: "piece list \<Rightarrow> string \<Rightarrow> string" where
  "source_of ps tail = concat (map (\<lambda>(t, raw, r). t @ raw) ps) @ tail"

definition replaced_text :: "(string \<Rightarrow> string option) \<Rightarrow> piece \<Rightarrow> string" where
  "replaced_text repl = (\<lambda>(t, raw, r). t @ (case repl (ir_specifier r) of
     None \<Rightarrow> raw | Some v \<Rightarrow> if v = ir_specifier r then raw else v))"

lemma source_of_simps [simp]:
  "source_of [] tail = tail" "source_of ((t, raw, r) # ps) tail = t @ raw @ source_of ps tail"
  by (simp_all add: source_of_def)

lemma replace_ranges_pieces:
  "placed (length done) ps \<Longrightarrow> cursor \<le> length done \<Longrightarrow> (cursor = 0 \<Longrightarrow> out = []) \<Longrightarrow>
   replace_ranges (done @ source_of ps tail) repl (map piece_range ps) out cursor =
   out @ drop cursor done @ concat (map (replaced_text repl) ps) @ tail"
proof (induction ps arbitrary: "done" out cursor)
  case (Cons p ps)
  obtain t raw r where p: "p = (t, raw, r)" by (cases p) auto
  let ?done = "done @ t @ raw"
  have pl: "placed (length ?done) ps" "raw \<noteq> []" "ir_start r = length done + length t" "ir_end r = length ?done"
    using Cons.prems(1) by (auto simp: p add.assoc)
  have keep: "replace_ranges (?done @ source_of ps tail) repl (map piece_range ps) out cursor =
      out @ drop cursor ?done @ concat (map (replaced_text repl) ps) @ tail"
    using Cons.IH [of ?done cursor out] pl(1) Cons.prems(2,3) by simp
  have change: "replace_ranges (?done @ source_of ps tail) repl (map piece_range ps) (out @ drop cursor done @ t @ v) (length ?done) =
      out @ drop cursor done @ t @ v @ concat (map (replaced_text repl) ps) @ tail" for v
    using Cons.IH [of ?done "length ?done" "out @ drop cursor done @ t @ v"] pl(1,2) by simp
  have cut: "slice_at (?done @ source_of ps tail) cursor (ir_start r) = drop cursor done @ t"
    using Cons.prems(2) by (simp add: slice_at_def pl(3))
  show ?case
    using keep change Cons.prems(2) by (auto simp: p cut [simplified] pl(4) replaced_text_def split: option.splits)
qed simp

lemma placed_starts: "placed k ps \<Longrightarrow> r \<in> set (map piece_range ps) \<Longrightarrow> k \<le> ir_start r"
  by (induction k ps rule: placed.induct) fastforce+

lemma placed_sorted: "placed k ps \<Longrightarrow> sorted_wrt (<) (map (\<lambda>p. ir_start (piece_range p)) ps)"
proof (induction k ps rule: placed.induct)
  case (2 k t raw r ps)
  have "ir_start r < ir_start q" if "q \<in> set (map piece_range ps)" for q
    using placed_starts [OF _ that, of "ir_end r"] 2(2) by (cases raw) auto
  then show ?case using 2 by auto
qed simp

lemma sort_unique_keys:
  assumes "mset xs = mset ys" "distinct (map f ys)" "sorted (map f ys)"
  shows "sort_key f xs = ys"
proof (rule properties_for_sort_key)
  fix k assume k: "k \<in> set ys"
  have one: "filter (\<lambda>x. f k = f x) zs = [k]" if "distinct (map f zs)" "k \<in> set zs" for zs
    using that by (induction zs) (auto simp: filter_empty_conv image_iff)
  have "distinct (map f xs)" using assms(1,2) by (metis mset_eq_imp_distinct_iff mset_map)
  then show "filter (\<lambda>x. f k = f x) ys = filter (\<lambda>x. f k = f x) xs"
    using one assms k by (metis mset_eq_setD)
qed (use assms in simp_all)

text \<open>C36 (functional). Whatever the order in which the lexer reports the imports, exactly their specifiers are replaced, each by
  what the map answers for it, and all other text of the source stays.\<close>

theorem replacement_is_exact:
  assumes "placed 0 ps" "mset ranges = mset (map piece_range ps)"
  shows "replace_import_specifiers (source_of ps tail) repl ranges = concat (map (replaced_text repl) ps) @ tail"
proof -
  have s: "sorted_wrt (<) (map ir_start (map piece_range ps))" using placed_sorted [OF assms(1)] by (simp add: comp_def)
  have "sort_key ir_start ranges = map piece_range ps"
    by (rule sort_unique_keys) (use assms(2) s strict_sorted_iff in \<open>auto simp del: map_map\<close>)
  then show ?thesis
    using replace_ranges_pieces [of "[]" ps 0 "[]" tail repl] assms(1) by (simp add: replace_import_specifiers_def)
qed

theorem replacement_is_exact_witness:
  "replace_import_specifiers ''import \"kody:b\"; import(\"./x\")'' (\<lambda>s. if s = ''kody:b'' then Some ''../b/m.js'' else None)
     [\<lparr>ir_specifier = ''./x'', ir_start = 25, ir_end = 28, ir_kind = DynamicImport, ir_type_only = False\<rparr>,
      \<lparr>ir_specifier = ''kody:b'', ir_start = 8, ir_end = 14, ir_kind = StaticImport, ir_type_only = False\<rparr>] =
   ''import \"../b/m.js\"; import(\"./x\")''"
  using replacement_is_exact [of
      "[(''import \"'', ''kody:b'', \<lparr>ir_specifier = ''kody:b'', ir_start = 8, ir_end = 14, ir_kind = StaticImport, ir_type_only = False\<rparr>),
        (''\"; import(\"'', ''./x'', \<lparr>ir_specifier = ''./x'', ir_start = 25, ir_end = 28, ir_kind = DynamicImport, ir_type_only = False\<rparr>)]"
      "[\<lparr>ir_specifier = ''./x'', ir_start = 25, ir_end = 28, ir_kind = DynamicImport, ir_type_only = False\<rparr>,
        \<lparr>ir_specifier = ''kody:b'', ir_start = 8, ir_end = 14, ir_kind = StaticImport, ir_type_only = False\<rparr>]"
      "''\")''" "\<lambda>s. if s = ''kody:b'' then Some ''../b/m.js'' else None"]
  by (simp add: replaced_text_def)

end
