(* ===== verification/Transpile.thy ===== *)
theory Transpile
  imports ModulePaths
begin

text \<open>
  src/src/execute/strip-types.ts: which files of a package are modules, how they are compiled, and the
  JSX options of a package and of a file. The compiler (sucrase), the stripper of JSON comments and
  \<open>JSON.parse\<close> are arguments.
\<close>

datatype script_kind = Ts | Tsx | Jsx

datatype jsx_runtime = AutomaticRuntime | ClassicRuntime | PreserveRuntime | InheritedRuntime string

record jsx_options =
  jx_runtime :: jsx_runtime
  jx_source :: "string option"

definition classic_jsx :: jsx_options where
  "classic_jsx = \<lparr>jx_runtime = ClassicRuntime, jx_source = None\<rparr>"

definition transpile_kind :: "string \<Rightarrow> script_kind option" where
  "transpile_kind path =
     (if ends_with path ''.d.ts'' \<or> ends_with path ''.d.mts'' then None
      else if ends_with path ''.ts'' \<or> ends_with path ''.mts'' then Some Ts
      else if ends_with path ''.tsx'' then Some Tsx
      else if ends_with path ''.jsx'' then Some Jsx
      else None)"

definition is_code_module_path :: "string \<Rightarrow> bool" where
  "is_code_module_path path = (ends_with path ''.js'' \<or> ends_with path ''.mjs'' \<or> transpile_kind path \<noteq> None)"

section \<open>Pragmas\<close>

definition before_line_feed :: "string \<Rightarrow> string" where
  "before_line_feed = takeWhile (\<lambda>c. unit_of c \<noteq> 10)"

definition from_line_feed :: "string \<Rightarrow> string" where
  "from_line_feed = dropWhile (\<lambda>c. unit_of c \<noteq> 10)"

function leading_comments_go :: "string \<Rightarrow> string list" where
  "leading_comments_go rest =
     (if rest = [] then []
      else if is_space (hd rest) then leading_comments_go (trim_start rest)
      else if starts_with rest ''//'' then before_line_feed rest # leading_comments_go (from_line_feed rest)
      else if starts_with rest ''/*'' then
        (case index_of ''*/'' (drop 2 rest) of
           None \<Rightarrow> []
         | Some n \<Rightarrow> take (n + 4) rest # leading_comments_go (drop (n + 4) rest))
      else [])"
  by pat_completeness auto

lemma length_from_line_feed: "unit_of c \<noteq> 10 \<Longrightarrow> length (from_line_feed (c # s)) < Suc (length s)"
  by (simp add: from_line_feed_def length_dropWhile_le less_Suc_eq_le)

lemma length_trim_start: "s \<noteq> [] \<Longrightarrow> is_space (hd s) \<Longrightarrow> length (trim_start s) < length s"
  by (cases s) (auto simp: trim_start_def length_dropWhile_le less_Suc_eq_le)

termination leading_comments_go
proof (relation "measure length", goal_cases)
  case (3 rest)
  then obtain s where "rest = CHR ''/'' # s" by (auto simp: starts_with_iff)
  then show ?case using length_from_line_feed [of "CHR ''/''" s] by (simp add: unit_of_def)
qed (auto simp: length_trim_start)

declare leading_comments_go.simps [simp del]

definition leading_comments :: "string \<Rightarrow> string list" where
  "leading_comments source =
     leading_comments_go (if starts_with source ''#!'' then tl (from_line_feed source) else source)"

text \<open>The leftmost match of a pattern in a text.\<close>

fun first_match :: "(string \<Rightarrow> 'a option) \<Rightarrow> string \<Rightarrow> 'a option" where
  "first_match m [] = m []"
| "first_match m (c # s) = (case m (c # s) of Some x \<Rightarrow> Some x | None \<Rightarrow> first_match m s)"

definition runtime_pragma :: "string \<Rightarrow> jsx_runtime option" where
  "runtime_pragma s =
     (if \<not> starts_with s ''@jsxRuntime'' then None
      else case skip_spaces (drop 11 s) of
        None \<Rightarrow> None
      | Some r \<Rightarrow>
        if starts_with r ''classic'' \<and> word_ends (drop 7 r) then Some ClassicRuntime
        else if starts_with r ''automatic'' \<and> word_ends (drop 9 r) then Some AutomaticRuntime
        else None)"

fun until_comment_end :: "string \<Rightarrow> string" where
  "until_comment_end [] = []"
| "until_comment_end (c # s) =
     (if is_space c \<or> starts_with (c # s) ''*/'' then [] else c # until_comment_end s)"

definition source_pragma :: "string \<Rightarrow> string option" where
  "source_pragma s =
     (if \<not> starts_with s ''@jsxImportSource'' then None
      else case skip_spaces (drop 16 s) of
        None \<Rightarrow> None
      | Some [] \<Rightarrow> None
      | Some (c # r) \<Rightarrow> Some (c # until_comment_end r))"

definition or_else :: "'a option \<Rightarrow> 'a option \<Rightarrow> 'a option" where
  "or_else a b = (case a of None \<Rightarrow> b | Some x \<Rightarrow> Some x)"

definition with_pragmas :: "string \<Rightarrow> jsx_options \<Rightarrow> jsx_options" where
  "with_pragmas source jsx =
     (let (runtime, import_source) =
            fold (\<lambda>comment (r, i). (or_else (first_match runtime_pragma comment) r, or_else (first_match source_pragma comment) i))
              (leading_comments source) (None, None)
      in if runtime = Some ClassicRuntime then classic_jsx
         else case some_text import_source of
           Some i \<Rightarrow> \<lparr>jx_runtime = AutomaticRuntime, jx_source = Some i\<rparr>
         | None \<Rightarrow>
           if runtime = Some AutomaticRuntime then \<lparr>jx_runtime = AutomaticRuntime, jx_source = some_text (jx_source jsx)\<rparr>
           else jsx)"

section \<open>Compiling\<close>

text \<open>The environment of the compiler: sucrase answers the code or fails.\<close>

record compiler =
  cc_transform :: "script_kind \<Rightarrow> jsx_options option \<Rightarrow> string \<Rightarrow> string option"
  cc_strip_comments :: "string \<Rightarrow> string"
  cc_json :: "string \<Rightarrow> json option"

definition strip_types :: "compiler \<Rightarrow> script_kind \<Rightarrow> jsx_options \<Rightarrow> string \<Rightarrow> string res" where
  "strip_types C kind jsx source =
     (let options = (if kind = Ts then None
        else (let p = with_pragmas source jsx in Some \<lparr>jx_runtime = jx_runtime p, jx_source = some_text (jx_source p)\<rparr>))
      in case cc_transform C kind options source of
           None \<Rightarrow> fails ''invalid_module''
         | Some code \<Rightarrow> Inr code)"

definition runtime_by_tsconfig_jsx :: "string \<Rightarrow> jsx_runtime option" where
  "runtime_by_tsconfig_jsx t =
     (if t = ''react-jsx'' \<or> t = ''react-jsxdev'' then Some AutomaticRuntime
      else if t = ''react'' then Some ClassicRuntime
      else if t = ''preserve'' then Some PreserveRuntime
      else if t \<in> set object_members then Some (InheritedRuntime t)
      else None)"

text \<open>The fields of \<open>compilerOptions\<close>; an array has none of those that are read.\<close>

definition compiler_options :: "json \<Rightarrow> (string \<times> json) list option" where
  "compiler_options parsed =
     (case parsed of
        JObj es \<Rightarrow> (case json_field ''compilerOptions'' es of
            Some (JObj os) \<Rightarrow> Some os | Some (JArr _) \<Rightarrow> Some [] | _ \<Rightarrow> None)
      | _ \<Rightarrow> None)"

definition jsx_options_from_files :: "compiler \<Rightarrow> (string \<times> string) list \<Rightarrow> jsx_options" where
  "jsx_options_from_files C files =
     (case map_of files ''tsconfig.json'' of
        None \<Rightarrow> classic_jsx
      | Some raw \<Rightarrow>
        (case Option.bind (cc_json C (cc_strip_comments C raw)) compiler_options of
           None \<Rightarrow> classic_jsx
         | Some os \<Rightarrow>
           (case (case json_field ''jsx'' os of Some (JStr t) \<Rightarrow> runtime_by_tsconfig_jsx t | _ \<Rightarrow> None) of
              None \<Rightarrow> classic_jsx
            | Some runtime \<Rightarrow>
              \<lparr>jx_runtime = runtime, jx_source = (case json_field ''jsxImportSource'' os of Some (JStr t) \<Rightarrow> some_text (Some t) | _ \<Rightarrow> None)\<rparr>)))"

end
