(* ===== verification/Worklist.thy ===== *)
theory Worklist
  imports Prelude
begin

text \<open>
  The breadth-first walks over the modules of a package (src/src/packages/manifest.ts,
  src/src/execute/module-graph.ts): a queue of paths, the paths already seen, and for each new path
  the ones it leads to, or an error that ends the walk. Paths outside a finite universe are passed
  over, which is what makes the walk end.
\<close>

function explore :: "'a list \<Rightarrow> ('a \<Rightarrow> 'a list res) \<Rightarrow> 'a list \<Rightarrow> 'a list \<Rightarrow> 'a list res" where
  "explore U next seen [] = Inr seen"
| "explore U next seen (p # queue) =
     (if p \<in> set seen \<or> p \<notin> set U then explore U next seen queue
      else (case next p of
              Inl e \<Rightarrow> Inl e
            | Inr ts \<Rightarrow> explore U next (seen @ [p]) (queue @ ts)))"
  by pat_completeness auto

termination
proof (relation "measures [\<lambda>(U, next, seen, queue). card (set U - set seen), \<lambda>(U, next, seen, queue). length queue]", goal_cases)
  case (3 U "next" seen p queue ts)
  have "card (set U - set (seen @ [p])) < card (set U - set seen)"
    by (rule psubset_card_mono) (use 3 in auto)
  then show ?case by simp
qed simp_all

text \<open>What is reached from the start, within the universe.\<close>

inductive reached :: "'a list \<Rightarrow> ('a \<Rightarrow> 'a list res) \<Rightarrow> 'a list \<Rightarrow> 'a \<Rightarrow> bool" for U "next" start where
  reached_start: "p \<in> set start \<Longrightarrow> p \<in> set U \<Longrightarrow> reached U next start p"
| reached_step: "reached U next start p \<Longrightarrow> next p = Inr ts \<Longrightarrow> t \<in> set ts \<Longrightarrow> t \<in> set U \<Longrightarrow> reached U next start t"

lemma explore_Inr:
  assumes "explore U next seen queue = Inr out"
    "\<forall>p\<in>set seen. \<exists>ts. next p = Inr ts \<and> set ts \<inter> set U \<subseteq> set seen \<union> set queue"
  shows "set seen \<subseteq> set out \<and> set queue \<inter> set U \<subseteq> set out \<and>
    (\<forall>p\<in>set out. \<exists>ts. next p = Inr ts \<and> set ts \<inter> set U \<subseteq> set out)"
  using assms
proof (induction U "next" seen queue arbitrary: out rule: explore.induct)
  case (2 U "next" seen p queue)
  show ?case
  proof (cases "p \<in> set seen \<or> p \<notin> set U")
    case True
    have "\<forall>q\<in>set seen. \<exists>ts. next q = Inr ts \<and> set ts \<inter> set U \<subseteq> set seen \<union> set queue"
      using "2.prems"(2) True by fastforce
    then show ?thesis using "2.IH"(1) [OF True] "2.prems"(1) True by auto
  next
    case False
    then obtain ts where ts: "next p = Inr ts" and r: "explore U next (seen @ [p]) (queue @ ts) = Inr out"
      using "2.prems"(1) by (auto split: sum.splits)
    have "\<forall>q\<in>set (seen @ [p]). \<exists>us. next q = Inr us \<and> set us \<inter> set U \<subseteq> set (seen @ [p]) \<union> set (queue @ ts)"
      using "2.prems"(2) ts by fastforce
    from "2.IH"(2) [OF False ts r this] show ?thesis by auto
  qed
qed simp

lemma explore_subset:
  assumes "explore U next seen queue = Inr out"
    "\<forall>p\<in>set seen. reached U next start p" "\<forall>p\<in>set queue. p \<in> set U \<longrightarrow> reached U next start p"
  shows "\<forall>p\<in>set out. reached U next start p"
  using assms
proof (induction U "next" seen queue arbitrary: out rule: explore.induct)
  case (2 U "next" seen p queue)
  show ?case
  proof (cases "p \<in> set seen \<or> p \<notin> set U")
    case True
    then show ?thesis using "2.IH"(1) [OF True] "2.prems" by simp
  next
    case False
    then obtain ts where ts: "next p = Inr ts" and r: "explore U next (seen @ [p]) (queue @ ts) = Inr out"
      using "2.prems"(1) by (auto split: sum.splits)
    have p: "reached U next start p" using "2.prems"(3) False by simp
    show ?thesis
      by (rule "2.IH"(2) [OF False ts r]) (use "2.prems"(2,3) p reached_step [OF p ts] in auto)
  qed
qed simp

lemma explore_Inl:
  assumes "explore U next seen queue = Inl e"
    "\<forall>p\<in>set queue. p \<in> set U \<longrightarrow> reached U next start p"
  shows "\<exists>p. reached U next start p \<and> next p = Inl e"
  using assms
proof (induction U "next" seen queue rule: explore.induct)
  case (2 U "next" seen p queue)
  show ?case
  proof (cases "p \<in> set seen \<or> p \<notin> set U")
    case True
    then show ?thesis using "2.IH"(1) [OF True] "2.prems" by simp
  next
    case False
    have p: "reached U next start p" using "2.prems"(2) False by simp
    show ?thesis
    proof (cases "next p")
      case (Inl e')
      then show ?thesis using "2.prems"(1) False p by auto
    next
      case (Inr ts)
      then have r: "explore U next (seen @ [p]) (queue @ ts) = Inl e" using "2.prems"(1) False by simp
      show ?thesis
        by (rule "2.IH"(2) [OF False Inr r]) (use "2.prems"(2) reached_step [OF p Inr] in auto)
    qed
  qed
qed simp

text \<open>A walk that ends well has seen exactly what is reached; one that fails does so for a reached path.\<close>

lemma explore_reached:
  assumes "explore U next [] start = Inr out"
  shows "set out = {p. reached U next start p}" "reached U next start p \<Longrightarrow> \<exists>ts. next p = Inr ts"
proof -
  have c: "set start \<inter> set U \<subseteq> set out" "\<forall>p\<in>set out. \<exists>ts. next p = Inr ts \<and> set ts \<inter> set U \<subseteq> set out"
    using explore_Inr [OF assms] by auto
  have r: "p \<in> set out" if "reached U next start p" for p
    using that by (induction rule: reached.induct) (use c in fastforce)+
  have "\<forall>p\<in>set out. reached U next start p"
    by (rule explore_subset [OF assms]) (auto intro: reached_start)
  with r show "set out = {p. reached U next start p}" by blast
  show "\<exists>ts. next p = Inr ts" if "reached U next start p" for p using c(2) r [OF that] by blast
qed

lemma explore_fails:
  "explore U next [] start = Inl e \<Longrightarrow> \<exists>p. reached U next start p \<and> next p = Inl e"
  by (rule explore_Inl) (auto intro: reached_start)

lemma explore_ok_iff: "is_ok (explore U next [] start) \<longleftrightarrow> (\<forall>p. reached U next start p \<longrightarrow> is_ok (next p))"
proof (cases "explore U next [] start")
  case (Inl e)
  then show ?thesis using explore_fails by (metis is_ok_simps(2))
next
  case (Inr out)
  then show ?thesis using explore_reached(2) [OF Inr] by (metis is_ok_simps(1))
qed

end
