(* ===== verification/PackageManifest.thy ===== *)
theory PackageManifest
  imports Transpile Worklist AppUrl Jobs WebhookVerify
begin

text \<open>
  src/src/packages/manifest.ts: reading \<open>package.json\<close> of the files of a package. A file table is a list
  of paths and contents with distinct paths. \<open>path in files\<close> and \<open>exports[name]\<close> are lookups in plain
  objects, so they also find the inherited members.
\<close>

type_synonym package_files = "(string \<times> string) list"

record subscription =
  sb_topic :: string
  sb_handler :: string
  sb_description :: "string option"

record secret_provider =
  sp_id :: string
  sp_entry :: string
  sp_description :: "string option"

record app_definition =
  ad_entry :: string
  ad_assets :: "string option"
  ad_client :: bool

record package_manifest =
  pm_name :: string
  pm_version :: string
  pm_description :: string
  pm_exports :: "(string \<times> string) list"
  pm_jobs :: "(string \<times> manifest_job) list"
  pm_webhooks :: "webhook_definition list"
  pm_subscriptions :: "subscription list"
  pm_provider :: "secret_provider option"
  pm_app :: "app_definition option"
  pm_dependencies :: "(string \<times> string) list"
  pm_hidden :: bool
  pm_keywords :: "string list"

section \<open>Values of a parsed object\<close>

definition invalid_manifest :: "'a res" where
  "invalid_manifest = fails ''invalid_manifest''"

text \<open>\<open>value ?? d\<close>.\<close>

definition nullish :: "json option \<Rightarrow> json \<Rightarrow> json" where
  "nullish v d = (case v of None \<Rightarrow> d | Some JNull \<Rightarrow> d | Some x \<Rightarrow> x)"

definition text_field :: "string \<Rightarrow> (string \<times> json) list \<Rightarrow> string option" where
  "text_field k es = (case json_field k es of Some (JStr t) \<Rightarrow> Some t | _ \<Rightarrow> None)"

text \<open>A text that is not blank, trimmed.\<close>

definition filled_field :: "string \<Rightarrow> (string \<times> json) list \<Rightarrow> string option" where
  "filled_field k es = Option.bind (text_field k es) (\<lambda>t. some_text (Some (trim t)))"

definition integer_between :: "int \<Rightarrow> int \<Rightarrow> json \<Rightarrow> int option" where
  "integer_between lo hi v =
     (case v of
        JNum n \<Rightarrow> (case integer_value n of Some i \<Rightarrow> if lo \<le> i \<and> i \<le> hi then Some i else None | None \<Rightarrow> None)
      | _ \<Rightarrow> None)"

section \<open>Schedules\<close>

definition parse_schedule :: "json option \<Rightarrow> schedule res" where
  "parse_schedule raw =
     (case raw of
        Some (JObj es) \<Rightarrow>
          (case (text_field ''type'' es, filled_field ''expression'' es, filled_field ''every'' es, filled_field ''runAt'' es) of
             (Some k, cron, every, run_at) \<Rightarrow>
               if k = ''cron'' \<and> cron \<noteq> None then Inr (Cron (the cron))
               else if k = ''interval'' \<and> every \<noteq> None then Inr (Interval (the every))
               else if k = ''once'' \<and> run_at \<noteq> None then Inr (Once (the run_at))
               else invalid_manifest
           | _ \<Rightarrow> invalid_manifest)
      | _ \<Rightarrow> invalid_manifest)"

section \<open>Webhooks\<close>

definition secret_name_char :: "char \<Rightarrow> bool" where
  "secret_name_char c = (is_alnum c \<or> c = CHR ''.'' \<or> c = CHR ''_'' \<or> c = CHR ''-'')"

definition encoding_named :: "json \<Rightarrow> signature_encoding option" where
  "encoding_named v =
     (if v = JStr ''hex'' then Some HexSignature else if v = JStr ''base64'' then Some Base64Signature else None)"

definition payload_named :: "json \<Rightarrow> signed_payload option" where
  "payload_named v =
     (if v = JStr ''body'' then Some SignedBody else if v = JStr ''timestamp.body'' then Some SignedTimestampBody else None)"

definition parse_webhook_verification :: "json \<Rightarrow> verification res" where
  "parse_webhook_verification raw =
     (case raw of
        JObj es \<Rightarrow>
          if json_field ''type'' es \<noteq> Some (JStr ''hmac-sha256'') then invalid_manifest
          else (case filled_field ''header'' es of
             None \<Rightarrow> invalid_manifest
           | Some header \<Rightarrow>
             if json_field ''secret'' es \<noteq> None \<or> json_field ''secretValue'' es \<noteq> None then invalid_manifest
             else (case text_field ''secretName'' es of
                None \<Rightarrow> invalid_manifest
              | Some secret \<Rightarrow>
                if secret = [] \<or> \<not> list_all secret_name_char secret then invalid_manifest
                else (case (encoding_named (nullish (json_field ''encoding'' es) (JStr ''hex'')),
                            payload_named (nullish (json_field ''signedPayload'' es) (JStr ''body''))) of
                   (Some enc, Some payload) \<Rightarrow>
                     (case json_field ''prefix'' es of
                        None \<Rightarrow> Inr \<lparr>vf_header = to_lower header, vf_secret = secret, vf_encoding = enc, vf_prefix = None, vf_payload = payload\<rparr>
                      | Some (JStr p) \<Rightarrow> Inr \<lparr>vf_header = to_lower header, vf_secret = secret, vf_encoding = enc, vf_prefix = Some p, vf_payload = payload\<rparr>
                      | _ \<Rightarrow> invalid_manifest)
                 | _ \<Rightarrow> invalid_manifest)))
      | _ \<Rightarrow> invalid_manifest)"

text \<open>The format that \<open>String(value)\<close> names, which for an array of one element is the name of the element. Such
  an array is stored as it is, and the readers of the format, which compare it with the names, then take it
  for the default, seconds. \<open>String\<close> throws on an object whose \<open>toString\<close> is not a function.\<close>

fun string_throws :: "json \<Rightarrow> bool" where
  "string_throws (JObj es) = (json_field ''toString'' es \<noteq> None)"
| "string_throws (JArr vs) = list_ex string_throws vs"
| "string_throws _ = False"

definition format_name :: "string \<Rightarrow> timestamp_format option" where
  "format_name t =
     (if t = ''unix-seconds'' then Some UnixSeconds else if t = ''unix-millis'' then Some UnixMillis
      else if t = ''iso'' then Some IsoTime else if t = ''stripe-signature'' then Some StripeSignature else None)"

fun names_format :: "json \<Rightarrow> bool" where
  "names_format (JStr t) = (format_name t \<noteq> None)"
| "names_format (JArr [v]) = names_format v"
| "names_format _ = False"

definition stored_format :: "json \<Rightarrow> timestamp_format" where
  "stored_format v = (case v of JStr t \<Rightarrow> (case format_name t of Some f \<Rightarrow> f | None \<Rightarrow> UnixSeconds) | _ \<Rightarrow> UnixSeconds)"

definition parse_timestamp_part :: "(string \<times> json) list \<Rightarrow> (string \<times> timestamp_format \<times> int) option res" where
  "parse_timestamp_part es =
     (if json_field ''timestampHeader'' es = None then Inr None
      else case filled_field ''timestampHeader'' es of
        None \<Rightarrow> invalid_manifest
      | Some header \<Rightarrow>
        (let format = nullish (json_field ''timestampFormat'' es) (JStr ''unix-seconds'') in
         if string_throws format then internal_error
         else if \<not> names_format format then invalid_manifest
         else case integer_between 1 86400 (nullish (json_field ''toleranceSeconds'' es) (JNum (Num 300))) of
           None \<Rightarrow> invalid_manifest
         | Some tolerance \<Rightarrow> Inr (Some (to_lower header, stored_format format, tolerance))))"

definition parse_webhook_replay :: "json \<Rightarrow> replay res" where
  "parse_webhook_replay raw =
     (case raw of
        JObj es \<Rightarrow>
          bind_res (parse_timestamp_part es) (\<lambda>stamp.
          bind_res (if json_field ''deliveryIdHeader'' es = None then Inr None
                    else case filled_field ''deliveryIdHeader'' es of
                      None \<Rightarrow> invalid_manifest
                    | Some h \<Rightarrow> Inr (Some (to_lower h))) (\<lambda>delivery.
          if stamp = None \<and> delivery = None then invalid_manifest
          else Inr \<lparr>rp_timestamp_header = map_option fst stamp, rp_format = map_option (\<lambda>s. fst (snd s)) stamp,
                    rp_tolerance = map_option (\<lambda>s. snd (snd s)) stamp, rp_delivery_header = delivery\<rparr>))
      | _ \<Rightarrow> invalid_manifest)"

definition webhook_name_pattern :: "string \<Rightarrow> bool" where
  "webhook_name_pattern t =
     (t \<noteq> [] \<and> name_start (hd t) \<and> list_all (\<lambda>c. name_start c \<or> c = CHR ''-'') (tl t))"

text \<open>\<open>exports[name]\<close>, if it counts as true. An inherited member has no text.\<close>

definition export_entry :: "(string \<times> string) list \<Rightarrow> string \<Rightarrow> string option" where
  "export_entry exports name =
     (case map_of exports name of
        Some path \<Rightarrow> some_text (Some path)
      | None \<Rightarrow> if name \<in> set object_members then Some [] else None)"

definition response_mode_named :: "json \<Rightarrow> response_mode option" where
  "response_mode_named v = (if v = JStr ''ack'' then Some AckResponse else if v = JStr ''sync'' then Some SyncResponse else None)"

definition input_mode_named :: "json \<Rightarrow> input_mode option" where
  "input_mode_named v = (if v = JStr ''request'' then Some RequestInput else if v = JStr ''params'' then Some ParamsInput else None)"

definition optional_res :: "(json \<Rightarrow> 'a res) \<Rightarrow> json option \<Rightarrow> 'a option res" where
  "optional_res f v = (case v of None \<Rightarrow> Inr None | Some x \<Rightarrow> map_sum id Some (f x))"

definition signs_timestamp :: "verification option \<Rightarrow> bool" where
  "signs_timestamp v = (case v of Some vf \<Rightarrow> vf_payload vf = SignedTimestampBody | None \<Rightarrow> False)"

definition parse_webhook :: "(string \<times> string) list \<Rightarrow> string list \<Rightarrow> json \<Rightarrow> webhook_definition res" where
  "parse_webhook exports seen item =
     (case item of
        JObj es \<Rightarrow>
          (case text_field ''name'' es of
             None \<Rightarrow> invalid_manifest
           | Some name \<Rightarrow>
             if \<not> webhook_name_pattern name \<or> 64 < length name then invalid_manifest
             else if name \<in> set seen then invalid_manifest
             else (case text_field ''export'' es of
                None \<Rightarrow> invalid_manifest
              | Some exported \<Rightarrow>
                if exported = ''*'' then invalid_manifest
                else
                (let export_name = (if exported = ''.'' then ''.'' else without_dot exported) in
                 case (export_entry exports export_name,
                       response_mode_named (nullish (json_field ''responseMode'' es) (JStr ''ack'')),
                       input_mode_named (nullish (json_field ''inputMode'' es) (JStr ''request'')),
                       integer_between 1 600 (nullish (json_field ''rateLimitPerMinute'' es) (JNum (Num 60)))) of
                   (Some entry, Some response, Some input, Some rate) \<Rightarrow>
                     bind_res (optional_res parse_webhook_verification (json_field ''verification'' es)) (\<lambda>verification.
                     bind_res (optional_res parse_webhook_replay (json_field ''replay'' es)) (\<lambda>replay.
                       if signs_timestamp verification \<and> Option.bind replay rp_timestamp_header = None then invalid_manifest
                       else Inr \<lparr>wd_name = name, wd_export = export_name, wd_entry = entry, wd_response = response,
                         wd_input = input, wd_rate = nat rate, wd_verification = verification, wd_replay = replay,
                         wd_description = text_field ''description'' es\<rparr>))
                 | _ \<Rightarrow> invalid_manifest)))
      | _ \<Rightarrow> invalid_manifest)"

fun parse_webhook_items :: "(string \<times> string) list \<Rightarrow> string list \<Rightarrow> json list \<Rightarrow> webhook_definition list res" where
  "parse_webhook_items exports seen [] = Inr []"
| "parse_webhook_items exports seen (item # items) =
     bind_res (parse_webhook exports seen item) (\<lambda>w.
     bind_res (parse_webhook_items exports (wd_name w # seen) items) (\<lambda>ws. Inr (w # ws)))"

definition parse_webhooks :: "json option \<Rightarrow> (string \<times> string) list \<Rightarrow> webhook_definition list res" where
  "parse_webhooks raw exports =
     (case raw of
        None \<Rightarrow> Inr []
      | Some (JArr items) \<Rightarrow> parse_webhook_items exports [] items
      | _ \<Rightarrow> invalid_manifest)"

section \<open>Subscriptions, provider and app\<close>

definition subscription_topics :: "string list" where
  "subscription_topics =
     [''email.message.received'', ''email.message.quarantined'', ''email.message.delivery.updated'',
      ''integration.auth.succeeded'', ''integration.auth.failed'']"

text \<open>A path of the manifest that has to be in the files.\<close>

definition file_reference :: "package_files \<Rightarrow> string \<Rightarrow> string res" where
  "file_reference files raw =
     bind_res (normalize_module_path raw) (\<lambda>path. if in_object path files then Inr path else invalid_manifest)"

definition parse_subscription :: "package_files \<Rightarrow> string \<times> json \<Rightarrow> subscription res" where
  "parse_subscription files = (\<lambda>(topic, item).
     if topic \<notin> set subscription_topics then invalid_manifest
     else (case item of
        JObj es \<Rightarrow>
          (case text_field ''handler'' es of
             None \<Rightarrow> invalid_manifest
           | Some raw \<Rightarrow>
             bind_res (file_reference files raw) (\<lambda>handler.
               Inr \<lparr>sb_topic = topic, sb_handler = handler, sb_description = text_field ''description'' es\<rparr>))
      | _ \<Rightarrow> invalid_manifest))"

definition parse_subscriptions :: "json option \<Rightarrow> package_files \<Rightarrow> subscription list res" where
  "parse_subscriptions raw files =
     (case raw of
        None \<Rightarrow> Inr []
      | Some (JObj es) \<Rightarrow> map_res (parse_subscription files) (object_entries es)
      | _ \<Rightarrow> invalid_manifest)"

definition secret_provider_id_pattern :: "string \<Rightarrow> bool" where
  "secret_provider_id_pattern t = (name_segment t \<and> length t \<le> 64)"

definition parse_secret_provider :: "json option \<Rightarrow> (string \<times> string) list \<Rightarrow> secret_provider option res" where
  "parse_secret_provider raw exports =
     (case raw of
        None \<Rightarrow> Inr None
      | Some (JObj es) \<Rightarrow>
          (case text_field ''id'' es of
             None \<Rightarrow> invalid_manifest
           | Some ident \<Rightarrow>
             if \<not> secret_provider_id_pattern ident then invalid_manifest
             else (case some_text (map_of exports ''secretProvider'') of
                None \<Rightarrow> invalid_manifest
              | Some entry \<Rightarrow> Inr (Some \<lparr>sp_id = ident, sp_entry = entry, sp_description = text_field ''description'' es\<rparr>)))
      | _ \<Rightarrow> invalid_manifest)"

definition reserved_asset_root :: "string \<Rightarrow> bool" where
  "reserved_asset_root t =
     (t = ''__version.json'' \<or>
      length t = 26 \<and> starts_with t ''client.'' \<and> ends_with t ''.js'' \<and>
      list_all (\<lambda>c. is_digit c \<or> in_range 97 102 c) (take 16 (drop 7 t)))"

definition parse_assets :: "package_files \<Rightarrow> json option \<Rightarrow> string option res" where
  "parse_assets files raw =
     (case raw of
        None \<Rightarrow> Inr None
      | Some (JStr t) \<Rightarrow>
          bind_res (normalize_module_path t) (\<lambda>assets.
            (let pre = assets @ ''/''; inside = filter (\<lambda>p. starts_with p pre) (map fst files) in
             if inside = [] then invalid_manifest
             else if list_ex (\<lambda>p. reserved_asset_root (drop (length pre) p)) inside then invalid_manifest
             else Inr (Some assets)))
      | _ \<Rightarrow> invalid_manifest)"

definition parse_client :: "package_files \<Rightarrow> json option \<Rightarrow> bool res" where
  "parse_client files raw =
     (case raw of
        None \<Rightarrow> Inr False
      | Some v \<Rightarrow>
        (case (case v of JStr t \<Rightarrow> Some t | JObj es \<Rightarrow> text_field ''entry'' es | _ \<Rightarrow> None) of
           None \<Rightarrow> invalid_manifest
         | Some t \<Rightarrow> map_sum id (\<lambda>_. True) (file_reference files t)))"

definition parse_app :: "json option \<Rightarrow> package_files \<Rightarrow> app_definition option res" where
  "parse_app raw files =
     (case raw of
        None \<Rightarrow> Inr None
      | Some (JObj es) \<Rightarrow>
          if json_field ''runtime'' es \<noteq> None then invalid_manifest
          else (case text_field ''entry'' es of
             None \<Rightarrow> invalid_manifest
           | Some t \<Rightarrow>
             bind_res (file_reference files t) (\<lambda>entry.
               if \<not> is_code_module_path entry then invalid_manifest
               else
                 bind_res (parse_assets files (json_field ''assets'' es)) (\<lambda>assets.
                 bind_res (parse_client files (json_field ''client'' es)) (\<lambda>client.
                   Inr (Some \<lparr>ad_entry = entry, ad_assets = assets, ad_client = client\<rparr>)))))
      | _ \<Rightarrow> invalid_manifest)"

definition manifest_warnings :: "package_manifest \<Rightarrow> string list" where
  "manifest_warnings m =
     (case pm_app m of
        Some a \<Rightarrow> if ad_client a then [''kody.app.client is not built on kody-celld yet; the app is served server-rendered only.''] else []
      | None \<Rightarrow> [])"

section \<open>Exports, jobs and dependencies\<close>

fun collect_exports :: "(string \<times> json) list \<Rightarrow> (string \<times> string) list \<Rightarrow> (string \<times> string) list res" where
  "collect_exports [] exports = Inr exports"
| "collect_exports ((key, JStr value) # es) exports =
     bind_res (normalize_module_path value) (\<lambda>path.
       collect_exports es (put_key (if key = ''.'' then ''.'' else without_dot key) path exports))"
| "collect_exports ((key, v) # es) exports = invalid_manifest"

definition parse_exports :: "(string \<times> json) list \<Rightarrow> package_files \<Rightarrow> (string \<times> string) list res" where
  "parse_exports es files =
     bind_res
       (case json_field ''exports'' es of
          Some (JStr t) \<Rightarrow> map_sum id (\<lambda>p. [(''.'', p)]) (normalize_module_path t)
        | Some (JObj xs) \<Rightarrow> collect_exports (object_entries xs) []
        | _ \<Rightarrow> (case text_field ''main'' es of Some t \<Rightarrow> map_sum id (\<lambda>p. [(''.'', p)]) (normalize_module_path t) | None \<Rightarrow> Inr []))
       (\<lambda>exports.
         if list_all (\<lambda>(name, path). in_object path files) exports then Inr (own_order exports) else invalid_manifest)"

definition job_name_pattern :: "string \<Rightarrow> bool" where
  "job_name_pattern t = (t \<noteq> [] \<and> is_alnum (hd t) \<and> list_all secret_name_char (tl t))"

definition parse_job :: "package_files \<Rightarrow> string \<times> json \<Rightarrow> (string \<times> manifest_job) res" where
  "parse_job files = (\<lambda>(name, raw).
     if \<not> job_name_pattern name then invalid_manifest
     else (case raw of
        JObj es \<Rightarrow>
          (case text_field ''entry'' es of
             None \<Rightarrow> invalid_manifest
           | Some t \<Rightarrow>
             bind_res (file_reference files t) (\<lambda>entry.
             bind_res (parse_schedule (json_field ''schedule'' es)) (\<lambda>schedule.
               Inr (name, \<lparr>mj_entry = entry, mj_schedule = schedule, mj_timezone = text_field ''timezone'' es,
                 mj_description = text_field ''description'' es,
                 mj_enabled = (case json_field ''enabled'' es of Some (JBool b) \<Rightarrow> Some b | _ \<Rightarrow> None)\<rparr>))))
      | _ \<Rightarrow> invalid_manifest))"

definition parse_jobs :: "json option \<Rightarrow> package_files \<Rightarrow> (string \<times> manifest_job) list res" where
  "parse_jobs raw files =
     (case raw of
        None \<Rightarrow> Inr []
      | Some (JObj es) \<Rightarrow> map_res (parse_job files) (object_entries es)
      | _ \<Rightarrow> invalid_manifest)"

definition parse_dependency :: "string \<times> json \<Rightarrow> (string \<times> string) res" where
  "parse_dependency = (\<lambda>(dep, v).
     (case v of
        JStr t \<Rightarrow> if package_name_pattern dep then Inr (dep, t) else invalid_manifest
      | _ \<Rightarrow> invalid_manifest))"

definition parse_dependencies :: "json option \<Rightarrow> (string \<times> string) list res" where
  "parse_dependencies raw =
     (case raw of Some (JObj es) \<Rightarrow> map_res parse_dependency (object_entries es) | _ \<Rightarrow> Inr [])"

section \<open>Imports of the files\<close>

text \<open>\<open>importSource\<close>: \<open>None\<close> for a file the compiler cannot read.\<close>

definition import_source :: "compiler \<Rightarrow> jsx_options \<Rightarrow> string \<Rightarrow> string \<Rightarrow> string option" where
  "import_source C jsx path source =
     (case transpile_kind path of
        None \<Rightarrow> Some source
      | Some kind \<Rightarrow> (case strip_types C kind jsx source of Inl _ \<Rightarrow> None | Inr code \<Rightarrow> Some code))"

fun module_sources :: "package_files \<Rightarrow> (string \<times> string) list \<Rightarrow> (string \<times> string) list res" where
  "module_sources [] m = Inr m"
| "module_sources ((file, source) # files) m =
     (if is_code_module_path file \<or> ends_with file ''.json''
      then bind_res (normalize_module_path file) (\<lambda>path. module_sources files (map_set path source m))
      else module_sources files m)"

definition linked :: "import_range \<Rightarrow> bool" where
  "linked r = (ir_kind r = StaticImport \<and> \<not> ir_type_only r \<and> is_relative (ir_specifier r))"

definition import_in_files :: "(string \<times> string) list \<Rightarrow> string \<Rightarrow> import_range \<Rightarrow> string res" where
  "import_in_files sources path r =
     (case resolve_relative path (ir_specifier r) of
        Inl _ \<Rightarrow> fails ''invalid_import''
      | Inr target \<Rightarrow>
        (case find (\<lambda>c. map_of sources c \<noteq> None) (relative_import_candidates target) of
           None \<Rightarrow> fails ''invalid_import''
         | Some found \<Rightarrow> Inr found))"

definition imports_of_file :: "compiler \<Rightarrow> lexer \<Rightarrow> jsx_options \<Rightarrow> (string \<times> string) list \<Rightarrow> string \<Rightarrow> string list res" where
  "imports_of_file C L jsx sources path =
     (case map_of sources path of
        None \<Rightarrow> Inr []
      | Some source \<Rightarrow>
        if ends_with path ''.json'' then Inr []
        else (case import_source C jsx path source of
           None \<Rightarrow> Inr []
         | Some compiled \<Rightarrow>
           bind_res (lex_import_specifiers L compiled) (\<lambda>ranges.
             map_res (import_in_files sources path) (filter linked ranges))))"

text \<open>Every path of the queue is an entry or a source, so the walk passes over none.\<close>

definition assert_relative_imports_resolve :: "compiler \<Rightarrow> lexer \<Rightarrow> package_files \<Rightarrow> string list \<Rightarrow> unit res" where
  "assert_relative_imports_resolve C L files entries =
     bind_res (module_sources files []) (\<lambda>sources.
       map_sum id (\<lambda>_. ())
         (explore (entries @ map fst sources) (imports_of_file C L (jsx_options_from_files C files) sources) [] entries))"

section \<open>The manifest\<close>

definition blank_file :: "string \<Rightarrow> package_files \<Rightarrow> bool" where
  "blank_file k files = (case map_of files k of None \<Rightarrow> True | Some t \<Rightarrow> trim t = [])"

definition manifest_entries :: "package_manifest \<Rightarrow> string list" where
  "manifest_entries m =
     map snd (pm_exports m) @ map (\<lambda>j. mj_entry (snd j)) (pm_jobs m) @ map sb_handler (pm_subscriptions m)
     @ (case pm_app m of Some a \<Rightarrow> [ad_entry a] | None \<Rightarrow> [])"

definition manifest_fields :: "(string \<times> json) list \<Rightarrow> package_files \<Rightarrow> package_manifest res" where
  "manifest_fields es files =
     (case text_field ''name'' es of
        None \<Rightarrow> invalid_manifest
      | Some name \<Rightarrow>
        if \<not> package_name_pattern name then invalid_manifest
        else
        (let kody = (case json_field ''kody'' es of Some (JObj ks) \<Rightarrow> ks | _ \<Rightarrow> []) in
         bind_res (parse_exports es files) (\<lambda>exports.
         bind_res (parse_jobs (json_field ''jobs'' kody) files) (\<lambda>jobs.
         bind_res (parse_dependencies (json_field ''dependencies'' kody)) (\<lambda>dependencies.
         if blank_file ''README.md'' files \<or> blank_file ''AGENTS.md'' files then invalid_manifest
         else
         bind_res (parse_webhooks (json_field ''webhooks'' kody) exports) (\<lambda>webhooks.
         bind_res (parse_subscriptions (json_field ''subscriptions'' kody) files) (\<lambda>subscriptions.
         bind_res (parse_secret_provider (json_field ''secretProvider'' kody) exports) (\<lambda>provider.
         bind_res (parse_app (json_field ''app'' kody) files) (\<lambda>app.
           Inr \<lparr>pm_name = name,
             pm_version = (case text_field ''version'' es of Some v \<Rightarrow> v | None \<Rightarrow> ''0.0.0''),
             pm_description = (case text_field ''description'' kody of Some d \<Rightarrow> d
               | None \<Rightarrow> (case text_field ''description'' es of Some d \<Rightarrow> d | None \<Rightarrow> [])),
             pm_exports = exports, pm_jobs = jobs, pm_webhooks = webhooks, pm_subscriptions = subscriptions,
             pm_provider = provider, pm_app = app, pm_dependencies = dependencies,
             pm_hidden = (json_field ''hidden'' kody = Some (JBool True)),
             pm_keywords = (case json_field ''keywords'' es of
               Some (JArr vs) \<Rightarrow> List.map_filter (\<lambda>v. case v of JStr t \<Rightarrow> Some t | _ \<Rightarrow> None) vs
             | _ \<Rightarrow> [])\<rparr>))))))))) "

definition parse_package_manifest :: "compiler \<Rightarrow> lexer \<Rightarrow> package_files \<Rightarrow> package_manifest res" where
  "parse_package_manifest C L files =
     (case some_text (map_of files ''package.json'') of
        None \<Rightarrow> invalid_manifest
      | Some source \<Rightarrow>
        (case cc_json C source of
           Some (JObj es) \<Rightarrow>
             bind_res (manifest_fields es files) (\<lambda>m.
             bind_res (assert_relative_imports_resolve C L files (manifest_entries m)) (\<lambda>_. Inr m))
         | _ \<Rightarrow> invalid_manifest))"

section \<open>Package specifiers\<close>

text \<open>\<open>kody:@scope/pkg/export\<close> or \<open>kody:pkg\<close>: the package and the export name.\<close>

definition parse_kody_package_specifier :: "string \<Rightarrow> (string \<times> string) option" where
  "parse_kody_package_specifier specifier =
     (if \<not> starts_with specifier ''kody:'' \<or> specifier = ''kody:runtime'' then None
      else
      (let r = drop 5 specifier; segments = split_on CHR ''/'' r; scoped = starts_with r ''@'' in
       if scoped \<and> length segments < 2 then None
       else
       (let n = (if scoped then 2 else 1);
            name = join_with ''/'' (take n segments);
            exported = join_with ''/'' (drop n segments)
        in if package_name_pattern name then Some (name, if exported = [] then ''.'' else exported) else None)))"

text \<open>The path of an export; an inherited member is not empty, and later read as its text.\<close>

definition resolve_package_export :: "package_manifest \<Rightarrow> string \<Rightarrow> string res" where
  "resolve_package_export m export_name =
     (let key = (if export_name = [] then ''.'' else without_dot export_name) in
      case map_of (pm_exports m) key of
        Some path \<Rightarrow> if path = [] then Inl (KodyError ''unknown_export'' 404) else Inr path
      | None \<Rightarrow> if key \<in> set object_members then Inr (member_text key) else Inl (KodyError ''unknown_export'' 404))"

section \<open>Well-formed manifests\<close>

definition good_replay :: "replay \<Rightarrow> bool" where
  "good_replay r =
     ((rp_timestamp_header r \<noteq> None \<or> rp_delivery_header r \<noteq> None) \<and>
      (case (rp_timestamp_header r, rp_format r, rp_tolerance r) of
         (None, None, None) \<Rightarrow> True
       | (Some h, Some f, Some t) \<Rightarrow> h \<noteq> [] \<and> 1 \<le> t \<and> t \<le> 86400
       | _ \<Rightarrow> False))"

definition good_webhook :: "(string \<times> string) list \<Rightarrow> webhook_definition \<Rightarrow> bool" where
  "good_webhook exports w =
     (webhook_name_pattern (wd_name w) \<and> length (wd_name w) \<le> 64 \<and>
      export_entry exports (wd_export w) = Some (wd_entry w) \<and> 1 \<le> wd_rate w \<and> wd_rate w \<le> 600 \<and>
      (case wd_verification w of Some v \<Rightarrow> vf_secret v \<noteq> [] \<and> list_all secret_name_char (vf_secret v) | None \<Rightarrow> True) \<and>
      (case wd_replay w of Some r \<Rightarrow> good_replay r | None \<Rightarrow> True) \<and>
      (signs_timestamp (wd_verification w) \<longrightarrow> Option.bind (wd_replay w) rp_timestamp_header \<noteq> None))"

definition good_assets :: "package_files \<Rightarrow> string \<Rightarrow> bool" where
  "good_assets files d =
     ((\<exists>p\<in>set (map fst files). starts_with p (d @ ''/'')) \<and>
      \<not> (\<exists>p\<in>set (map fst files). starts_with p (d @ ''/'') \<and> reserved_asset_root (drop (length d + 1) p)))"

definition good_app :: "package_files \<Rightarrow> app_definition \<Rightarrow> bool" where
  "good_app files a =
     (in_object (ad_entry a) files \<and> is_code_module_path (ad_entry a) \<and>
      (case ad_assets a of None \<Rightarrow> True | Some d \<Rightarrow> good_assets files d))"

definition well_formed_manifest :: "package_files \<Rightarrow> package_manifest \<Rightarrow> bool" where
  "well_formed_manifest files m =
     (package_name_pattern (pm_name m) \<and>
      distinct (map fst (pm_exports m)) \<and> (\<forall>(n, p)\<in>set (pm_exports m). in_object p files) \<and>
      distinct (map fst (pm_jobs m)) \<and> (\<forall>(n, j)\<in>set (pm_jobs m). job_name_pattern n \<and> in_object (mj_entry j) files) \<and>
      distinct (map wd_name (pm_webhooks m)) \<and> (\<forall>w\<in>set (pm_webhooks m). good_webhook (pm_exports m) w) \<and>
      distinct (map sb_topic (pm_subscriptions m)) \<and>
      (\<forall>s\<in>set (pm_subscriptions m). sb_topic s \<in> set subscription_topics \<and> in_object (sb_handler s) files) \<and>
      (case pm_provider m of None \<Rightarrow> True
       | Some p \<Rightarrow> secret_provider_id_pattern (sp_id p) \<and> map_of (pm_exports m) ''secretProvider'' = Some (sp_entry p)) \<and>
      (case pm_app m of None \<Rightarrow> True | Some a \<Rightarrow> good_app files a) \<and>
      (\<forall>(d, r)\<in>set (pm_dependencies m). package_name_pattern d))"

named_theorems manifest_parts \<open>what each part of a parsed manifest satisfies\<close>

lemma map_res_keys:
  "map_res f xs = Inr ys \<Longrightarrow> (\<And>x y. f x = Inr y \<Longrightarrow> g y = fst x) \<Longrightarrow> map g ys = map fst xs"
  by (induction xs arbitrary: ys) (auto split: sum.splits)

lemma map_res_all: "map_res f xs = Inr ys \<Longrightarrow> (\<And>x y. f x = Inr y \<Longrightarrow> P y) \<Longrightarrow> y \<in> set ys \<Longrightarrow> P y"
  by (induction xs arbitrary: ys) (auto split: sum.splits)

text \<open>What one entry of an object yields has its key; so the results are as distinct as the keys.\<close>

lemma parsed_entries:
  assumes "\<exists>xs. map_res f xs = Inr out \<and> distinct (map fst xs)" "\<And>x y. f x = Inr y \<Longrightarrow> g y = fst x \<and> P y"
  shows "distinct (map g out)" "y \<in> set out \<Longrightarrow> P y"
proof -
  obtain xs where xs: "map_res f xs = Inr out" "distinct (map fst xs)" using assms(1) by blast
  have "map g out = map fst xs" by (rule map_res_keys [OF xs(1)]) (use assms(2) in blast)
  then show "distinct (map g out)" using xs(2) by simp
  show "P y" if "y \<in> set out" by (rule map_res_all [OF xs(1) _ that]) (use assms(2) in blast)
qed

lemma invalid_manifest_neq [simp]: "invalid_manifest \<noteq> Inr x"
  by (simp add: invalid_manifest_def)

lemma file_reference_Inr: "file_reference files raw = Inr p \<Longrightarrow> in_object p files"
  by (auto simp: file_reference_def bind_res_Inr split: if_splits)

lemma distinct_put_key: "distinct (map fst m) \<Longrightarrow> distinct (map fst (put_key k v m))"
  by (simp add: put_key_def distinct_map_set)

lemma collect_exports_distinct:
  "collect_exports es m = Inr out \<Longrightarrow> distinct (map fst m) \<Longrightarrow> distinct (map fst out)"
proof (induction es m arbitrary: out rule: collect_exports.induct)
  case (2 key v es m)
  then show ?case by (auto simp: bind_res_Inr intro: distinct_put_key)
qed simp_all

lemma parse_exports_good [manifest_parts]:
  assumes "parse_exports es files = Inr out"
  shows "distinct (map fst out)" "\<forall>(n, p)\<in>set out. in_object p files"
proof -
  obtain m where m: "(case json_field ''exports'' es of
          Some (JStr t) \<Rightarrow> map_sum id (\<lambda>p. [(''.'', p)]) (normalize_module_path t)
        | Some (JObj xs) \<Rightarrow> collect_exports (object_entries xs) []
        | _ \<Rightarrow> (case text_field ''main'' es of Some t \<Rightarrow> map_sum id (\<lambda>p. [(''.'', p)]) (normalize_module_path t) | None \<Rightarrow> Inr [])) = Inr m"
    and out: "out = own_order m" "list_all (\<lambda>(name, path). in_object path files) m"
    using assms unfolding parse_exports_def by (auto elim!: bind_InrE split: if_splits)
  have one: "distinct (map fst m)" if "map_sum id (\<lambda>p. [(''.'', p)]) r = Inr m" for r :: "string res"
    using that by (cases r) auto
  have "distinct (map fst m)"
    using m one by (auto split: option.splits json.splits dest: collect_exports_distinct)
  then show "distinct (map fst out)" by (simp add: out(1) distinct_own_order)
  show "\<forall>(n, p)\<in>set out. in_object p files" using out by (auto simp: list_all_iff)
qed

lemma parse_jobs_good [manifest_parts]:
  assumes "parse_jobs raw files = Inr out"
  shows "distinct (map fst out)" "\<forall>(n, j)\<in>set out. job_name_pattern n \<and> in_object (mj_entry j) files"
proof -
  have one: "fst y = fst x \<and> job_name_pattern (fst y) \<and> in_object (mj_entry (snd y)) files" if "parse_job files x = Inr y" for x y
    using that by (auto simp: parse_job_def bind_res_Inr file_reference_Inr split: if_splits json.splits option.splits prod.splits)
  have e: "\<exists>xs. map_res (parse_job files) xs = Inr out \<and> distinct (map fst xs)"
    using assms distinct_object_entries by (fastforce simp: parse_jobs_def split: option.splits json.splits intro: exI [of _ "[]"])
  from parsed_entries [OF e one]
  show "distinct (map fst out)" "\<forall>(n, j)\<in>set out. job_name_pattern n \<and> in_object (mj_entry j) files" by fastforce+
qed

lemma parse_subscriptions_good [manifest_parts]:
  assumes "parse_subscriptions raw files = Inr out"
  shows "distinct (map sb_topic out)" "\<forall>s\<in>set out. sb_topic s \<in> set subscription_topics \<and> in_object (sb_handler s) files"
proof -
  have one: "sb_topic y = fst x \<and> sb_topic y \<in> set subscription_topics \<and> in_object (sb_handler y) files" if "parse_subscription files x = Inr y" for x y
    using that by (auto simp: parse_subscription_def bind_res_Inr file_reference_Inr split: if_splits json.splits option.splits prod.splits)
  have e: "\<exists>xs. map_res (parse_subscription files) xs = Inr out \<and> distinct (map fst xs)"
    using assms distinct_object_entries by (fastforce simp: parse_subscriptions_def split: option.splits json.splits intro: exI [of _ "[]"])
  from parsed_entries [OF e one]
  show "distinct (map sb_topic out)" "\<forall>s\<in>set out. sb_topic s \<in> set subscription_topics \<and> in_object (sb_handler s) files" by fastforce+
qed

lemma parse_dependencies_good [manifest_parts]:
  "parse_dependencies raw = Inr out \<Longrightarrow> \<forall>(d, r)\<in>set out. package_name_pattern d"
  by (auto simp: parse_dependencies_def parse_dependency_def split: option.splits json.splits if_splits prod.splits
      dest!: map_res_all [where P = "\<lambda>y. package_name_pattern (fst y)"])

lemma parse_secret_provider_good [manifest_parts]:
  "parse_secret_provider raw exports = Inr (Some p) \<Longrightarrow>
   secret_provider_id_pattern (sp_id p) \<and> map_of exports ''secretProvider'' = Some (sp_entry p)"
  by (auto simp: parse_secret_provider_def some_text_def split: option.splits json.splits if_splits)

lemma parse_app_good [manifest_parts]: "parse_app raw files = Inr (Some a) \<Longrightarrow> good_app files a"
proof -
  assume a: "parse_app raw files = Inr (Some a)"
  have assets: "good_assets files d" if "parse_assets files v = Inr (Some d)" for v d
    using that by (fastforce simp: good_assets_def parse_assets_def bind_res_Inr Let_def filter_empty_conv list_ex_iff split: option.splits json.splits if_splits)
  show ?thesis
    using a by (auto simp: parse_app_def bind_res_Inr file_reference_Inr good_app_def dest: assets split: option.splits json.splits if_splits)
qed

lemma replay_good: "parse_webhook_replay raw = Inr r \<Longrightarrow> good_replay r"
proof -
  assume r: "parse_webhook_replay raw = Inr r"
  have stamp: "h \<noteq> [] \<and> 1 \<le> t \<and> t \<le> 86400" if "parse_timestamp_part es = Inr (Some (h, f, t))" for es h f t
  proof -
    have "to_lower x \<noteq> []" if "filled_field k fs = Some x" for k fs x
      using that by (cases "text_field k fs") (auto simp: filled_field_def some_text_def to_lower_def split: if_splits)
    with that show ?thesis
      by (auto simp: parse_timestamp_part_def Let_def integer_between_def split: if_splits option.splits json.splits)
  qed
  show ?thesis
    using r by (cases raw) (auto simp: parse_webhook_replay_def bind_res_Inr good_replay_def dest: stamp split: if_splits option.splits)
qed

lemma verification_good:
  "parse_webhook_verification raw = Inr v \<Longrightarrow> vf_secret v \<noteq> [] \<and> list_all secret_name_char (vf_secret v)"
  by (cases raw) (auto simp: parse_webhook_verification_def split: if_splits option.splits json.splits)

lemma optional_res_Inr: "optional_res f v = Inr (Some x) \<Longrightarrow> \<exists>j. f j = Inr x"
  by (cases v) (auto simp: optional_res_def map_sum_def split: sum.splits)

lemma parse_webhook_good:
  assumes "parse_webhook exports seen item = Inr w"
  shows "good_webhook exports w \<and> wd_name w \<notin> set seen"
proof -
  obtain es where es: "item = JObj es" using assms by (cases item) (simp_all add: parse_webhook_def)
  obtain name exported where n: "text_field ''name'' es = Some name" "text_field ''export'' es = Some exported" "exported \<noteq> ''*''"
      "webhook_name_pattern name" "length name \<le> 64" "name \<notin> set seen"
    using assms by (auto simp: parse_webhook_def es split: option.splits if_splits)
  define export_name where "export_name = (if exported = ''.'' then ''.'' else without_dot exported)"
  obtain entry response inp rate v r where p: "export_entry exports export_name = Some entry"
      "integer_between 1 600 (nullish (json_field ''rateLimitPerMinute'' es) (JNum (Num 60))) = Some rate"
      "optional_res parse_webhook_verification (json_field ''verification'' es) = Inr v"
      "optional_res parse_webhook_replay (json_field ''replay'' es) = Inr r"
      "\<not> (signs_timestamp v \<and> Option.bind r rp_timestamp_header = None)"
      "w = \<lparr>wd_name = name, wd_export = export_name, wd_entry = entry, wd_response = response,
         wd_input = inp, wd_rate = nat rate, wd_verification = v, wd_replay = r,
         wd_description = text_field ''description'' es\<rparr>"
    using assms n by (auto simp: parse_webhook_def es Let_def export_name_def [symmetric] bind_res_Inr split: option.splits if_splits)
  have rate: "1 \<le> rate" "rate \<le> 600" using p(2) by (auto simp: integer_between_def split: json.splits option.splits if_splits)
  have "case v of Some v \<Rightarrow> vf_secret v \<noteq> [] \<and> list_all secret_name_char (vf_secret v) | None \<Rightarrow> True"
    using p(3) by (auto split: option.splits dest!: optional_res_Inr verification_good)
  moreover have "case r of Some r \<Rightarrow> good_replay r | None \<Rightarrow> True"
    using p(4) by (auto split: option.splits dest!: optional_res_Inr replay_good)
  ultimately show ?thesis using n p(1,5) rate by (auto simp: good_webhook_def p(6) nat_le_iff)
qed

lemma parse_webhook_items_good:
  "parse_webhook_items exports seen items = Inr ws \<Longrightarrow>
   distinct (map wd_name ws) \<and> set (map wd_name ws) \<inter> set seen = {} \<and> (\<forall>w\<in>set ws. good_webhook exports w)"
proof (induction items arbitrary: seen ws)
  case (Cons item items)
  then obtain w rest where w: "parse_webhook exports seen item = Inr w" "parse_webhook_items exports (wd_name w # seen) items = Inr rest" "ws = w # rest"
    by (auto simp: bind_res_Inr)
  show ?case using Cons.IH [OF w(2)] parse_webhook_good [OF w(1)] w(3) by auto
qed simp

lemma parse_webhooks_good [manifest_parts]:
  assumes "parse_webhooks raw exports = Inr ws"
  shows "distinct (map wd_name ws)" "\<forall>w\<in>set ws. good_webhook exports w"
  using assms parse_webhook_items_good [of exports "[]"] by (auto simp: parse_webhooks_def split: option.splits json.splits)

lemma manifest_fields_good:
  assumes "manifest_fields es files = Inr m"
  shows "well_formed_manifest files m"
proof -
  define kody where "kody = (case json_field ''kody'' es of Some (JObj ks) \<Rightarrow> ks | _ \<Rightarrow> [])"
  obtain name exports jobs dependencies webhooks subscriptions provider app where parts:
      "package_name_pattern name" "parse_exports es files = Inr exports" "parse_jobs (json_field ''jobs'' kody) files = Inr jobs"
      "parse_dependencies (json_field ''dependencies'' kody) = Inr dependencies"
      "parse_webhooks (json_field ''webhooks'' kody) exports = Inr webhooks"
      "parse_subscriptions (json_field ''subscriptions'' kody) files = Inr subscriptions"
      "parse_secret_provider (json_field ''secretProvider'' kody) exports = Inr provider"
      "parse_app (json_field ''app'' kody) files = Inr app"
    and m: "pm_name m = name" "pm_exports m = exports" "pm_jobs m = jobs" "pm_dependencies m = dependencies" "pm_webhooks m = webhooks"
      "pm_subscriptions m = subscriptions" "pm_provider m = provider" "pm_app m = app"
    using assms unfolding manifest_fields_def kody_def [symmetric] Let_def
    by (auto simp: bind_res_Inr split: option.splits if_splits)
  have p: "case provider of None \<Rightarrow> True
       | Some p \<Rightarrow> secret_provider_id_pattern (sp_id p) \<and> map_of exports ''secretProvider'' = Some (sp_entry p)"
    by (cases provider) (use parts(7) parse_secret_provider_good in auto)
  have a: "case app of None \<Rightarrow> True | Some a \<Rightarrow> good_app files a"
    by (cases app) (use parts(8) parse_app_good in auto)
  show ?thesis
    unfolding well_formed_manifest_def m
    using parts(1) parse_exports_good [OF parts(2)] parse_jobs_good [OF parts(3)] parse_dependencies_good [OF parts(4)]
      parse_webhooks_good [OF parts(5)] parse_subscriptions_good [OF parts(6)] p a by blast
qed

lemma imports_found: "imports_of_file C L jsx sources p = Inr ts \<Longrightarrow> set ts \<subseteq> set (map fst sources)"
proof -
  have one: "t \<in> set (map fst sources)" if "import_in_files sources path r = Inr t" for path r t
    using that by (auto simp: import_in_files_def find_Some_iff split: sum.splits option.splits intro: domI simp flip: dom_map_of_conv_image_fst)
  show "set ts \<subseteq> set (map fst sources)" if "imports_of_file C L jsx sources p = Inr ts"
    using that by (auto simp: imports_of_file_def bind_res_Inr split: option.splits if_splits dest: map_res_all [where P = "\<lambda>t. t \<in> set (map fst sources)"] one)
qed

lemma map_sum_Inr: "map_sum f g r = Inr y \<longleftrightarrow> (\<exists>x. r = Inr x \<and> y = g x)"
  by (cases r) auto

lemma parse_package_manifest_Inr:
  assumes "parse_package_manifest C L files = Inr m"
  obtains es sources where "manifest_fields es files = Inr m" "module_sources files [] = Inr sources"
    "is_ok (explore (manifest_entries m @ map fst sources) (imports_of_file C L (jsx_options_from_files C files) sources) [] (manifest_entries m))"
proof -
  obtain es where f: "manifest_fields es files = Inr m" and a: "assert_relative_imports_resolve C L files (manifest_entries m) = Inr ()"
    using assms by (auto simp: parse_package_manifest_def bind_res_Inr split: option.splits json.splits)
  then obtain sources where "module_sources files [] = Inr sources"
    "is_ok (explore (manifest_entries m @ map fst sources) (imports_of_file C L (jsx_options_from_files C files) sources) [] (manifest_entries m))"
    by (auto simp: assert_relative_imports_resolve_def bind_res_Inr is_ok_def map_sum_Inr split: sum.splits)
  then show ?thesis using that f by blast
qed

text \<open>C21 (type). A package whose manifest is accepted is well formed: every export, job, handler and app entry names a file of the
  package (or a member every object inherits), names are valid and distinct, limits are kept; and every file that the
  entries reach by static relative imports has only such imports of files of the package.\<close>

theorem manifest_well_formed:
  assumes "parse_package_manifest C L files = Inr m"
  shows "well_formed_manifest files m \<and>
    (\<exists>sources. module_sources files [] = Inr sources \<and>
      (\<forall>p. reached (manifest_entries m @ map fst sources) (imports_of_file C L (jsx_options_from_files C files) sources) (manifest_entries m) p
        \<longrightarrow> (\<exists>ts. imports_of_file C L (jsx_options_from_files C files) sources p = Inr ts \<and> set ts \<subseteq> set (map fst sources))))"
proof -
  obtain es sources where s: "manifest_fields es files = Inr m" "module_sources files [] = Inr sources"
    "is_ok (explore (manifest_entries m @ map fst sources) (imports_of_file C L (jsx_options_from_files C files) sources) [] (manifest_entries m))"
    by (rule parse_package_manifest_Inr [OF assms])
  show ?thesis
    using manifest_fields_good [OF s(1)] s(2,3) imports_found unfolding explore_ok_iff by (meson is_okE)
qed

text \<open>A package whose default export imports another file, and one that names an inherited member.\<close>

definition sample_compiler :: compiler where
  "sample_compiler = \<lparr>cc_transform = (\<lambda>k o' s. Some s), cc_strip_comments = (\<lambda>s. s),
     cc_json = (\<lambda>s. if s = ''{}'' then Some (JObj [(''name'', JStr ''p''), (''exports'', JObj [(''./x'', JStr ''./m.js'')]),
         (''kody'', JObj [(''webhooks'', JArr [JObj [(''name'', JStr ''w''), (''export'', JStr ''x'')]])])])
       else Some (JObj [(''name'', JStr ''p''), (''main'', JStr ''toString'')]))\<rparr>"

definition sample_lexer :: lexer where
  "sample_lexer s = Some (if s = ''m'' then [\<lparr>lx_name = Some ''./n'', lx_start = 0, lx_end = 0, lx_statement = 0, lx_kind = -1\<rparr>] else [])"

definition sample_files :: package_files where
  "sample_files = [(''package.json'', ''{}''), (''README.md'', ''r''), (''AGENTS.md'', ''a''), (''m.js'', ''m''), (''n.js'', [])]"

lemma sample_manifest:
  "parse_package_manifest sample_compiler sample_lexer sample_files =
   Inr \<lparr>pm_name = ''p'', pm_version = ''0.0.0'', pm_description = [], pm_exports = [(''x'', ''m.js'')], pm_jobs = [],
     pm_webhooks = [\<lparr>wd_name = ''w'', wd_export = ''x'', wd_entry = ''m.js'', wd_response = AckResponse, wd_input = RequestInput,
       wd_rate = 60, wd_verification = None, wd_replay = None, wd_description = None\<rparr>],
     pm_subscriptions = [], pm_provider = None, pm_app = None, pm_dependencies = [], pm_hidden = False, pm_keywords = []\<rparr>"
  by code_simp

theorem manifest_well_formed_witness:
  "\<exists>m. parse_package_manifest sample_compiler sample_lexer sample_files = Inr m \<and> well_formed_manifest sample_files m \<and>
     pm_exports m = [(''x'', ''m.js'')]"
  using manifest_well_formed [OF sample_manifest] sample_manifest by auto

lemma inherited_name_accepted:
  "parse_package_manifest sample_compiler sample_lexer (map_set ''package.json'' ''-'' sample_files) =
   Inr \<lparr>pm_name = ''p'', pm_version = ''0.0.0'', pm_description = [], pm_exports = [(''.'', ''toString'')], pm_jobs = [],
     pm_webhooks = [], pm_subscriptions = [], pm_provider = None, pm_app = None, pm_dependencies = [], pm_hidden = False, pm_keywords = []\<rparr>"
  by code_simp

lemma specifier_reads_back:
  assumes "package_name_pattern name" "exported \<noteq> []" "name \<noteq> ''runtime'' \<or> exported \<noteq> ''.''"
  shows "parse_kody_package_specifier (''kody:'' @ name @ (if exported = ''.'' then [] else ''/'' @ exported)) = Some (name, exported)"
proof -
  let ?t = "if exported = ''.'' then [] else ''/'' @ exported"
  have long: "''kody:'' @ name @ ?t \<noteq> ''kody:runtime''"
  proof
    assume r: "''kody:'' @ name @ ?t = ''kody:runtime''"
    then have "CHR ''/'' \<notin> set (name @ ?t)" by simp
    then have "exported = ''.''" by (auto split: if_splits)
    then show False using r assms(3) by simp
  qed
  show ?thesis
    using assms(1)
  proof (cases rule: package_name_cases)
    case plain
    have "split_on CHR ''/'' (name @ ?t) = name # (if exported = ''.'' then [] else split_on CHR ''/'' exported)"
      using name_segment_no_slash [OF plain(1)] by (simp add: split_on_none split_on_append_sep)
    moreover have "\<not> starts_with (name @ ?t) ''@''"
      using plain by (cases name) (auto simp: name_segment_def)
    ultimately show ?thesis
      using long assms(1,2) by (simp add: parse_kody_package_specifier_def Let_def join_split_on [of "CHR ''/''", simplified])
  next
    case (scoped s n)
    have "split_on CHR ''/'' (name @ ?t) = (''@'' @ s) # n # (if exported = ''.'' then [] else split_on CHR ''/'' exported)"
      using name_segment_no_slash [OF scoped(2)] name_segment_no_slash [OF scoped(3)] unfolding scoped(1)
      by (simp add: split_on_none split_on_append_sep)
    then show ?thesis
      using long assms(1,2) scoped(1) by (simp add: parse_kody_package_specifier_def Let_def join_split_on [of "CHR ''/''", simplified])
  qed
qed

end
