(* ===== verification/NpmCache.thy ===== *)
theory NpmCache
  imports JsValue "HOL-Library.List_Lexorder" "HOL-Library.Char_ord"
begin

text \<open>
  The configuration of npm imports (src/src/execute/npm-config.ts) and the cache of downloaded modules
  (src/src/execute/npm-cache-store.ts, src/src/cells/npm-cache-cell.ts). The URL parser is an argument. The
  sizes and ages of the configuration may be fractions.
\<close>

section \<open>Configuration\<close>

record npm_url =
  nu_href :: string
  nu_protocol :: string
  nu_origin :: string
  nu_host :: string
  nu_path :: string
  nu_search :: string
  nu_hash :: string

record npm_vars =
  nv_imports :: "string option"
  nv_cdn :: "string option"
  nv_max_mb :: "string option"
  nv_ttl_days :: "string option"

record npm_config =
  np_enabled :: bool
  np_origin :: string
  np_max_bytes :: rat
  np_ttl_ms :: rat

definition default_esm_cdn_origin :: string where
  "default_esm_cdn_origin = ''https://esm.sh''"

definition npm_cache_max_module_bytes :: nat where
  "npm_cache_max_module_bytes = 1800000"

definition trimmed :: "string option \<Rightarrow> string option" where
  "trimmed v = some_text (map_option trim v)"

definition non_negative_number :: "string option \<Rightarrow> rat \<Rightarrow> rat res" where
  "non_negative_number raw fallback =
     (case trimmed raw of
        None \<Rightarrow> Inr fallback
      | Some v \<Rightarrow> (case js_number v of Num r \<Rightarrow> if r < 0 then internal_error else Inr r | _ \<Rightarrow> internal_error))"

definition npm_config_from_env :: "(string \<Rightarrow> npm_url option) \<Rightarrow> npm_vars \<Rightarrow> npm_config res" where
  "npm_config_from_env parse vars =
     (let mode = (case map_option to_lower (trimmed (nv_imports vars)) of Some m \<Rightarrow> m | None \<Rightarrow> ''on'') in
      if mode \<noteq> ''on'' \<and> mode \<noteq> ''off'' then internal_error
      else case parse (case trimmed (nv_cdn vars) of Some u \<Rightarrow> u | None \<Rightarrow> default_esm_cdn_origin) of
        None \<Rightarrow> internal_error
      | Some cdn \<Rightarrow>
        if nu_protocol cdn \<noteq> ''http:'' \<and> nu_protocol cdn \<noteq> ''https:'' then internal_error
        else if nu_path cdn \<noteq> ''/'' \<or> nu_search cdn \<noteq> [] \<or> nu_hash cdn \<noteq> [] then internal_error
        else
          bind_res (non_negative_number (nv_max_mb vars) 256) (\<lambda>mb.
          bind_res (non_negative_number (nv_ttl_days vars) 30) (\<lambda>days.
            Inr \<lparr>np_enabled = (mode = ''on''), np_origin = nu_origin cdn, np_max_bytes = mb * 1024 * 1024,
                 np_ttl_ms = days * 24 * 60 * 60 * 1000\<rparr>)))"

section \<open>The table\<close>

record npm_row =
  nr_url :: string
  nr_source :: string
  nr_bytes :: nat
  nr_fetched :: time
  nr_used :: time

record npm_cache =
  nc_rows :: "npm_row list"
  nc_hits :: nat
  nc_misses :: nat

definition empty_cache :: npm_cache where
  "empty_cache = \<lparr>nc_rows = [], nc_hits = 0, nc_misses = 0\<rparr>"

text \<open>The bytes of a text in UTF-8.\<close>

definition utf8_size :: "string \<Rightarrow> nat" where
  "utf8_size s = sum_list (map (\<lambda>c. if unit_of c < 128 then 1 else 2) s)"

fun get_urls :: "string list \<Rightarrow> rat \<Rightarrow> time \<Rightarrow> npm_row list \<Rightarrow> (string \<times> string) list \<Rightarrow> (string \<times> string) list \<times> npm_row list" where
  "get_urls [] ttl now rows found = (found, rows)"
| "get_urls (u # us) ttl now rows found =
     (case select_one (\<lambda>r. nr_url r = u) rows of
        None \<Rightarrow> get_urls us ttl now rows found
      | Some r \<Rightarrow>
        if 0 < ttl \<and> of_int (nr_fetched r) < of_int now - ttl
        then get_urls us ttl now (delete_where (\<lambda>r. nr_url r = u) rows) found
        else get_urls us ttl now (update_where (\<lambda>r. nr_url r = u) (\<lambda>r. r\<lparr>nr_used := now\<rparr>) rows) (put_key u (nr_source r) found))"

definition get_many :: "string list \<Rightarrow> rat \<Rightarrow> time \<Rightarrow> npm_cache \<Rightarrow> (string \<times> string) list \<times> npm_cache" where
  "get_many urls ttl now s =
     (let (found, rows) = get_urls urls ttl now (nc_rows s) [] in
      (found, s\<lparr>nc_rows := rows, nc_hits := nc_hits s + length found, nc_misses := nc_misses s + (length urls - length found)\<rparr>))"

text \<open>The row that has gone unused for longest, by its URL among equals.\<close>

definition victim :: "npm_row list \<Rightarrow> npm_row option" where
  "victim rows = (case sort_key nr_used (sort_key nr_url rows) of [] \<Rightarrow> None | r # _ \<Rightarrow> Some r)"

lemma victim_in: "victim rows = Some r \<Longrightarrow> r \<in> set rows"
  unfolding victim_def by (metis (no_types, lifting) list.case_eq_if list.set_sel(1) option.distinct(1) option.inject set_sort)

lemma length_delete_where_less: "r \<in> set t \<Longrightarrow> P r \<Longrightarrow> length (delete_where P t) < length t"
  unfolding delete_where_def by (rule length_filter_less) auto

function evict_go :: "rat \<Rightarrow> rat \<Rightarrow> nat \<Rightarrow> npm_row list \<Rightarrow> nat \<times> npm_row list" where
  "evict_go max_bytes held n rows =
     (if \<not> max_bytes < held then (n, rows)
      else case victim rows of
        None \<Rightarrow> (n, rows)
      | Some v \<Rightarrow> evict_go max_bytes (held - of_nat (nr_bytes v)) (Suc n) (delete_where (\<lambda>r. nr_url r = nr_url v) rows))"
  by pat_completeness auto

termination by (relation "measure (\<lambda>(m, t, n, rows). length rows)") (auto intro: length_delete_where_less dest: victim_in)

declare evict_go.simps [simp del]

lemma evict_go_stop: "\<not> m < held \<or> victim rows = None \<Longrightarrow> evict_go m held n rows = (n, rows)"
  by (auto simp: evict_go.simps [of m held n rows])

lemma evict_go_step:
  "m < held \<Longrightarrow> victim rows = Some v \<Longrightarrow>
   evict_go m held n rows = evict_go m (held - of_nat (nr_bytes v)) (Suc n) (delete_where (\<lambda>r. nr_url r = nr_url v) rows)"
  by (simp add: evict_go.simps [of m held n rows])

definition stored_bytes :: "npm_row list \<Rightarrow> nat" where
  "stored_bytes rows = sum_list (map nr_bytes rows)"

definition evict :: "rat \<Rightarrow> npm_row list \<Rightarrow> nat \<times> npm_row list" where
  "evict max_bytes rows = evict_go max_bytes (of_nat (stored_bytes rows)) 0 rows"

fun put_urls :: "(string \<times> string) list \<Rightarrow> rat \<Rightarrow> time \<Rightarrow> nat \<Rightarrow> npm_row list \<Rightarrow> nat \<times> npm_row list" where
  "put_urls [] max_bytes now n rows = (n, rows)"
| "put_urls ((u, source) # es) max_bytes now n rows =
     (let bytes = utf8_size source in
      if npm_cache_max_module_bytes < bytes \<or> max_bytes < of_nat bytes then put_urls es max_bytes now n rows
      else put_urls es max_bytes now (Suc n)
        (upsert (\<lambda>r. nr_url r = u) (\<lambda>r. r\<lparr>nr_source := source, nr_bytes := bytes, nr_fetched := now, nr_used := now\<rparr>)
          \<lparr>nr_url = u, nr_source = source, nr_bytes = bytes, nr_fetched = now, nr_used = now\<rparr> rows))"

text \<open>The numbers of stored and evicted rows.\<close>

definition put_many :: "(string \<times> string) list \<Rightarrow> rat \<Rightarrow> time \<Rightarrow> npm_cache \<Rightarrow> (nat \<times> nat) \<times> npm_cache" where
  "put_many entries max_bytes now s =
     (let (stored, rows) = put_urls entries max_bytes now 0 (nc_rows s);
          (evicted, rows') = evict max_bytes rows
      in ((stored, evicted), s\<lparr>nc_rows := rows'\<rparr>))"

record npm_stats =
  ns_modules :: nat
  ns_bytes :: nat
  ns_hits :: nat
  ns_misses :: nat
  ns_oldest :: "time option"
  ns_newest :: "time option"

text \<open>\<open>row.oldest ? \<dots> : null\<close>: the first instant counts as missing.\<close>

definition shown_time :: "(time \<Rightarrow> time \<Rightarrow> time) \<Rightarrow> time list \<Rightarrow> time option" where
  "shown_time pick ts = (case ts of [] \<Rightarrow> None | t # us \<Rightarrow> (let x = fold pick us t in if x = 0 then None else Some x))"

definition cache_stats :: "npm_cache \<Rightarrow> npm_stats" where
  "cache_stats s =
     \<lparr>ns_modules = length (nc_rows s), ns_bytes = stored_bytes (nc_rows s), ns_hits = nc_hits s, ns_misses = nc_misses s,
      ns_oldest = shown_time min (map nr_fetched (nc_rows s)), ns_newest = shown_time max (map nr_fetched (nc_rows s))\<rparr>"

definition clear_cache :: "npm_cache \<Rightarrow> (nat \<times> nat) \<times> npm_cache" where
  "clear_cache s = ((length (nc_rows s), stored_bytes (nc_rows s)), empty_cache)"

section \<open>Bounds\<close>

definition cache_ok :: "npm_row list \<Rightarrow> bool" where
  "cache_ok rows = (distinct (map nr_url rows) \<and> (\<forall>r\<in>set rows. nr_bytes r = utf8_size (nr_source r)))"

lemma put_urls_ok: "cache_ok rows \<Longrightarrow> cache_ok (snd (put_urls es m now n rows))"
proof (induction es m now n rows rule: put_urls.induct)
  case (2 u source es m now n rows)
  let ?up = "upsert (\<lambda>r. nr_url r = u) (\<lambda>r. r\<lparr>nr_source := source, nr_bytes := utf8_size source, nr_fetched := now, nr_used := now\<rparr>)
          \<lparr>nr_url = u, nr_source = source, nr_bytes = utf8_size source, nr_fetched = now, nr_used = now\<rparr> rows"
  have "distinct (map nr_url ?up)"
    by (rule distinct_upsert) (use "2.prems" in \<open>auto simp: cache_ok_def\<close>)
  moreover have "\<forall>r\<in>set ?up. nr_bytes r = utf8_size (nr_source r)"
    using "2.prems" by (auto simp: cache_ok_def upsert_def table_simps)
  ultimately have up: "cache_ok ?up" by (simp add: cache_ok_def)
  show ?case
  proof (cases "npm_cache_max_module_bytes < utf8_size source \<or> m < of_nat (utf8_size source)")
    case True
    then show ?thesis using "2.IH"(1) [OF refl True "2.prems"] by simp
  next
    case False
    then show ?thesis using "2.IH"(2) [OF refl False up] by (simp add: Let_def)
  qed
qed simp

lemma cache_ok_delete: "cache_ok rows \<Longrightarrow> cache_ok (delete_where P rows)"
  by (auto simp: cache_ok_def distinct_delete_where)

lemma stored_bytes_delete:
  assumes "distinct (map nr_url rows)" "v \<in> set rows"
  shows "stored_bytes rows = nr_bytes v + stored_bytes (delete_where (\<lambda>r. nr_url r = nr_url v) rows)"
  using assms
proof (induction rows)
  case (Cons r rows)
  show ?case
  proof (cases "r = v")
    case True
    then have "delete_where (\<lambda>r. nr_url r = nr_url v) rows = rows"
      using Cons.prems by (intro delete_where_none) (auto simp: image_iff)
    then show ?thesis using True by (simp add: stored_bytes_def)
  next
    case False
    then have "nr_url r \<noteq> nr_url v" using Cons.prems by (auto simp: image_iff)
    then show ?thesis using Cons False by (simp add: stored_bytes_def)
  qed
qed simp

lemma evict_go_bound:
  "cache_ok rows \<Longrightarrow> held = of_nat (stored_bytes rows) \<Longrightarrow> 0 \<le> m \<Longrightarrow> evict_go m held n rows = (n', rows') \<Longrightarrow>
   cache_ok rows' \<and> of_nat (stored_bytes rows') \<le> m"
proof (induction m held n rows rule: evict_go.induct)
  case (1 m held n rows)
  show ?case
  proof (cases "m < held")
    case False
    then show ?thesis using "1.prems" by (auto simp: evict_go_stop)
  next
    case True
    show ?thesis
    proof (cases "victim rows")
      case None
      then have "rows = []" unfolding victim_def by (metis (no_types, lifting) list.case_eq_if option.distinct(1) set_empty set_sort)
      then show ?thesis using "1.prems" True None by (auto simp: evict_go_stop stored_bytes_def)
    next
      case (Some v)
      let ?rest = "delete_where (\<lambda>r. nr_url r = nr_url v) rows"
      have "of_nat (stored_bytes ?rest) = held - of_nat (nr_bytes v)"
        using stored_bytes_delete [OF _ victim_in [OF Some]] "1.prems"(1,2) by (simp add: cache_ok_def)
      then show ?thesis
        using "1.IH" [OF _ Some cache_ok_delete _ "1.prems"(3)] "1.prems"(1,4) True by (simp add: evict_go_step Some)
    qed
  qed
qed

text \<open>Whatever is stored, in whatever state, the cache holds afterwards at most its limit of bytes, each URL once.\<close>

theorem cache_within_limit:
  assumes "cache_ok (nc_rows s)" "0 \<le> max_bytes" "put_many entries max_bytes now s = (r, s')"
  shows "cache_ok (nc_rows s') \<and> of_nat (stored_bytes (nc_rows s')) \<le> max_bytes"
proof -
  obtain n rows where p: "put_urls entries max_bytes now 0 (nc_rows s) = (n, rows)" by fastforce
  obtain k rows' where e: "evict max_bytes rows = (k, rows')" by fastforce
  have "cache_ok rows" using put_urls_ok [OF assms(1), of entries max_bytes now 0] p by simp
  from evict_go_bound [OF this refl assms(2) e [unfolded evict_def]]
  show ?thesis using assms(3) p e by (auto simp: put_many_def)
qed

text \<open>What is evicted has gone unused at least as long as what is kept.\<close>

lemma victim_oldest: "victim rows = Some v \<Longrightarrow> r \<in> set rows \<Longrightarrow> nr_used v \<le> nr_used r"
proof -
  assume v: "victim rows = Some v" and r: "r \<in> set rows"
  obtain rest where s: "sort_key nr_used (sort_key nr_url rows) = v # rest"
    using v by (auto simp: victim_def split: list.splits)
  have "r \<in> set (v # rest)" using r by (metis s set_sort)
  moreover have "sorted (map nr_used (v # rest))" by (metis s sorted_sort_key)
  ultimately show ?thesis by auto
qed

lemma evict_go_oldest:
  "evict_go m held n rows = (n', rows') \<Longrightarrow> set rows' \<subseteq> set rows \<and>
   (distinct (map nr_url rows) \<longrightarrow> (\<forall>gone\<in>set rows - set rows'. \<forall>kept\<in>set rows'. nr_used gone \<le> nr_used kept))"
proof (induction m held n rows rule: evict_go.induct)
  case (1 m held n rows)
  show ?case
  proof (cases "\<not> m < held \<or> victim rows = None")
    case True
    then show ?thesis using "1.prems" evict_go_stop by fastforce
  next
    case False
    then obtain v where v: "victim rows = Some v" and m: "m < held" by auto
    let ?rest = "delete_where (\<lambda>r. nr_url r = nr_url v) rows"
    have ih: "set rows' \<subseteq> set ?rest"
      "distinct (map nr_url ?rest) \<longrightarrow> (\<forall>gone\<in>set ?rest - set rows'. \<forall>kept\<in>set rows'. nr_used gone \<le> nr_used kept)"
      using "1.IH" [OF _ v] "1.prems" m by (simp_all add: evict_go_step v)
    have "nr_used gone \<le> nr_used kept"
      if "distinct (map nr_url rows)" "gone \<in> set rows" "gone \<notin> set rows'" "kept \<in> set rows'" for gone kept
    proof (cases "nr_url gone = nr_url v")
      case True
      then have "gone = v" using that(1,2) victim_in [OF v] by (auto simp: distinct_map inj_on_def)
      then show ?thesis using victim_oldest [OF v] ih(1) that(4) by auto
    next
      case False
      then show ?thesis using ih(2) that distinct_delete_where [OF that(1)] by auto
    qed
    then show ?thesis using ih(1) by auto
  qed
qed

definition small_cache :: npm_cache where
  "small_cache = \<lparr>nc_rows = [\<lparr>nr_url = ''w'', nr_source = ''fg'', nr_bytes = 2, nr_fetched = 1, nr_used = 9\<rparr>], nc_hits = 0, nc_misses = 0\<rparr>"

theorem cache_within_limit_witness:
  "cache_ok (nc_rows small_cache) \<and>
   of_nat (stored_bytes (nc_rows (snd (put_many [(''u'', ''abc''), (''v'', ''de'')] 4 7 small_cache)))) \<le> (4::rat)"
proof -
  have "cache_ok (nc_rows small_cache)" by (simp add: small_cache_def cache_ok_def utf8_size_def unit_of_def)
  moreover obtain r s' where "put_many [(''u'', ''abc''), (''v'', ''de'')] 4 7 small_cache = (r, s')" by fastforce
  ultimately show ?thesis using cache_within_limit [of small_cache 4] by simp
qed

end
