(* ===== verification/NpmResolver.thy ===== *)
theory NpmResolver
  imports ModulePaths NpmCache
begin

text \<open>
  src/src/execute/npm-resolver.ts: bare npm specifiers are resolved through a CDN, with all modules these
  import, and their imports are rewritten to the paths under which they are kept. The URL parser, the
  network and the clock are arguments; an answer of the network depends on the number of requests made
  before. The state is the memory of the isolate, the durable cache and the requests made.
\<close>

section \<open>Import statements\<close>

text \<open>A quoted specifier at the start: the quote, the text and the length with the quotes.\<close>

definition simple_quote :: "char \<Rightarrow> bool" where
  "simple_quote c = (c = CHR 0x27 \<or> c = CHR 0x22)"

definition quoted :: "string \<Rightarrow> (char \<times> string \<times> nat) option" where
  "quoted s =
     (case s of
        [] \<Rightarrow> None
      | q # r \<Rightarrow>
        if \<not> simple_quote q then None
        else (let body = takeWhile (\<lambda>c. \<not> simple_quote c \<and> unit_of c \<noteq> 10) r in
          if body \<noteq> [] \<and> starts_with (drop (length body) r) [q] then Some (q, body, length body + 2) else None))"

record import_match =
  im_head :: nat
  im_quote :: char
  im_specifier :: string
  im_length :: nat

text \<open>\<open>[^'"`;]*?\bfrom\s*\<close> and a quoted specifier; \<open>after_word\<close> says that the character before belongs to a
  word, \<open>n\<close> counts the characters of the match so far.\<close>

fun from_clause :: "bool \<Rightarrow> nat \<Rightarrow> string \<Rightarrow> import_match option" where
  "from_clause after_word n s =
     (case (if after_word \<or> \<not> starts_with s ''from'' then None
            else (let r = trim_start (drop 4 s); h = n + (length s - length r) in
              map_option (\<lambda>(q, body, k). \<lparr>im_head = h, im_quote = q, im_specifier = body, im_length = h + k\<rparr>) (quoted r))) of
        Some m \<Rightarrow> Some m
      | None \<Rightarrow>
        (case s of
           [] \<Rightarrow> None
         | c # t \<Rightarrow> if simple_quote c \<or> c = CHR 0x60 \<or> c = CHR '';'' then None else from_clause (word_char c) (Suc n) t))"

declare from_clause.simps [simp del]

text \<open>The whole pattern at the start of a text; the alternatives are tried in their order.\<close>

definition import_at :: "bool \<Rightarrow> string \<Rightarrow> import_match option" where
  "import_at after_word s =
     (if after_word then None
      else
      (let tail_match = (\<lambda>r. map_option (\<lambda>(q, body, k).
             (let h = length s - length r in \<lparr>im_head = h, im_quote = q, im_specifier = body, im_length = h + k\<rparr>)) (quoted r));
           a = (if (starts_with s ''import'' \<or> starts_with s ''export'') \<and> word_ends (drop 6 s)
                then from_clause True 6 (drop 6 s) else None)
       in case a of
            Some m \<Rightarrow> Some m
          | None \<Rightarrow>
            if \<not> starts_with s ''import'' then None
            else (let r = trim_start (drop 6 s) in
              case (if starts_with r ''('' then tail_match (trim_start (tl r)) else None) of
                Some m \<Rightarrow> Some m
              | None \<Rightarrow> tail_match r)))"

text \<open>All matches, and the text with the specifiers replaced that \<open>f\<close> maps.\<close>

fun import_specs :: "nat \<Rightarrow> bool \<Rightarrow> string \<Rightarrow> string list" where
  "import_specs skip after_word [] = []"
| "import_specs (Suc k) after_word (c # s) = import_specs k (word_char c) s"
| "import_specs 0 after_word (c # s) =
     (case import_at after_word (c # s) of
        Some m \<Rightarrow> im_specifier m # import_specs (im_length m - 1) (word_char c) s
      | None \<Rightarrow> import_specs 0 (word_char c) s)"

fun replace_specs :: "(string \<Rightarrow> string option) \<Rightarrow> nat \<Rightarrow> bool \<Rightarrow> string \<Rightarrow> string" where
  "replace_specs f skip after_word [] = []"
| "replace_specs f (Suc k) after_word (c # s) = replace_specs f k (word_char c) s"
| "replace_specs f 0 after_word (c # s) =
     (case import_at after_word (c # s) of
        Some m \<Rightarrow>
          take (im_head m) (c # s) @ [im_quote m]
          @ (case f (im_specifier m) of Some t \<Rightarrow> t | None \<Rightarrow> im_specifier m) @ [im_quote m]
          @ replace_specs f (im_length m - 1) (word_char c) s
      | None \<Rightarrow> c # replace_specs f 0 (word_char c) s)"

section \<open>Paths\<close>

text \<open>Every run of other characters becomes one underscore.\<close>

fun collapse :: "bool \<Rightarrow> string \<Rightarrow> string" where
  "collapse in_run [] = []"
| "collapse in_run (c # s) =
     (if is_alnum c then c # collapse False s
      else if in_run then collapse True s else CHR ''_'' # collapse True s)"

definition path_char :: "char \<Rightarrow> bool" where
  "path_char c = (is_alnum c \<or> c \<in> set ''@._/-'')"

definition path_for_url :: "npm_url \<Rightarrow> string" where
  "path_for_url u =
     (let cleaned = nu_host u @ nu_path u @ (if nu_search u = [] then [] else ''__'' @ collapse False (nu_search u)) in
      ''npm/'' @ map (\<lambda>c. if path_char c then c else CHR ''_'') cleaned
      @ (if ends_with (nu_path u) ''.js'' \<or> ends_with (nu_path u) ''.mjs'' then [] else ''.js''))"

section \<open>Loading\<close>

record npm_env =
  nx_parse :: "string \<Rightarrow> string \<Rightarrow> npm_url option"
  nx_target :: "npm_url \<Rightarrow> npm_url"
  nx_net :: "nat \<Rightarrow> string \<Rightarrow> (nat \<times> string) option"
  nx_now :: "nat \<Rightarrow> time"
  nx_config :: npm_config

text \<open>\<open>None\<close> as durable cache: there is none, or its size is 0.\<close>

record npm_state =
  nt_memo :: "(string \<times> string) list"
  nt_durable :: "npm_cache option"
  nt_requests :: "string list"

definition memoize :: "string \<Rightarrow> string \<Rightarrow> npm_state \<Rightarrow> npm_state" where
  "memoize h source s = s\<lparr>nt_memo := map_set h source (if 500 \<le> length (nt_memo s) then [] else nt_memo s)\<rparr>"

definition fetch_from_cdn :: "npm_env \<Rightarrow> string \<Rightarrow> npm_state \<Rightarrow> string res \<times> npm_state" where
  "fetch_from_cdn X h s =
     (let s' = s\<lparr>nt_requests := nt_requests s @ [h]\<rparr> in
      case nx_net X (length (nt_requests s)) h of
        None \<Rightarrow> (internal_error, s')
      | Some (status, body) \<Rightarrow> if 200 \<le> status \<and> status < 300 then (Inr body, s') else (Inl (KodyError ''npm_fetch_failed'' 502), s'))"

text \<open>The source of a module, and whether it was downloaded.\<close>

definition load_module :: "npm_env \<Rightarrow> nat \<Rightarrow> string \<Rightarrow> npm_state \<Rightarrow> (string \<times> bool) res \<times> npm_state" where
  "load_module X n h s =
     (case map_of (nt_memo s) h of
        Some t \<Rightarrow> (Inr (t, False), s)
      | None \<Rightarrow>
        (let (hit, s1) = (case nt_durable s of
               None \<Rightarrow> (None, s)
             | Some c \<Rightarrow> (let (found, c') = get_many [h] (np_ttl_ms (nx_config X)) (nx_now X n) c in (map_of found h, s\<lparr>nt_durable := Some c'\<rparr>)))
         in case hit of
              Some t \<Rightarrow> (Inr (t, False), memoize h t s1)
            | None \<Rightarrow>
              (case fetch_from_cdn X h s1 of
                 (Inl e, s2) \<Rightarrow> (Inl e, s2)
               | (Inr t, s2) \<Rightarrow> (Inr (t, True), memoize h t s2))))"

section \<open>Resolution\<close>

datatype npm_warning = SkippedCrossOrigin string string | ResolvedThrough nat nat

record npm_run =
  rr_modules :: "(string \<times> string) list"
  rr_warnings :: "npm_warning list"
  rr_seen :: "(string \<times> string) list"
  rr_new :: "(string \<times> string) list"
  rr_bytes :: int
  rr_cached :: nat
  rr_fetched :: nat
  rr_state :: npm_state

text \<open>The imports of a source: what is to be loaded and from where, and the warnings.\<close>

fun dependencies :: "npm_env \<Rightarrow> npm_url \<Rightarrow> string list \<Rightarrow> ((string \<times> npm_url) list \<times> npm_warning list) res" where
  "dependencies X u [] = Inr ([], [])"
| "dependencies X u (spec # specs) =
     (if is_builtin spec then dependencies X u specs
      else case nx_parse X spec (nu_href u) of
        None \<Rightarrow> internal_error
      | Some d \<Rightarrow>
        bind_res (dependencies X u specs) (\<lambda>(ds, ws).
          if nu_origin d \<noteq> np_origin (nx_config X) then Inr (ds, SkippedCrossOrigin (nu_href d) (nu_href u) # ws)
          else Inr ((spec, d) # ds, ws)))"

text \<open>One new URL of the queue: its module is loaded and linked, and the URLs it imports are answered.\<close>

definition resolve_one :: "npm_env \<Rightarrow> npm_url \<Rightarrow> npm_run \<Rightarrow> npm_url list res \<times> npm_run" where
  "resolve_one X u r =
     (let path = path_for_url u;
          r1 = r\<lparr>rr_seen := rr_seen r @ [(nu_href u, path)]\<rparr>
      in case load_module X (length (rr_seen r)) (nu_href u) (rr_state r) of
           (Inl e, s) \<Rightarrow> (Inl e, r1\<lparr>rr_state := s\<rparr>)
         | (Inr (source, downloaded), s) \<Rightarrow>
           (let r2 = r1\<lparr>rr_state := s, rr_bytes := rr_bytes r + int (length source),
                  rr_new := (if downloaded then map_set (nu_href u) source (rr_new r) else rr_new r),
                  rr_cached := rr_cached r + (if downloaded then 0 else 1), rr_fetched := rr_fetched r + (if downloaded then 1 else 0)\<rparr>
            in if 6 * 1024 * 1024 < rr_bytes r2 then (fails ''npm_graph_too_large'', r2)
               else (case dependencies X u (import_specs 0 False source) of
                 Inl e \<Rightarrow> (Inl e, r2)
               | Inr (ds, ws) \<Rightarrow>
                 (Inr (map snd ds),
                  r2\<lparr>rr_warnings := rr_warnings r @ ws,
                    rr_modules := map_set path
                      (replace_specs (\<lambda>spec. map_option (\<lambda>d. relative_specifier path (path_for_url d)) (map_of (rev ds) spec)) 0 False source)
                      (rr_modules r)\<rparr>))))"

lemma resolve_one_seen: "rr_seen (snd (resolve_one X u r)) = rr_seen r @ [(nu_href u, path_for_url u)]"
  by (simp add: resolve_one_def Let_def split: prod.split sum.split)

function resolve_queue :: "npm_env \<Rightarrow> npm_url list \<Rightarrow> npm_run \<Rightarrow> unit res \<times> npm_run" where
  "resolve_queue X [] r = (Inr (), r)"
| "resolve_queue X (u # queue) r =
     (if map_of (rr_seen r) (nu_href u) \<noteq> None then resolve_queue X queue r
      else if 40 \<le> length (rr_seen r) then (fails ''npm_graph_too_large'', r)
      else (case resolve_one X u r of
              (Inl e, r') \<Rightarrow> (Inl e, r')
            | (Inr ds, r') \<Rightarrow> resolve_queue X (queue @ ds) r'))"
  by pat_completeness auto

termination
proof (relation "measures [\<lambda>(X, queue, r). 40 - length (rr_seen r), \<lambda>(X, queue, r). length queue]", goal_cases)
  case (3 X u queue r ds r')
  have "length (rr_seen r') = Suc (length (rr_seen r))" using resolve_one_seen [of X u r] 3(3) by (metis length_append_singleton snd_conv)
  then have "40 - length (rr_seen r') < 40 - length (rr_seen r)" using 3(2) by linarith
  then show ?case by simp
qed simp_all

record npm_resolution =
  nr_modules :: "(string \<times> string) list"
  nr_entries :: "(string \<times> string) list"
  nr_warnings :: "npm_warning list"
  nr_cached :: nat
  nr_downloaded :: nat

definition entry_url :: "npm_env \<Rightarrow> string \<Rightarrow> npm_url option" where
  "entry_url X specifier = map_option (nx_target X) (nx_parse X (''/'' @ specifier) (np_origin (nx_config X)))"

definition start_run :: "npm_state \<Rightarrow> npm_run" where
  "start_run s = \<lparr>rr_modules = [], rr_warnings = [], rr_seen = [], rr_new = [], rr_bytes = 0, rr_cached = 0, rr_fetched = 0, rr_state = s\<rparr>"

definition resolve_npm_modules :: "npm_env \<Rightarrow> string list \<Rightarrow> npm_state \<Rightarrow> npm_resolution res \<times> npm_state" where
  "resolve_npm_modules X specifiers s =
     (case map_res (\<lambda>spec. case entry_url X spec of None \<Rightarrow> internal_error | Some u \<Rightarrow> Inr (spec, u)) specifiers of
        Inl e \<Rightarrow> (Inl e, s)
      | Inr entries \<Rightarrow>
        (case resolve_queue X (map snd entries) (start_run s) of
           (Inl e, r) \<Rightarrow> (Inl e, rr_state r)
         | (Inr _, r) \<Rightarrow>
           (let st = rr_state r;
                st' = (case nt_durable st of
                  Some c \<Rightarrow> if rr_new r = [] then st
                    else st\<lparr>nt_durable := Some (snd (put_many (rr_new r) (np_max_bytes (nx_config X)) (nx_now X (length (rr_seen r))) c))\<rparr>
                | None \<Rightarrow> st)
            in (Inr \<lparr>nr_modules = rr_modules r, nr_entries = map (\<lambda>(spec, u). (spec, path_for_url u)) entries,
                  nr_warnings = rr_warnings r @ (if specifiers = [] then [] else [ResolvedThrough (rr_cached r) (rr_fetched r)]),
                  nr_cached = rr_cached r, nr_downloaded = rr_fetched r\<rparr>, st'))))"

section \<open>Requests\<close>

text \<open>A state after some requests for URLs that satisfy \<open>P\<close>, at most \<open>n\<close> of them.\<close>

definition requested :: "(string \<Rightarrow> bool) \<Rightarrow> nat \<Rightarrow> npm_state \<Rightarrow> npm_state \<Rightarrow> bool" where
  "requested P n s s' = (\<exists>hs. nt_requests s' = nt_requests s @ hs \<and> length hs \<le> n \<and> (\<forall>h\<in>set hs. P h))"

lemma requested_refl [simp]: "requested P n s s"
  by (simp add: requested_def)

lemma requested_trans:
  assumes "requested P n s s'" "requested P m s' s''"
  shows "requested P (n + m) s s''"
proof -
  obtain hs ks where "nt_requests s' = nt_requests s @ hs" "length hs \<le> n" "\<forall>h\<in>set hs. P h"
    "nt_requests s'' = nt_requests s' @ ks" "length ks \<le> m" "\<forall>h\<in>set ks. P h"
    using assms unfolding requested_def by blast
  then show ?thesis unfolding requested_def by (intro exI [of _ "hs @ ks"]) auto
qed

lemma requested_mono: "requested P n s s' \<Longrightarrow> n \<le> m \<Longrightarrow> requested P m s s'"
  unfolding requested_def using le_trans by blast

lemma requested_memoize [simp]: "requested P n s (memoize h t s') = requested P n s s'"
  by (simp add: requested_def memoize_def)

lemma load_module_requested:
  assumes "P h"
  shows "requested P 1 s (snd (load_module X n h s))"
proof (cases "map_of (nt_memo s) h")
  case None
  have f: "requested P 1 t (snd (fetch_from_cdn X h t))" for t
    using assms by (auto simp: requested_def fetch_from_cdn_def Let_def split: option.split)
  have after: "requested P 1 t (snd (case fetch_from_cdn X h t of (Inl e, s2) \<Rightarrow> (Inl e, s2) | (Inr b, s2) \<Rightarrow> (Inr (b, True), memoize h b s2)))" for t
    using f [of t] by (cases "fetch_from_cdn X h t" rule: prod.exhaust) (auto split: sum.split)
  show ?thesis
  proof (cases "nt_durable s")
    case None
    then show ?thesis using \<open>map_of (nt_memo s) h = None\<close> after [of s] by (simp add: load_module_def)
  next
    case (Some c)
    obtain found c' where g: "get_many [h] (np_ttl_ms (nx_config X)) (nx_now X n) c = (found, c')" by fastforce
    have same: "requested P m s t = requested P m (s\<lparr>nt_durable := Some c'\<rparr>) t" for m t by (simp add: requested_def)
    show ?thesis
      using \<open>map_of (nt_memo s) h = None\<close> Some g after [of "s\<lparr>nt_durable := Some c'\<rparr>"]
      by (cases "map_of found h") (simp_all add: load_module_def same [of "Suc 0"])
  qed
qed (simp add: load_module_def)

lemma resolve_one_requested: "P (nu_href u) \<Longrightarrow> requested P 1 (rr_state r) (rr_state (snd (resolve_one X u r)))"
  using load_module_requested [of P "nu_href u" "rr_state r" X "length (rr_seen r)"]
  by (auto simp: resolve_one_def Let_def split: prod.splits sum.splits)

lemma dependencies_origin: "dependencies X u specs = Inr (ds, ws) \<Longrightarrow> d \<in> set (map snd ds) \<Longrightarrow> nu_origin d = np_origin (nx_config X)"
proof (induction X u specs arbitrary: ds ws rule: dependencies.induct)
  case (2 X u spec specs)
  then show ?case by (force simp: bind_res_Inr split: if_splits option.splits)
qed simp

lemma resolve_one_origin: "fst (resolve_one X u r) = Inr ds \<Longrightarrow> d \<in> set ds \<Longrightarrow> nu_origin d = np_origin (nx_config X)"
  by (auto simp: resolve_one_def Let_def dest: dependencies_origin split: prod.splits sum.splits if_splits)

lemma resolve_queue_requested:
  "\<forall>u::npm_url. nu_origin u = np_origin (nx_config X) \<longrightarrow> P (nu_href u) \<Longrightarrow> \<forall>u\<in>set queue. P (nu_href u) \<Longrightarrow>
   requested P (40 - length (rr_seen r)) (rr_state r) (rr_state (snd (resolve_queue X queue r)))"
proof (induction X queue r rule: resolve_queue.induct)
  case (2 X u queue r)
  show ?case
  proof (cases "map_of (rr_seen r) (nu_href u) \<noteq> None \<or> 40 \<le> length (rr_seen r)")
    case True
    then show ?thesis using 2 by auto
  next
    case False
    then have fresh: "\<not> map_of (rr_seen r) (nu_href u) \<noteq> None" "\<not> 40 \<le> length (rr_seen r)" by auto
    obtain q r' where o: "resolve_one X u r = (q, r')" by fastforce
    have one: "requested P 1 (rr_state r) (rr_state r')" using resolve_one_requested [of P u r X] 2(4) o by simp
    have seen: "length (rr_seen r') = Suc (length (rr_seen r))" using resolve_one_seen [of X u r] o by simp
    show ?thesis
    proof (cases q)
      case (Inl e)
      then show ?thesis using requested_mono [OF one, of "40 - length (rr_seen r)"] fresh o by simp
    next
      case (Inr ds)
      have "P (nu_href v)" if "v \<in> set ds" for v
        using "2.prems"(1) resolve_one_origin [of X u r ds v] o Inr that by simp
      then have q: "\<forall>v\<in>set (queue @ ds). P (nu_href v)" using 2(4) by auto
      have "requested P (40 - length (rr_seen r')) (rr_state r') (rr_state (snd (resolve_queue X (queue @ ds) r')))"
        by (rule "2.IH"(2) [OF fresh o [symmetric] Inr "2.prems"(1) q])
      from requested_trans [OF one this] show ?thesis
        using requested_mono [of P "1 + (40 - length (rr_seen r'))" _ _ "40 - length (rr_seen r)"] fresh o Inr seen by simp
    qed
  qed
qed simp

text \<open>A resolution makes at most 40 requests, and each is for the URL of a specifier it was given or for one whose origin
  is the CDN's.\<close>

theorem npm_requests_bounded:
  assumes "resolve_npm_modules X specifiers s = (r, s')"
  shows "\<exists>hs. nt_requests s' = nt_requests s @ hs \<and> length hs \<le> 40 \<and>
    (\<forall>h\<in>set hs. \<exists>u::npm_url. nu_href u = h \<and> (nu_origin u = np_origin (nx_config X) \<or> (\<exists>spec\<in>set specifiers. entry_url X spec = Some u)))"
proof -
  let ?P = "\<lambda>h. \<exists>u::npm_url. nu_href u = h \<and> (nu_origin u = np_origin (nx_config X) \<or> (\<exists>spec\<in>set specifiers. entry_url X spec = Some u))"
  have "requested ?P 40 s s'"
  proof (cases "map_res (\<lambda>spec. case entry_url X spec of None \<Rightarrow> internal_error | Some u \<Rightarrow> Inr (spec, u)) specifiers")
    case (Inl e)
    then show ?thesis using assms by (simp add: resolve_npm_modules_def)
  next
    case (Inr entries)
    have "list_all2 (\<lambda>spec e. (case entry_url X spec of None \<Rightarrow> internal_error | Some u \<Rightarrow> Inr (spec, u)) = Inr e) specifiers entries"
      using map_res_InrD [OF Inr] .
    then have "\<forall>u\<in>set (map snd entries). \<exists>spec\<in>set specifiers. entry_url X spec = Some u"
      by (induction rule: list_all2_induct) (auto split: option.splits)
    then have q: "\<forall>u\<in>set (map snd entries). ?P (nu_href u)" by blast
    have "requested ?P 40 s (rr_state (snd (resolve_queue X (map snd entries) (start_run s))))"
      using resolve_queue_requested [of X ?P "map snd entries" "start_run s", OF _ q] by (auto simp: start_run_def)
    moreover have "nt_requests s' = nt_requests (rr_state (snd (resolve_queue X (map snd entries) (start_run s))))"
      using assms Inr by (auto simp: resolve_npm_modules_def Let_def split: prod.splits sum.splits option.splits if_splits)
    ultimately show ?thesis by (simp add: requested_def)
  qed
  then show ?thesis by (simp add: requested_def)
qed

section \<open>A specifier that leaves the CDN\<close>

text \<open>The URL parser reads a backslash as a slash, so the text of a specifier that begins with one names a host.\<close>

definition backslash_env :: npm_env where
  "backslash_env =
     \<lparr>nx_parse = (\<lambda>t base. Some (if starts_with t [CHR ''/'', CHR 0x5C]
        then \<lparr>nu_href = ''https://'' @ drop 2 t, nu_protocol = ''https:'', nu_origin = ''https://'' @ takeWhile (\<lambda>c. c \<noteq> CHR ''/'') (drop 2 t),
               nu_host = takeWhile (\<lambda>c. c \<noteq> CHR ''/'') (drop 2 t), nu_path = dropWhile (\<lambda>c. c \<noteq> CHR ''/'') (drop 2 t), nu_search = [], nu_hash = []\<rparr>
        else \<lparr>nu_href = ''https://esm.sh'' @ t, nu_protocol = ''https:'', nu_origin = ''https://esm.sh'', nu_host = ''esm.sh'', nu_path = t,
               nu_search = [], nu_hash = []\<rparr>)),
      nx_target = (\<lambda>u. u), nx_net = (\<lambda>n h. Some (200, if h = ''https://esm.sh/a'' then ''import \"/b\"'' else [])), nx_now = (\<lambda>n. 0),
      nx_config = \<lparr>np_enabled = True, np_origin = ''https://esm.sh'', np_max_bytes = 0, np_ttl_ms = 0\<rparr>\<rparr>"

definition no_npm_state :: npm_state where
  "no_npm_state = \<lparr>nt_memo = [], nt_durable = None, nt_requests = []\<rparr>"

lemma specifier_leaves_cdn:
  "nt_requests (snd (resolve_npm_modules backslash_env [CHR 0x5C # ''evil/x''] no_npm_state)) = [''https://evil/x'']"
  by code_simp

lemma npm_example:
  "map_sum id (\<lambda>r. map fst (nr_modules r)) (fst (resolve_npm_modules backslash_env [''a''] no_npm_state))
     = Inr [''npm/esm.sh/a.js'', ''npm/esm.sh/b.js'']
   \<and> nt_requests (snd (resolve_npm_modules backslash_env [''a''] no_npm_state)) = [''https://esm.sh/a'', ''https://esm.sh/b'']"
  by code_simp

text \<open>Two versions can share a path, so that one module takes the place of the other.\<close>

lemma paths_collide:
  "path_for_url (u\<lparr>nu_host := ''esm.sh'', nu_path := ''/p@^4'', nu_search := []\<rparr>) =
   path_for_url (u\<lparr>nu_host := ''esm.sh'', nu_path := ''/p@~4'', nu_search := []\<rparr>)"
  by (simp add: path_for_url_def path_char_def is_alnum_def is_digit_def is_lower_def is_upper_def in_range_def unit_of_def ends_with_def)

theorem npm_requests_bounded_witness:
  "\<exists>hs. nt_requests (snd (resolve_npm_modules backslash_env [''a''] no_npm_state)) = hs \<and> length hs \<le> 40 \<and> hs \<noteq> [] \<and>
    (\<forall>h\<in>set hs. \<exists>u::npm_url. nu_href u = h \<and>
      (nu_origin u = ''https://esm.sh'' \<or> (\<exists>spec\<in>set [''a'']. entry_url backslash_env spec = Some u)))"
proof -
  obtain r s' where r: "resolve_npm_modules backslash_env [''a''] no_npm_state = (r, s')" by fastforce
  have "nt_requests s' = [''https://esm.sh/a'', ''https://esm.sh/b'']" using npm_example r by simp
  moreover have "np_origin (nx_config backslash_env) = ''https://esm.sh''" "nt_requests no_npm_state = []"
    by (simp_all add: backslash_env_def no_npm_state_def)
  ultimately show ?thesis using npm_requests_bounded [OF r] r by simp
qed

end
