(* ===== verification/ModuleGraph.thy ===== *)
theory ModuleGraph
  imports PackageManifest NpmResolver
begin

text \<open>
  src/src/execute/module-graph.ts: the modules an isolate is given. The package lookup of the user's
  cell, the compiler, the lexer, the npm resolver and the texts of the host's own modules and of error
  messages are arguments. The recursion over packages that import each other has fuel; \<open>None\<close> is running
  out of it.
\<close>

definition runtime_module_path :: string where "runtime_module_path = ''kody-runtime.js''"
definition wrapper_module_path :: string where "wrapper_module_path = ''wrapper.js''"
definition adhoc_module_path :: string where "adhoc_module_path = ''main.js''"
definition sealed_module_path :: string where "sealed_module_path = ''kody-sealed.js''"

record graph_env =
  ge_package :: "string \<Rightarrow> (package_manifest \<times> package_files) option"
  ge_compiler :: compiler
  ge_lexer :: lexer
  ge_json_text :: "string \<Rightarrow> string option"
  ge_message :: "kody_error \<Rightarrow> string"
  ge_allow_npm :: bool
  ge_npm :: "string list \<Rightarrow> npm_resolution res"
  ge_sealed_source :: string
  ge_runtime_source :: string
  ge_wrapper :: "bool \<Rightarrow> string \<Rightarrow> string"

record graph =
  gr_modules :: "(string \<times> string) list"
  gr_included :: "string list"
  gr_providers :: "string list"
  gr_stub :: bool
  gr_npm :: "(string \<times> string list) list"
  gr_unreadable :: "(string \<times> kody_error) list"

definition empty_graph :: graph where
  "empty_graph = \<lparr>gr_modules = [], gr_included = [], gr_providers = [], gr_stub = False, gr_npm = [], gr_unreadable = []\<rparr>"

text \<open>A step that may throw, or need more fuel.\<close>

type_synonym 'a build = "graph \<Rightarrow> ('a res \<times> graph) option"

section \<open>Texts\<close>

text \<open>\<open>packageStorage\(\s*\)\<close> at the start: the length of the match.\<close>

definition storage_call :: "string \<Rightarrow> nat option" where
  "storage_call s =
     (if \<not> starts_with s ''packageStorage('' then None
      else (let r = trim_start (drop 15 s) in
        if starts_with r '')'' then Some (length s - length r + 1) else None))"

text \<open>\<open>after_word\<close> says that the character before belongs to a word.\<close>

fun stamp_go :: "string \<Rightarrow> nat \<Rightarrow> bool \<Rightarrow> string \<Rightarrow> string" where
  "stamp_go t skip after_word [] = []"
| "stamp_go t (Suc k) after_word (c # s) = stamp_go t k (word_char c) s"
| "stamp_go t 0 after_word (c # s) =
     (case (if after_word then None else storage_call (c # s)) of
        Some n \<Rightarrow> t @ stamp_go t (n - 1) (word_char c) s
      | None \<Rightarrow> c # stamp_go t 0 (word_char c) s)"

definition stamp_package_storage :: "string \<Rightarrow> string \<Rightarrow> string" where
  "stamp_package_storage source name = stamp_go (''packageStorage(\"'' @ name @ ''\")'') 0 False source"

definition deferred_failure_source :: "graph_env \<Rightarrow> kody_error \<Rightarrow> string" where
  "deferred_failure_source E e =
     join_with [char_of (10::nat)]
       [''const error = new Error('' @ ge_message E e @ '')'',
        ''error.name = \"KodyError:'' @ err_code e @ '':'' @ show_nat (err_status e) @ ''\"'',
        ''throw error'', ''export default undefined'', []]"

section \<open>Rewriting imports\<close>

definition import_target :: "string \<Rightarrow> string \<Rightarrow> graph \<Rightarrow> string \<times> graph" where
  "import_target from_path target g =
     (if target \<notin> set (gr_providers g) then (relative_specifier from_path target, g)
      else (relative_specifier from_path sealed_module_path, g\<lparr>gr_stub := True\<rparr>))"

definition note_npm :: "string \<Rightarrow> string \<Rightarrow> graph \<Rightarrow> graph" where
  "note_npm from_path specifier g =
     (let old = (case map_of (gr_npm g) from_path of Some s \<Rightarrow> s | None \<Rightarrow> []) in
      g\<lparr>gr_npm := map_set from_path (if specifier \<in> set old then old else old @ [specifier]) (gr_npm g)\<rparr>)"

text \<open>The replacement of a specifier; \<open>incl\<close> is \<open>includePackage\<close>.\<close>

definition rewrite_specifier :: "graph_env \<Rightarrow> (string \<Rightarrow> unit build) \<Rightarrow> string \<Rightarrow> string \<Rightarrow> string build" where
  "rewrite_specifier E incl specifier from_path g =
     (if specifier = ''kody:runtime'' then Some (Inr (relative_specifier from_path runtime_module_path), g)
      else case parse_kody_package_specifier specifier of
        Some (name, export_name) \<Rightarrow>
          (case ge_package E name of
             None \<Rightarrow> Some (Inl (KodyError ''package_not_found'' 404), g)
           | Some (m, files) \<Rightarrow>
             (case resolve_package_export m export_name of
                Inl e \<Rightarrow> Some (Inl e, g)
              | Inr path \<Rightarrow>
                (case incl name g of
                   None \<Rightarrow> None
                 | Some (Inl e, g') \<Rightarrow> Some (Inl e, g')
                 | Some (Inr _, g') \<Rightarrow>
                   Some (map_prod Inr (\<lambda>x. x) (import_target from_path (package_module_path name path) g')))))
      | None \<Rightarrow>
        if starts_with specifier ''kody:'' then Some (fails ''invalid_import'', g)
        else if is_builtin specifier then Some (Inr specifier, g)
        else if is_relative specifier then
          (case resolve_relative from_path specifier of
             Inl _ \<Rightarrow> Some (Inr specifier, g)
           | Inr target \<Rightarrow>
             (case find (\<lambda>c. in_object c (gr_modules g)) (relative_import_candidates target) of
                Some c \<Rightarrow> Some (map_prod Inr (\<lambda>x. x) (import_target from_path c g))
              | None \<Rightarrow> Some (Inr specifier, g)))
        else if \<not> ge_allow_npm E then Some (fails ''unsupported_import'', g)
        else Some (Inr specifier, note_npm from_path specifier g))"

fun rewrite_ranges :: "graph_env \<Rightarrow> (string \<Rightarrow> unit build) \<Rightarrow> string \<Rightarrow> import_range list \<Rightarrow>
    (string \<times> string) list \<Rightarrow> (string \<times> string) list build" where
  "rewrite_ranges E incl from_path [] m g = Some (Inr m, g)"
| "rewrite_ranges E incl from_path (r # rs) m g =
     (if ir_type_only r \<or> map_of m (ir_specifier r) \<noteq> None then rewrite_ranges E incl from_path rs m g
      else (case rewrite_specifier E incl (ir_specifier r) from_path g of
              None \<Rightarrow> None
            | Some (Inl e, g') \<Rightarrow> Some (Inl e, g')
            | Some (Inr t, g') \<Rightarrow> rewrite_ranges E incl from_path rs (map_set (ir_specifier r) t m) g'))"

definition rewrite_imports :: "graph_env \<Rightarrow> (string \<Rightarrow> unit build) \<Rightarrow> string \<Rightarrow> string \<Rightarrow> string build" where
  "rewrite_imports E incl source from_path g =
     (case lex_import_specifiers (ge_lexer E) source of
        Inl e \<Rightarrow> Some (Inl e, g)
      | Inr ranges \<Rightarrow>
        (case rewrite_ranges E incl from_path ranges [] g of
           None \<Rightarrow> None
         | Some (Inl e, g') \<Rightarrow> Some (Inl e, g')
         | Some (Inr m, g') \<Rightarrow> Some (Inr (replace_import_specifiers source (map_of m) ranges), g')))"

text \<open>The text of a module, with what rewriting it changed: a failure leaves a stub that throws it.\<close>

definition rewrite_module :: "graph_env \<Rightarrow> (string \<Rightarrow> unit build) \<Rightarrow> string \<Rightarrow> string \<Rightarrow> script_kind option \<Rightarrow>
    jsx_options \<Rightarrow> graph \<Rightarrow> (string \<times> graph) option" where
  "rewrite_module E incl source path kind jsx g =
     map_option (\<lambda>(r, g'). (case r of
         Inl e \<Rightarrow> (deferred_failure_source E e, g'\<lparr>gr_unreadable := map_set path e (gr_unreadable g')\<rparr>)
       | Inr code \<Rightarrow> (code, g')))
       (case (case kind of None \<Rightarrow> Inr source | Some k \<Rightarrow> strip_types (ge_compiler E) k jsx source) of
          Inl e \<Rightarrow> Some (Inl e, g)
        | Inr code \<Rightarrow> rewrite_imports E incl code path g)"

definition set_module :: "string \<Rightarrow> string \<Rightarrow> graph \<Rightarrow> graph" where
  "set_module path t g = g\<lparr>gr_modules := map_set path t (gr_modules g)\<rparr>"

definition json_module :: "graph_env \<Rightarrow> string \<Rightarrow> string \<Rightarrow> graph \<Rightarrow> graph" where
  "json_module E source path g =
     (case ge_json_text E source of
        Some t \<Rightarrow> set_module path (''export default '' @ t) g
      | None \<Rightarrow> set_module path ''export default undefined''
          (g\<lparr>gr_unreadable := map_set path (KodyError ''invalid_module'' 400) (gr_unreadable g)\<rparr>))"

definition is_module_file :: "string \<Rightarrow> bool" where
  "is_module_file file = (is_code_module_path file \<or> ends_with file ''.json'')"

definition register_files :: "(string \<Rightarrow> string) \<Rightarrow> package_files \<Rightarrow> graph \<Rightarrow> graph" where
  "register_files to_path files g =
     fold (\<lambda>(file, s) g. if is_module_file file then set_module (to_path file) [] g else g) files g"

fun include_each :: "graph_env \<Rightarrow> (string \<Rightarrow> unit build) \<Rightarrow> (string \<Rightarrow> string) \<Rightarrow> jsx_options \<Rightarrow> package_files \<Rightarrow> graph \<Rightarrow> graph option" where
  "include_each E incl to_path jsx [] g = Some g"
| "include_each E incl to_path jsx ((file, source) # files) g =
     (if is_code_module_path file then
        (case rewrite_module E incl source (to_path file) (transpile_kind file) jsx g of
           None \<Rightarrow> None
         | Some (t, g') \<Rightarrow> include_each E incl to_path jsx files (set_module (to_path file) t g'))
      else if ends_with file ''.json'' then
        include_each E incl to_path jsx files (json_module E source (to_path file) g)
      else include_each E incl to_path jsx files
        (g\<lparr>gr_modules := filter (\<lambda>p. fst p \<noteq> to_path file) (gr_modules g)\<rparr>))"

definition include_files :: "graph_env \<Rightarrow> (string \<Rightarrow> unit build) \<Rightarrow> package_files \<Rightarrow> (string \<Rightarrow> string) \<Rightarrow> graph \<Rightarrow> graph option" where
  "include_files E incl files to_path g =
     include_each E incl to_path (jsx_options_from_files (ge_compiler E) files) files (register_files to_path files g)"

definition module_text :: "string \<Rightarrow> graph \<Rightarrow> string" where
  "module_text path g = (case map_of (gr_modules g) path of Some t \<Rightarrow> t | None \<Rightarrow> [])"

definition stamp_files :: "string \<Rightarrow> package_files \<Rightarrow> graph \<Rightarrow> graph" where
  "stamp_files name files g =
     fold (\<lambda>(file, s) g.
       (let path = package_module_path name file in
        if is_code_module_path file then set_module path (stamp_package_storage (module_text path g) name) g else g)) files g"

text \<open>One call of \<open>includePackage\<close>; \<open>incl\<close> is the recursive call.\<close>

definition include_one :: "graph_env \<Rightarrow> (string \<Rightarrow> unit build) \<Rightarrow> string \<Rightarrow> unit build" where
  "include_one E incl name g =
     (if name \<in> set (gr_included g) then Some (Inr (), g)
      else
      (let g1 = g\<lparr>gr_included := gr_included g @ [name]\<rparr> in
       case ge_package E name of
         None \<Rightarrow> Some (Inl (KodyError ''package_not_found'' 404), g1)
       | Some (m, files) \<Rightarrow>
         (let g2 = (case pm_provider m of
                None \<Rightarrow> g1
              | Some p \<Rightarrow> g1\<lparr>gr_providers := gr_providers g1 @ [package_module_path name (sp_entry p)]\<rparr>)
          in map_option (\<lambda>g3. (Inr (), stamp_files name files g3))
               (include_files E incl files (package_module_path name) g2))))"

primrec include_package :: "graph_env \<Rightarrow> nat \<Rightarrow> string \<Rightarrow> unit build" where
  "include_package E 0 = (\<lambda>name g. None)"
| "include_package E (Suc fuel) = include_one E (include_package E fuel)"

section \<open>What the entry reaches\<close>

definition known_modules :: "(string \<times> string) list \<Rightarrow> string list" where
  "known_modules modules = map fst modules @ [runtime_module_path]"

definition reachable_import :: "(string \<times> string) list \<Rightarrow> string \<Rightarrow> import_range \<Rightarrow> string res" where
  "reachable_import modules path r =
     (case resolve_relative path (ir_specifier r) of
        Inl _ \<Rightarrow> fails ''invalid_import''
      | Inr target \<Rightarrow> if target \<notin> set (known_modules modules) then fails ''invalid_import'' else Inr target)"

definition static_imports :: "graph_env \<Rightarrow> (string \<times> string) list \<Rightarrow> (string \<times> kody_error) list \<Rightarrow> string \<Rightarrow> string list res" where
  "static_imports E modules unreadable path =
     (case map_of unreadable path of
        Some e \<Rightarrow> Inl e
      | None \<Rightarrow>
        if path = runtime_module_path \<or> ends_with path ''.json'' then Inr []
        else bind_res (lex_import_specifiers (ge_lexer E) (case map_of modules path of Some t \<Rightarrow> t | None \<Rightarrow> []))
          (\<lambda>ranges. map_res (reachable_import modules path) (filter linked ranges)))"

text \<open>Every path of the queue is the entry or known, so the walk passes over none.\<close>

definition assert_reachable_imports_resolve :: "graph_env \<Rightarrow> (string \<times> string) list \<Rightarrow> string \<Rightarrow> (string \<times> kody_error) list \<Rightarrow> unit res" where
  "assert_reachable_imports_resolve E modules entry unreadable =
     map_sum id (\<lambda>_. ()) (explore (entry # known_modules modules) (static_imports E modules unreadable) [] [entry])"

definition loadable_imports :: "graph_env \<Rightarrow> (string \<times> string) list \<Rightarrow> string \<Rightarrow> string list res" where
  "loadable_imports E modules path =
     (if ends_with path ''.json'' then Inr []
      else case lex_import_specifiers (ge_lexer E) (case map_of modules path of Some t \<Rightarrow> t | None \<Rightarrow> []) of
        Inl _ \<Rightarrow> Inr []
      | Inr ranges \<Rightarrow>
        Inr (List.map_filter (\<lambda>r. case resolve_relative path (ir_specifier r) of Inl _ \<Rightarrow> None | Inr t \<Rightarrow> Some t)
               (filter (\<lambda>r. \<not> ir_type_only r \<and> is_relative (ir_specifier r)) ranges)))"

text \<open>\<open>path in modules\<close> also lets an inherited member pass; it has no imports of npm, so it is left out here.\<close>

definition loadable_modules :: "graph_env \<Rightarrow> (string \<times> string) list \<Rightarrow> string \<Rightarrow> string list" where
  "loadable_modules E modules entry =
     (case explore (map fst modules) (loadable_imports E modules) [] [entry] of Inl _ \<Rightarrow> [] | Inr seen \<Rightarrow> seen)"

section \<open>The graph\<close>

datatype graph_entry =
    AdhocEntry string
  | PackageEntry (ge_name: string) (ge_export: "string option") (ge_path: "string option")

record graph_input =
  gi_entry :: graph_entry
  gi_sealed :: bool
  gi_app :: bool

record module_graph =
  mg_modules :: "(string \<times> string) list"
  mg_entry :: string
  mg_packages :: "string list"
  mg_npm :: "string list"
  mg_warnings :: "npm_warning list"

text \<open>The modules of the entry and its path.\<close>

definition include_entry :: "graph_env \<Rightarrow> nat \<Rightarrow> graph_input \<Rightarrow> string build" where
  "include_entry E fuel input g =
     (case gi_entry input of
        AdhocEntry code \<Rightarrow>
          map_option (\<lambda>(t, g'). (Inr adhoc_module_path, set_module adhoc_module_path t g'))
            (rewrite_module E (include_package E fuel) code adhoc_module_path (Some Ts) classic_jsx (set_module adhoc_module_path [] g))
      | PackageEntry name export_name entry_path \<Rightarrow>
          (case ge_package E name of
             None \<Rightarrow> Some (Inl (KodyError ''package_not_found'' 404), g)
           | Some (m, files) \<Rightarrow>
             (case (case some_text entry_path of
                  Some p \<Rightarrow> normalize_module_path p
                | None \<Rightarrow> resolve_package_export m (case export_name of Some x \<Rightarrow> x | None \<Rightarrow> ''.'')) of
                Inl e \<Rightarrow> Some (Inl e, g)
              | Inr file \<Rightarrow>
                if \<not> in_object file files then Some (Inl (KodyError ''unknown_export'' 404), g)
                else (case include_package E fuel name g of
                   None \<Rightarrow> None
                 | Some (Inl e, g') \<Rightarrow> Some (Inl e, g')
                 | Some (Inr _, g') \<Rightarrow>
                   (let path = package_module_path name file in
                    if \<not> gi_sealed input \<and> path \<in> set (gr_providers g')
                    then Some (Inl (KodyError ''secret_provider_entry_sealed'' 403), g')
                    else Some (Inr path, g'))))))"

definition npm_specifiers :: "graph_env \<Rightarrow> (string \<times> string) list \<Rightarrow> (string \<times> string list) list \<Rightarrow> string \<Rightarrow> string list" where
  "npm_specifiers E modules npm entry =
     in_set_order (concat (map (\<lambda>p. case map_of npm p of Some s \<Rightarrow> s | None \<Rightarrow> []) (loadable_modules E modules entry)))"

text \<open>Pointing the npm imports of a module at what was fetched for them.\<close>

definition link_npm :: "graph_env \<Rightarrow> (string \<times> kody_error) list \<Rightarrow> (string \<times> string) list \<Rightarrow> string \<times> string \<Rightarrow> (string \<times> string) res" where
  "link_npm E unreadable npm_paths = (\<lambda>(path, source).
     if starts_with path ''npm/'' \<or> map_of unreadable path \<noteq> None then Inr (path, source)
     else bind_res (lex_import_specifiers (ge_lexer E) source) (\<lambda>ranges.
       Inr (path, replace_import_specifiers source
         (\<lambda>s. map_option (relative_specifier path) (some_text (map_of npm_paths s))) ranges)))"

definition add_npm :: "graph_env \<Rightarrow> (string \<times> string) list \<Rightarrow> (string \<times> kody_error) list \<Rightarrow> string list \<Rightarrow>
    ((string \<times> string) list \<times> npm_warning list) res" where
  "add_npm E modules unreadable specifiers =
     (if specifiers = [] then Inr (modules, [])
      else bind_res (ge_npm E specifiers) (\<lambda>r.
        bind_res (map_res (link_npm E unreadable (nr_entries r)) (fold (\<lambda>(k, v). map_set k v) (nr_modules r) modules))
          (\<lambda>ms. Inr (ms, nr_warnings r))))"

definition finish_graph :: "graph_env \<Rightarrow> graph_input \<Rightarrow> string \<Rightarrow> graph \<Rightarrow> module_graph res" where
  "finish_graph E input entry g =
     (let modules = (if gr_stub g then map_set sealed_module_path (ge_sealed_source E) (gr_modules g) else gr_modules g) in
      bind_res (assert_reachable_imports_resolve E modules entry (gr_unreadable g)) (\<lambda>_.
      (let specifiers = npm_specifiers E modules (gr_npm g) entry in
       bind_res (add_npm E modules (gr_unreadable g) specifiers) (\<lambda>(ms, warnings).
         Inr \<lparr>mg_modules = map_set wrapper_module_path (ge_wrapper E (gi_app input) (relative_specifier wrapper_module_path entry))
                (map_set runtime_module_path (ge_runtime_source E) ms),
              mg_entry = entry, mg_packages = gr_included g, mg_npm = specifiers, mg_warnings = warnings\<rparr>))))"

definition build_module_graph :: "graph_env \<Rightarrow> nat \<Rightarrow> graph_input \<Rightarrow> module_graph res option" where
  "build_module_graph E fuel input =
     map_option (\<lambda>(r, g). bind_res r (\<lambda>entry. finish_graph E input entry g)) (include_entry E fuel input empty_graph)"

text \<open>With the npm resolver in a state of its own.\<close>

definition build_with_npm :: "graph_env \<Rightarrow> npm_env \<Rightarrow> npm_state \<Rightarrow> nat \<Rightarrow> graph_input \<Rightarrow> module_graph res option" where
  "build_with_npm E X s = build_module_graph (E\<lparr>ge_npm := \<lambda>specifiers. fst (resolve_npm_modules X specifiers s)\<rparr>)"

section \<open>Termination\<close>

text \<open>Each nested call includes one more of the saved packages, so there are never more of them than packages.\<close>

definition fits :: "string list \<Rightarrow> nat \<Rightarrow> graph \<Rightarrow> bool" where
  "fits names k g = (card (set names - set (gr_included g)) < k)"

definition extends :: "graph \<Rightarrow> graph \<Rightarrow> bool" where
  "extends g g' = (set (gr_included g) \<subseteq> set (gr_included g') \<and> set (gr_providers g) \<subseteq> set (gr_providers g'))"

definition returns :: "'a build \<Rightarrow> graph \<Rightarrow> bool" where
  "returns b g = (\<exists>r g'. b g = Some (r, g') \<and> extends g g')"

definition total_for :: "string list \<Rightarrow> nat \<Rightarrow> (string \<Rightarrow> unit build) \<Rightarrow> bool" where
  "total_for names k incl = (\<forall>name g. fits names k g \<longrightarrow> returns (incl name) g)"

lemma extends_refl [simp, intro]: "extends g g"
  by (simp add: extends_def)

lemma extends_trans: "extends g g' \<Longrightarrow> extends g' g'' \<Longrightarrow> extends g g''"
  by (auto simp: extends_def)

lemma extends_updates [simp]:
  "extends g (g'\<lparr>gr_modules := m\<rparr>) = extends g g'"
  "extends g (g'\<lparr>gr_stub := b\<rparr>) = extends g g'"
  "extends g (g'\<lparr>gr_npm := n\<rparr>) = extends g g'"
  "extends g (g'\<lparr>gr_unreadable := u\<rparr>) = extends g g'"
  by (simp_all add: extends_def)

lemma extends_set_module [simp]: "extends g (set_module p t g') = extends g g'"
  by (simp add: set_module_def)

lemma fits_mono: "fits names k g \<Longrightarrow> extends g g' \<Longrightarrow> fits names k g'"
  unfolding fits_def extends_def by (rule le_less_trans [OF card_mono]) auto

lemma import_target_extends: "extends g (snd (import_target from_path target g))"
  by (simp add: import_target_def)

lemma rewrite_specifier_returns:
  assumes "total_for names k incl" "fits names k g"
  shows "returns (rewrite_specifier E incl specifier from_path) g"
proof -
  have i: "returns (incl name) g" for name using assms by (simp add: total_for_def)
  show ?thesis
  proof (cases "parse_kody_package_specifier specifier")
    case None
    then show ?thesis
      by (auto simp: returns_def rewrite_specifier_def note_npm_def Let_def import_target_def split: sum.splits option.splits)
  next
    case (Some p)
    obtain name export_name where p: "p = (name, export_name)" by (cases p)
    obtain r g' where "incl name g = Some (r, g')" "extends g g'" using i [of name] by (auto simp: returns_def)
    then show ?thesis
      using Some p by (cases r) (auto simp: returns_def rewrite_specifier_def import_target_def split: sum.splits option.splits)
  qed
qed

lemma rewrite_ranges_returns:
  "total_for names k incl \<Longrightarrow> fits names k g \<Longrightarrow> returns (rewrite_ranges E incl from_path rs m) g"
proof (induction rs arbitrary: m g)
  case (Cons r rs)
  obtain x g' where x: "rewrite_specifier E incl (ir_specifier r) from_path g = Some (x, g')" "extends g g'"
    using rewrite_specifier_returns [OF Cons.prems, of E "ir_specifier r" from_path] unfolding returns_def by blast
  note rest = Cons.IH [OF Cons.prems(1) fits_mono [OF Cons.prems(2) x(2)]]
  show ?case
    using Cons.IH [OF Cons.prems, of m] x rest by (cases x) (auto simp: returns_def intro: extends_trans, blast intro: extends_trans)
qed (simp add: returns_def)

lemma rewrite_module_returns:
  assumes "total_for names k incl" "fits names k g"
  shows "\<exists>t g'. rewrite_module E incl source path kind jsx g = Some (t, g') \<and> extends g g'"
proof -
  have imp: "returns (rewrite_imports E incl code path) g" for code
  proof (cases "lex_import_specifiers (ge_lexer E) code")
    case (Inr ranges)
    obtain x g' where "rewrite_ranges E incl path ranges [] g = Some (x, g')" "extends g g'"
      using rewrite_ranges_returns [OF assms, of E path ranges "[]"] unfolding returns_def by blast
    then show ?thesis using Inr by (cases x) (auto simp: returns_def rewrite_imports_def)
  qed (simp add: returns_def rewrite_imports_def)
  show ?thesis
  proof (cases "case kind of None \<Rightarrow> Inr source | Some k \<Rightarrow> strip_types (ge_compiler E) k jsx source")
    case (Inr code)
    obtain r g' where "rewrite_imports E incl code path g = Some (r, g')" "extends g g'"
      using imp [of code] unfolding returns_def by blast
    then show ?thesis using Inr by (cases r) (auto simp: rewrite_module_def)
  qed (simp add: rewrite_module_def)
qed

lemma include_each_returns:
  "total_for names k incl \<Longrightarrow> fits names k g \<Longrightarrow> \<exists>g'. include_each E incl to_path jsx files g = Some g' \<and> extends g g'"
proof (induction files arbitrary: g)
  case (Cons f files)
  obtain name source where f: "f = (name, source)" by (cases f)
  have next_one: "\<exists>g''. include_each E incl to_path jsx files g' = Some g'' \<and> extends g g''" if "extends g g'" for g'
    using Cons.IH [OF Cons.prems(1) fits_mono [OF Cons.prems(2) that]] extends_trans [OF that] by blast
  obtain t g' where t: "rewrite_module E incl source (to_path name) (transpile_kind name) jsx g = Some (t, g')" "extends g g'"
    using rewrite_module_returns [OF Cons.prems] by blast
  have json: "extends g (json_module E source (to_path name) g)"
    by (simp add: json_module_def split: option.split)
  show ?case
    unfolding f using t next_one [of "set_module (to_path name) t g'"] next_one [OF json] next_one by simp
qed simp

lemma fold_extends: "(\<And>x g. extends g (f x g)) \<Longrightarrow> extends g (fold f xs g)"
  by (induction xs arbitrary: g) (auto intro: extends_trans)

text \<open>The graph in which the files of a package are read: it is included and its provider entry is known.\<close>

definition entered :: "string \<Rightarrow> package_manifest \<Rightarrow> graph \<Rightarrow> graph" where
  "entered name m g =
     (let g1 = g\<lparr>gr_included := gr_included g @ [name]\<rparr> in
      case pm_provider m of
        None \<Rightarrow> g1
      | Some p \<Rightarrow> g1\<lparr>gr_providers := gr_providers g1 @ [package_module_path name (sp_entry p)]\<rparr>)"

lemma entered_included [simp]: "gr_included (entered name m g) = gr_included g @ [name]"
  by (simp add: entered_def Let_def split: option.split)

lemma include_one_reads:
  assumes "total_for names k incl" "fits names k (entered name m g)"
    "ge_package E name = Some (m, files)" "name \<notin> set (gr_included g)"
  shows "\<exists>g'. include_one E incl name g = Some (Inr (), g') \<and> extends (entered name m g) g'"
proof -
  have reg: "extends (entered name m g) (register_files (package_module_path name) files (entered name m g))"
    unfolding register_files_def by (rule fold_extends) auto
  then obtain g3 where g3: "include_files E incl files (package_module_path name) (entered name m g) = Some g3"
    "extends (register_files (package_module_path name) files (entered name m g)) g3"
    unfolding include_files_def using include_each_returns [OF assms(1) fits_mono [OF assms(2)]] by blast
  have "extends g3 (stamp_files name files g3)"
    unfolding stamp_files_def by (rule fold_extends) (auto simp: Let_def)
  then have "extends (entered name m g) (stamp_files name files g3)" using extends_trans reg g3(2) by blast
  moreover have "include_one E incl name g = Some (Inr (), stamp_files name files g3)"
    using assms(3,4) g3(1) by (simp add: include_one_def Let_def entered_def)
  ultimately show ?thesis by blast
qed

lemma include_one_total:
  assumes "total_for names k incl" "\<And>name. ge_package E name \<noteq> None \<Longrightarrow> name \<in> set names"
  shows "total_for names (Suc k) (include_one E incl)"
  unfolding total_for_def
proof (intro allI impI)
  fix name g assume g: "fits names (Suc k) g"
  show "returns (include_one E incl name) g"
  proof (cases "name \<in> set (gr_included g) \<or> ge_package E name = None")
    case True
    then show ?thesis by (auto simp: returns_def include_one_def extends_def Let_def)
  next
    case False
    then obtain m files where p: "ge_package E name = Some (m, files)" "name \<notin> set (gr_included g)" by auto
    have "card (set names - set (gr_included (entered name m g))) < card (set names - set (gr_included g))"
      by (rule psubset_card_mono) (use assms(2) [of name] p in auto)
    then have "fits names k (entered name m g)" using g by (simp add: fits_def)
    from include_one_reads [OF assms(1) this p] obtain g' where
      "include_one E incl name g = Some (Inr (), g')" "extends (entered name m g) g'" by blast
    moreover have "extends g (entered name m g)" by (auto simp: extends_def entered_def Let_def split: option.split)
    ultimately show ?thesis using extends_trans unfolding returns_def by blast
  qed
qed

lemma include_package_total:
  "(\<And>name. ge_package E name \<noteq> None \<Longrightarrow> name \<in> set names) \<Longrightarrow> total_for names k (include_package E k)"
proof (induction k)
  case 0
  show ?case by (simp add: total_for_def fits_def)
next
  case (Suc k)
  then show ?case using include_one_total by simp
qed

lemma fits_enough: "length names < fuel \<Longrightarrow> fits names fuel g"
  unfolding fits_def using card_mono [of "set names" "set names - set (gr_included g)"] card_length [of names] by simp

text \<open>C24 (termination). A graph is built, or refused with an error, however the packages import each other: fuel for one call more than
  there are saved packages is enough.\<close>

theorem graph_is_built:
  assumes "\<And>name. ge_package E name \<noteq> None \<Longrightarrow> name \<in> set names" "length names < fuel"
  shows "build_module_graph E fuel input \<noteq> None"
proof -
  have t: "total_for names fuel (include_package E fuel)" by (rule include_package_total [OF assms(1)])
  have f: "fits names fuel g" for g using fits_enough [OF assms(2)] .
  have b: "\<exists>r g'. include_package E fuel name g = Some (r, g')" for name g
    using t f unfolding total_for_def returns_def by blast
  show ?thesis
  proof (cases "gi_entry input")
    case (AdhocEntry code)
    then show ?thesis
      using rewrite_module_returns [OF t f, of E code adhoc_module_path "Some Ts" classic_jsx "set_module adhoc_module_path [] empty_graph"]
      by (auto simp: build_module_graph_def include_entry_def)
  next
    case (PackageEntry name export_name path)
    obtain r g' where "include_package E fuel name empty_graph = Some (r, g')" using b by blast
    then show ?thesis
      using PackageEntry by (cases r) (auto simp: build_module_graph_def include_entry_def Let_def split: option.splits sum.splits)
  qed
qed

section \<open>Reachable imports\<close>


section \<open>Provider entries\<close>









section \<open>A package with a provider entry\<close>

text \<open>A lexer for sources that are specifiers with semicolons between them, and a package \<open>b\<close> whose \<open>s.js\<close> is the
  entry of a secret provider.\<close>

fun listed_imports :: "nat \<Rightarrow> string list \<Rightarrow> lexed_import list" where
  "listed_imports k [] = []"
| "listed_imports k (w # ws) =
     \<lparr>lx_name = Some w, lx_start = k, lx_end = k + length w, lx_statement = k, lx_kind = -1\<rparr> # listed_imports (k + length w + 1) ws"

definition list_lexer :: lexer where
  "list_lexer s = Some (if list_ex (\<lambda>c. c = CHR ''/'' \<or> c = CHR '':'') s then listed_imports 0 (split_on CHR '';'' s) else [])"

definition provider_manifest :: package_manifest where
  "provider_manifest =
     \<lparr>pm_name = ''b'', pm_version = ''1'', pm_description = [], pm_exports = [(''.'', ''x.js''), (''secretProvider'', ''s.js'')],
      pm_jobs = [], pm_webhooks = [], pm_subscriptions = [], pm_provider = Some \<lparr>sp_id = ''v'', sp_entry = ''s.js'', sp_description = None\<rparr>,
      pm_app = None, pm_dependencies = [], pm_hidden = False, pm_keywords = []\<rparr>"

definition provider_env :: graph_env where
  "provider_env =
     \<lparr>ge_package = (\<lambda>n. if n = ''b'' then Some (provider_manifest, [(''x.js'', ''./s.js''), (''s.js'', ''value'')]) else None),
      ge_compiler = sample_compiler, ge_lexer = list_lexer, ge_json_text = (\<lambda>s. None), ge_message = (\<lambda>e. err_code e),
      ge_allow_npm = False, ge_npm = (\<lambda>s. internal_error), ge_sealed_source = ''sealed'', ge_runtime_source = ''runtime'',
      ge_wrapper = (\<lambda>a s. s)\<rparr>"


definition build_adhoc :: "string \<Rightarrow> module_graph res option" where
  "build_adhoc code = build_module_graph provider_env 2 \<lparr>gi_entry = AdhocEntry code, gi_sealed = False, gi_app = False\<rparr>"

definition module_of :: "string \<Rightarrow> module_graph res option \<Rightarrow> string option" where
  "module_of path r = (case r of Some (Inr m) \<Rightarrow> map_of (mg_modules m) path | _ \<Rightarrow> None)"

lemma provider_example:
  "module_of ''main.js'' (build_adhoc ''kody:b;./packages/b/s.js'') = Some ''./packages/b/x.js;./kody-sealed.js''"
  "module_of ''packages/b/x.js'' (build_adhoc ''kody:b;./packages/b/s.js'') = Some ''../../kody-sealed.js''"
  by code_simp+

text \<open>The order of the imports matters: a relative import of a provider's entry that comes before the import of its
  package is left as written, and then resolves to the entry itself, in a run that is not sealed.\<close>

theorem early_import_reaches_entry:
  "module_of ''main.js'' (build_adhoc ''./packages/b/s.js;kody:b'') = Some ''./packages/b/s.js;./packages/b/x.js''
   \<and> module_of ''packages/b/s.js'' (build_adhoc ''./packages/b/s.js;kody:b'') = Some ''value''
   \<and> resolve_relative ''main.js'' ''./packages/b/s.js'' = Inr ''packages/b/s.js''"
  by code_simp

lemma entry_registered:
  assumes "\<And>name. ge_package E name \<noteq> None \<Longrightarrow> name \<in> set names" "length names < fuel"
    and m: "ge_package E name = Some (m, files)" "pm_provider m = Some p"
    and r: "include_package E fuel name empty_graph = Some (x, g')"
  shows "package_module_path name (sp_entry p) \<in> set (gr_providers g')"
proof -
  obtain k where k: "fuel = Suc k" using assms(2) by (cases fuel) auto
  have "name \<in> set names" using assms(1) m(1) by blast
  then have "card (set names - set (gr_included (entered name m empty_graph))) < card (set names)"
    by (intro psubset_card_mono) auto
  then have "fits names k (entered name m empty_graph)"
    using card_length [of names] assms(2) k by (simp add: fits_def)
  moreover have t: "total_for names k (include_package E k)" by (rule include_package_total [OF assms(1)])
  moreover have "name \<notin> set (gr_included empty_graph)" by (simp add: empty_graph_def)
  ultimately obtain g2 where "include_one E (include_package E k) name empty_graph = Some (Inr (), g2)" "extends (entered name m empty_graph) g2"
    using include_one_reads [OF t _ m(1)] by blast
  then have "extends (entered name m empty_graph) g'" using r k by simp
  moreover have "package_module_path name (sp_entry p) \<in> set (gr_providers (entered name m empty_graph))"
    using m(2) by (simp add: entered_def)
  ultimately show ?thesis by (auto simp: extends_def)
qed

text \<open>C20 (error). A run that is not sealed never has a secret provider's entry as its own entry, by whichever export or path it is named.\<close>

theorem unsealed_entry_refused:
  assumes "\<And>name. ge_package E name \<noteq> None \<Longrightarrow> name \<in> set names" "length names < fuel"
    and "ge_package E name = Some (m, files)" "pm_provider m = Some p"
    and "gi_entry input = PackageEntry name export_name path" "\<not> gi_sealed input"
    and "build_module_graph E fuel input = Some (Inr mg)"
  shows "mg_entry mg \<noteq> package_module_path name (sp_entry p)"
proof -
  obtain entry g where e: "include_entry E fuel input empty_graph = Some (Inr entry, g)" "finish_graph E input entry g = Inr mg"
    using assms(7) by (auto simp: build_module_graph_def bind_res_Inr)
  obtain x g' where x: "include_package E fuel name empty_graph = Some (x, g')" "entry \<notin> set (gr_providers g')"
    using e(1) assms(3,5,6) by (auto simp: include_entry_def Let_def split: option.splits sum.splits if_splits)
  have "mg_entry mg = entry" using e(2) by (auto simp: finish_graph_def Let_def bind_res_Inr)
  then show ?thesis using entry_registered [OF assms(1-4) x(1)] x(2) by metis
qed

lemma provider_env_packages: "ge_package provider_env name \<noteq> None \<Longrightarrow> name \<in> set [''b'']"
  by (simp add: provider_env_def split: if_splits)

theorem graph_is_built_witness:
  "\<forall>input. build_module_graph provider_env 2 input \<noteq> None"
  using graph_is_built [of provider_env "[''b'']" 2] provider_env_packages by auto

lemma sealed_run:
  "map_option (map_sum id mg_entry) (build_module_graph provider_env 2 \<lparr>gi_entry = PackageEntry ''b'' None None, gi_sealed = False, gi_app = False\<rparr>)
     = Some (Inr ''packages/b/x.js'')
   \<and> build_module_graph provider_env 2 \<lparr>gi_entry = PackageEntry ''b'' None (Some ''./s.js''), gi_sealed = False, gi_app = False\<rparr>
     = Some (Inl (KodyError ''secret_provider_entry_sealed'' 403))"
  by code_simp


theorem unsealed_entry_refused_witness:
  "\<exists>mg. build_module_graph provider_env 2 \<lparr>gi_entry = PackageEntry ''b'' None None, gi_sealed = False, gi_app = False\<rparr> = Some (Inr mg)
     \<and> mg_entry mg \<noteq> ''packages/b/s.js''"
proof -
  obtain mg where mg: "build_module_graph provider_env 2 \<lparr>gi_entry = PackageEntry ''b'' None None, gi_sealed = False, gi_app = False\<rparr> = Some (Inr mg)"
    using sealed_run by (auto simp: map_sum_Inr)
  have "ge_package provider_env ''b'' = Some (provider_manifest, [(''x.js'', ''./s.js''), (''s.js'', ''value'')])"
    "pm_provider provider_manifest = Some \<lparr>sp_id = ''v'', sp_entry = ''s.js'', sp_description = None\<rparr>"
    by (simp_all add: provider_env_def provider_manifest_def)
  from unsealed_entry_refused [OF provider_env_packages _ this _ _ mg] mg show ?thesis
    by (simp add: package_module_path_def)
qed



end
