(* ===== verification/UserPackages.thy ===== *)
theory UserPackages
  imports PackageManifest Webhooks ProviderStore
begin

text \<open>
  The packages of a user: packageSave, packageList, packageStamps, packageGet and packageDelete of
  src/src/cells/user-cell.ts, over the file rows of src/src/packages/package-files-store.ts, the job tables
  (Jobs), the webhook tables (Webhooks), the vault (Secrets) and the provider bindings (ProviderStore). The
  manifest of a row is kept parsed. A save is not a transaction: an error after the first statement leaves
  what was written.
\<close>

section \<open>Tables\<close>

record package_row =
  pk_name :: string
  pk_version :: string
  pk_manifest :: package_manifest
  pk_source :: string
  pk_created :: time
  pk_updated :: time

record file_row =
  pf_package :: string
  pf_path :: string
  pf_content :: string

record package_cell =
  pc_packages :: "package_row list"
  pc_files :: "file_row list"
  pc_jobs :: jobs
  pc_hooks :: webhooks
  pc_vault :: vault
  pc_providers :: provider_store

record package_env =
  pe_compiler :: compiler
  pe_lexer :: lexer
  pe_calendar :: calendar
  pe_quotas :: quotas

section \<open>Files\<close>

definition max_package_total_bytes :: int where "max_package_total_bytes = 4 * 1024 * 1024"
definition max_package_file_bytes :: int where "max_package_file_bytes = 1800000"

fun sum_sizes :: "package_files \<Rightarrow> int \<Rightarrow> int res" where
  "sum_sizes [] n = Inr n"
| "sum_sizes ((path, content) # files) n =
     (if max_package_file_bytes < int (length content) then fails ''invalid_package''
      else sum_sizes files (n + int (length content)))"

definition assert_package_file_sizes :: "package_files \<Rightarrow> unit res" where
  "assert_package_file_sizes files =
     bind_res (sum_sizes files 0) (\<lambda>n. if max_package_total_bytes < n then fails ''invalid_package'' else Inr ())"

definition replace_package_files :: "string \<Rightarrow> package_files \<Rightarrow> file_row list \<Rightarrow> file_row list" where
  "replace_package_files name files rows =
     delete_where (\<lambda>r. pf_package r = name) rows
     @ map (\<lambda>(path, content). \<lparr>pf_package = name, pf_path = path, pf_content = content\<rparr>) files"


definition count_package_files :: "string \<Rightarrow> file_row list \<Rightarrow> nat" where
  "count_package_files name rows = length (filter (\<lambda>r. pf_package r = name) rows)"

section \<open>Saving\<close>

record package_input =
  pi_files :: "(string \<times> json) list"
  pi_source :: "string option"

record package_summary =
  su_name :: string
  su_version :: string
  su_manifest :: package_manifest
  su_source :: string
  su_created :: time
  su_updated :: time
  su_file_count :: nat
  su_warnings :: "string list"

fun input_files :: "(string \<times> json) list \<Rightarrow> package_files \<Rightarrow> package_files res" where
  "input_files [] files = Inr files"
| "input_files ((path, JStr content) # es) files = input_files es (put_key (without_dot path) content files)"
| "input_files ((path, v) # es) files = fails ''invalid_package''"

definition packages_get :: "string \<Rightarrow> package_row list \<Rightarrow> package_row option" where
  "packages_get name rows = select_one (\<lambda>r. pk_name r = name) rows"

definition put_package_row :: "package_manifest \<Rightarrow> string \<Rightarrow> time \<Rightarrow> package_row list \<Rightarrow> package_row list" where
  "put_package_row m source now rows =
     upsert (\<lambda>r. pk_name r = pm_name m)
       (\<lambda>r. r\<lparr>pk_version := pm_version m, pk_manifest := m, pk_source := source, pk_updated := now\<rparr>)
       \<lparr>pk_name = pm_name m, pk_version = pm_version m, pk_manifest = m, pk_source = source, pk_created = now, pk_updated = now\<rparr> rows"

text \<open>What is checked before anything is written: the files, the manifest, the schedules and the quotas.
  \<open>clock\<close> is the reading that the schedules are validated against.\<close>

definition check_package :: "package_env \<Rightarrow> package_input \<Rightarrow> time \<Rightarrow> package_cell \<Rightarrow> (package_files \<times> package_manifest) res" where
  "check_package E inp clock s =
     bind_res (map_sum id own_order (input_files (object_entries (pi_files inp)) [])) (\<lambda>files.
     bind_res (assert_package_file_sizes files) (\<lambda>_.
     bind_res (parse_package_manifest (pe_compiler E) (pe_lexer E) files) (\<lambda>m.
     bind_res (map_res (\<lambda>(name, j). validate_schedule (pe_calendar E) (mj_schedule j) (mj_timezone j) clock) (pm_jobs m)) (\<lambda>_.
     bind_res (if packages_get (pm_name m) (pc_packages s) = None then assert_quota (pe_quotas E) QPackages (length (pc_packages s)) else Inr ()) (\<lambda>_.
     bind_res (if pm_jobs m = [] then Inr ()
               else assert_quota (pe_quotas E) QJobs
                 (length (filter (\<lambda>r. jb_package r \<noteq> pm_name m) (js_jobs (pc_jobs s))) + length (pm_jobs m) - 1)) (\<lambda>_.
       Inr (files, m)))))))"

definition provider_after_save :: "package_manifest \<Rightarrow> provider_store \<Rightarrow> provider_store" where
  "provider_after_save m p =
     (case pm_provider m of None \<Rightarrow> snd (unbind_package (pm_name m) p) | Some d \<Rightarrow> invalidate (sp_id d) p)"

definition package_save :: "package_env \<Rightarrow> package_input \<Rightarrow> time \<Rightarrow> time \<Rightarrow> package_cell \<Rightarrow> package_summary res \<times> package_cell" where
  "package_save E inp clock now s =
     (case check_package E inp clock s of
        Inl e \<Rightarrow> (Inl e, s)
      | Inr (files, m) \<Rightarrow>
        (let source = (case pi_source inp of Some t \<Rightarrow> t | None \<Rightarrow> ''local'');
             created = (case packages_get (pm_name m) (pc_packages s) of Some r \<Rightarrow> pk_created r | None \<Rightarrow> now);
             s1 = s\<lparr>pc_packages := put_package_row m source now (pc_packages s),
                    pc_files := replace_package_files (pm_name m) files (pc_files s)\<rparr>
         in case reconcile_jobs (pe_calendar E) (pm_name m) (pm_jobs m) now (pc_jobs s1) of
              (Inl e, js) \<Rightarrow> (Inl e, s1\<lparr>pc_jobs := js\<rparr>)
            | (Inr _, js) \<Rightarrow>
              (Inr \<lparr>su_name = pm_name m, su_version = pm_version m, su_manifest = m, su_source = source, su_created = created,
                    su_updated = now, su_file_count = length files, su_warnings = manifest_warnings m\<rparr>,
               s1\<lparr>pc_jobs := js, pc_hooks := reconcile_webhooks (pm_name m) (pm_webhooks m) now (pc_hooks s1),
                  pc_providers := provider_after_save m (pc_providers s1)\<rparr>)))"

section \<open>Reading and deleting\<close>


definition package_list :: "package_cell \<Rightarrow> package_summary list" where
  "package_list s =
     map (\<lambda>r. \<lparr>su_name = pk_name r, su_version = pk_version r, su_manifest = pk_manifest r, su_source = pk_source r,
            su_created = pk_created r, su_updated = pk_updated r,
            su_file_count = count_package_files (pk_name r) (pc_files s), su_warnings = []\<rparr>)
       (sort_key pk_name (pc_packages s))"

definition package_stamps :: "string list \<Rightarrow> package_cell \<Rightarrow> (string \<times> time) list" where
  "package_stamps names s =
     map (\<lambda>r. (pk_name r, pk_updated r)) (filter (\<lambda>r. pk_name r \<in> set names) (pc_packages s))"


definition package_delete :: "string \<Rightarrow> package_cell \<Rightarrow> bool \<times> package_cell" where
  "package_delete name s =
     (rows_written (\<lambda>r. pk_name r = name) (pc_packages s),
      s\<lparr>pc_packages := delete_where (\<lambda>r. pk_name r = name) (pc_packages s),
        pc_files := delete_where (\<lambda>r. pf_package r = name) (pc_files s),
        pc_jobs := (pc_jobs s)\<lparr>js_jobs := delete_where (\<lambda>r. jb_package r = name) (js_jobs (pc_jobs s))\<rparr>,
        pc_vault := (pc_vault s)\<lparr>v_secrets := delete_where (\<lambda>r. sec_scope r = ScopePackage \<and> sec_package r = name) (v_secrets (pc_vault s))\<rparr>,
        pc_hooks := forget_package_hooks name (pc_hooks s),
        pc_providers := snd (unbind_package name (pc_providers s))\<rparr>)"

section \<open>Files read back\<close>

definition object_like :: "(string \<times> 'v) list \<Rightarrow> bool" where
  "object_like m = (distinct (map fst m) \<and> ''__proto__'' \<notin> set (map fst m))"


lemma object_like_put: "object_like m \<Longrightarrow> object_like (put_key k v m)"
  using set_map_set by (fastforce simp: object_like_def put_key_def distinct_map_set)

lemma object_like_own_order: "object_like m \<Longrightarrow> object_like (own_order m)"
  by (simp add: object_like_def distinct_own_order)


lemma input_files_object: "input_files es m = Inr files \<Longrightarrow> object_like m \<Longrightarrow> object_like files"
  by (induction es m rule: input_files.induct) (auto intro: object_like_put)




section \<open>Jobs of a package\<close>

definition wf_jobs :: "job_row list \<Rightarrow> bool" where
  "wf_jobs rows = (distinct (map jb_id rows) \<and>
     (\<forall>r\<in>set rows. jb_id r = job_id (jb_package r) (jb_name r) \<and> CHR ''#'' \<notin> set (jb_package r)))"

definition job_names :: "string \<Rightarrow> job_row list \<Rightarrow> string set" where
  "job_names p rows = jb_name ` set (filter (\<lambda>r. jb_package r = p) rows)"

lemma job_id_inject: "CHR ''#'' \<notin> set p \<Longrightarrow> CHR ''#'' \<notin> set q \<Longrightarrow> job_id p n = job_id q m \<longleftrightarrow> p = q \<and> n = m"
  using cut_eq [of "CHR ''#''" p q n m] by (simp add: job_id_def)

lemma filter_map_others:
  "(\<And>r. r \<in> set xs \<Longrightarrow> P r \<Longrightarrow> \<not> Q r \<and> \<not> Q (f r)) \<Longrightarrow> filter Q (map (\<lambda>r. if P r then f r else r) xs) = filter Q xs"
  by (induction xs) auto

lemma map_filter_keys:
  "(\<And>r. jb_package (g r) = jb_package r \<and> jb_name (g r) = jb_name r) \<Longrightarrow>
   map jb_name (filter (\<lambda>r. jb_package r = p) (map g xs)) = map jb_name (filter (\<lambda>r. jb_package r = p) xs)"
  by (induction xs) auto

lemma reconcile_job_rows:
  assumes "wf_jobs (js_jobs s)" "CHR ''#'' \<notin> set p" "reconcile_job Z p rows now e s = (x, s')"
  shows "wf_jobs (js_jobs s') \<and> filter (\<lambda>r. jb_package r \<noteq> p) (js_jobs s') = filter (\<lambda>r. jb_package r \<noteq> p) (js_jobs s)
    \<and> job_names p (js_jobs s') = (if is_ok x then insert (fst e) (job_names p (js_jobs s)) else job_names p (js_jobs s))"
proof -
  obtain n m where e: "e = (n, m)" by (cases e)
  show ?thesis
  proof (cases "next_of Z (mj_schedule m) now (mj_timezone m) (Option.bind (find (\<lambda>r. jb_name r = n) rows) jb_last_run)")
    case (Inl err)
    then show ?thesis using assms by (auto simp: reconcile_job_def e)
  next
    case (Inr next_at)
    define new :: job_row where "new = \<lparr>jb_id = job_id p n, jb_package = p, jb_name = n, jb_entry = mj_entry m,
            jb_schedule = mj_schedule m, jb_timezone = mj_timezone m, jb_description = mj_description m,
            jb_enabled = reconciled_enabled (find (\<lambda>r. jb_name r = n) rows) m, jb_next_run = next_at, jb_last_run = None, jb_last_status = None,
            jb_last_error = None, jb_created = now, jb_updated = now\<rparr>"
    define f where "f = (\<lambda>r :: job_row. r\<lparr>jb_entry := mj_entry m, jb_schedule := mj_schedule m, jb_timezone := mj_timezone m,
                  jb_description := mj_description m, jb_enabled := reconciled_enabled (find (\<lambda>r. jb_name r = n) rows) m,
                  jb_next_run := next_at, jb_updated := now\<rparr>)"
    have keep: "jb_id (f r) = jb_id r" "jb_package (f r) = jb_package r" "jb_name (f r) = jb_name r" for r :: job_row by (simp_all add: f_def)
    let ?P = "\<lambda>r. jb_id r = job_id p n"
    have s': "js_jobs s' = upsert ?P f new (js_jobs s)" "x = Inr ()"
      using assms(3) Inr by (auto simp: reconcile_job_def e new_def f_def Let_def)
    have match: "jb_package r = p \<and> jb_name r = n" if "r \<in> set (js_jobs s)" "?P r" for r
      using assms(1,2) that job_id_inject unfolding wf_jobs_def by metis
    have nw: "jb_id new = job_id p n" "jb_package new = p" "jb_name new = n" by (simp_all add: new_def)
    have d: "distinct (map jb_id (js_jobs s'))"
      unfolding s' by (rule distinct_upsert) (use assms(1) keep nw in \<open>simp_all add: wf_jobs_def\<close>)
    show ?thesis
    proof (cases "list_ex ?P (js_jobs s)")
      case True
      have rows: "js_jobs s' = map (\<lambda>r. if ?P r then f r else r) (js_jobs s)" unfolding s' using True by (simp add: upsert_def update_where_def)
      have "wf_jobs (js_jobs s')" using d assms(1) by (auto simp: wf_jobs_def rows keep)
      moreover have "filter (\<lambda>r. jb_package r \<noteq> p) (js_jobs s') = filter (\<lambda>r. jb_package r \<noteq> p) (js_jobs s)"
        unfolding rows by (rule filter_map_others) (use match keep(2) in simp)
      moreover have "job_names p (js_jobs s') = job_names p (js_jobs s)"
        unfolding job_names_def rows set_map [symmetric] by (rule arg_cong [where f = set], rule map_filter_keys) (simp add: keep)
      moreover have "n \<in> job_names p (js_jobs s)"
        using True match by (auto simp: list_ex_iff job_names_def)
      ultimately show ?thesis using s'(2) by (simp add: e insert_absorb)
    next
      case False
      then have rows: "js_jobs s' = js_jobs s @ [new]" unfolding s' by (simp add: upsert_def)
      have "wf_jobs (js_jobs s')" using d assms(1,2) nw by (auto simp: wf_jobs_def rows)
      moreover have "job_names p (js_jobs s') = insert n (job_names p (js_jobs s))" by (auto simp: job_names_def rows nw)
      ultimately show ?thesis using s'(2) by (simp add: e rows nw)
    qed
  qed
qed

lemma reconcile_entries_rows:
  "wf_jobs (js_jobs s) \<Longrightarrow> CHR ''#'' \<notin> set p \<Longrightarrow> reconcile_entries Z p rows now es s = (x, s') \<Longrightarrow>
   wf_jobs (js_jobs s') \<and> filter (\<lambda>r. jb_package r \<noteq> p) (js_jobs s') = filter (\<lambda>r. jb_package r \<noteq> p) (js_jobs s)
   \<and> job_names p (js_jobs s') \<subseteq> fst ` set es \<union> job_names p (js_jobs s)
   \<and> (is_ok x \<longrightarrow> job_names p (js_jobs s') = fst ` set es \<union> job_names p (js_jobs s))"
proof (induction es arbitrary: s)
  case (Cons e es)
  obtain y t where y: "reconcile_job Z p rows now e s = (y, t)" by fastforce
  note one = reconcile_job_rows [OF Cons.prems(1,2) y]
  show ?case
  proof (cases y)
    case (Inl err)
    then have "x = Inl err" "s' = t" using Cons.prems(3) y by simp_all
    then show ?thesis using one Inl by auto
  next
    case (Inr u)
    then have r: "reconcile_entries Z p rows now es t = (x, s')" using Cons.prems(3) y by simp
    note rest = Cons.IH [OF conjunct1 [OF one] Cons.prems(2) r]
    have "job_names p (js_jobs t) = insert (fst e) (job_names p (js_jobs s))" using one Inr by simp
    then show ?thesis using rest one by (simp add: insert_commute)
  qed
qed auto

lemma reconcile_jobs_rows:
  assumes "wf_jobs (js_jobs s)" "CHR ''#'' \<notin> set p" "reconcile_jobs Z p declared now s = (x, s')"
  shows "wf_jobs (js_jobs s')" "filter (\<lambda>r. jb_package r \<noteq> p) (js_jobs s') = filter (\<lambda>r. jb_package r \<noteq> p) (js_jobs s)"
    "job_names p (js_jobs s') \<subseteq> fst ` set declared" "is_ok x \<Longrightarrow> job_names p (js_jobs s') = fst ` set declared"
proof -
  let ?rows = "filter (\<lambda>r. jb_package r = p) (js_jobs s)"
  define gone where "gone = map jb_id (filter (\<lambda>r. jb_name r \<notin> fst ` set declared) ?rows)"
  define t where "t = s\<lparr>js_jobs := delete_where (\<lambda>r. jb_id r \<in> set gone) (js_jobs s)\<rparr>"
  have r: "reconcile_entries Z p ?rows now declared t = (x, s')"
    using assms(3) by (simp add: reconcile_jobs_def Let_def gone_def t_def)
  have same: "q = r" if "q \<in> set (js_jobs s)" "r \<in> set (js_jobs s)" "jb_id q = jb_id r" for q r
    using assms(1) that by (auto simp: wf_jobs_def distinct_map inj_on_def)
  have mem: "q \<in> set (js_jobs t) \<longleftrightarrow> q \<in> set (js_jobs s) \<and> \<not> (jb_package q = p \<and> jb_name q \<notin> fst ` set declared)" for q
    using same by (auto simp: t_def gone_def)
  have wf: "wf_jobs (js_jobs t)"
    using assms(1) by (auto simp: wf_jobs_def t_def distinct_delete_where)
  have others: "filter (\<lambda>r. jb_package r \<noteq> p) (js_jobs t) = filter (\<lambda>r. jb_package r \<noteq> p) (js_jobs s)"
    unfolding t_def delete_where_def using same by (auto simp: gone_def intro!: filter_cong)
  have names: "job_names p (js_jobs t) \<subseteq> fst ` set declared" by (auto simp: job_names_def mem)
  note e = reconcile_entries_rows [OF wf assms(2) r]
  show "wf_jobs (js_jobs s')" "filter (\<lambda>r. jb_package r \<noteq> p) (js_jobs s') = filter (\<lambda>r. jb_package r \<noteq> p) (js_jobs s)"
    "job_names p (js_jobs s') \<subseteq> fst ` set declared" "is_ok x \<Longrightarrow> job_names p (js_jobs s') = fst ` set declared"
    using e others names by auto
qed

lemma count_package_jobs:
  assumes "wf_jobs rows"
  shows "length (filter (\<lambda>r. jb_package r = p) rows) = card (job_names p rows)"
proof -
  let ?own = "filter (\<lambda>r. jb_package r = p) rows"
  have "distinct (map jb_name ?own)"
    using assms unfolding wf_jobs_def distinct_map inj_on_def by (auto simp: distinct_map)
  then have "length ?own = card (set (map jb_name ?own))" by (metis distinct_card length_map)
  also have "set (map jb_name ?own) = job_names p rows" by (simp add: job_names_def)
  finally show ?thesis .
qed

section \<open>Saved packages\<close>

lemma name_no_hash: "package_name_pattern t \<Longrightarrow> CHR ''#'' \<notin> set t"
proof (erule package_name_cases)
  have c: "name_segment w \<Longrightarrow> CHR ''#'' \<notin> set w" for w
    using name_segment_chars [of w] by (auto simp: list_all_iff name_rest_def name_start_def is_lower_def is_digit_def in_range_def unit_of_def)
  show ?thesis if "name_segment t" using c that .
  show ?thesis if "t = ''@'' @ s @ ''/'' @ n" "name_segment s" "name_segment n" for s n
    using c [OF that(2)] c [OF that(3)] that(1) by simp
qed

lemma check_package_Inr:
  assumes "check_package E inp clock s = Inr (files, m)"
  shows "object_like files" "parse_package_manifest (pe_compiler E) (pe_lexer E) files = Inr m"
    "packages_get (pm_name m) (pc_packages s) = None \<Longrightarrow> within_quota (pe_quotas E QPackages) (length (pc_packages s))"
    "pm_jobs m \<noteq> [] \<Longrightarrow> within_quota (pe_quotas E QJobs)
       (length (filter (\<lambda>r. jb_package r \<noteq> pm_name m) (js_jobs (pc_jobs s))) + length (pm_jobs m) - 1)"
proof -
  obtain fs where fs: "input_files (object_entries (pi_files inp)) [] = Inr fs" "files = own_order fs"
    using assms by (auto simp: check_package_def bind_res_Inr map_sum_Inr)
  have "object_like ([] :: package_files)" by (simp add: object_like_def)
  from input_files_object [OF fs(1) this] show "object_like files" unfolding fs(2) by (rule object_like_own_order)
  show "parse_package_manifest (pe_compiler E) (pe_lexer E) files = Inr m"
    "packages_get (pm_name m) (pc_packages s) = None \<Longrightarrow> within_quota (pe_quotas E QPackages) (length (pc_packages s))"
    "pm_jobs m \<noteq> [] \<Longrightarrow> within_quota (pe_quotas E QJobs)
       (length (filter (\<lambda>r. jb_package r \<noteq> pm_name m) (js_jobs (pc_jobs s))) + length (pm_jobs m) - 1)"
    using assms by (auto simp: check_package_def bind_res_Inr split: if_splits)
qed

lemma checked_name: "check_package E inp clock s = Inr (files, m) \<Longrightarrow> package_name_pattern (pm_name m)"
  using check_package_Inr(2) parse_package_manifest_Inr manifest_fields_good unfolding well_formed_manifest_def by metis

lemma package_save_Inr:
  assumes "package_save E inp clock now s = (Inr su, s')"
  obtains files js where "check_package E inp clock s = Inr (files, su_manifest su)"
    "reconcile_jobs (pe_calendar E) (pm_name (su_manifest su)) (pm_jobs (su_manifest su)) now (pc_jobs s) = (Inr (), js)"
    "su_name su = pm_name (su_manifest su)" "su_updated su = now"
    "su_created su = (case packages_get (pm_name (su_manifest su)) (pc_packages s) of Some r \<Rightarrow> pk_created r | None \<Rightarrow> now)"
    "s' = s\<lparr>pc_packages := put_package_row (su_manifest su) (su_source su) now (pc_packages s),
            pc_files := replace_package_files (pm_name (su_manifest su)) files (pc_files s), pc_jobs := js,
            pc_hooks := reconcile_webhooks (pm_name (su_manifest su)) (pm_webhooks (su_manifest su)) now (pc_hooks s),
            pc_providers := provider_after_save (su_manifest su) (pc_providers s)\<rparr>"
proof -
  obtain files m where c: "check_package E inp clock s = Inr (files, m)"
    using assms by (cases "check_package E inp clock s") (auto simp: package_save_def)
  obtain x js where r: "reconcile_jobs (pe_calendar E) (pm_name m) (pm_jobs m) now (pc_jobs s) = (x, js)" by fastforce
  have x: "x = Inr ()" using assms c r by (cases x) (simp_all add: package_save_def Let_def)
  show ?thesis
    by (rule that [of files js]) (use assms c r x in \<open>auto simp: package_save_def Let_def\<close>)
qed



section \<open>Deleted packages\<close>


lemma fold_unbind_grants:
  "ps_grants (fold (\<lambda>b t. snd (unbind (bd_provider b) t)) rows s) =
   delete_where (\<lambda>g. gr_provider g \<in> bd_provider ` set rows) (ps_grants s)"
  by (induction rows arbitrary: s) (auto simp: unbind_def invalidate_def delete_where_def intro!: filter_cong)




text \<open>A grant to a deleted package stays, unless the package served the granted provider itself; a later package of that
  name has it.\<close>

lemma grant_outlives_grantee:
  assumes "g \<in> set (ps_grants (pc_providers s))"
    "\<forall>b\<in>set (ps_bindings (pc_providers s)). bd_provider b = gr_provider g \<longrightarrow> bd_package b \<noteq> name"
  shows "g \<in> set (ps_grants (pc_providers (snd (package_delete name s))))"
  using assms by (auto simp: package_delete_def unbind_package_def Let_def fold_unbind_grants)

text \<open>A package that is saved again with another provider id keeps the binding of the old one.\<close>

lemma renamed_provider_keeps_binding: "pm_provider m = Some d \<Longrightarrow> ps_bindings (provider_after_save m p) = ps_bindings p"
  by (simp add: provider_after_save_def invalidate_def)

section \<open>Quotas\<close>

definition save_step :: "package_env \<Rightarrow> package_input \<times> time \<times> time \<Rightarrow> package_cell \<Rightarrow> package_cell" where
  "save_step E = (\<lambda>(inp, clock, now) s. snd (package_save E inp clock now s))"

lemma save_packages:
  "pc_packages (snd (package_save E inp clock now s)) = pc_packages s \<or>
   (\<exists>files m source. check_package E inp clock s = Inr (files, m) \<and>
      pc_packages (snd (package_save E inp clock now s)) = put_package_row m source now (pc_packages s))"
  by (cases "check_package E inp clock s") (auto simp: package_save_def Let_def split: prod.splits sum.splits)

lemma put_package_row_length:
  "length (put_package_row m source now rows) = (if packages_get (pm_name m) rows = None then Suc (length rows) else length rows)"
  by (auto simp: put_package_row_def length_upsert packages_get_def select_one_None_iff list_ex_iff)

interpretation package_quota: quota_guard "save_step E" "\<lambda>s. length (pc_packages s)" "\<lambda>_. pe_quotas E QPackages" for E
proof
  fix s :: package_cell and i :: "package_input \<times> time \<times> time"
  obtain inp clock now where i: "i = (inp, clock, now)" by (cases i)
  note rows = save_packages [of E inp clock now s]
  show "length (pc_packages (save_step E i s)) \<le> Suc (length (pc_packages s))"
    using rows by (auto simp: save_step_def i put_package_row_length)
  show "pe_quotas E QPackages = 0 \<or> length (pc_packages s) < pe_quotas E QPackages"
    if "length (pc_packages s) < length (pc_packages (save_step E i s))"
    using rows that check_package_Inr(3) by (fastforce simp: save_step_def i put_package_row_length within_quota_iff split: if_splits)
qed simp

text \<open>C37 (bounds). However many packages are saved, and whatever else of a save succeeds, a user has at most the quota of packages; and
  a save of a package with jobs that succeeds leaves at most the quota of jobs.\<close>

theorem packages_within_quota:
  assumes "pe_quotas E QPackages \<noteq> 0 \<Longrightarrow> length (pc_packages s) \<le> pe_quotas E QPackages" "wf_jobs (js_jobs (pc_jobs s))"
  shows "(pe_quotas E QPackages = 0 \<or> length (pc_packages (fold (save_step E) saves s)) \<le> pe_quotas E QPackages) \<and>
    (\<forall>inp clock now su s'. package_save E inp clock now s = (Inr su, s') \<longrightarrow> pm_jobs (su_manifest su) \<noteq> [] \<longrightarrow>
       pe_quotas E QJobs = 0 \<or> length (js_jobs (pc_jobs s')) \<le> pe_quotas E QJobs)"
proof -
  have jobs: "pe_quotas E QJobs = 0 \<or> length (js_jobs (pc_jobs s')) \<le> pe_quotas E QJobs"
    if save: "package_save E inp clock now s = (Inr su, s')" and j: "pm_jobs (su_manifest su) \<noteq> []" for inp clock now su s'
  proof -
    let ?m = "su_manifest su"
    obtain files js where c: "check_package E inp clock s = Inr (files, ?m)"
        "reconcile_jobs (pe_calendar E) (pm_name ?m) (pm_jobs ?m) now (pc_jobs s) = (Inr (), js)" "js = pc_jobs s'"
      by (rule package_save_Inr [OF save]) simp
    note rows = reconcile_jobs_rows [OF assms(2) name_no_hash [OF checked_name [OF c(1)]] c(2)]
    have "length (filter (\<lambda>r. jb_package r = pm_name ?m) (js_jobs js)) \<le> length (pm_jobs ?m)"
      unfolding count_package_jobs [OF rows(1)] using card_mono [OF _ rows(3)] card_image_le [of "set (pm_jobs ?m)" fst] card_length [of "pm_jobs ?m"]
      by fastforce
    moreover have "length (js_jobs js) = length (filter (\<lambda>r. jb_package r = pm_name ?m) (js_jobs js)) + length (filter (\<lambda>r. jb_package r \<noteq> pm_name ?m) (js_jobs js))"
      by (rule sum_length_filter_compl [symmetric])
    moreover have "within_quota (pe_quotas E QJobs) (length (filter (\<lambda>r. jb_package r \<noteq> pm_name ?m) (js_jobs (pc_jobs s))) + length (pm_jobs ?m) - 1)"
      by (rule check_package_Inr(4) [OF c(1) j])
    moreover have "0 < length (pm_jobs ?m)" using j by simp
    ultimately show ?thesis unfolding within_quota_iff rows(2) unfolding c(3) by (elim disjE) linarith+
  qed
  have "pe_quotas E QPackages = 0 \<or> length (pc_packages (fold (save_step E) saves s)) \<le> pe_quotas E QPackages"
    by (rule package_quota.puts_within) (use assms(1) in blast)
  then show ?thesis using jobs by blast
qed

section \<open>An example\<close>

definition job_compiler :: compiler where
  "job_compiler = sample_compiler\<lparr>cc_json := \<lambda>s. Some (JObj [(''name'', JStr ''p''), (''main'', JStr ''m.js''),
     (''kody'', JObj [(''jobs'', JObj [(''j'', JObj [(''entry'', JStr ''m.js''),
        (''schedule'', JObj [(''type'', JStr ''interval''), (''every'', JStr ''5m'')])])])])])\<rparr>"

definition sample_package_env :: package_env where
  "sample_package_env = \<lparr>pe_compiler = job_compiler, pe_lexer = sample_lexer, pe_calendar = first_day, pe_quotas = (\<lambda>q. 1)\<rparr>"

definition new_cell :: package_cell where
  "new_cell = \<lparr>pc_packages = [], pc_files = [], pc_jobs = \<lparr>js_jobs = [], js_runs = []\<rparr>,
     pc_hooks = \<lparr>ws_hooks = [], ws_deliveries = [], ws_rate = [], ws_ledger = []\<rparr>,
     pc_vault = \<lparr>v_user = None, v_secrets = [], v_hosts = []\<rparr>, pc_providers = no_providers\<rparr>"

definition sample_input :: package_input where
  "sample_input = \<lparr>pi_files = map (\<lambda>(p, t). (''./'' @ p, JStr t)) sample_files, pi_source = None\<rparr>"

definition saved_cell :: package_cell where
  "saved_cell = snd (package_save sample_package_env sample_input 0 7 new_cell)"

lemma sample_package_save:
  "is_ok (fst (package_save sample_package_env sample_input 0 7 new_cell))"
  by code_simp

lemma new_cell_ok: "wf_jobs (js_jobs (pc_jobs new_cell))" "length (pc_packages new_cell) \<le> pe_quotas sample_package_env QPackages"
  by (simp_all add: new_cell_def wf_jobs_def)

lemma sample_saved:
  obtains su where "package_save sample_package_env sample_input 0 7 new_cell = (Inr su, saved_cell)"
  using sample_package_save unfolding saved_cell_def by (metis is_okE prod.collapse)

lemma sample_summary:
  "map_sum id (\<lambda>su. (su_name su, map fst (pm_jobs (su_manifest su)))) (fst (package_save sample_package_env sample_input 0 7 new_cell)) = Inr (''p'', [''j''])"
  by code_simp


theorem packages_within_quota_witness:
  "length (pc_packages (fold (save_step sample_package_env) [(sample_input, 0, 7), (sample_input, 0, 8)] new_cell)) \<le> 1 \<and>
   length (js_jobs (pc_jobs saved_cell)) \<le> 1"
proof -
  obtain su where su: "package_save sample_package_env sample_input 0 7 new_cell = (Inr su, saved_cell)" by (rule sample_saved)
  have j: "pm_jobs (su_manifest su) \<noteq> []" using sample_summary su by auto
  have q: "pe_quotas sample_package_env x = 1" for x by (simp add: sample_package_env_def)
  note w = packages_within_quota [of sample_package_env new_cell "[(sample_input, 0, 7), (sample_input, 0, 8)]", OF new_cell_ok(2) new_cell_ok(1), unfolded q]
  have "length (js_jobs (pc_jobs saved_cell)) \<le> 1" using conjunct2 [OF w, rule_format, OF su j] by simp
  then show ?thesis using conjunct1 [OF w] by simp
qed


end
