(* ===== verification/Spec2Isabelle.thy ===== *)
theory Spec2Isabelle
  imports Gateway RpcErrors Authenticate Jobs Ingress Runs Blobs AppServe SourceFetch ModuleGraph UserPackages
begin

text \<open>
  A model of kody-celld, a self-hosted server that stores a user's packages, secrets and jobs and
  runs the packages' code in sandboxes. Each user has a cell (a durable object with an SQLite
  database, src/src/cells/user-cell.ts); a registry cell (src/src/cells/registry-cell.ts) knows
  the users, their credentials and the OAuth clients. Sandboxed code never sees a credential: it
  writes placeholders, and the fetch gateway puts the values in when the request leaves.

  How the parts fit together. An MCP client authenticates with a bearer token (Authenticate), which
  is an OAuth access token (OAuthStore, over OAuthProtocol) or an API token (Accounts). What the
  packages fetch goes through the Gateway, which reads placeholders (Placeholders), asks the vault
  (Secrets, over Keyring) or a secret provider (ProviderStore) for values, and checks the host
  (HostPolicy, HostAllowlist). Code runs because a client asks, because a job is due (Jobs, over
  Schedule) or because a provider delivers a webhook (Ingress, over Webhooks and WebhookVerify);
  every run is recorded and counted (Runs, with the arguments of its triage in RunTriage). Packages
  keep objects in the blob store (Blobs, over BlobKeys) and serve apps on origins of their own
  (AppServe, over AppUrl, AppTokens and AppOrigin). A package is installed from a source that is
  parsed and pinned to a commit (PackageSource) and fetched over an allow-listed web or cloned with
  git (SourceFetch, over Tar, GitPack and GitTree); its manifest is read (PackageManifest) and it is
  kept with its jobs, webhooks and secret provider (UserPackages). To run, the modules of the package
  and of the packages it imports become one graph (ModuleGraph), with the modules of npm that they
  name (NpmResolver, over NpmCache). Quotas says how much of all that a user
  may have, RpcErrors how an error crosses from a cell to its caller.

  Conventions.
    - Prelude: a KodyError is its code and its HTTP status; an operation that may throw returns
      \<open>error + value\<close>, and one that changes state also the new state, so every throw, early return
      and partial effect is a branch. A table is a list of rows in insertion order, and the few SQL
      statements the cells use are functions on it. Three interfaces are locales: a store whose
      operations keep an invariant, a store of tokens that are spent by presenting them, and a
      table guarded by a quota. Each is interpreted on the cells' own operations where they are
      defined.
    - JsString, JsValue: the JavaScript strings, regular expressions and numbers the code uses. A
      string is a list of UTF-16 units below 256; a finite number is a rational.
    - A time is a number of milliseconds. Clocks, random bytes, new ids, cryptographic primitives, the
      platform's URL parser, JSON and dates, the network and the execution of a package are
      arguments, so that a theorem holds whatever they answer. Where a theorem needs a law of one
      of them (decryption inverts encryption, a MAC does not collide on two payloads), the law is a
      named hypothesis of it.

  The theories, with the code they model and what their theorems say.
    - Quotas (src/src/lib/limits.ts): limits and quotas from the environment and per-user overrides.
    - Keyring (src/src/lib/crypto.ts): the ring of master keys, sealing and opening of values; a
      value that was sealed under any configured key opens.
    - Secrets (user-cell.ts, secret*): save, list, delete, host approvals, resolution, rotation of
      the master key. A resolution reads only secrets visible to the calling package, a saved
      value resolves to itself, a rotation re-seals every row and changes no value.
    - ProviderStore (src/src/secrets/provider-store.ts): which package serves a provider, what other
      packages may ask it, and the cache. A locked provider answers only granted references.
    - Placeholders, HostPolicy, HostAllowlist, Gateway (src/src/secrets/, src/src/lib/host-allowlist.ts):
      the outbound pipeline. A request with placeholders leaves only over a safe transport to an
      approved host; a refused request never leaves.
    - OAuthProtocol, OAuthStore (src/src/oauth/): registration, authorization requests, codes, grants,
      rotating refresh tokens. A code works once, for its client, with its verifier; reusing a
      rotated refresh token ends its family; a revoked grant leaves nothing usable.
    - Accounts, Authenticate (registry-cell.ts, src/src/auth/): users, API tokens, passwords with a
      lock, sign-in links, sessions, hand-off ids, inbox names, audit log.
    - Schedule, Jobs (src/src/jobs/, user-cell.ts, job*): intervals and cron expressions, claiming and
      running due jobs. A slot is claimed once, each due job runs once per dispatch, and a next
      run is the first matching instant. A cron scan looks at most 400 days ahead, as the code does;
      the calendar of a time zone is an argument.
    - WebhookVerify, Webhooks, Ingress (src/src/webhooks/, user-cell.ts, webhook*): URL secrets and their
      rotation, rate limit, signatures, the delivery and idempotency ledgers, and the whole HTTP
      handler. A delivery runs only if every check the declaration asks for passed.
    - RunTriage, Runs (src/src/runs/, user-cell.ts, run* and usage*): the history of runs, daily usage,
      retention, bulk triage (which always gets done), and the resolution of a job's earlier errors
      by a later success.
    - AppUrl, AppTokens, AppOrigin, AppServe (src/src/apps/, handleAppRequest of src/src/index.ts): the
      origin of an app, its signed links and session cookies, the origins that may call it, and the
      handler. A private app is served to its owner only, and Kody's own cookies stay out of it.
    - PackagePaths, GitPack, GitTree, Tar, PackageSource, SourceFetch (src/src/packages/, the functions
      of install.ts, git-smart-http.ts and tar.ts): how a source is written and pinned, the pack format
      and the walk of a commit's tree, archives, and the requests that fetch them. What is fetched at a
      pin is what the commit names, and no request leaves the allowed hosts.
    - ModulePaths, Transpile (import-specifiers.ts, strip-types.ts and the path functions of
      module-graph.ts in src/src/execute/): paths and specifiers of modules, their replacement in a
      source, which files are modules and how they are compiled. Worklist is the breadth-first walk
      that the manifest and the module graph share.
    - PackageManifest (src/src/packages/manifest.ts): every field of a package.json. What is accepted
      names only files of the package, and every import that its entries reach can be resolved.
    - UserPackages (package* of user-cell.ts, src/src/packages/package-files-store.ts): saving, reading and
      deleting a package together with its jobs, webhooks and provider. What was saved reads back, what
      was deleted leaves nothing of its own, and the quota of packages and jobs is kept.
    - NpmCache, NpmResolver (npm-config.ts, npm-cache-store.ts, npm-resolver.ts): the modules fetched
      from the CDN and their cache. A resolution makes at most 40 requests, and the cache keeps its limit.
    - ModuleGraph (src/src/execute/module-graph.ts): the modules of a run. A graph is built or refused, the
      check of reachable imports is exact, and the entry of a secret provider is neither the entry of an
      unsealed run nor, once it is registered, the target of a rewritten import.
    - BlobKeys, Blobs (src/src/blobs/, user-cell.ts, blob*, handleSignedBlob of src/src/index.ts): keys,
      links, index, paging, quotas. Index and bucket together refine a map from keys to bodies.

  Bounds and fuel. Loops of the code are structural recursion over the rows or the characters they
  visit. Five have fuel: a catch-up over missed intervals, which \<open>catch_up_loop_ends\<close> proves to end, and
  the client of a paged listing, for which \<open>listing_complete\<close> proves that one page more than there
  are rows is enough; the walk of a git tree, whose fuel is the depth the code allows; the packages that a module graph
  includes, where \<open>graph_is_built\<close> proves that one more than there are saved packages is enough; and the records of an
  extended tar header, where \<open>tar_may_not_end\<close> shows input on which the code's loop never ends and
  \<open>tar_reads_back\<close> that the length of the archive is enough for what a writer produces.

  Concurrency. A cell handles one request at a time between awaits. Where an operation awaits in its
  middle and a theorem depends on it, the model has the two halves: the key derivation of a
  sign-in, the reservation of a blob, the resolution of a provider reference.

  Not modelled. HTML, styling and the browser client (src/client/, src/universal/, src/src/web/), which
  hold no state of their own; the texts of error messages; SQL itself, schema migrations and the
  platform (durable objects, R2, WebCrypto, Worker Loader); the smoke tests and tools. Left for
  later: integrations (src/src/integrations/store.ts, connect.ts), remote MCP servers
  (src/src/mcp-client/), the community store and previews (src/src/packages/community-store.ts,
  fetched-package-cache.ts, preview-source.ts), email (src/src/email/), memory, the engine that runs a
  module graph (src/src/execute/engine.ts), the S3 adapter of the blob store, AI and browser providers.
\<close>

end
